(* ===== verification/Prelude.thy ===== *)
theory Prelude
  imports
    Main
    "HOL-Library.Word"
    "HOL-Library.FSet"
    "HOL-Library.Finite_Map"
    "HOL-Library.Sublist"
    "HOL-Library.Char_ord"
    "HOL-Library.List_Lexorder"
    "HOL-Library.Product_Lexorder"
begin

section \<open>Shared vocabulary of the development\<close>

text \<open>
  What every component theory uses of Rust and of its standard library:
  \<^item> \<open>u64\<close> and \<open>u32\<close> as machine words with the saturating and checked operations the code
    calls, each related to \<^const>\<open>unat\<close> in the collection \<open>u64_simps\<close>;
  \<^item> \<open>str\<close> as the list of its UTF-8 bytes (\<open>str::len\<close> counts bytes), with ASCII classes,
    \<open>split\<close>, \<open>starts_with\<close>, \<open>trim\<close>, \<open>is_char_boundary\<close> and the decoding into scalar
    values that \<open>str::chars\<close> performs;
  \<^item> \<open>BTreeMap\<close> as a finite map and \<open>BTreeSet\<close> as a finite set, whose iteration order is the
    ascending order of the keys (\<^const>\<open>sorted_list_of_fmap\<close>, \<^const>\<open>sorted_list_of_fset\<close>);
  \<^item> \<open>Result\<close> as a sum type with the early return of the \<open>?\<close> operator; the collection \<open>ok_simps\<close>
    turns a chain of guards that succeeded into the conjunction of what they checked;
  \<^item> the \<open>while buffer.len() >= capacity\<close> loop of the bounded journals.
\<close>

named_theorems u64_simps \<open>machine words read through unat\<close>
named_theorems str_simps \<open>predicates on byte strings\<close>
named_theorems ok_simps \<open>when a chain of early returns reaches its last line\<close>

subsection \<open>Machine integers\<close>

type_synonym u64 = "64 word"
type_synonym u32 = "32 word"

text \<open>\<open>u64::saturating_add\<close>, \<open>saturating_sub\<close>, \<open>checked_add\<close> and \<open>checked_sub\<close>.\<close>

definition sat_add :: "u64 \<Rightarrow> u64 \<Rightarrow> u64" where
  "sat_add a b = (if unat a + unat b < 2 ^ 64 then a + b else -1)"

definition sat_sub :: "u64 \<Rightarrow> u64 \<Rightarrow> u64" where
  "sat_sub a b = (if b \<le> a then a - b else 0)"

definition checked_add :: "u64 \<Rightarrow> u64 \<Rightarrow> u64 option" where
  "checked_add a b = (if unat a + unat b < 2 ^ 64 then Some (a + b) else None)"

definition checked_sub :: "u64 \<Rightarrow> u64 \<Rightarrow> u64 option" where
  "checked_sub a b = (if b \<le> a then Some (a - b) else None)"

lemma unat_u64_less [simp]: "unat (a :: u64) < 18446744073709551616"
  using unsigned_less [of a, where ?'a = nat] by simp

lemma unat_u64_le [simp]: "unat (a :: u64) \<le> 18446744073709551615"
  using unat_u64_less [of a] by linarith

lemma unat_u64_max [u64_simps]: "unat (-1 :: u64) = 18446744073709551615"
  by (simp add: unsigned_minus_1_eq_mask mask_eq_exp_minus_1)

lemma unat_sat_add [u64_simps]:
  "unat (sat_add a b) = min (unat a + unat b) 18446744073709551615"
  by (auto simp: sat_add_def unat_u64_max unat_word_ariths)

lemma unat_sat_sub [u64_simps]: "unat (sat_sub a b) = unat a - unat b"
  by (auto simp: sat_sub_def unat_sub word_le_nat_alt)

lemma checked_add_eq_Some [u64_simps]:
  "checked_add a b = Some c \<longleftrightarrow> unat c = unat a + unat b"
proof
  assume "checked_add a b = Some c"
  then show "unat c = unat a + unat b"
    by (auto simp: checked_add_def unat_word_ariths split: if_splits)
next
  assume c: "unat c = unat a + unat b"
  then have "unat a + unat b < 2 ^ 64" using unat_u64_less [of c] by simp
  moreover from this c have "c = a + b"
    by (intro word_unat_eq_iff [THEN iffD2]) (simp add: unat_word_ariths)
  ultimately show "checked_add a b = Some c" by (simp add: checked_add_def)
qed

lemma checked_sub_eq_Some [u64_simps]:
  "checked_sub a b = Some c \<longleftrightarrow> unat b \<le> unat a \<and> unat c = unat a - unat b"
proof
  assume "checked_sub a b = Some c"
  then show "unat b \<le> unat a \<and> unat c = unat a - unat b"
    by (auto simp: checked_sub_def unat_sub word_le_nat_alt split: if_splits)
next
  assume c: "unat b \<le> unat a \<and> unat c = unat a - unat b"
  then have "b \<le> a" by (simp add: word_le_nat_alt)
  with c have "c = a - b"
    by (intro word_unat_eq_iff [THEN iffD2]) (simp add: unat_sub)
  with \<open>b \<le> a\<close> show "checked_sub a b = Some c" by (simp add: checked_sub_def)
qed

lemma unat_of_nat_u64: "n < 2 ^ 64 \<Longrightarrow> unat (of_nat n :: u64) = n"
  by (simp add: unsigned_of_nat take_bit_nat_eq_self)

lemma of_nat_unat_u64 [simp]: "of_nat (unat w) = (w :: u64)"
  by (simp add: word_unat_eq_iff unat_of_nat_u64)

lemmas [u64_simps] = word_le_nat_alt word_less_nat_alt word_unat_eq_iff

subsection \<open>Results\<close>

text \<open>\<open>Result<T, E>\<close> is \<open>E + T\<close>; \<open>res_bind\<close> is the \<open>?\<close> operator followed by the rest.\<close>

definition res_bind :: "'e + 'a \<Rightarrow> ('a \<Rightarrow> 'e + 'b) \<Rightarrow> 'e + 'b" where
  "res_bind r f = (case r of Inl e \<Rightarrow> Inl e | Inr a \<Rightarrow> f a)"

definition is_ok :: "'e + 'a \<Rightarrow> bool" where
  "is_ok r = (case r of Inl _ \<Rightarrow> False | Inr _ \<Rightarrow> True)"

lemma res_bind_simps [simp]:
  "res_bind (Inl e) f = Inl e" "res_bind (Inr a) f = f a"
  by (simp_all add: res_bind_def)

lemma is_ok_simps [simp]: "is_ok (Inl e) = False" "is_ok (Inr a) = True"
  by (simp_all add: is_ok_def)

lemma res_bind_eq_Inr [simp]:
  "res_bind r f = Inr b \<longleftrightarrow> (\<exists>a. r = Inr a \<and> f a = Inr b)"
  by (cases r) auto

lemma res_bind_eq_Inl:
  "res_bind r f = Inl e \<longleftrightarrow> r = Inl e \<or> (\<exists>a. r = Inr a \<and> f a = Inl e)"
  by (cases r) auto

lemma early_returns_ok [ok_simps]:
  "(if P then Inl e else r) = Inr b \<longleftrightarrow> \<not> P \<and> r = Inr b"
  "(case x of None \<Rightarrow> Inl e | Some y \<Rightarrow> f y) = Inr b \<longleftrightarrow> (\<exists>y. x = Some y \<and> f y = Inr b)"
  "(case r' of Inl e' \<Rightarrow> Inl (h e') | Inr y \<Rightarrow> f' y) = Inr b \<longleftrightarrow> (\<exists>y. r' = Inr y \<and> f' y = Inr b)"
  by (auto split: option.splits sum.splits)

text \<open>A loop that returns early with the first error its body produces.\<close>

fun res_fold :: "('a \<Rightarrow> 's \<Rightarrow> 'e + 's) \<Rightarrow> 'a list \<Rightarrow> 's \<Rightarrow> 'e + 's" where
  "res_fold f [] s = Inr s"
| "res_fold f (x # xs) s = res_bind (f x s) (res_fold f xs)"

lemma res_fold_append:
  "res_fold f (xs @ ys) s = res_bind (res_fold f xs s) (res_fold f ys)"
  by (induction xs arbitrary: s) (auto simp: res_bind_def split: sum.splits)

lemma res_fold_invariant:
  assumes "res_fold f xs s = Inr t" and "P s"
    and step: "\<And>x s t. x \<in> set xs \<Longrightarrow> P s \<Longrightarrow> f x s = Inr t \<Longrightarrow> P t"
  shows "P t"
  using assms
proof (induction xs arbitrary: s)
  case Nil
  then show ?case by simp
next
  case (Cons x xs)
  from Cons.prems(1) obtain u where u: "f x s = Inr u" "res_fold f xs u = Inr t"
    by auto
  have "P u" using Cons.prems(2) Cons.prems(3) u(1) by (meson list.set_intros(1))
  with u(2) show ?case
    using Cons.IH Cons.prems(3) by (meson list.set_intros(2))
qed

text \<open>A loop that only checks its elements.\<close>

definition res_check :: "('a \<Rightarrow> 'e + unit) \<Rightarrow> 'a list \<Rightarrow> 'e + unit" where
  "res_check f xs = res_fold (\<lambda>x _. f x) xs ()"

lemma res_check_simps [simp]:
  "res_check f [] = Inr ()"
  "res_check f (x # xs) = res_bind (f x) (\<lambda>_. res_check f xs)"
  by (simp_all add: res_check_def res_bind_def split: sum.splits)

lemma res_check_ok_iff: "res_check f xs = Inr () \<longleftrightarrow> (\<forall>x\<in>set xs. f x = Inr ())"
  by (induction xs) auto

subsection \<open>Byte strings\<close>

type_synonym str = string

definition is_ascii_lowercase :: "char \<Rightarrow> bool" where
  "is_ascii_lowercase c \<longleftrightarrow> 97 \<le> (of_char c :: nat) \<and> (of_char c :: nat) \<le> 122"

definition is_ascii_uppercase :: "char \<Rightarrow> bool" where
  "is_ascii_uppercase c \<longleftrightarrow> 65 \<le> (of_char c :: nat) \<and> (of_char c :: nat) \<le> 90"

definition is_ascii_digit :: "char \<Rightarrow> bool" where
  "is_ascii_digit c \<longleftrightarrow> 48 \<le> (of_char c :: nat) \<and> (of_char c :: nat) \<le> 57"

definition to_ascii_lower :: "char \<Rightarrow> char" where
  "to_ascii_lower c = (if is_ascii_uppercase c then char_of ((of_char c :: nat) + 32) else c)"

definition to_ascii_lowercase :: "str \<Rightarrow> str" where
  "to_ascii_lowercase s = map to_ascii_lower s"

lemmas ascii_defs = is_ascii_lowercase_def is_ascii_uppercase_def is_ascii_digit_def
  to_ascii_lower_def

text \<open>\<open>str::starts_with\<close> and \<open>str::split\<close> on one byte; the latter never yields an empty list.\<close>

definition starts_with :: "str \<Rightarrow> str \<Rightarrow> bool" where
  "starts_with s p = prefix p s"

fun split_on :: "char \<Rightarrow> str \<Rightarrow> str list" where
  "split_on d [] = [[]]"
| "split_on d (c # s) =
     (if c = d then [] # split_on d s
      else (case split_on d s of [] \<Rightarrow> [[c]] | p # ps \<Rightarrow> (c # p) # ps))"

lemma split_on_not_Nil [simp]: "split_on d s \<noteq> []"
  by (induction s) (auto split: list.splits)

lemma split_on_all:
  "(\<forall>p\<in>set (split_on d s). \<forall>c\<in>set p. P c) \<longleftrightarrow> (\<forall>c\<in>set s. c \<noteq> d \<longrightarrow> P c)"
proof (induction s)
  case Nil
  then show ?case by simp
next
  case (Cons c s)
  then show ?case by (cases "split_on d s") auto
qed

lemma split_on_line: "d \<notin> set l \<Longrightarrow> split_on d (l @ d # s) = l # split_on d s"
  by (induction l) auto

lemma split_on_none: "d \<notin> set l \<Longrightarrow> split_on d l = [l]"
  by (induction l) auto

lemma split_on_singleD: "split_on d s = [p] \<Longrightarrow> s = p"
  by (induction s arbitrary: p) (auto split: if_splits list.splits)

lemma split_on_ConsD: "split_on d s = p # q # ps \<Longrightarrow> \<exists>s'. s = p @ d # s' \<and> split_on d s' = q # ps"
proof (induction s arbitrary: p)
  case Nil
  then show ?case by simp
next
  case (Cons c s)
  show ?case
  proof (cases "c = d")
    case True
    with Cons.prems show ?thesis by auto
  next
    case False
    with Cons.prems obtain p' where p': "p = c # p'" "split_on d s = p' # q # ps"
      by (auto split: list.splits)
    with Cons.IH [OF p'(2)] show ?thesis by auto
  qed
qed

text \<open>A dot-separated name: every segment non-empty and made of bytes the class admits.\<close>

definition dotted_name :: "(char \<Rightarrow> bool) \<Rightarrow> str \<Rightarrow> bool" where
  "dotted_name P s = list_all (\<lambda>seg. seg \<noteq> [] \<and> list_all P seg) (split_on (CHR ''.'') s)"

definition is_name_byte :: "char \<Rightarrow> bool" where
  "is_name_byte b \<longleftrightarrow> is_ascii_lowercase b \<or> is_ascii_digit b \<or> b = CHR ''_''"

lemma dotted_name_bytes:
  "dotted_name P s \<Longrightarrow> c \<in> set s \<Longrightarrow> P c \<or> c = CHR ''.''"
  using split_on_all [of "CHR ''.''" s P] by (auto simp: dotted_name_def list_all_iff)

lemma dotted_name_not_Nil: "dotted_name P s \<Longrightarrow> s \<noteq> []"
  by (auto simp: dotted_name_def)

text \<open>The decimal rendering of an integer in \<open>format!\<close>.\<close>

fun show_nat :: "nat \<Rightarrow> str" where
  "show_nat n =
     (if n < 10 then [char_of (48 + n)] else show_nat (n div 10) @ [char_of (48 + n mod 10)])"

declare show_nat.simps [simp del]

text \<open>\<open>str::is_char_boundary\<close> and the truncation to the last boundary not after \<open>n\<close>.\<close>

definition is_char_boundary :: "str \<Rightarrow> nat \<Rightarrow> bool" where
  "is_char_boundary s i \<longleftrightarrow>
     i = 0 \<or> i = length s \<or>
     (i < length s \<and> ((of_char (s ! i) :: nat) < 128 \<or> 192 \<le> (of_char (s ! i) :: nat)))"

fun boundary_before :: "str \<Rightarrow> nat \<Rightarrow> nat" where
  "boundary_before s 0 = 0"
| "boundary_before s (Suc i) = (if is_char_boundary s (Suc i) then Suc i else boundary_before s i)"

lemma boundary_before_le: "boundary_before s i \<le> i"
  by (induction i) (auto intro: le_SucI)

lemma boundary_before_boundary: "is_char_boundary s (boundary_before s i)"
  by (induction i) (auto simp: is_char_boundary_def)

text \<open>\<open>str::chars\<close>: the scalar values a well-formed UTF-8 byte string encodes.\<close>

fun utf8_chars :: "str \<Rightarrow> nat list" where
  "utf8_chars [] = []"
| "utf8_chars [a] = [of_char a]"
| "utf8_chars [a, b] =
     (if (of_char a :: nat) < 192 then of_char a # utf8_chars [b]
      else [(of_char a mod 32) * 64 + of_char b mod 64])"
| "utf8_chars [a, b, c] =
     (if (of_char a :: nat) < 192 then of_char a # utf8_chars [b, c]
      else if (of_char a :: nat) < 224 then
        ((of_char a mod 32) * 64 + of_char b mod 64) # utf8_chars [c]
      else [(of_char a mod 16) * 4096 + (of_char b mod 64) * 64 + of_char c mod 64])"
| "utf8_chars (a # b # c # d # s) =
     (if (of_char a :: nat) < 192 then of_char a # utf8_chars (b # c # d # s)
      else if (of_char a :: nat) < 224 then
        ((of_char a mod 32) * 64 + of_char b mod 64) # utf8_chars (c # d # s)
      else if (of_char a :: nat) < 240 then
        ((of_char a mod 16) * 4096 + (of_char b mod 64) * 64 + of_char c mod 64)
          # utf8_chars (d # s)
      else ((of_char a mod 8) * 262144 + (of_char b mod 64) * 4096
              + (of_char c mod 64) * 64 + of_char d mod 64) # utf8_chars s)"

definition utf8_encode :: "nat \<Rightarrow> str" where
  "utf8_encode n =
     (if n < 128 then [char_of n]
      else if n < 2048 then [char_of (192 + n div 64), char_of (128 + n mod 64)]
      else if n < 65536 then
        [char_of (224 + n div 4096), char_of (128 + n div 64 mod 64), char_of (128 + n mod 64)]
      else [char_of (240 + n div 262144), char_of (128 + n div 4096 mod 64),
            char_of (128 + n div 64 mod 64), char_of (128 + n mod 64)])"

definition utf8_string :: "nat list \<Rightarrow> str" where
  "utf8_string cs = concat (map utf8_encode cs)"

definition is_ascii_str :: "str \<Rightarrow> bool" where
  "is_ascii_str s = list_all (\<lambda>c. (of_char c :: nat) < 128) s"

lemma is_ascii_str_Cons [simp]:
  "is_ascii_str (c # s) \<longleftrightarrow> (of_char c :: nat) < 128 \<and> is_ascii_str s" "is_ascii_str []"
  by (simp_all add: is_ascii_str_def)

lemma utf8_chars_ascii [str_simps]: "is_ascii_str s \<Longrightarrow> utf8_chars s = map of_char s"
  by (induction s rule: utf8_chars.induct) auto

lemma utf8_string_ascii [str_simps]: "is_ascii_str s \<Longrightarrow> utf8_string (map of_char s) = s"
  by (induction s) (auto simp: utf8_string_def utf8_encode_def)

text \<open>\<open>char::is_whitespace\<close> (the Unicode property White\_Space), \<open>char::is_control\<close> (the
  general category Cc) and \<open>str::trim\<close>.\<close>

definition is_whitespace :: "nat \<Rightarrow> bool" where
  "is_whitespace n \<longleftrightarrow>
     (9 \<le> n \<and> n \<le> 13) \<or> n = 32 \<or> n = 133 \<or> n = 160 \<or> n = 5760 \<or>
     (8192 \<le> n \<and> n \<le> 8202) \<or> n = 8232 \<or> n = 8233 \<or> n = 8239 \<or> n = 8287 \<or> n = 12288"

definition is_control :: "nat \<Rightarrow> bool" where
  "is_control n \<longleftrightarrow> n < 32 \<or> (127 \<le> n \<and> n \<le> 159)"

definition trim :: "str \<Rightarrow> str" where
  "trim s = utf8_string (rev (dropWhile is_whitespace
              (rev (dropWhile is_whitespace (utf8_chars s)))))"

lemma trim_ascii_id:
  assumes "is_ascii_str s" and "\<forall>c\<in>set s. \<not> is_whitespace (of_char c)"
  shows "trim s = s"
proof -
  have *: "dropWhile is_whitespace xs = xs" if "\<forall>n\<in>set xs. \<not> is_whitespace n" for xs
    using that by (cases xs) auto
  show ?thesis using assms by (simp add: trim_def str_simps *)
qed

text \<open>A \<open>serde_json\<close> codec for one type, a parameter of every definition that uses one: the parser and
  the printer, each with the text of its error.\<close>

record 'a json_codec =
  from_slice :: "str \<Rightarrow> str + 'a"
  to_vec :: "'a \<Rightarrow> str + str"

subsection \<open>Length-framed hashing\<close>

text \<open>
  \<open>u64::to_be_bytes\<close>, the framing \<open>len as u64, bytes\<close> of every digest in the product, and the
  lowercase hexadecimal rendering of a digest. The hash function itself (the crate \<open>sha2\<close>) is a
  parameter of every definition that uses it.
\<close>

definition be64 :: "nat \<Rightarrow> str" where
  "be64 n =
     map (\<lambda>i. char_of (n div 256 ^ i mod 256)) [7, 6, 5, 4, 3, 2, 1, 0]"

definition framed :: "str list \<Rightarrow> str" where
  "framed parts = concat (map (\<lambda>f. be64 (length f) @ f) parts)"

definition hex_digit :: "nat \<Rightarrow> char" where
  "hex_digit n = (if n < 10 then char_of (48 + n) else char_of (87 + n))"

definition hex :: "str \<Rightarrow> str" where
  "hex bytes =
     concat (map (\<lambda>b. [hex_digit (of_char b div 16), hex_digit (of_char b mod 16)]) bytes)"

lemma length_be64 [simp]: "length (be64 n) = 8"
  by (simp add: be64_def)

lemma of_char_bound [simp]: "(of_char c :: nat) < 256"
proof -
  have "(of_char c :: nat) = of_char c mod 256"
    using of_char_of [of "of_char c :: nat"] by simp
  also have "\<dots> < 256" by simp
  finally show ?thesis .
qed

lemma of_char_div_16 [simp]: "(of_char c :: nat) div 16 < 16"
  using of_char_bound [of c] by (simp add: div_less_iff_less_mult)

lemma mod_256_power_eqI:
  fixes m n :: nat
  assumes "\<And>i. i < k \<Longrightarrow> m div 256 ^ i mod 256 = n div 256 ^ i mod 256"
  shows "m mod 256 ^ k = n mod 256 ^ k"
  using assms
proof (induction k)
  case 0
  then show ?case by simp
next
  case (Suc k)
  then have "m mod 256 ^ k = n mod 256 ^ k" "m div 256 ^ k mod 256 = n div 256 ^ k mod 256"
    by simp_all
  then show ?case
    using mod_mult2_eq [of m "256 ^ k" 256] mod_mult2_eq [of n "256 ^ k" 256]
    by (simp add: mult.commute)
qed

lemma be64_inj:
  assumes "m < 2 ^ 64" "n < 2 ^ 64" "be64 m = be64 n"
  shows "m = n"
proof -
  have "m div 256 ^ i mod 256 = n div 256 ^ i mod 256" if "i < 8" for i
  proof -
    have "i \<in> set [7, 6, 5, 4, 3, 2, 1, 0]" using that by auto
    with assms(3) have "(char_of (m div 256 ^ i mod 256) :: char) = char_of (n div 256 ^ i mod 256)"
      unfolding be64_def map_eq_conv by blast
    then have "(of_char (char_of (m div 256 ^ i mod 256) :: char) :: nat) =
        of_char (char_of (n div 256 ^ i mod 256) :: char)"
      by (simp only:)
    then show ?thesis by (simp only: of_char_of mod_mod_trivial)
  qed
  then have "m mod 256 ^ 8 = n mod 256 ^ 8" by (rule mod_256_power_eqI)
  moreover have "(256 :: nat) ^ 8 = 2 ^ 64" by simp
  ultimately have "m mod 2 ^ 64 = n mod 2 ^ 64" by (simp only:)
  with assms(1,2) show ?thesis by (simp only: mod_less)
qed

lemma framed_inj:
  assumes "length xs = length ys" and "framed xs = framed ys"
    and "\<forall>f\<in>set xs \<union> set ys. length f < 2 ^ 64"
  shows "xs = ys"
  using assms
proof (induction xs ys rule: list_induct2)
  case Nil
  then show ?case by simp
next
  case (Cons x xs y ys)
  from Cons.prems(1) have eq: "be64 (length x) @ x @ framed xs = be64 (length y) @ y @ framed ys"
    by (simp add: framed_def)
  then have "be64 (length x) = be64 (length y)" by (simp add: append_eq_append_conv)
  with Cons.prems(2) have "length x = length y" by (intro be64_inj) auto
  with eq have "x = y" "framed xs = framed ys" by (simp_all add: append_eq_append_conv)
  with Cons show ?case by auto
qed

lemma hex_digit_inj: "m < 16 \<Longrightarrow> n < 16 \<Longrightarrow> hex_digit m = hex_digit n \<Longrightarrow> m = n"
  by (auto simp: hex_digit_def dest!: arg_cong [where f = "of_char :: char \<Rightarrow> nat"]
      split: if_splits)

lemma hex_inj: "hex a = hex b \<longleftrightarrow> a = b"
proof
  show "hex a = hex b \<Longrightarrow> a = b"
  proof (induction a arbitrary: b)
    case Nil
    then show ?case by (cases b) (simp_all add: hex_def)
  next
    case (Cons x a)
    then obtain y b' where b: "b = y # b'" by (cases b) (auto simp: hex_def)
    from Cons.prems b have "hex_digit (of_char x div 16) = hex_digit (of_char y div 16)"
      "hex_digit (of_char x mod 16) = hex_digit (of_char y mod 16)" "hex a = hex b'"
      by (simp_all add: hex_def)
    then have "(of_char x :: nat) div 16 = of_char y div 16" "(of_char x :: nat) mod 16 = of_char y mod 16"
      "a = b'"
      by (auto intro!: hex_digit_inj Cons.IH)
    then have "(of_char x :: nat) = of_char y"
      by (metis div_mult_mod_eq)
    then show ?case using b \<open>a = b'\<close> by simp
  qed
qed simp

lemma length_hex [simp]: "length (hex bytes) = 2 * length bytes"
  by (induction bytes) (simp_all add: hex_def)

definition is_hex_byte :: "char \<Rightarrow> bool" where
  "is_hex_byte b \<longleftrightarrow>
     (48 \<le> (of_char b :: nat) \<and> (of_char b :: nat) \<le> 57) \<or>
     (97 \<le> (of_char b :: nat) \<and> (of_char b :: nat) \<le> 102)"

lemma hex_digit_byte: "n < 16 \<Longrightarrow> is_hex_byte (hex_digit n)"
  by (auto simp: is_hex_byte_def hex_digit_def)

lemma hex_bytes: "c \<in> set (hex bytes) \<Longrightarrow> is_hex_byte c"
  by (induction bytes) (auto simp: hex_def intro!: hex_digit_byte)

subsection \<open>Finite maps and sets in key order\<close>

abbreviation fmcontains :: "('k, 'v) fmap \<Rightarrow> 'k \<Rightarrow> bool" where
  "fmcontains m k \<equiv> k |\<in>| fmdom m"

abbreviation fmlen :: "('k, 'v) fmap \<Rightarrow> nat" where
  "fmlen m \<equiv> fcard (fmdom m)"

definition fmget_or :: "('k, 'v) fmap \<Rightarrow> 'k \<Rightarrow> 'v \<Rightarrow> 'v" where
  "fmget_or m k v = (case fmlookup m k of Some w \<Rightarrow> w | None \<Rightarrow> v)"

lemma fmget_or_simps [simp]:
  "fmlookup m k = Some w \<Longrightarrow> fmget_or m k v = w"
  "fmlookup m k = None \<Longrightarrow> fmget_or m k v = v"
  by (simp_all add: fmget_or_def)

lemma fmget_or_upd [simp]:
  "fmget_or (fmupd k w m) k' v = (if k = k' then w else fmget_or m k' v)"
  "fmget_or fmempty k v = v"
  by (simp_all add: fmget_or_def)

declare fcard_fempty [simp]

lemma fmcontains_iff: "fmcontains m k \<longleftrightarrow> fmlookup m k \<noteq> None"
  by (auto simp: fmlookup_dom_iff)

text \<open>\<open>BTreeMap::retain\<close> with a condition on the value.\<close>

definition fmretain :: "('v \<Rightarrow> bool) \<Rightarrow> ('k, 'v) fmap \<Rightarrow> ('k, 'v) fmap" where
  "fmretain P m = fmfilter (\<lambda>k. case fmlookup m k of None \<Rightarrow> False | Some v \<Rightarrow> P v) m"

lemma fmlookup_retain [simp]:
  "fmlookup (fmretain P m) k =
     (case fmlookup m k of None \<Rightarrow> None | Some v \<Rightarrow> if P v then Some v else None)"
  by (auto simp: fmretain_def split: option.splits)

lemma fmlen_retain: "fmlen (fmretain P m) \<le> fmlen m"
  by (intro fcard_mono) (auto simp: fmretain_def)

lemma fmretain_idem [simp]: "fmretain P (fmretain P m) = fmretain P m"
  by (rule fmap_ext) (auto split: option.splits)

lemma distinct_sorted_list_of_fset [simp]: "distinct (sorted_list_of_fset A)"
  by (simp add: sorted_list_of_fset.rep_eq)

lemma sorted_sorted_list_of_fset [simp]: "sorted (sorted_list_of_fset A)"
  by (simp add: sorted_list_of_fset.rep_eq)

lemma set_sorted_list_of_fmap [simp]:
  "set (sorted_list_of_fmap m) = {(k, v). fmlookup m k = Some v}"
  by (auto simp: sorted_list_of_fmap_def fmlookup_dom_iff image_iff)

lemma fmap_of_list_sorted_list [simp]: "fmap_of_list (sorted_list_of_fmap m) = m"
  by (rule fmap_ext) (simp add: fmlookup_of_list)

lemma map_fst_sorted_list_of_fmap [simp]:
  "map fst (sorted_list_of_fmap m) = sorted_list_of_fset (fmdom m)"
  by (simp add: sorted_list_of_fmap_def comp_def)

lemma length_sorted_list_of_fmap [simp]: "length (sorted_list_of_fmap m) = fmlen m"
proof -
  have "length (sorted_list_of_fmap m) = length (sorted_list_of_fset (fmdom m))"
    by (simp flip: map_fst_sorted_list_of_fmap)
  then show ?thesis by (simp add: sorted_list_of_fset.rep_eq fcard.rep_eq)
qed

lemma map_of_sorted_list [simp]: "map_of (sorted_list_of_fmap m) k = fmlookup m k"
  by (metis fmap_of_list_sorted_list fmlookup_of_list)

lemma distinct_sorted_list_of_fmap [simp]: "distinct (sorted_list_of_fmap m)"
  using distinct_map [of fst "sorted_list_of_fmap m"] by simp

subsection \<open>The eviction loop of the bounded journals\<close>

text \<open>
  \<open>while buf.len() >= cap { buf.pop_front(); note; }\<close>, where \<open>note\<close> is what the loop body
  does to the rest of the state for every record it drops.
\<close>

fun drop_oldest :: "nat \<Rightarrow> 'a list \<Rightarrow> ('s \<Rightarrow> 's) \<Rightarrow> 's \<Rightarrow> 'a list \<times> 's" where
  "drop_oldest cap [] f s = ([], s)"
| "drop_oldest cap (x # xs) f s =
     (if cap \<le> length (x # xs) then drop_oldest cap xs f (f s) else (x # xs, s))"

lemma fst_drop_oldest: "0 < cap \<Longrightarrow> fst (drop_oldest cap xs f s) = drop (Suc (length xs) - cap) xs"
proof (induction xs arbitrary: s)
  case Nil
  then show ?case by simp
next
  case (Cons x xs)
  then show ?case by (cases "cap \<le> length (x # xs)") (simp_all add: Suc_diff_le)
qed

lemma snd_drop_oldest:
  "0 < cap \<Longrightarrow> snd (drop_oldest cap xs f s) = (f ^^ (Suc (length xs) - cap)) s"
proof (induction xs arbitrary: s)
  case Nil
  then show ?case by simp
next
  case (Cons x xs)
  then show ?case
    by (cases "cap \<le> length (x # xs)") (simp_all add: Suc_diff_le funpow_swap1)
qed

lemma length_drop_oldest_less: "0 < cap \<Longrightarrow> length (fst (drop_oldest cap xs f s)) < cap"
  by (simp add: fst_drop_oldest)

lemma drop_oldest_id: "length xs < cap \<Longrightarrow> drop_oldest cap xs f s = (xs, s)"
  by (cases xs) auto

end
