(* ===== verification/Tenancy.thy ===== *)
theory Tenancy
  imports Prelude
begin

section \<open>Tenant identity and scoping (crates/ccos-enterprise-tenancy)\<close>

text \<open>
  \<open>TenantId\<close> wraps a private string; its only constructor validates. The model keeps the
  wrapper as a one-constructor datatype, ordered like the wrapped string (the derived \<open>Ord\<close>),
  and states validity as \<open>tenant_wf\<close>: every identifier that a component obtains through
  \<open>tenant_new\<close> satisfies it.
\<close>

datatype tenant_id = TenantId (as_str: str)

instantiation tenant_id :: linorder
begin

definition less_eq_tenant_id :: "tenant_id \<Rightarrow> tenant_id \<Rightarrow> bool" where
  "less_eq_tenant_id a b \<longleftrightarrow> as_str a \<le> as_str b"

definition less_tenant_id :: "tenant_id \<Rightarrow> tenant_id \<Rightarrow> bool" where
  "less_tenant_id a b \<longleftrightarrow> as_str a < as_str b"

instance
  by standard (auto simp: less_eq_tenant_id_def less_tenant_id_def intro: tenant_id.expand)

end

subsection \<open>Validation\<close>

definition is_identifier_byte :: "char \<Rightarrow> bool" where
  "is_identifier_byte b \<longleftrightarrow>
     is_ascii_lowercase b \<or> is_ascii_digit b \<or> b = CHR ''_'' \<or> b = CHR ''-''"

definition tenant_validated :: "str \<Rightarrow> tenant_id option" where
  "tenant_validated s =
     (case s of
        [] \<Rightarrow> None
      | first # rest \<Rightarrow>
          if length s \<le> 128 \<and> (is_ascii_lowercase first \<or> is_ascii_digit first)
             \<and> list_all is_identifier_byte rest
          then Some (TenantId s) else None)"

definition tenant_new :: "str \<Rightarrow> tenant_id option" where
  "tenant_new s = tenant_validated s"

text \<open>\<open>Deserialize\<close> goes through the validator, so a snapshot cannot bypass it.\<close>

definition tenant_deserialize :: "str \<Rightarrow> str + tenant_id" where
  "tenant_deserialize s =
     (case tenant_validated s of
        Some t \<Rightarrow> Inr t
      | None \<Rightarrow> Inl ''invalid tenant identifier'')"

definition tenant_wf :: "tenant_id \<Rightarrow> bool" where
  "tenant_wf t \<longleftrightarrow> tenant_new (as_str t) = Some t"

subsection \<open>Tenant-scoped keys\<close>

record 'a tenant_scope =
  scope_tenant :: tenant_id
  scope_inner :: 'a

definition scope_new :: "tenant_id \<Rightarrow> 'a \<Rightarrow> 'a tenant_scope" where
  "scope_new t x = \<lparr>scope_tenant = t, scope_inner = x\<rparr>"

definition rescope :: "'a tenant_scope \<Rightarrow> tenant_id \<Rightarrow> 'a tenant_scope" where
  "rescope s t = \<lparr>scope_tenant = t, scope_inner = scope_inner s\<rparr>"

subsection \<open>Facts\<close>

lemma tenant_new_SomeD: "tenant_new s = Some t \<Longrightarrow> t = TenantId s"
  by (auto simp: tenant_new_def tenant_validated_def split: list.splits if_splits)

lemma tenant_new_as_str: "tenant_new s = Some t \<Longrightarrow> as_str t = s"
  by (drule tenant_new_SomeD) simp

lemma tenant_new_wf: "tenant_new s = Some t \<Longrightarrow> tenant_wf t"
  by (simp add: tenant_wf_def tenant_new_as_str)

lemma tenant_wf_new [simp]: "tenant_wf t \<Longrightarrow> tenant_new (as_str t) = Some t"
  by (simp add: tenant_wf_def)

lemma tenant_new_iff:
  "tenant_new s = Some t \<longleftrightarrow> t = TenantId s \<and> tenant_wf t"
  using tenant_new_SomeD [of s t] by (cases t) (auto simp: tenant_wf_def)

lemma identifier_byte_ascii: "is_identifier_byte b \<Longrightarrow> (of_char b :: nat) < 128"
  by (auto simp: is_identifier_byte_def ascii_defs)

lemma tenant_wf_iff:
  "tenant_wf (TenantId s) \<longleftrightarrow>
     s \<noteq> [] \<and> length s \<le> 128 \<and> (is_ascii_lowercase (hd s) \<or> is_ascii_digit (hd s))
     \<and> (\<forall>c\<in>set s. is_identifier_byte c)"
  by (cases s)
    (auto simp: tenant_wf_def tenant_new_def tenant_validated_def list_all_iff
      is_identifier_byte_def)

text \<open>What a valid identifier cannot contain: the characters that would make
  \<open><root>/<tenant>\<close> escape its directory, name a hidden file or read as a flag.\<close>

lemma tenant_wf_path_safe:
  assumes "tenant_wf t"
  shows "as_str t \<noteq> []" "length (as_str t) \<le> 128"
    "CHR ''/'' \<notin> set (as_str t)" "CHR ''.'' \<notin> set (as_str t)"
    "CHR 0x00 \<notin> set (as_str t)" "hd (as_str t) \<noteq> CHR ''-''" "hd (as_str t) \<noteq> CHR ''_''"
  using assms
  by (cases t, auto simp: tenant_wf_iff is_identifier_byte_def ascii_defs)+

lemma tenant_deserialize_Inr [simp]:
  "tenant_deserialize s = Inr t \<longleftrightarrow> tenant_new s = Some t"
  by (auto simp: tenant_deserialize_def tenant_new_def split: option.splits)

end
