(* ===== verification/Auth.thy ===== *)
theory Auth
  imports Prelude
begin

section \<open>Authenticated identities (crates/ccos-enterprise-auth)\<close>

text \<open>
  The identity types the admission path keys on, the rule for canonical identities and the
  refusals of the verifiers. The verifiers themselves are in the theories \<open>Token_Auth\<close> and
  \<open>Peer_Auth\<close>, the deny-list they share in \<open>Revocation\<close>.
\<close>

datatype actor_id = ActorId (actor_name: str)
datatype org_id = OrgId (org_name: str)

datatype auth_strength = Anonymous | Token | Strong

fun strength_rank :: "auth_strength \<Rightarrow> nat" where
  "strength_rank Anonymous = 0"
| "strength_rank Token = 1"
| "strength_rank Strong = 2"

lemma strength_rank_inj [simp]: "strength_rank a = strength_rank b \<longleftrightarrow> a = b"
  by (cases a; cases b) auto

instantiation auth_strength :: linorder
begin

definition less_eq_auth_strength :: "auth_strength \<Rightarrow> auth_strength \<Rightarrow> bool" where
  "less_eq_auth_strength a b \<longleftrightarrow> strength_rank a \<le> strength_rank b"

definition less_auth_strength :: "auth_strength \<Rightarrow> auth_strength \<Rightarrow> bool" where
  "less_auth_strength a b \<longleftrightarrow> strength_rank a < strength_rank b"

instance
  by standard
    (auto simp: less_eq_auth_strength_def less_auth_strength_def
      simp flip: strength_rank_inj)

end

record authenticated_actor =
  aa_org :: org_id
  aa_actor :: actor_id
  aa_strength :: auth_strength

definition is_strongly_authenticated :: "authenticated_actor \<Rightarrow> bool" where
  "is_strongly_authenticated a \<longleftrightarrow> aa_strength a = Strong"

definition proved :: "org_id \<Rightarrow> actor_id \<Rightarrow> auth_strength \<Rightarrow> authenticated_actor" where
  "proved org actor strength = \<lparr>aa_org = org, aa_actor = actor, aa_strength = strength\<rparr>"

definition asserted :: "str \<Rightarrow> str \<Rightarrow> auth_strength \<Rightarrow> authenticated_actor" where
  "asserted org actor strength =
     \<lparr>aa_org = OrgId org, aa_actor = ActorId actor, aa_strength = strength\<rparr>"

text \<open>\<open>IdentityEx\<close>: an identity as data, which refuses to rebuild a strong proof.\<close>

record identity_ex =
  ie_org :: org_id
  ie_actor :: actor_id
  ie_strength :: auth_strength

definition identity_ex_of :: "authenticated_actor \<Rightarrow> identity_ex" where
  "identity_ex_of a =
     \<lparr>ie_org = aa_org a, ie_actor = aa_actor a, ie_strength = aa_strength a\<rparr>"

definition identity_ex_to_actor :: "identity_ex \<Rightarrow> authenticated_actor option" where
  "identity_ex_to_actor i =
     (case ie_strength i of
        Strong \<Rightarrow> None
      | _ \<Rightarrow> Some (proved (ie_org i) (ie_actor i) (ie_strength i)))"

lemma strength_order [simp]: "Anonymous \<le> s" "s \<le> Strong" "\<not> s < Anonymous" "\<not> Strong < s"
  by (cases s; simp add: less_eq_auth_strength_def less_auth_strength_def)+

lemma identity_ex_no_escalation:
  "identity_ex_to_actor i = Some a \<Longrightarrow> aa_strength a = ie_strength i \<and> aa_strength a \<le> Token"
  by (auto simp: identity_ex_to_actor_def proved_def less_eq_auth_strength_def
      split: auth_strength.splits)

lemma identity_ex_roundtrip:
  "identity_ex_to_actor (identity_ex_of a) = (if is_strongly_authenticated a then None else Some a)"
  by (cases "aa_strength a")
    (simp_all add: identity_ex_to_actor_def identity_ex_of_def is_strongly_authenticated_def
      proved_def)

subsection \<open>Canonical identities and refusals\<close>

definition MAX_IDENTITY_BYTES :: nat where
  "MAX_IDENTITY_BYTES = 128"

definition is_canonical_identity :: "str \<Rightarrow> bool" where
  "is_canonical_identity i =
     (case i of
        [] \<Rightarrow> False
      | first # bytes \<Rightarrow>
          if \<not> (is_ascii_lowercase first \<or> is_ascii_digit first) then False
          else length i \<le> MAX_IDENTITY_BYTES \<and>
            list_all (\<lambda>b. is_ascii_lowercase b \<or> is_ascii_digit b \<or> b = CHR ''_'' \<or> b = CHR ''-'') bytes)"

datatype auth_error =
    Malformed str
  | UnknownIssuer
  | BadSignature
  | MalformedClaims str
  | WrongAudience
  | CredentialExpired
  | NotYetValid
  | LifetimeTooLong
  | MalformedIdentity str
  | CredentialRevoked
  | CredentialReplayed
  | ReplayCapacity
  | PeerExpired
  | UntrustedIssuer

definition client_message :: "auth_error \<Rightarrow> str" where
  "client_message _ = ''not authenticated''"

lemma canonical_identity_bytes:
  assumes "is_canonical_identity i" and "c \<in> set i"
  shows "is_ascii_lowercase c \<or> is_ascii_digit c \<or> c = CHR ''_'' \<or> c = CHR ''-''"
  using assms by (cases i) (auto simp: is_canonical_identity_def list_all_iff split: if_splits)

lemma canonical_identity_no_dot: "is_canonical_identity i \<Longrightarrow> CHR ''.'' \<notin> set i"
  using canonical_identity_bytes [of i "CHR ''.''"]
  by (auto simp: is_ascii_lowercase_def is_ascii_digit_def)

end
