(* ===== verification/Policy.thy ===== *)
theory Policy
  imports Prelude
begin

section \<open>Token budgets and model allowlists (crates/ccos-enterprise-policy)\<close>

text \<open>
  The budget ledger keeps its three counters at their machine width; \<open>charge\<close> and \<open>refund\<close>
  saturate exactly as the source does. The locale \<open>meter\<close> is the contract the admission path
  relies on: what a decision does to the amount spent, and that no sequence of operations takes
  the amount over the limit. It is interpreted on the ledger.
\<close>

datatype policy_decision = Allow | Deny | RequireApproval

record token_budget =
  tb_limit :: u64
  tb_spent :: u64
  tb_epoch :: u64

definition budget_new :: "u64 \<Rightarrow> token_budget" where
  "budget_new limit = \<lparr>tb_limit = limit, tb_spent = 0, tb_epoch = 0\<rparr>"

definition reset_epoch :: "token_budget \<Rightarrow> u64 \<times> token_budget" where
  "reset_epoch b =
     (let b' = b\<lparr>tb_epoch := sat_add (tb_epoch b) 1, tb_spent := 0\<rparr> in (tb_epoch b', b'))"

definition charge :: "token_budget \<Rightarrow> u64 \<Rightarrow> policy_decision \<times> token_budget" where
  "charge b tokens =
     (if tb_limit b < sat_add (tb_spent b) tokens then (Deny, b)
      else (Allow, b\<lparr>tb_spent := sat_add (tb_spent b) tokens\<rparr>))"

definition refund :: "token_budget \<Rightarrow> u64 \<Rightarrow> token_budget" where
  "refund b tokens = b\<lparr>tb_spent := sat_sub (tb_spent b) tokens\<rparr>"

datatype model_allowlist = ModelAllowlist (allowed_models: "str fset")

definition evaluate_model :: "model_allowlist \<Rightarrow> str \<Rightarrow> policy_decision" where
  "evaluate_model al model = (if model |\<in>| allowed_models al then Allow else Deny)"

subsection \<open>The contract of a meter\<close>

datatype 'c meter_op = Charge 'c | Refund 'c

locale meter =
  fixes spent :: "'m \<Rightarrow> nat"
    and cap :: "'m \<Rightarrow> nat"
    and amount :: "'c \<Rightarrow> nat"
    and charge_op :: "'m \<Rightarrow> 'c \<Rightarrow> policy_decision \<times> 'm"
    and refund_op :: "'m \<Rightarrow> 'c \<Rightarrow> 'm"
  assumes charge_deny: "charge_op m c = (d, m') \<Longrightarrow> d \<noteq> Allow \<Longrightarrow> m' = m"
    and charge_allow: "charge_op m c = (Allow, m') \<Longrightarrow>
          cap m' = cap m \<and> spent m \<le> spent m' \<and> spent m' \<le> spent m + amount c \<and> spent m' \<le> cap m"
    and refund_law: "cap (refund_op m c) = cap m \<and> spent (refund_op m c) \<le> spent m"
begin

fun meter_step :: "'m \<Rightarrow> 'c meter_op \<Rightarrow> 'm" where
  "meter_step m (Charge c) = snd (charge_op m c)"
| "meter_step m (Refund c) = refund_op m c"

lemma charge_within: "spent m \<le> cap m \<Longrightarrow> spent (snd (charge_op m c)) \<le> cap (snd (charge_op m c))"
proof (cases "charge_op m c")
  case (Pair d m')
  assume "spent m \<le> cap m"
  with Pair show ?thesis
    using charge_deny [OF Pair] charge_allow [of m c m'] by (cases "d = Allow") auto
qed

lemma charge_cap: "cap (snd (charge_op m c)) = cap m"
proof (cases "charge_op m c")
  case (Pair d m')
  then show ?thesis
    using charge_deny [OF Pair] charge_allow [of m c m'] by (cases "d = Allow") auto
qed

lemma refund_within: "spent m \<le> cap m \<Longrightarrow> spent (refund_op m c) \<le> cap (refund_op m c)"
  using refund_law [of m c] by auto

lemma run_within: "spent m \<le> cap m \<Longrightarrow> spent (foldl meter_step m ops) \<le> cap (foldl meter_step m ops)"
proof (induction ops arbitrary: m)
  case Nil
  then show ?case by simp
next
  case (Cons x ops)
  then have "spent (meter_step m x) \<le> cap (meter_step m x)"
    by (cases x) (simp_all add: charge_within refund_within)
  then show ?case by (simp add: Cons.IH)
qed

lemma run_cap: "cap (foldl meter_step m ops) = cap m"
proof (induction ops arbitrary: m)
  case Nil
  then show ?case by simp
next
  case (Cons x ops)
  have "cap (meter_step m x) = cap m"
    by (cases x) (simp_all add: charge_cap refund_law)
  then show ?case by (simp add: Cons.IH)
qed

end

interpretation ledger: meter "\<lambda>b. unat (tb_spent b)" "\<lambda>b. unat (tb_limit b)" unat charge refund
  by unfold_locales (auto simp: charge_def refund_def u64_simps split: if_splits)

subsection \<open>Exact accounting\<close>

definition budget_ok :: "token_budget \<Rightarrow> bool" where
  "budget_ok b \<longleftrightarrow> tb_spent b \<le> tb_limit b"

lemma budget_ok_unat: "budget_ok b \<longleftrightarrow> unat (tb_spent b) \<le> unat (tb_limit b)"
  by (simp add: budget_ok_def word_le_nat_alt)

lemma budget_ok_new [simp]: "budget_ok (budget_new limit)"
  by (simp add: budget_ok_def budget_new_def)

lemma budget_ok_charge: "budget_ok b \<Longrightarrow> budget_ok (snd (charge b c))"
  using ledger.charge_within [of b c] by (simp add: budget_ok_unat)

lemma budget_ok_refund: "budget_ok b \<Longrightarrow> budget_ok (refund b c)"
  using ledger.refund_within [of b c] by (simp add: budget_ok_unat)

lemma charge_limit [simp]: "tb_limit (snd (charge b c)) = tb_limit b"
  by (simp add: charge_def)

lemma charge_Allow_iff:
  "fst (charge b c) = Allow \<longleftrightarrow>
     min (unat (tb_spent b) + unat c) 18446744073709551615 \<le> unat (tb_limit b)"
  by (auto simp: charge_def u64_simps)

lemma charge_saturates:
  assumes "fst (charge b c) = Allow"
  shows "unat (tb_spent (snd (charge b c))) = min (unat (tb_spent b) + unat c) (2 ^ 64 - 1)"
    and "tb_spent (snd (charge b c)) \<le> tb_limit b"
  using assms by (auto simp: charge_def u64_simps word_le_nat_alt split: if_splits)

text \<open>Below the saturation point the ledger is exact: an allowed charge adds its tokens.\<close>

lemma charge_exact:
  assumes "fst (charge b c) = Allow" and "tb_limit b \<noteq> -1"
  shows "unat (tb_spent (snd (charge b c))) = unat (tb_spent b) + unat c"
proof -
  have "unat (tb_limit b) < 18446744073709551615"
    using assms(2) unat_u64_le [of "tb_limit b"]
    by (simp add: word_unat_eq_iff unat_u64_max del: unat_u64_le unat_u64_less)
  with assms(1) show ?thesis
    by (auto simp: charge_def u64_simps min_def split: if_splits)
qed

text \<open>Charging and refunding the same tokens restores the ledger, unless the charge saturated.\<close>

lemma charge_refund:
  assumes "fst (charge b c) = Allow"
    and "unat (tb_spent b) + unat c < 18446744073709551616"
  shows "refund (snd (charge b c)) c = b"
proof -
  have "tb_spent (refund (snd (charge b c)) c) = tb_spent b"
    using assms by (auto simp: charge_def refund_def u64_simps split: if_splits)
  then show ?thesis using assms(1) by (auto simp: charge_def refund_def split: if_splits)
qed

end
