(* ===== verification/Rbac.thy ===== *)
theory Rbac
  imports Prelude
begin

section \<open>Role-based access control (crates/ccos-enterprise-rbac)\<close>

text \<open>
  The role book: role definitions by name and the roles granted to each \<open>(org, actor)\<close> pair.
  The locale \<open>role_authority\<close> states the book as the admission path sees it (which roles a
  principal holds, what a role permits, what each operation does to both) and proves the
  authorization facts once; the book is an interpretation of it. The persisted row form and
  the reading of legacy snapshots follow at the end.
\<close>

datatype permission = Permission (perm_name: str)

instantiation permission :: linorder
begin

definition less_eq_permission :: "permission \<Rightarrow> permission \<Rightarrow> bool" where
  "less_eq_permission a b \<longleftrightarrow> perm_name a \<le> perm_name b"

definition less_permission :: "permission \<Rightarrow> permission \<Rightarrow> bool" where
  "less_permission a b \<longleftrightarrow> perm_name a < perm_name b"

instance
  by standard (auto simp: less_eq_permission_def less_permission_def intro: permission.expand)

end

record role =
  role_name :: str
  role_permissions :: "permission fset"

record role_book =
  rb_roles :: "(str, role) fmap"
  rb_assignments :: "(str \<times> str, str fset) fmap"

definition role_book_empty :: role_book where
  "role_book_empty = \<lparr>rb_roles = fmempty, rb_assignments = fmempty\<rparr>"

subsection \<open>Operations\<close>

definition add_role :: "role_book \<Rightarrow> role \<Rightarrow> bool \<times> role_book" where
  "add_role b r =
     (if role_name r = [] \<or> fmcontains (rb_roles b) (role_name r) then (False, b)
      else (True, b\<lparr>rb_roles := fmupd (role_name r) r (rb_roles b)\<rparr>))"

definition redefine_role :: "role_book \<Rightarrow> role \<Rightarrow> bool \<times> role_book" where
  "redefine_role b r =
     (if role_name r = [] then (False, b)
      else (fmcontains (rb_roles b) (role_name r),
            b\<lparr>rb_roles := fmupd (role_name r) r (rb_roles b)\<rparr>))"

definition remove_role :: "role_book \<Rightarrow> str \<Rightarrow> bool \<times> role_book" where
  "remove_role b name =
     (let existed = fmcontains (rb_roles b) name;
          stripped = fmmap (\<lambda>grants. grants |-| {|name|}) (rb_assignments b)
      in (existed,
          b\<lparr>rb_roles := fmdrop name (rb_roles b),
            rb_assignments := fmfilter (\<lambda>k. fmlookup stripped k \<noteq> Some {||}) stripped\<rparr>))"

definition unassign :: "role_book \<Rightarrow> str \<Rightarrow> str \<Rightarrow> str \<Rightarrow> bool \<times> role_book" where
  "unassign b org actor r =
     (case fmlookup (rb_assignments b) (org, actor) of
        None \<Rightarrow> (False, b)
      | Some grants \<Rightarrow>
          let grants' = grants |-| {|r|}
          in (r |\<in>| grants,
              b\<lparr>rb_assignments :=
                  (if grants' = {||} then fmdrop (org, actor) (rb_assignments b)
                   else fmupd (org, actor) grants' (rb_assignments b))\<rparr>))"

definition remove_actor :: "role_book \<Rightarrow> str \<Rightarrow> str \<Rightarrow> bool \<times> role_book" where
  "remove_actor b org actor =
     (fmcontains (rb_assignments b) (org, actor),
      b\<lparr>rb_assignments := fmdrop (org, actor) (rb_assignments b)\<rparr>)"

definition assign :: "role_book \<Rightarrow> str \<Rightarrow> str \<Rightarrow> str \<Rightarrow> bool \<times> role_book" where
  "assign b org actor r =
     (if org = [] \<or> actor = [] \<or> r = [] then (False, b)
      else if \<not> fmcontains (rb_roles b) r then (False, b)
      else (True,
            b\<lparr>rb_assignments :=
                fmupd (org, actor) (finsert r (fmget_or (rb_assignments b) (org, actor) {||}))
                  (rb_assignments b)\<rparr>))"

definition has_role :: "role_book \<Rightarrow> str \<Rightarrow> bool" where
  "has_role b name = fmcontains (rb_roles b) name"

definition permissions_of :: "role_book \<Rightarrow> str \<Rightarrow> str list" where
  "permissions_of b name =
     (case fmlookup (rb_roles b) name of
        None \<Rightarrow> []
      | Some r \<Rightarrow> map perm_name (sorted_list_of_fset (role_permissions r)))"

definition holders_of :: "role_book \<Rightarrow> str \<Rightarrow> str list" where
  "holders_of b name =
     map (\<lambda>((org, actor), _). org @ ''/'' @ actor)
       (filter (\<lambda>(_, grants). name |\<in>| grants) (sorted_list_of_fmap (rb_assignments b)))"

definition roles_of :: "role_book \<Rightarrow> str \<Rightarrow> str \<Rightarrow> str list" where
  "roles_of b org actor =
     (case fmlookup (rb_assignments b) (org, actor) of
        None \<Rightarrow> []
      | Some grants \<Rightarrow> sorted_list_of_fset grants)"

definition allows :: "role_book \<Rightarrow> str \<Rightarrow> str \<Rightarrow> permission \<Rightarrow> bool" where
  "allows b org actor p =
     list_ex (\<lambda>r. case fmlookup (rb_roles b) r of
                    None \<Rightarrow> False
                  | Some rl \<Rightarrow> p |\<in>| role_permissions rl)
       (roles_of b org actor)"

subsection \<open>The book as an authority\<close>

locale role_authority =
  fixes grants :: "'b \<Rightarrow> str \<Rightarrow> str \<Rightarrow> str set"
    and perms :: "'b \<Rightarrow> str \<Rightarrow> permission set option"
    and allowed :: "'b \<Rightarrow> str \<Rightarrow> str \<Rightarrow> permission \<Rightarrow> bool"
    and grant_op withdraw_op :: "'b \<Rightarrow> str \<Rightarrow> str \<Rightarrow> str \<Rightarrow> bool \<times> 'b"
    and expel_op :: "'b \<Rightarrow> str \<Rightarrow> str \<Rightarrow> bool \<times> 'b"
    and define_op :: "'b \<Rightarrow> role \<Rightarrow> bool \<times> 'b"
    and delete_op :: "'b \<Rightarrow> str \<Rightarrow> bool \<times> 'b"
  assumes allowed_iff:
      "allowed b org a p \<longleftrightarrow> (\<exists>r\<in>grants b org a. \<exists>ps. perms b r = Some ps \<and> p \<in> ps)"
    and grant_ok: "fst (grant_op b org a r) \<longleftrightarrow>
          org \<noteq> [] \<and> a \<noteq> [] \<and> r \<noteq> [] \<and> perms b r \<noteq> None"
    and grant_grants: "grants (snd (grant_op b org a r)) org' a' =
          (if fst (grant_op b org a r) \<and> org' = org \<and> a' = a
           then insert r (grants b org a) else grants b org' a')"
    and grant_perms: "perms (snd (grant_op b org a r)) = perms b"
    and withdraw_grants: "grants (snd (withdraw_op b org a r)) org' a' =
          (if org' = org \<and> a' = a then grants b org a - {r} else grants b org' a')"
    and withdraw_perms: "perms (snd (withdraw_op b org a r)) = perms b"
    and expel_grants: "grants (snd (expel_op b org a)) org' a' =
          (if org' = org \<and> a' = a then {} else grants b org' a')"
    and expel_perms: "perms (snd (expel_op b org a)) = perms b"
    and define_grants: "grants (snd (define_op b rl)) = grants b"
    and define_perms: "perms (snd (define_op b rl)) =
          (if fst (define_op b rl)
           then (perms b)(role_name rl := Some (fset (role_permissions rl))) else perms b)"
    and delete_grants: "grants (snd (delete_op b n)) org a = grants b org a - {n}"
    and delete_perms: "perms (snd (delete_op b n)) = (perms b)(n := None)"
begin

lemma grant_allowed:
  "allowed (snd (grant_op b org a r)) org' a' p \<longleftrightarrow>
     allowed b org' a' p \<or>
     (fst (grant_op b org a r) \<and> org' = org \<and> a' = a \<and> (\<exists>ps. perms b r = Some ps \<and> p \<in> ps))"
  by (auto simp: allowed_iff grant_grants grant_perms)

lemma grant_other_org: "org' \<noteq> org \<Longrightarrow>
    allowed (snd (grant_op b org a r)) org' a' p = allowed b org' a' p"
  by (simp add: grant_allowed)

lemma withdraw_shrinks: "allowed (snd (withdraw_op b org a r)) org' a' p \<Longrightarrow> allowed b org' a' p"
  by (auto simp: allowed_iff withdraw_grants withdraw_perms split: if_splits)

lemma expel_powerless: "\<not> allowed (snd (expel_op b org a)) org a p"
  by (simp add: allowed_iff expel_grants)

lemma expel_other: "(org', a') \<noteq> (org, a) \<Longrightarrow>
    allowed (snd (expel_op b org a)) org' a' p = allowed b org' a' p"
  by (auto simp: allowed_iff expel_grants expel_perms)

lemma delete_define_no_resurrection:
  assumes "allowed (snd (define_op (snd (delete_op b n)) rl)) org a p"
    and "role_name rl = n"
  shows "allowed b org a p"
  using assms
  by (auto simp: allowed_iff define_grants define_perms delete_grants delete_perms
      split: if_splits)

end

definition book_grants :: "role_book \<Rightarrow> str \<Rightarrow> str \<Rightarrow> str set" where
  "book_grants b org actor = set (roles_of b org actor)"

definition book_perms :: "role_book \<Rightarrow> str \<Rightarrow> permission set option" where
  "book_perms b n = map_option (\<lambda>r. fset (role_permissions r)) (fmlookup (rb_roles b) n)"

lemma book_grants_alt:
  "book_grants b org actor = fset (fmget_or (rb_assignments b) (org, actor) {||})"
  by (auto simp: book_grants_def roles_of_def fmget_or_def split: option.splits)

lemma book_allows_iff:
  "allows b org a p \<longleftrightarrow> (\<exists>r\<in>book_grants b org a. \<exists>ps. book_perms b r = Some ps \<and> p \<in> ps)"
  by (auto simp: allows_def book_grants_def book_perms_def list_ex_iff split: option.splits)

interpretation book: role_authority book_grants book_perms allows assign unassign remove_actor
  add_role remove_role
proof unfold_locales
  fix b :: role_book and org a r org' a' :: str and rl :: role and n :: str and p :: permission
  show "allows b org a p \<longleftrightarrow> (\<exists>r\<in>book_grants b org a. \<exists>ps. book_perms b r = Some ps \<and> p \<in> ps)"
    by (rule book_allows_iff)
  show "fst (assign b org a r) \<longleftrightarrow> org \<noteq> [] \<and> a \<noteq> [] \<and> r \<noteq> [] \<and> book_perms b r \<noteq> None"
    by (auto simp: assign_def book_perms_def fmlookup_dom_iff)
  show "book_grants (snd (assign b org a r)) org' a' =
      (if fst (assign b org a r) \<and> org' = org \<and> a' = a then insert r (book_grants b org a)
       else book_grants b org' a')"
    by (auto simp: assign_def book_grants_alt fmget_or_def)
  show "book_perms (snd (assign b org a r)) = book_perms b"
    by (auto simp: assign_def book_perms_def)
  show "book_grants (snd (unassign b org a r)) org' a' =
      (if org' = org \<and> a' = a then book_grants b org a - {r} else book_grants b org' a')"
    by (auto simp: unassign_def book_grants_alt fmget_or_def Let_def split: option.splits)
  show "book_perms (snd (unassign b org a r)) = book_perms b"
    by (auto simp: unassign_def book_perms_def Let_def split: option.splits)
  show "book_grants (snd (remove_actor b org a)) org' a' =
      (if org' = org \<and> a' = a then {} else book_grants b org' a')"
    by (auto simp: remove_actor_def book_grants_alt fmget_or_def)
  show "book_perms (snd (remove_actor b org a)) = book_perms b"
    by (intro ext) (simp add: remove_actor_def book_perms_def)
  show "book_grants (snd (add_role b rl)) = book_grants b"
    by (intro ext) (simp add: add_role_def book_grants_alt)
  show "book_perms (snd (add_role b rl)) =
      (if fst (add_role b rl)
       then (book_perms b)(role_name rl := Some (fset (role_permissions rl))) else book_perms b)"
    by (intro ext) (simp add: add_role_def book_perms_def)
  show "book_grants (snd (remove_role b n)) org a = book_grants b org a - {n}"
    by (auto simp: remove_role_def book_grants_alt fmget_or_def Let_def split: option.splits)
  show "book_perms (snd (remove_role b n)) = (book_perms b)(n := None)"
    by (intro ext) (simp add: remove_role_def book_perms_def Let_def)
qed

subsection \<open>Well-formed books\<close>

text \<open>
  What the operations keep: a role is filed under its own non-empty name, no principal is filed
  with an empty grant set or an empty organization or name, and only defined roles are granted.
\<close>

definition book_wf :: "role_book \<Rightarrow> bool" where
  "book_wf b \<longleftrightarrow>
     fmpred (\<lambda>n r. n = role_name r \<and> n \<noteq> []) (rb_roles b) \<and>
     fmpred (\<lambda>(org, actor) g. org \<noteq> [] \<and> actor \<noteq> [] \<and> g \<noteq> {||} \<and> g |\<subseteq>| fmdom (rb_roles b))
       (rb_assignments b)"

lemma book_wfI:
  assumes "\<And>n r. fmlookup (rb_roles b) n = Some r \<Longrightarrow> n = role_name r \<and> n \<noteq> []"
    and "\<And>org actor g. fmlookup (rb_assignments b) (org, actor) = Some g \<Longrightarrow>
          org \<noteq> [] \<and> actor \<noteq> [] \<and> g \<noteq> {||} \<and> g |\<subseteq>| fmdom (rb_roles b)"
  shows "book_wf b"
  using assms by (auto simp: book_wf_def fmpred_iff)

lemma book_wfD:
  assumes "book_wf b"
  shows "fmlookup (rb_roles b) n = Some r \<Longrightarrow> n = role_name r \<and> n \<noteq> []"
    and "fmlookup (rb_assignments b) (org, actor) = Some g \<Longrightarrow>
          org \<noteq> [] \<and> actor \<noteq> [] \<and> g \<noteq> {||} \<and> g |\<subseteq>| fmdom (rb_roles b)"
  using assms by (auto simp: book_wf_def fmpred_iff)

lemma book_wf_granted:
  "book_wf b \<Longrightarrow> fmlookup (rb_assignments b) (org, actor) = Some g \<Longrightarrow> x |\<in>| g \<Longrightarrow>
     x |\<in>| fmdom (rb_roles b)"
  by (auto dest: book_wfD(2))

lemma book_wf_empty [simp]: "book_wf role_book_empty"
  by (simp add: book_wf_def role_book_empty_def)

lemma book_wf_add_role: "book_wf b \<Longrightarrow> book_wf (snd (add_role b r))"
  by (auto simp: add_role_def intro!: book_wfI dest: book_wfD book_wf_granted split: if_splits)

lemma book_wf_redefine_role: "book_wf b \<Longrightarrow> book_wf (snd (redefine_role b r))"
  by (auto simp: redefine_role_def intro!: book_wfI dest: book_wfD book_wf_granted split: if_splits)

lemma book_wf_assign: "book_wf b \<Longrightarrow> book_wf (snd (assign b org actor r))"
  by (auto simp: assign_def fmget_or_def intro!: book_wfI dest: book_wfD book_wf_granted
      split: if_splits option.splits)

lemma book_wf_remove_actor: "book_wf b \<Longrightarrow> book_wf (snd (remove_actor b org actor))"
  by (auto simp: remove_actor_def intro!: book_wfI dest: book_wfD book_wf_granted split: if_splits)

lemma book_wf_unassign: "book_wf b \<Longrightarrow> book_wf (snd (unassign b org actor r))"
  by (auto simp: unassign_def Let_def intro!: book_wfI dest: book_wfD book_wf_granted
      split: if_splits option.splits)

lemma book_wf_remove_role:
  assumes "book_wf b"
  shows "book_wf (snd (remove_role b n))"
proof (rule book_wfI)
  fix m r
  assume "fmlookup (rb_roles (snd (remove_role b n))) m = Some r"
  then show "m = role_name r \<and> m \<noteq> []"
    using book_wfD(1) [OF assms] by (auto simp: remove_role_def Let_def split: if_splits)
next
  fix org actor g
  assume "fmlookup (rb_assignments (snd (remove_role b n))) (org, actor) = Some g"
  then obtain h where h: "fmlookup (rb_assignments b) (org, actor) = Some h"
      "g = h |-| {|n|}" "g \<noteq> {||}"
    by (auto simp: remove_role_def Let_def split: if_splits)
  have "h |\<subseteq>| fmdom (rb_roles b)" "org \<noteq> []" "actor \<noteq> []"
    using book_wfD(2) [OF assms h(1)] by auto
  then show "org \<noteq> [] \<and> actor \<noteq> [] \<and> g \<noteq> {||} \<and>
      g |\<subseteq>| fmdom (rb_roles (snd (remove_role b n)))"
    using h(2,3) by (auto simp: remove_role_def Let_def)
qed

lemma holders_of_removed: "holders_of (snd (remove_role b n)) n = []"
  by (auto simp: holders_of_def remove_role_def Let_def filter_empty_conv split: if_splits)

subsection \<open>The persisted form\<close>

record assignment_row =
  row_org :: str
  row_actor :: str
  row_roles :: "str fset"

datatype assignment_rows =
    Scoped "assignment_row list"
  | Legacy "(str, str fset) fmap"

record raw_book =
  raw_roles :: "(str, role) fmap"
  raw_assignments :: assignment_rows

definition book_serialize :: "role_book \<Rightarrow> raw_book" where
  "book_serialize b =
     \<lparr>raw_roles = rb_roles b,
      raw_assignments = Scoped
        (map (\<lambda>((org, actor), g). \<lparr>row_org = org, row_actor = actor, row_roles = g\<rparr>)
          (filter (\<lambda>(_, g). g \<noteq> {||}) (sorted_list_of_fmap (rb_assignments b))))\<rparr>"

definition install_row ::
  "(str \<times> str, str fset) fmap \<Rightarrow> assignment_row \<Rightarrow> (str \<times> str, str fset) fmap" where
  "install_row m row =
     (if row_roles row = {||} then m
      else fmupd (row_org row, row_actor row) (row_roles row) m)"

definition install_legacy ::
  "(str \<times> str, str fset) fmap \<Rightarrow> str \<times> str fset \<Rightarrow> (str \<times> str, str fset) fmap" where
  "install_legacy m e =
     (case e of (actor, g) \<Rightarrow>
        if g = {||} then m else fmupd ([], actor) (fmget_or m ([], actor) {||} |\<union>| g) m)"

definition book_deserialize :: "raw_book \<Rightarrow> role_book" where
  "book_deserialize raw =
     \<lparr>rb_roles = raw_roles raw,
      rb_assignments =
        (case raw_assignments raw of
           Scoped rows \<Rightarrow> foldl install_row fmempty rows
         | Legacy m \<Rightarrow> foldl install_legacy fmempty (sorted_list_of_fmap m))\<rparr>"

lemma foldl_install_rows:
  "distinct (map fst kvs) \<Longrightarrow> \<forall>(k, g)\<in>set kvs. g \<noteq> {||} \<Longrightarrow>
     fmlookup (foldl install_row m
        (map (\<lambda>((org, actor), g). \<lparr>row_org = org, row_actor = actor, row_roles = g\<rparr>) kvs)) k =
     (case map_of kvs k of Some g \<Rightarrow> Some g | None \<Rightarrow> fmlookup m k)"
proof (induction kvs arbitrary: m)
  case Nil
  then show ?case by simp
next
  case (Cons e kvs)
  obtain org actor g where e: "e = ((org, actor), g)" by (metis surj_pair)
  with Cons.prems have "map_of kvs (org, actor) = None"
    by (auto simp: map_of_eq_None_iff)
  with Cons e show ?case by (auto simp: install_row_def split: option.splits)
qed

lemma book_serialize_roundtrip:
  assumes "book_wf b"
  shows "book_deserialize (book_serialize b) = b"
proof -
  let ?kvs = "sorted_list_of_fmap (rb_assignments b)"
  have ne: "\<forall>(k, g)\<in>set ?kvs. g \<noteq> {||}"
    using book_wfD(2) [OF assms] by auto
  then have "filter (\<lambda>(_, g). g \<noteq> {||}) ?kvs = ?kvs"
    by (auto intro!: filter_True)
  then have "rb_assignments (book_deserialize (book_serialize b)) = rb_assignments b"
    using foldl_install_rows [of ?kvs fmempty] ne
    by (intro fmap_ext) (auto simp: book_deserialize_def book_serialize_def split: option.splits)
  moreover have "rb_roles (book_deserialize (book_serialize b)) = rb_roles b"
    by (simp add: book_deserialize_def book_serialize_def)
  ultimately show ?thesis by simp
qed

lemma legacy_rows_orgless:
  "fmlookup (foldl install_legacy m es) (org, actor) = Some g \<Longrightarrow> org \<noteq> [] \<Longrightarrow>
     fmlookup m (org, actor) = Some g"
proof (induction es arbitrary: m)
  case Nil
  then show ?case by simp
next
  case (Cons e es)
  then have "fmlookup (install_legacy m e) (org, actor) = Some g" by simp
  with Cons.prems(2) show ?case by (auto simp: install_legacy_def split: prod.splits if_splits)
qed

text \<open>A legacy snapshot grants nothing to any principal whose organization is known.\<close>

lemma legacy_allows_nobody:
  assumes "raw_assignments raw = Legacy m" and "org \<noteq> []"
  shows "\<not> allows (book_deserialize raw) org actor p"
proof -
  have "fmlookup (rb_assignments (book_deserialize raw)) (org, actor) = None"
    using legacy_rows_orgless [of fmempty "sorted_list_of_fmap m" org actor] assms
    by (cases "fmlookup (rb_assignments (book_deserialize raw)) (org, actor)")
      (auto simp: book_deserialize_def)
  then show ?thesis by (simp add: allows_def roles_of_def)
qed

end
