(* ===== verification/Gateway.thy ===== *)
theory Gateway
  imports Prelude
begin

section \<open>The namespace boundary (crates/ccos-enterprise-gateway)\<close>

text \<open>
  \<open>classify\<close> decides whether a tool name may traverse the product. The lists are the source's
  constants; names are byte strings, and the model keeps the source's order of checks:
  canonical form first, then the forbidden capabilities at every segment boundary, then the
  exposed catalogue.
\<close>

record gateway_request =
  gr_tenant :: str
  gr_actor :: str
  gr_tool :: str
  gr_request_id :: str

datatype disposition = Forward | Reject str

definition FORBIDDEN_PREFIXES :: "str list" where
  "FORBIDDEN_PREFIXES =
     [''rsi.'', ''forge.'', ''slha.'', ''octa.'', ''patch.'', ''shell.'', ''self.'']"

definition FORBIDDEN_TOOLS :: "str list" where
  "FORBIDDEN_TOOLS = [''code.execute'', ''repository.modify'']"

definition ALLOWED_PREFIXES :: "str list" where
  "ALLOWED_PREFIXES = [''memory.'', ''context.'', ''policy.'', ''audit.'', ''ccos.'']"

definition ALLOWED_TOOLS :: "str list" where
  "ALLOWED_TOOLS = [''system.health'']"

definition DECISION_TOOLS :: "str list" where
  "DECISION_TOOLS =
     [''decision.ancestry'', ''decision.dependents'', ''decision.get'', ''decision.impact'',
      ''decision.regulatory_trail'', ''decision.similar'', ''decision.record'',
      ''decision.record_outcome'']"

definition MAX_TOOL_NAME_BYTES :: nat where
  "MAX_TOOL_NAME_BYTES = 256"

definition is_canonical_tool_name :: "str \<Rightarrow> bool" where
  "is_canonical_tool_name tool \<longleftrightarrow>
     tool \<noteq> [] \<and> length tool \<le> MAX_TOOL_NAME_BYTES \<and>
     dotted_name (\<lambda>b. is_ascii_lowercase b \<or> is_ascii_uppercase b \<or> is_ascii_digit b
                       \<or> b = CHR ''_'') tool"

text \<open>Every suffix that begins at a segment boundary, longest first.\<close>

fun dot_suffixes :: "str \<Rightarrow> str list" where
  "dot_suffixes [] = []"
| "dot_suffixes (c # s) = (if c = CHR ''.'' then s # dot_suffixes s else dot_suffixes s)"

definition segment_suffixes :: "str \<Rightarrow> str list" where
  "segment_suffixes name = name # dot_suffixes name"

definition sanitize :: "str \<Rightarrow> str" where
  "sanitize tool =
     utf8_string
       (map (\<lambda>c. if 33 \<le> c \<and> c \<le> 126 \<or> c = 32 then c else 65533) (take 64 (utf8_chars tool))
        @ (if 64 < length (utf8_chars tool) then [8230] else []))"

definition is_forbidden_suffix :: "str \<Rightarrow> bool" where
  "is_forbidden_suffix sfx \<longleftrightarrow>
     list_ex (starts_with sfx) FORBIDDEN_PREFIXES \<or> sfx \<in> set FORBIDDEN_TOOLS"

definition is_exposed :: "str \<Rightarrow> bool" where
  "is_exposed lowered \<longleftrightarrow>
     list_ex (starts_with lowered) ALLOWED_PREFIXES \<or> lowered \<in> set ALLOWED_TOOLS
     \<or> lowered \<in> set DECISION_TOOLS"

definition classify :: "gateway_request \<Rightarrow> disposition" where
  "classify req =
     (if \<not> is_canonical_tool_name (gr_tool req) then
        Reject ''tool name is empty or not canonical''
      else
        let lowered = to_ascii_lowercase (gr_tool req) in
        if list_ex is_forbidden_suffix (segment_suffixes lowered) then
          Reject (''tool namespace '' @ [CHR 0x27] @ sanitize (gr_tool req) @ [CHR 0x27]
                  @ '' is outside the Enterprise boundary'')
        else if \<not> is_exposed lowered then
          Reject (''tool '' @ [CHR 0x27] @ sanitize (gr_tool req) @ [CHR 0x27]
                  @ '' is not in the Enterprise catalogue'')
        else Forward)"

lemmas gateway_lists = FORBIDDEN_PREFIXES_def FORBIDDEN_TOOLS_def ALLOWED_PREFIXES_def
  ALLOWED_TOOLS_def DECISION_TOOLS_def

subsection \<open>What a forwarded name satisfies\<close>

lemma classify_Forward_iff:
  "classify req = Forward \<longleftrightarrow>
     is_canonical_tool_name (gr_tool req) \<and>
     (\<forall>s\<in>set (segment_suffixes (to_ascii_lowercase (gr_tool req))). \<not> is_forbidden_suffix s) \<and>
     is_exposed (to_ascii_lowercase (gr_tool req))"
  by (auto simp: classify_def Let_def list_ex_iff)

lemma dot_suffixes_iff: "s \<in> set (dot_suffixes name) \<longleftrightarrow> (\<exists>pre. name = pre @ CHR ''.'' # s)"
proof (induction name)
  case Nil
  then show ?case by simp
next
  case (Cons c name)
  then show ?case by (auto simp: Cons_eq_append_conv)
qed

lemma segment_suffixes_iff:
  "s \<in> set (segment_suffixes name) \<longleftrightarrow> s = name \<or> (\<exists>pre. name = pre @ CHR ''.'' # s)"
  by (simp add: segment_suffixes_def dot_suffixes_iff)

lemma to_ascii_lowercase_append [simp]:
  "to_ascii_lowercase (a @ b) = to_ascii_lowercase a @ to_ascii_lowercase b"
  "to_ascii_lowercase [] = []"
  "to_ascii_lowercase (c # s) = to_ascii_lower c # to_ascii_lowercase s"
  by (simp_all add: to_ascii_lowercase_def)

text \<open>
  No spelling of a forbidden capability is forwarded: whatever its case and whatever exposed
  namespace precedes it.
\<close>

lemma forbidden_capability_rejected:
  assumes tool: "gr_tool req = pre @ cap"
    and boundary: "pre = [] \<or> (\<exists>q. pre = q @ ''.'')"
    and forbidden: "is_forbidden_suffix (to_ascii_lowercase cap)"
  shows "classify req \<noteq> Forward"
proof -
  have "to_ascii_lowercase cap \<in> set (segment_suffixes (to_ascii_lowercase (gr_tool req)))"
    using tool boundary
    by (auto simp: segment_suffixes_iff to_ascii_lower_def is_ascii_uppercase_def)
  with forbidden show ?thesis by (auto simp: classify_Forward_iff)
qed

lemma classify_Forward_bytes:
  assumes "classify req = Forward" and "c \<in> set (gr_tool req)"
  shows "is_ascii_lowercase c \<or> is_ascii_uppercase c \<or> is_ascii_digit c \<or> c = CHR ''_'' \<or> c = CHR ''.''"
  using assms dotted_name_bytes
  by (fastforce simp: classify_Forward_iff is_canonical_tool_name_def)

lemma classify_Forward_length: "classify req = Forward \<Longrightarrow> gr_tool req \<noteq> [] \<and> length (gr_tool req) \<le> 256"
  by (auto simp: classify_Forward_iff is_canonical_tool_name_def MAX_TOOL_NAME_BYTES_def)

end
