(* ===== verification/Administration.thy ===== *)
theory Administration
  imports Prelude
begin

section \<open>Administrative actions and legible reasons (crates/ccos-enterprise-admin)\<close>

text \<open>
  \<open>is_written_justification\<close> is the one definition of a readable reason in the product; the
  admission path calls it. \<open>validate\<close> lower-cases the action name over all of Unicode: the
  mapping of scalar values outside ASCII is the parameter \<open>lower\<close>, since the table belongs to
  the Unicode data and not to the source.
\<close>

record admin_action =
  adm_actor :: str
  adm_action :: str
  adm_target :: str
  adm_unix_time :: u64
  adm_justification :: "str option"

definition JUSTIFICATION_REQUIRED :: "str list" where
  "JUSTIFICATION_REQUIRED =
     [''tenant.delete'', ''tenant.suspend'', ''quota.override'', ''policy.disable'',
      ''license.revoke'']"

definition ZERO_WIDTH :: "nat list" where
  "ZERO_WIDTH =
     [0xAD, 0x61C, 0x180E, 0x200B, 0x200C, 0x200D, 0x200E, 0x200F, 0x202A, 0x202B, 0x202C,
      0x202D, 0x202E, 0x2060, 0x2061, 0x2800, 0x3164, 0xFEFF, 0xFFA0]"

definition lower_char :: "(nat \<Rightarrow> nat list) \<Rightarrow> nat \<Rightarrow> nat list" where
  "lower_char lower c = (if c < 128 then [if 65 \<le> c \<and> c \<le> 90 then c + 32 else c] else lower c)"

definition to_lowercase :: "(nat \<Rightarrow> nat list) \<Rightarrow> str \<Rightarrow> str" where
  "to_lowercase lower s = utf8_string (concat (map (lower_char lower) (utf8_chars s)))"

definition canonical_action :: "(nat \<Rightarrow> nat list) \<Rightarrow> str \<Rightarrow> str" where
  "canonical_action lower action = to_lowercase lower (trim action)"

definition is_canonical_action :: "str \<Rightarrow> bool" where
  "is_canonical_action action \<longleftrightarrow> action \<noteq> [] \<and> dotted_name is_name_byte action"

definition renders_blank :: "str \<Rightarrow> bool" where
  "renders_blank s =
     list_all (\<lambda>c. is_whitespace c \<or> is_control c \<or> c \<in> set ZERO_WIDTH) (utf8_chars s)"

definition is_written_justification :: "str option \<Rightarrow> bool" where
  "is_written_justification j = (case j of None \<Rightarrow> False | Some s \<Rightarrow> \<not> renders_blank s)"

definition validate :: "(nat \<Rightarrow> nat list) \<Rightarrow> admin_action \<Rightarrow> str + unit" where
  "validate lower a =
     (if adm_actor a = [] \<or> adm_action a = [] \<or> adm_target a = [] then
        Inl ''actor, action and target are required''
      else
        let action = canonical_action lower (adm_action a) in
        if \<not> is_canonical_action action then
          Inl ([CHR 0x27] @ adm_action a @ [CHR 0x27]
               @ '' is not a canonical action name (dot-separated [a-z0-9_]); ''
               @ ''a name that cannot be compared with the policy list is refused'')
        else if action \<in> set JUSTIFICATION_REQUIRED
                \<and> \<not> is_written_justification (adm_justification a) then
          Inl ([CHR 0x27] @ action @ [CHR 0x27] @ '' requires a written justification'')
        else Inr ())"

subsection \<open>Facts\<close>

lemma renders_blank_Nil [simp]: "renders_blank []"
  by (simp add: renders_blank_def)

lemma written_justification_iff:
  "is_written_justification j \<longleftrightarrow>
     (\<exists>s. j = Some s \<and> (\<exists>c\<in>set (utf8_chars s).
        \<not> is_whitespace c \<and> \<not> is_control c \<and> c \<notin> set ZERO_WIDTH))"
  by (auto simp: is_written_justification_def renders_blank_def list_all_iff split: option.splits)

lemma validate_ok_iff:
  "validate lower a = Inr () \<longleftrightarrow>
     adm_actor a \<noteq> [] \<and> adm_action a \<noteq> [] \<and> adm_target a \<noteq> [] \<and>
     is_canonical_action (canonical_action lower (adm_action a)) \<and>
     (canonical_action lower (adm_action a) \<in> set JUSTIFICATION_REQUIRED \<longrightarrow>
        is_written_justification (adm_justification a))"
  by (auto simp: validate_def Let_def)

end
