(* ===== verification/Observability.thy ===== *)
theory Observability
  imports Prelude
begin

section \<open>The bounded counter registry (crates/ccos-enterprise-observability)\<close>

text \<open>
  A bounded set of named counters with out-of-band gauges for what the bound refused. The
  invariant is the cardinality bound together with the validity of every stored name.
\<close>

record counter_registry =
  cr_counters :: "(str, u64) fmap"
  cr_dropped :: u64
  cr_dropped_events :: u64
  cr_refused :: u64

definition registry_empty :: counter_registry where
  "registry_empty = \<lparr>cr_counters = fmempty, cr_dropped = 0, cr_dropped_events = 0, cr_refused = 0\<rparr>"

definition MAX_SERIES :: nat where
  "MAX_SERIES = 4096"

definition MAX_NAME_BYTES :: nat where
  "MAX_NAME_BYTES = 128"

definition is_valid_name :: "str \<Rightarrow> bool" where
  "is_valid_name name \<longleftrightarrow>
     length name \<le> MAX_NAME_BYTES \<and>
     (case name of [] \<Rightarrow> False | b # _ \<Rightarrow> is_ascii_lowercase b) \<and>
     dotted_name is_name_byte name"

definition inc :: "counter_registry \<Rightarrow> str \<Rightarrow> u64 \<Rightarrow> counter_registry" where
  "inc r name by' =
     (if \<not> is_valid_name name then r\<lparr>cr_refused := sat_add (cr_refused r) 1\<rparr>
      else if MAX_SERIES \<le> fmlen (cr_counters r) \<and> \<not> fmcontains (cr_counters r) name then
        r\<lparr>cr_dropped := sat_add (cr_dropped r) 1,
          cr_dropped_events := sat_add (cr_dropped_events r) by'\<rparr>
      else
        r\<lparr>cr_counters :=
            fmupd name (sat_add (fmget_or (cr_counters r) name 0) by') (cr_counters r)\<rparr>)"

definition counter_get :: "counter_registry \<Rightarrow> str \<Rightarrow> u64" where
  "counter_get r name =
     (if name = ''_dropped'' then cr_dropped r
      else if name = ''_dropped_events'' then cr_dropped_events r
      else if name = ''_refused'' then cr_refused r
      else fmget_or (cr_counters r) name 0)"

definition series :: "counter_registry \<Rightarrow> nat" where
  "series r = fmlen (cr_counters r)"

definition export :: "counter_registry \<Rightarrow> (str \<times> u64) list" where
  "export r =
     [(''_dropped'', cr_dropped r), (''_dropped_events'', cr_dropped_events r),
      (''_refused'', cr_refused r)] @ sorted_list_of_fmap (cr_counters r)"

subsection \<open>Invariant\<close>

definition registry_wf :: "counter_registry \<Rightarrow> bool" where
  "registry_wf r \<longleftrightarrow>
     fmlen (cr_counters r) \<le> MAX_SERIES \<and> (\<forall>n. fmcontains (cr_counters r) n \<longrightarrow> is_valid_name n)"

lemma registry_wf_empty [simp]: "registry_wf registry_empty"
  by (simp add: registry_wf_def registry_empty_def)

lemma registry_wf_inc: "registry_wf r \<Longrightarrow> registry_wf (inc r name n)"
  by (auto simp: registry_wf_def inc_def fcard_finsert_if)

lemma valid_name_head: "is_valid_name name \<Longrightarrow> name \<noteq> [] \<and> is_ascii_lowercase (hd name)"
  by (auto simp: is_valid_name_def split: list.splits)

lemma gauge_names_invalid:
  "\<not> is_valid_name ''_dropped''" "\<not> is_valid_name ''_dropped_events''" "\<not> is_valid_name ''_refused''"
  by (auto dest!: valid_name_head simp: is_ascii_lowercase_def)

text \<open>Reading a counter back: an increment moves exactly the counter it names, by what it
  carries, and no caller-supplied name reaches a gauge.\<close>

lemma counter_get_inc:
  assumes "is_valid_name name"
    and "fmcontains (cr_counters r) name \<or> series r < MAX_SERIES"
  shows "counter_get (inc r name n) name = sat_add (counter_get r name) n"
    and "other \<noteq> name \<Longrightarrow> counter_get (inc r name n) other = counter_get r other"
  using assms gauge_names_invalid
  by (auto simp: counter_get_def inc_def series_def fmget_or_def)

lemma export_names: "map fst (export r) = ''_dropped'' # ''_dropped_events'' # ''_refused''
    # sorted_list_of_fset (fmdom (cr_counters r))"
  by (simp add: export_def)

end
