(* ===== verification/Qpages.thy ===== *)
theory Qpages
  imports Prelude
begin

section \<open>Advanced Q-Page variants (crates/ccos-enterprise-qpages)\<close>

text \<open>
  The activation registry and the activation policy of a tenant. The derived order of the
  enumeration is its declaration order; \<open>variant_debug\<close> is the derived \<open>Debug\<close> rendering used
  in journals and artifact hashes.
\<close>

datatype qpage_variant =
    Hierarchical | CausalChain | Probabilistic | MultiTenantFederated | TemporalWindowed
  | AuthorityWeighted | ConsensusMediated | CostBounded | ComplianceTagged | ExperimentalBridge

fun variant_rank :: "qpage_variant \<Rightarrow> nat" where
  "variant_rank Hierarchical = 0"
| "variant_rank CausalChain = 1"
| "variant_rank Probabilistic = 2"
| "variant_rank MultiTenantFederated = 3"
| "variant_rank TemporalWindowed = 4"
| "variant_rank AuthorityWeighted = 5"
| "variant_rank ConsensusMediated = 6"
| "variant_rank CostBounded = 7"
| "variant_rank ComplianceTagged = 8"
| "variant_rank ExperimentalBridge = 9"

lemma variant_rank_inj: "variant_rank a = variant_rank b \<Longrightarrow> a = b"
  by (cases a; cases b) auto

instantiation qpage_variant :: linorder
begin

definition less_eq_qpage_variant :: "qpage_variant \<Rightarrow> qpage_variant \<Rightarrow> bool" where
  "less_eq_qpage_variant a b \<longleftrightarrow> variant_rank a \<le> variant_rank b"

definition less_qpage_variant :: "qpage_variant \<Rightarrow> qpage_variant \<Rightarrow> bool" where
  "less_qpage_variant a b \<longleftrightarrow> variant_rank a < variant_rank b"

instance
  by standard
    (auto simp: less_eq_qpage_variant_def less_qpage_variant_def intro: variant_rank_inj)

end

fun variant_debug :: "qpage_variant \<Rightarrow> str" where
  "variant_debug Hierarchical = ''Hierarchical''"
| "variant_debug CausalChain = ''CausalChain''"
| "variant_debug Probabilistic = ''Probabilistic''"
| "variant_debug MultiTenantFederated = ''MultiTenantFederated''"
| "variant_debug TemporalWindowed = ''TemporalWindowed''"
| "variant_debug AuthorityWeighted = ''AuthorityWeighted''"
| "variant_debug ConsensusMediated = ''ConsensusMediated''"
| "variant_debug CostBounded = ''CostBounded''"
| "variant_debug ComplianceTagged = ''ComplianceTagged''"
| "variant_debug ExperimentalBridge = ''ExperimentalBridge''"

subsection \<open>The activation registry\<close>

datatype qpage_registry = QPageRegistry (active_set: "qpage_variant fset")

definition qpages_empty :: qpage_registry where
  "qpages_empty = QPageRegistry {||}"

definition activate :: "qpage_registry \<Rightarrow> qpage_variant \<Rightarrow> qpage_registry" where
  "activate r v = QPageRegistry (finsert v (active_set r))"

definition deactivate :: "qpage_registry \<Rightarrow> qpage_variant \<Rightarrow> qpage_registry" where
  "deactivate r v = QPageRegistry (active_set r |-| {|v|})"

definition is_active :: "qpage_registry \<Rightarrow> qpage_variant \<Rightarrow> bool" where
  "is_active r v \<longleftrightarrow> v |\<in>| active_set r"

definition active_count :: "qpage_registry \<Rightarrow> nat" where
  "active_count r = fcard (active_set r)"

definition active :: "qpage_registry \<Rightarrow> qpage_variant list" where
  "active r = sorted_list_of_fset (active_set r)"

subsection \<open>The activation policy\<close>

datatype activation_decision = ActAllowed | ActRequiresApproval | ActDenied

record variant_policy =
  vp_schema_version :: u32
  vp_permitted :: "qpage_variant fset"
  vp_bridge_opted_in :: bool

definition VARIANT_POLICY_SCHEMA :: u32 where
  "VARIANT_POLICY_SCHEMA = 1"

definition variant_policy_default :: variant_policy where
  "variant_policy_default =
     \<lparr>vp_schema_version = VARIANT_POLICY_SCHEMA, vp_permitted = {||}, vp_bridge_opted_in = False\<rparr>"

definition validate_variant_policy :: "variant_policy \<Rightarrow> str + unit" where
  "validate_variant_policy p =
     (if vp_schema_version p \<noteq> VARIANT_POLICY_SCHEMA then 
        Inl (''unsupported variant policy schema '' @ show_nat (unat (vp_schema_version p)))
      else Inr ())"

definition permit :: "variant_policy \<Rightarrow> qpage_variant \<Rightarrow> bool \<times> variant_policy" where
  "permit p v =
     (if v = ExperimentalBridge then (False, p)
      else (v |\<notin>| vp_permitted p, p\<lparr>vp_permitted := finsert v (vp_permitted p)\<rparr>))"

definition revoke_permit :: "variant_policy \<Rightarrow> qpage_variant \<Rightarrow> bool \<times> variant_policy" where
  "revoke_permit p v =
     (if v = ExperimentalBridge then (vp_bridge_opted_in p, p\<lparr>vp_bridge_opted_in := False\<rparr>)
      else (v |\<in>| vp_permitted p, p\<lparr>vp_permitted := vp_permitted p |-| {|v|}\<rparr>))"

definition opt_in_experimental_bridge :: "variant_policy \<Rightarrow> variant_policy" where
  "opt_in_experimental_bridge p = p\<lparr>vp_bridge_opted_in := True\<rparr>"

definition evaluate_variant :: "variant_policy \<Rightarrow> qpage_variant \<Rightarrow> activation_decision" where
  "evaluate_variant p v =
     (if v = ExperimentalBridge then
        (if \<not> vp_bridge_opted_in p then ActDenied else ActRequiresApproval)
      else if v |\<in>| vp_permitted p then ActAllowed else ActDenied)"

subsection \<open>Facts\<close>

lemma set_active [simp]: "set (active r) = fset (active_set r)"
  by (simp add: active_def)

lemma is_active_simps [simp]:
  "is_active (activate r v) w \<longleftrightarrow> w = v \<or> is_active r w"
  "is_active (deactivate r v) w \<longleftrightarrow> w \<noteq> v \<and> is_active r w"
  "\<not> is_active qpages_empty w"
  by (auto simp: is_active_def activate_def deactivate_def qpages_empty_def)

lemma variant_debug_inj: "variant_debug a = variant_debug b \<longleftrightarrow> a = b"
  by (cases a; cases b) simp_all

lemma evaluate_variant_bridge: "evaluate_variant p ExperimentalBridge \<noteq> ActAllowed"
  by (simp add: evaluate_variant_def)

lemma evaluate_variant_approval: "evaluate_variant p v = ActRequiresApproval \<Longrightarrow> v = ExperimentalBridge"
  by (simp add: evaluate_variant_def split: if_splits)

lemma evaluate_default [simp]: "evaluate_variant variant_policy_default v = ActDenied"
  by (simp add: evaluate_variant_def variant_policy_default_def)

lemma evaluate_permit:
  "evaluate_variant (snd (permit p v)) w =
     (if w = v \<and> v \<noteq> ExperimentalBridge then ActAllowed else evaluate_variant p w)"
  by (auto simp: evaluate_variant_def permit_def)

lemma evaluate_revoke_permit:
  "evaluate_variant (snd (revoke_permit p v)) w =
     (if w = v then ActDenied else evaluate_variant p w)"
  by (auto simp: evaluate_variant_def revoke_permit_def)

lemma revoke_permit_changed: "fst (revoke_permit p v) \<longleftrightarrow> evaluate_variant p v \<noteq> ActDenied"
  by (auto simp: evaluate_variant_def revoke_permit_def)

lemma evaluate_opt_in:
  "evaluate_variant (opt_in_experimental_bridge p) w =
     (if w = ExperimentalBridge then ActRequiresApproval else evaluate_variant p w)"
  by (auto simp: evaluate_variant_def opt_in_experimental_bridge_def)

lemma policy_schema_simps [simp]:
  "vp_schema_version (snd (permit p v)) = vp_schema_version p"
  "vp_schema_version (snd (revoke_permit p v)) = vp_schema_version p"
  "vp_schema_version (opt_in_experimental_bridge p) = vp_schema_version p"
  by (simp_all add: permit_def revoke_permit_def opt_in_experimental_bridge_def)

end
