(* ===== verification/Approval.thy ===== *)
theory Approval
  imports Prelude Tenancy Administration
begin

section \<open>Durable human approval (crates/ccos-enterprise-approval)\<close>

text \<open>
  Approval requests, their content-bound identities, the registry with its authorization gate,
  and the store that keeps the registry in two files. The SHA-256 function of the crate \<open>sha2\<close>
  is the parameter \<open>sha\<close>; the JSON codec of the store is a parameter of the file operations.
  The crate repeats \<open>ZERO_WIDTH\<close> and \<open>renders_blank\<close> of the administration crate verbatim, so
  the model uses the definitions of the theory \<open>Administration\<close>.
\<close>

datatype approval_decision = Approved | Denied

record approval_record =
  ap_id :: str
  ap_tenant :: str
  ap_approver :: str
  ap_action :: str
  ap_artifact_hash :: str
  ap_decision :: approval_decision
  ap_recorded_at :: u64
  ap_expires_at :: "u64 option"
  ap_justification :: "str option"
  ap_schema_version :: u32

record revocation_record =
  rv_approval_id :: str
  rv_revoked_by :: str
  rv_revoked_at :: u64
  rv_justification :: str

record approval_snapshot =
  sn_schema_version :: u32
  sn_approvals :: "(str, approval_record) fmap"
  sn_revocations :: "(str, revocation_record) fmap"

definition APPROVAL_SCHEMA :: u32 where
  "APPROVAL_SCHEMA = 1"

definition MAX_ACTION_BYTES :: nat where
  "MAX_ACTION_BYTES = 128"

definition MAX_APPROVER_BYTES :: nat where
  "MAX_APPROVER_BYTES = 256"

definition MAX_JUSTIFICATION_BYTES :: nat where
  "MAX_JUSTIFICATION_BYTES = 4096"

definition approval_snapshot_default :: approval_snapshot where
  "approval_snapshot_default =
     \<lparr>sn_schema_version = APPROVAL_SCHEMA, sn_approvals = fmempty, sn_revocations = fmempty\<rparr>"

datatype approval_error =
    Invalid str
  | UnsupportedSchema u32
  | AlreadyExists str
  | Unknown str
  | AlreadyRevoked str
  | AuditUnavailable
  | ApprovalIo str str
  | Corrupt str str

fun approval_error_display :: "approval_error \<Rightarrow> str" where
  "approval_error_display (Invalid detail) = ''invalid approval: '' @ detail"
| "approval_error_display (UnsupportedSchema found) =
     ''unsupported approval schema '' @ show_nat (unat found)"
| "approval_error_display (AlreadyExists i) = ''approval '' @ i @ '' already exists''"
| "approval_error_display (Unknown i) = ''unknown approval '' @ i"
| "approval_error_display (AlreadyRevoked i) = ''approval '' @ i @ '' is already revoked''"
| "approval_error_display AuditUnavailable = ''approval audit trail is unavailable''"
| "approval_error_display (ApprovalIo path source) = path @ '': '' @ source"
| "approval_error_display (Corrupt path detail) =
     path @ '': approval state is corrupt: '' @ detail"

subsection \<open>Shapes\<close>

definition is_sha256_hex :: "str \<Rightarrow> bool" where
  "is_sha256_hex s \<longleftrightarrow> length s = 64 \<and> list_all is_hex_byte s"

definition approval_canonical_action :: "str \<Rightarrow> bool" where
  "approval_canonical_action action \<longleftrightarrow>
     action \<noteq> [] \<and> length action \<le> MAX_ACTION_BYTES \<and> dotted_name is_name_byte action"

definition legible_bounded :: "str \<Rightarrow> nat \<Rightarrow> bool" where
  "legible_bounded s mx \<longleftrightarrow> s \<noteq> [] \<and> length s \<le> mx \<and> \<not> renders_blank s"

subsection \<open>Requests\<close>

record approval_request =
  rq_tenant :: tenant_id
  rq_action :: str
  rq_artifact_hash :: str
  rq_approver :: str
  rq_decision :: approval_decision
  rq_recorded_at :: u64
  rq_expires_at :: "u64 option"
  rq_justification :: str

definition expired_at :: "u64 option \<Rightarrow> u64 \<Rightarrow> bool" where
  "expired_at e now = (case e of None \<Rightarrow> False | Some x \<Rightarrow> x \<le> now)"

definition approval_request_new ::
  "tenant_id \<Rightarrow> str \<Rightarrow> str \<Rightarrow> str \<Rightarrow> approval_decision \<Rightarrow> u64 \<Rightarrow> u64 option \<Rightarrow> str
     \<Rightarrow> approval_error + approval_request" where
  "approval_request_new tenant action artifact approver decision at ex just =
     (if as_str tenant = [] \<or> 128 < length (as_str tenant)
         \<or> \<not> list_all is_identifier_byte (as_str tenant) then
        Inl (Invalid ''tenant must be a canonical identifier'')
      else if \<not> approval_canonical_action action then
        Inl (Invalid ''action must be canonical dot-separated [a-z0-9_]'')
      else if \<not> is_sha256_hex artifact then
        Inl (Invalid ''artifact_hash must be 64 lowercase hex characters'')
      else if \<not> legible_bounded approver MAX_APPROVER_BYTES then
        Inl (Invalid ''approver must be bounded and legible'')
      else if \<not> legible_bounded just MAX_JUSTIFICATION_BYTES then
        Inl (Invalid ''justification must be bounded and legible'')
      else if expired_at ex at then
        Inl (Invalid ''expiry must be after the recording time'')
      else Inr \<lparr>rq_tenant = tenant, rq_action = action, rq_artifact_hash = artifact,
                rq_approver = approver, rq_decision = decision, rq_recorded_at = at,
                rq_expires_at = ex, rq_justification = just\<rparr>)"

fun decision_tag :: "approval_decision \<Rightarrow> str" where
  "decision_tag Approved = ''approved''"
| "decision_tag Denied = ''denied''"

definition request_fields :: "approval_request \<Rightarrow> str list" where
  "request_fields r =
     [''ccos-enterprise-approval-v2'', as_str (rq_tenant r), rq_action r, rq_artifact_hash r,
      rq_approver r, decision_tag (rq_decision r), be64 (unat (rq_recorded_at r)),
      (case rq_expires_at r of None \<Rightarrow> [CHR 0x00] | Some _ \<Rightarrow> [CHR 0x01]),
      be64 (unat (case rq_expires_at r of None \<Rightarrow> 0 | Some e \<Rightarrow> e)), rq_justification r]"

definition request_id :: "(str \<Rightarrow> str) \<Rightarrow> approval_request \<Rightarrow> str" where
  "request_id sha r = ''approval-v2-'' @ hex (sha (framed (request_fields r)))"

definition legacy_id :: "(str \<Rightarrow> str) \<Rightarrow> approval_request \<Rightarrow> str" where
  "legacy_id sha r =
     ''approval-v1-'' @ hex (sha (framed
       [''ccos-enterprise-approval-v1'', as_str (rq_tenant r), rq_action r,
        rq_artifact_hash r, rq_approver r]))"

subsection \<open>Validation of records\<close>

definition request_from_record :: "approval_record \<Rightarrow> approval_error + approval_request" where
  "request_from_record rec =
     (case tenant_new (ap_tenant rec) of
        None \<Rightarrow> Inl (Invalid ''approval record tenant is not canonical'')
      | Some t \<Rightarrow>
          approval_request_new t (ap_action rec) (ap_artifact_hash rec) (ap_approver rec)
            (ap_decision rec) (ap_recorded_at rec) (ap_expires_at rec)
            (case ap_justification rec of None \<Rightarrow> [] | Some j \<Rightarrow> j))"

definition validate_record :: "(str \<Rightarrow> str) \<Rightarrow> approval_record \<Rightarrow> approval_error + unit" where
  "validate_record sha rec =
     (if ap_schema_version rec \<noteq> APPROVAL_SCHEMA then
        Inl (UnsupportedSchema (ap_schema_version rec))
      else
        res_bind (request_from_record rec) (\<lambda>request.
          let matches =
            (if starts_with (ap_id rec) ''approval-v2-'' then request_id sha request = ap_id rec
             else if starts_with (ap_id rec) ''approval-v1-'' then legacy_id sha request = ap_id rec
             else False)
          in if \<not> matches then Inl (Invalid ''approval id does not match its fields'')
             else Inr ()))"

definition validate_revocation_shape :: "revocation_record \<Rightarrow> approval_error + unit" where
  "validate_revocation_shape rv =
     (if \<not> (starts_with (rv_approval_id rv) ''approval-v1-''
             \<or> starts_with (rv_approval_id rv) ''approval-v2-'')
         \<or> \<not> legible_bounded (rv_revoked_by rv) MAX_APPROVER_BYTES
         \<or> \<not> legible_bounded (rv_justification rv) MAX_JUSTIFICATION_BYTES
      then Inl (Invalid ''malformed revocation record'') else Inr ())"

definition validate_revocation ::
  "approval_snapshot \<Rightarrow> str \<Rightarrow> revocation_record \<Rightarrow> approval_error + unit" where
  "validate_revocation snap key rv =
     res_bind (validate_revocation_shape rv) (\<lambda>_.
       if key \<noteq> rv_approval_id rv then
         Inl (Invalid ''revocation map key does not match approval id'')
       else case fmlookup (sn_approvals snap) (rv_approval_id rv) of
           None \<Rightarrow> Inl (Unknown (rv_approval_id rv))
         | Some a \<Rightarrow>
             if ap_decision a \<noteq> Approved then
               Inl (Invalid ''a denied approval cannot be revoked'')
             else Inr ())"

subsection \<open>The registry\<close>

record approval_query =
  q_tenant :: tenant_id
  q_action :: str
  q_artifact_hash :: str
  q_now :: u64

datatype gate_outcome =
    GateApproved | GateDenied | ArtifactMismatch str | GateExpired | GateRevoked

datatype approval_registry = ApprovalRegistry (registry_snapshot: approval_snapshot)

definition approval_registry_new :: approval_registry where
  "approval_registry_new = ApprovalRegistry approval_snapshot_default"

definition check_snapshot_record ::
  "(str \<Rightarrow> str) \<Rightarrow> str \<times> approval_record \<Rightarrow> approval_error + unit" where
  "check_snapshot_record sha e =
     (if fst e \<noteq> ap_id (snd e) then Inl (Invalid ''approval map key does not match record id'')
      else validate_record sha (snd e))"

definition from_snapshot ::
  "(str \<Rightarrow> str) \<Rightarrow> approval_snapshot \<Rightarrow> approval_error + approval_registry" where
  "from_snapshot sha snap =
     (if sn_schema_version snap \<noteq> APPROVAL_SCHEMA then
        Inl (UnsupportedSchema (sn_schema_version snap))
      else
        res_bind (res_check (check_snapshot_record sha) (sorted_list_of_fmap (sn_approvals snap)))
          (\<lambda>_. res_bind
            (res_check (\<lambda>(k, rv). validate_revocation snap k rv)
               (sorted_list_of_fmap (sn_revocations snap)))
            (\<lambda>_. Inr (ApprovalRegistry snap))))"

definition is_revoked :: "approval_registry \<Rightarrow> str \<Rightarrow> bool" where
  "is_revoked reg i = fmcontains (sn_revocations (registry_snapshot reg)) i"

definition record_of_request :: "(str \<Rightarrow> str) \<Rightarrow> approval_request \<Rightarrow> approval_record" where
  "record_of_request sha r =
     \<lparr>ap_id = request_id sha r, ap_tenant = as_str (rq_tenant r), ap_approver = rq_approver r,
      ap_action = rq_action r, ap_artifact_hash = rq_artifact_hash r,
      ap_decision = rq_decision r, ap_recorded_at = rq_recorded_at r,
      ap_expires_at = rq_expires_at r, ap_justification = Some (rq_justification r),
      ap_schema_version = APPROVAL_SCHEMA\<rparr>"

definition record_approval_in ::
  "(str \<Rightarrow> str) \<Rightarrow> approval_registry \<Rightarrow> approval_request
     \<Rightarrow> (approval_error + str) \<times> approval_registry" where
  "record_approval_in sha reg request =
     (let i = request_id sha request; snap = registry_snapshot reg in
      if fmcontains (sn_approvals snap) i then (Inl (AlreadyExists i), reg)
      else
        let rec = record_of_request sha request in
        case validate_record sha rec of
          Inl e \<Rightarrow> (Inl e, reg)
        | Inr _ \<Rightarrow>
            (Inr i, ApprovalRegistry (snap\<lparr>sn_approvals := fmupd i rec (sn_approvals snap)\<rparr>)))"

fun evaluate_loop ::
  "approval_registry \<Rightarrow> approval_query \<Rightarrow> approval_record list \<Rightarrow> str option \<Rightarrow> gate_outcome" where
  "evaluate_loop reg q [] saw =
     (case saw of Some found \<Rightarrow> ArtifactMismatch found | None \<Rightarrow> GateDenied)"
| "evaluate_loop reg q (rec # recs) saw =
     (if ap_tenant rec \<noteq> as_str (q_tenant q) \<or> ap_action rec \<noteq> q_action q then
        evaluate_loop reg q recs saw
      else if ap_artifact_hash rec \<noteq> q_artifact_hash q then
        evaluate_loop reg q recs (Some (ap_artifact_hash rec))
      else if \<not> starts_with (ap_id rec) ''approval-v2-'' \<or> ap_decision rec \<noteq> Approved then
        evaluate_loop reg q recs saw
      else if is_revoked reg (ap_id rec) then GateRevoked
      else if expired_at (ap_expires_at rec) (q_now q) then GateExpired
      else GateApproved)"

definition evaluate :: "approval_registry \<Rightarrow> approval_query \<Rightarrow> gate_outcome" where
  "evaluate reg q =
     (if \<not> approval_canonical_action (q_action q) \<or> \<not> is_sha256_hex (q_artifact_hash q) then GateDenied
      else evaluate_loop reg q
             (map snd (rev (sorted_list_of_fmap (sn_approvals (registry_snapshot reg))))) None)"

definition evaluate_id :: "approval_registry \<Rightarrow> str \<Rightarrow> approval_query \<Rightarrow> gate_outcome" where
  "evaluate_id reg i q =
     (if \<not> approval_canonical_action (q_action q) \<or> \<not> is_sha256_hex (q_artifact_hash q) then GateDenied
      else case fmlookup (sn_approvals (registry_snapshot reg)) i of
          None \<Rightarrow> GateDenied
        | Some rec \<Rightarrow>
            if ap_tenant rec \<noteq> as_str (q_tenant q) \<or> ap_action rec \<noteq> q_action q then GateDenied
            else if ap_artifact_hash rec \<noteq> q_artifact_hash q then
              ArtifactMismatch (ap_artifact_hash rec)
            else if \<not> starts_with (ap_id rec) ''approval-v2-'' \<or> ap_decision rec \<noteq> Approved then
              GateDenied
            else if is_revoked reg i then GateRevoked
            else if expired_at (ap_expires_at rec) (q_now q) then GateExpired
            else GateApproved)"

definition revoke ::
  "approval_registry \<Rightarrow> str \<Rightarrow> str \<Rightarrow> u64 \<Rightarrow> str \<Rightarrow> (approval_error + unit) \<times> approval_registry" where
  "revoke reg i revoked_by at just =
     (let snap = registry_snapshot reg in
      if is_revoked reg i then (Inl (AlreadyRevoked i), reg)
      else case fmlookup (sn_approvals snap) i of
          None \<Rightarrow> (Inl (Unknown i), reg)
        | Some a \<Rightarrow>
            if ap_decision a \<noteq> Approved then
              (Inl (Invalid ''a denied approval cannot be revoked''), reg)
            else
              let rv = \<lparr>rv_approval_id = i, rv_revoked_by = revoked_by, rv_revoked_at = at,
                        rv_justification = just\<rparr> in
              case validate_revocation_shape rv of
                Inl e \<Rightarrow> (Inl e, reg)
              | Inr _ \<Rightarrow>
                  (Inr (), ApprovalRegistry
                     (snap\<lparr>sn_revocations := fmupd i rv (sn_revocations snap)\<rparr>)))"

subsection \<open>Well-formed registries\<close>

text \<open>A registry is well formed when its own snapshot would load: \<open>registry_valid\<close> is the
  invariant, stated by the code's own validator.\<close>

definition registry_valid :: "(str \<Rightarrow> str) \<Rightarrow> approval_registry \<Rightarrow> bool" where
  "registry_valid sha reg \<longleftrightarrow> from_snapshot sha (registry_snapshot reg) = Inr reg"

lemma check_snapshot_record_ok:
  "check_snapshot_record sha e = Inr () \<longleftrightarrow>
     fst e = ap_id (snd e) \<and> validate_record sha (snd e) = Inr ()"
  by (simp add: check_snapshot_record_def)

lemma registry_valid_iff:
  "registry_valid sha reg \<longleftrightarrow>
     sn_schema_version (registry_snapshot reg) = APPROVAL_SCHEMA \<and>
     (\<forall>i rec. fmlookup (sn_approvals (registry_snapshot reg)) i = Some rec \<longrightarrow>
        i = ap_id rec \<and> validate_record sha rec = Inr ()) \<and>
     (\<forall>k rv. fmlookup (sn_revocations (registry_snapshot reg)) k = Some rv \<longrightarrow>
        validate_revocation (registry_snapshot reg) k rv = Inr ())"
  by (cases reg)
    (auto simp: registry_valid_def from_snapshot_def res_check_ok_iff check_snapshot_record_ok
      split: if_splits)

lemma from_snapshot_valid: "from_snapshot sha snap = Inr reg \<Longrightarrow> registry_valid sha reg"
  by (auto simp: registry_valid_def from_snapshot_def split: if_splits)

lemma registry_valid_roundtrip:
  "registry_valid sha reg \<Longrightarrow> from_snapshot sha (registry_snapshot reg) = Inr reg"
  by (simp add: registry_valid_def)

lemma registry_valid_new [simp]: "registry_valid sha approval_registry_new"
  by (simp add: registry_valid_iff approval_registry_new_def approval_snapshot_default_def)

lemma validate_revocation_mono:
  assumes "validate_revocation snap k rv = Inr ()" and "fmlookup (sn_approvals snap) i = None"
  shows "validate_revocation (snap\<lparr>sn_approvals := fmupd i a (sn_approvals snap)\<rparr>) k rv = Inr ()"
  using assms by (auto simp: validate_revocation_def split: if_splits option.splits)

lemma registry_valid_record:
  assumes "registry_valid sha reg"
  shows "registry_valid sha (snd (record_approval_in sha reg request))"
proof (cases "fst (record_approval_in sha reg request)")
  case (Inl e)
  then have "snd (record_approval_in sha reg request) = reg"
    by (auto simp: record_approval_in_def Let_def split: if_splits sum.splits)
  with assms show ?thesis by simp
next
  case (Inr i)
  let ?rec = "record_of_request sha request" and ?snap = "registry_snapshot reg"
  from Inr have new: "i = request_id sha request" "fmlookup (sn_approvals ?snap) i = None"
      "validate_record sha ?rec = Inr ()"
      "snd (record_approval_in sha reg request) =
         ApprovalRegistry (?snap\<lparr>sn_approvals := fmupd i ?rec (sn_approvals ?snap)\<rparr>)"
    by (auto simp: record_approval_in_def Let_def fmcontains_iff split: if_splits sum.splits)
  have "ap_id ?rec = i" by (simp add: new(1) record_of_request_def)
  with new assms show ?thesis
    by (auto simp: registry_valid_iff intro: validate_revocation_mono)
qed

lemma registry_valid_revoke:
  assumes "registry_valid sha reg"
  shows "registry_valid sha (snd (revoke reg i by' at just))"
proof (cases "fst (revoke reg i by' at just)")
  case (Inl e)
  then have "snd (revoke reg i by' at just) = reg"
    by (auto simp: revoke_def Let_def split: if_splits sum.splits option.splits)
  with assms show ?thesis by simp
next
  case (Inr u)
  let ?snap = "registry_snapshot reg"
  let ?rv = "\<lparr>rv_approval_id = i, rv_revoked_by = by', rv_revoked_at = at, rv_justification = just\<rparr>"
  from Inr obtain a where a: "fmlookup (sn_approvals ?snap) i = Some a" "ap_decision a = Approved"
      "validate_revocation_shape ?rv = Inr ()"
      "snd (revoke reg i by' at just) =
         ApprovalRegistry (?snap\<lparr>sn_revocations := fmupd i ?rv (sn_revocations ?snap)\<rparr>)"
    by (auto simp: revoke_def Let_def split: if_splits sum.splits option.splits)
  have frame: "validate_revocation (?snap\<lparr>sn_revocations := m\<rparr>) k rv = validate_revocation ?snap k rv"
    for m k rv by (simp add: validate_revocation_def)
  have "validate_revocation ?snap i ?rv = Inr ()"
    using a by (simp add: validate_revocation_def)
  with a assms show ?thesis by (auto simp: registry_valid_iff frame)
qed

subsection \<open>The gate\<close>

text \<open>An approval that is live for a query: recorded, version two, approving, bound to exactly
  the query's tenant, action and artifact, not revoked and not expired.\<close>

definition live_for :: "approval_registry \<Rightarrow> approval_query \<Rightarrow> approval_record \<Rightarrow> bool" where
  "live_for reg q rec \<longleftrightarrow>
     ap_tenant rec = as_str (q_tenant q) \<and> ap_action rec = q_action q \<and>
     ap_artifact_hash rec = q_artifact_hash q \<and> starts_with (ap_id rec) ''approval-v2-'' \<and>
     ap_decision rec = Approved \<and> \<not> is_revoked reg (ap_id rec) \<and>
     \<not> expired_at (ap_expires_at rec) (q_now q)"

lemma evaluate_loop_Approved:
  "evaluate_loop reg q recs saw = GateApproved \<Longrightarrow> \<exists>rec\<in>set recs. live_for reg q rec"
  by (induction reg q recs saw rule: evaluate_loop.induct)
    (auto simp: live_for_def split: option.splits if_splits)

lemma evaluate_Approved:
  assumes "evaluate reg q = GateApproved"
  shows "\<exists>i rec. fmlookup (sn_approvals (registry_snapshot reg)) i = Some rec \<and> live_for reg q rec"
  using assms evaluate_loop_Approved by (fastforce simp: evaluate_def split: if_splits)

lemma evaluate_id_Approved_iff:
  assumes "registry_valid sha reg"
  shows "evaluate_id reg i q = GateApproved \<longleftrightarrow>
     approval_canonical_action (q_action q) \<and> is_sha256_hex (q_artifact_hash q) \<and>
     (\<exists>rec. fmlookup (sn_approvals (registry_snapshot reg)) i = Some rec \<and> live_for reg q rec)"
  using assms by (auto simp: evaluate_id_def live_for_def registry_valid_iff split: option.splits)

lemma revoked_never_approved:
  assumes "fst (revoke reg i by' at just) = Inr ()"
  shows "evaluate_id (snd (revoke reg i by' at just)) i q \<noteq> GateApproved"
  using assms
  by (auto simp: revoke_def Let_def evaluate_id_def is_revoked_def split: if_splits option.splits sum.splits)

subsection \<open>What an identity binds\<close>

lemma decision_tag_inj: "decision_tag a = decision_tag b \<longleftrightarrow> a = b"
  by (cases a; cases b) auto

lemma be64_u64_inj: "be64 (unat (a :: u64)) = be64 (unat b) \<longleftrightarrow> a = b"
  using be64_inj [of "unat a" "unat b"] by (auto simp: word_unat_eq_iff)

lemma request_fields_inj: "request_fields a = request_fields b \<Longrightarrow> a = b"
  by (auto simp: request_fields_def decision_tag_inj be64_u64_inj
      intro!: approval_request.equality tenant_id.expand split: option.splits)

text \<open>Two requests with one identity are one request, unless the two byte strings hashed for
  them are a collision of the hash function.\<close>

lemma request_id_binds:
  assumes "request_id sha a = request_id sha b"
    and "\<forall>f\<in>set (request_fields a) \<union> set (request_fields b). length f < 2 ^ 64"
    and "sha (framed (request_fields a)) = sha (framed (request_fields b)) \<Longrightarrow>
      framed (request_fields a) = framed (request_fields b)"
  shows "a = b"
proof -
  have "framed (request_fields a) = framed (request_fields b)"
    using assms(1,3) by (simp add: request_id_def hex_inj)
  then have "request_fields a = request_fields b"
    using assms(2) by (intro framed_inj) (simp_all add: request_fields_def)
  then show ?thesis by (rule request_fields_inj)
qed

lemma legacy_id_unbound:
  "legacy_id sha (r\<lparr>rq_decision := d, rq_recorded_at := t, rq_expires_at := e, rq_justification := j\<rparr>)
     = legacy_id sha r"
  by (simp add: legacy_id_def)

end
