(* ===== verification/Replay.thy ===== *)
theory Replay
  imports Prelude Tenancy
begin

section \<open>Replay memory (Deployment::remember, crates/ccos-enterprise-runtime)\<close>

text \<open>
  The bounded memory of decided request ids. The source keeps it in three fields of
  \<open>Deployment\<close> (\<open>decided\<close>, \<open>decided_order\<close>, \<open>decided_per_tenant\<close>); the model groups them in
  one record. \<open>share_loop\<close> and \<open>order_loop\<close> are the two \<open>while\<close> loops of \<open>remember\<close>: the
  eviction from the tenant's own queue past its share, and the eviction of the oldest entries
  past the global bound.
\<close>

type_synonym replay_key = "tenant_id \<times> str"

record replay_state =
  rp_decided :: "replay_key fset"
  rp_order :: "replay_key list"
  rp_per_tenant :: "(tenant_id, str list) fmap"

definition replay_empty :: replay_state where
  "replay_empty = \<lparr>rp_decided = {||}, rp_order = [], rp_per_tenant = fmempty\<rparr>"

definition replay_share :: "nat \<Rightarrow> nat \<Rightarrow> nat" where
  "replay_share mem tenants = max (mem div max tenants 1) 1"

fun share_loop ::
  "nat \<Rightarrow> tenant_id \<Rightarrow> str list \<Rightarrow> replay_key fset \<Rightarrow> str list \<times> replay_key fset" where
  "share_loop share t [] dec = ([], dec)"
| "share_loop share t (old # q) dec =
     (if share < length (old # q) then share_loop share t q (dec |-| {|(t, old)|})
      else (old # q, dec))"

definition forget_queued ::
  "(tenant_id, str list) fmap \<Rightarrow> replay_key \<Rightarrow> (tenant_id, str list) fmap" where
  "forget_queued per old =
     (case fmlookup per (fst old) of
        None \<Rightarrow> per
      | Some q \<Rightarrow> fmupd (fst old) (remove1 (snd old) q) per)"

fun order_loop ::
  "nat \<Rightarrow> replay_key list \<Rightarrow> replay_key fset \<Rightarrow> (tenant_id, str list) fmap
     \<Rightarrow> replay_key list \<times> replay_key fset \<times> (tenant_id, str list) fmap" where
  "order_loop mem [] dec per = ([], dec, per)"
| "order_loop mem (old # order) dec per =
     (if mem \<le> length (old # order) then
        (if old |\<in>| dec then order_loop mem order (dec |-| {|old|}) (forget_queued per old)
         else order_loop mem order dec per)
      else (old # order, dec, per))"

definition remember :: "nat \<Rightarrow> nat \<Rightarrow> replay_key \<Rightarrow> replay_state \<Rightarrow> replay_state" where
  "remember mem tenants key rp =
     (if mem = 0 then rp
      else if key |\<in>| rp_decided rp then rp
      else
        let (t, i) = key;
            queue = fmget_or (rp_per_tenant rp) t [] @ [i];
            (queue', dec) = share_loop (replay_share mem tenants) t queue
                              (finsert key (rp_decided rp));
            (order, dec', per) = order_loop mem (rp_order rp) dec
                                   (fmupd t queue' (rp_per_tenant rp))
        in \<lparr>rp_decided = dec', rp_order = order @ [key], rp_per_tenant = per\<rparr>)"

subsection \<open>Invariant\<close>

text \<open>
  The queues hold exactly the remembered ids, without repetition; every remembered id is in the
  global order; and the global order is no longer than the bound.
\<close>

definition queued :: "(tenant_id, str list) fmap \<Rightarrow> replay_key set" where
  "queued per = {(t, i). i \<in> set (fmget_or per t [])}"

definition queues_match :: "replay_key fset \<Rightarrow> (tenant_id, str list) fmap \<Rightarrow> bool" where
  "queues_match dec per \<longleftrightarrow> fset dec = queued per \<and> (\<forall>q. q |\<in>| fmran per \<longrightarrow> distinct q)"

definition replay_wf :: "nat \<Rightarrow> replay_state \<Rightarrow> bool" where
  "replay_wf mem rp \<longleftrightarrow>
     queues_match (rp_decided rp) (rp_per_tenant rp) \<and>
     fset (rp_decided rp) \<subseteq> set (rp_order rp) \<and> length (rp_order rp) \<le> mem"

lemma queued_simps [simp]:
  "queued fmempty = {}"
  "queued (fmupd t q per) = {(s, i) \<in> queued per. s \<noteq> t} \<union> {(t, i) | i. i \<in> set q}"
  by (auto simp: queued_def split: if_splits)

lemma queues_matchI:
  assumes "fset dec = queued per" and "\<And>t q. fmlookup per t = Some q \<Longrightarrow> distinct q"
  shows "queues_match dec per"
  using assms by (auto simp: queues_match_def fmlookup_ran_iff)

lemma queues_matchD:
  "queues_match dec per \<Longrightarrow> fset dec = queued per"
  "queues_match dec per \<Longrightarrow> fmlookup per t = Some q \<Longrightarrow> distinct q"
  by (auto simp: queues_match_def fmlookup_ran_iff)

lemma replay_wf_empty [simp]: "replay_wf mem replay_empty"
  by (auto simp: replay_wf_def replay_empty_def intro!: queues_matchI)

lemma share_loop_spec:
  assumes "share_loop share t q dec = (q', dec')" and "distinct q" and "0 < share"
  shows "q' = drop (length q - share) q
    \<and> fset dec' = fset dec - {(t, i) | i. i \<in> set (take (length q - share) q)}"
  using assms
proof (induction share t q dec rule: share_loop.induct)
  case (1 share t dec)
  then show ?case by simp
next
  case (2 share t old q dec)
  show ?case
  proof (cases "share < length (old # q)")
    case True
    with 2 have "q' = drop (length q - share) q
      \<and> fset dec' = fset (dec |-| {|(t, old)|}) - {(t, i) | i. i \<in> set (take (length q - share) q)}"
      by simp
    moreover have "length (old # q) - share = Suc (length q - share)" using True by simp
    ultimately show ?thesis by auto
  next
    case False
    with 2 show ?thesis by auto
  qed
qed

lemma forget_queued_match:
  assumes "queues_match dec per" and "old |\<in>| dec"
  shows "queues_match (dec |-| {|old|}) (forget_queued per old)"
proof -
  obtain t i where old: "old = (t, i)" by (cases old)
  from assms have "(t, i) \<in> queued per" by (simp add: queues_match_def old)
  then obtain q where q: "fmlookup per t = Some q" "i \<in> set q"
    by (cases "fmlookup per t") (auto simp: queued_def fmget_or_def)
  have d: "distinct q" using assms(1) q(1) by (rule queues_matchD(2))
  show ?thesis
  proof (rule queues_matchI)
    show "fset (dec |-| {|old|}) = queued (forget_queued per old)"
      using queues_matchD(1) [OF assms(1)] d q
      by (auto simp: forget_queued_def old queued_def set_remove1_eq split: if_splits)
  next
    fix s q'
    assume "fmlookup (forget_queued per old) s = Some q'"
    then show "distinct q'"
      using d q(1) queues_matchD(2) [OF assms(1)]
      by (auto simp: forget_queued_def old distinct_remove1 split: if_splits)
  qed
qed

lemma order_loop_match:
  "queues_match dec per \<Longrightarrow> order_loop mem order dec per = (order', dec', per') \<Longrightarrow>
     queues_match dec' per'"
  by (induction mem order dec per rule: order_loop.induct)
    (auto simp: forget_queued_match split: if_splits)

lemma order_loop_order:
  "order_loop mem order dec per = (order', dec', per') \<Longrightarrow> 0 < mem \<Longrightarrow>
     order' = drop (Suc (length order) - mem) order"
proof (induction mem order dec per rule: order_loop.induct)
  case (1 mem dec per)
  then show ?case by simp
next
  case (2 mem old order dec per)
  show ?case
  proof (cases "mem \<le> length (old # order)")
    case True
    with 2 have "order' = drop (Suc (length order) - mem) order"
      by (auto split: if_splits)
    moreover have "Suc (length (old # order)) - mem = Suc (Suc (length order) - mem)"
      using True by simp
    ultimately show ?thesis by simp
  next
    case False
    with 2 have "order' = old # order" by simp
    with False show ?thesis by simp
  qed
qed

lemma order_loop_decided:
  "order_loop mem order dec per = (order', dec', per') \<Longrightarrow> 0 < mem \<Longrightarrow>
     fset dec' = fset dec - set (take (Suc (length order) - mem) order)"
proof (induction mem order dec per rule: order_loop.induct)
  case (1 mem dec per)
  then show ?case by simp
next
  case (2 mem old order dec per)
  show ?case
  proof (cases "mem \<le> length (old # order)")
    case True
    have "Suc (length (old # order)) - mem = Suc (Suc (length order) - mem)"
      using True by simp
    with 2 True show ?thesis by (auto split: if_splits)
  next
    case False
    with 2 have "dec' = dec" by simp
    moreover have "Suc (length (old # order)) - mem = 0" using False by simp
    ultimately show ?thesis by (simp only: take_0) simp
  qed
qed

lemma queues_match_share:
  assumes match: "queues_match dec per" and fresh: "(t, i) |\<notin>| dec" and "0 < share"
    and loop: "share_loop share t (fmget_or per t [] @ [i]) (finsert (t, i) dec) = (q', dec')"
  shows "queues_match dec' (fmupd t q' per)"
    and "fset dec' \<subseteq> insert (t, i) (fset dec)" and "(t, i) |\<in>| dec'"
    and "\<And>s j. s \<noteq> t \<Longrightarrow> (s, j) |\<in>| dec' \<longleftrightarrow> (s, j) |\<in>| dec"
proof -
  let ?q = "fmget_or per t [] @ [i]" and ?n = "length (fmget_or per t [] @ [i]) - share"
  have mem: "j \<in> set (fmget_or per t []) \<longleftrightarrow> (t, j) |\<in>| dec" for j
    using queues_matchD(1) [OF match] by (simp add: queued_def)
  have "distinct (fmget_or per t [])"
    using queues_matchD(2) [OF match] by (auto simp: fmget_or_def split: option.splits)
  with mem fresh have dist: "distinct ?q" by auto
  from share_loop_spec [OF loop dist \<open>0 < share\<close>]
  have q': "q' = drop ?n ?q"
    and dec': "fset dec' = insert (t, i) (fset dec) - {(t, j) | j. j \<in> set (take ?n ?q)}"
    by auto
  have split: "set ?q = set (take ?n ?q) \<union> set q'" "set (take ?n ?q) \<inter> set q' = {}"
    using dist q' by (metis append_take_drop_id set_append, metis append_take_drop_id distinct_append)
  have "i \<in> set q'" using q' \<open>0 < share\<close> by (simp add: drop_append)
  then show "(t, i) |\<in>| dec'" using dec' split(2) by auto
  show "fset dec' \<subseteq> insert (t, i) (fset dec)" using dec' by auto
  have other: "s \<noteq> t \<Longrightarrow> (s, j) |\<in>| dec' \<longleftrightarrow> (s, j) |\<in>| dec" for s j using dec' by auto
  then show "\<And>s j. s \<noteq> t \<Longrightarrow> (s, j) |\<in>| dec' \<longleftrightarrow> (s, j) |\<in>| dec" .
  have tq: "(t, j) \<in> fset dec' \<longleftrightarrow> j \<in> set q'" for j
  proof -
    have "j \<in> set ?q \<longleftrightarrow> j = i \<or> (t, j) |\<in>| dec" using mem by auto
    with split show ?thesis unfolding dec' by blast
  qed
  show "queues_match dec' (fmupd t q' per)"
  proof (rule queues_matchI)
    have "(s, j) \<in> fset dec' \<longleftrightarrow> (s, j) \<in> queued (fmupd t q' per)" for s j
      using tq other queues_matchD(1) [OF match] by (cases "s = t") simp_all
    then show "fset dec' = queued (fmupd t q' per)" by auto
  next
    fix s q
    assume "fmlookup (fmupd t q' per) s = Some q"
    moreover have "distinct q'" unfolding q' using dist by (rule distinct_drop)
    ultimately show "distinct q"
      using queues_matchD(2) [OF match] by (auto split: if_splits)
  qed
qed

lemma replay_share_pos [simp]: "0 < replay_share mem n"
  by (simp add: replay_share_def)

text \<open>One unfolding of \<open>remember\<close> into its two passes.\<close>

lemma rememberE:
  assumes "replay_wf mem rp" and "0 < mem" and "(t, i) |\<notin>| rp_decided rp"
  obtains q' dec where
    "queues_match dec (fmupd t q' (rp_per_tenant rp))"
    "fset dec \<subseteq> insert (t, i) (fset (rp_decided rp))" "(t, i) |\<in>| dec"
    "\<And>s j. s \<noteq> t \<Longrightarrow> (s, j) |\<in>| dec \<longleftrightarrow> (s, j) |\<in>| rp_decided rp"
    "rp_order (remember mem n (t, i) rp) =
       drop (Suc (length (rp_order rp)) - mem) (rp_order rp) @ [(t, i)]"
    "fset (rp_decided (remember mem n (t, i) rp)) =
       fset dec - set (take (Suc (length (rp_order rp)) - mem) (rp_order rp))"
    "queues_match (rp_decided (remember mem n (t, i) rp)) (rp_per_tenant (remember mem n (t, i) rp))"
proof -
  obtain q' dec where share: "share_loop (replay_share mem n) t
      (fmget_or (rp_per_tenant rp) t [] @ [i]) (finsert (t, i) (rp_decided rp)) = (q', dec)"
    by (metis surj_pair)
  obtain order dec' per where ord:
      "order_loop mem (rp_order rp) dec (fmupd t q' (rp_per_tenant rp)) = (order, dec', per)"
    by (metis surj_pair)
  have eq: "remember mem n (t, i) rp =
      \<lparr>rp_decided = dec', rp_order = order @ [(t, i)], rp_per_tenant = per\<rparr>"
    using assms(2,3) share ord by (simp add: remember_def Let_def)
  have "queues_match (rp_decided rp) (rp_per_tenant rp)"
    using assms(1) by (simp add: replay_wf_def)
  note m = queues_match_share [OF this assms(3) replay_share_pos share]
  show ?thesis
    using that [OF m] eq order_loop_order [OF ord assms(2)] order_loop_decided [OF ord assms(2)]
      order_loop_match [OF m(1) ord]
    by simp
qed

lemma replay_wf_remember:
  assumes "replay_wf mem rp"
  shows "replay_wf mem (remember mem n key rp)"
proof (cases "mem = 0 \<or> key |\<in>| rp_decided rp")
  case True
  with assms show ?thesis by (auto simp: remember_def)
next
  case False
  then have pos: "0 < mem" by simp
  obtain t i where key: "key = (t, i)" by (cases key)
  have fresh: "(t, i) |\<notin>| rp_decided rp" using False key by simp
  obtain q' dec where d: "fset dec \<subseteq> insert (t, i) (fset (rp_decided rp))"
    "rp_order (remember mem n (t, i) rp) =
       drop (Suc (length (rp_order rp)) - mem) (rp_order rp) @ [(t, i)]"
    "fset (rp_decided (remember mem n (t, i) rp)) =
       fset dec - set (take (Suc (length (rp_order rp)) - mem) (rp_order rp))"
    "queues_match (rp_decided (remember mem n (t, i) rp)) (rp_per_tenant (remember mem n (t, i) rp))"
    using rememberE [OF assms pos fresh, of n thesis] by metis
  have "set (rp_order rp) = set (take (Suc (length (rp_order rp)) - mem) (rp_order rp))
      \<union> set (drop (Suc (length (rp_order rp)) - mem) (rp_order rp))"
    by (metis append_take_drop_id set_append)
  moreover have "fset (rp_decided rp) \<subseteq> set (rp_order rp)"
    using assms by (simp add: replay_wf_def)
  ultimately have "fset (rp_decided (remember mem n (t, i) rp)) \<subseteq>
      set (rp_order (remember mem n (t, i) rp))"
    using d(1,2,3) by auto
  moreover have "length (rp_order (remember mem n (t, i) rp)) \<le> mem"
    using pos by (simp add: d(2))
  ultimately show ?thesis using d(4) by (simp add: replay_wf_def key)
qed

lemma replay_wf_bound: "replay_wf mem rp \<Longrightarrow> fcard (rp_decided rp) \<le> mem"
proof -
  assume wf: "replay_wf mem rp"
  then have "card (fset (rp_decided rp)) \<le> card (set (rp_order rp))"
    by (intro card_mono) (simp_all add: replay_wf_def)
  also have "\<dots> \<le> length (rp_order rp)" by (rule card_length)
  finally show ?thesis using wf by (simp add: replay_wf_def fcard.rep_eq)
qed

text \<open>
  A fresh key is remembered provided the entries the global bound evicts in the same call do not
  contain it, in particular when the key is not in the global order.
\<close>

lemma remember_remembers:
  assumes "replay_wf mem rp" and "0 < mem" and "key \<notin> set (rp_order rp)"
  shows "key |\<in>| rp_decided (remember mem n key rp)"
proof -
  obtain t i where key: "key = (t, i)" by (cases key)
  have fresh: "(t, i) |\<notin>| rp_decided rp" using assms(1,3) key by (auto simp: replay_wf_def)
  obtain q' dec where "(t, i) |\<in>| dec"
    "fset (rp_decided (remember mem n (t, i) rp)) =
       fset dec - set (take (Suc (length (rp_order rp)) - mem) (rp_order rp))"
    using rememberE [OF assms(1,2) fresh, of n thesis] by metis
  moreover have "(t, i) \<notin> set (take k (rp_order rp))" for k
    using assms(3) key in_set_takeD by fastforce
  ultimately show ?thesis by (simp add: key)
qed

text \<open>
  What one call may evict of another tenant's memory: nothing while the global order has room,
  and otherwise the single oldest entry of the global order.
\<close>

lemma remember_other_tenant:
  assumes "replay_wf mem rp" and "0 < mem" and "s \<noteq> fst key"
  shows "(s, j) |\<in>| rp_decided (remember mem n key rp) \<longleftrightarrow>
    (s, j) |\<in>| rp_decided rp \<and>
    (key |\<in>| rp_decided rp \<or> length (rp_order rp) < mem \<or> (s, j) \<noteq> hd (rp_order rp))"
proof (cases "key |\<in>| rp_decided rp")
  case True
  then show ?thesis by (simp add: remember_def)
next
  case False
  obtain t i where key: "key = (t, i)" by (cases key)
  have fresh: "(t, i) |\<notin>| rp_decided rp" using False key by simp
  obtain q' dec where dec: "\<And>s j. s \<noteq> t \<Longrightarrow> (s, j) |\<in>| dec \<longleftrightarrow> (s, j) |\<in>| rp_decided rp"
    "fset (rp_decided (remember mem n (t, i) rp)) =
       fset dec - set (take (Suc (length (rp_order rp)) - mem) (rp_order rp))"
    using rememberE [OF assms(1,2) fresh, of n thesis] by metis
  have len: "length (rp_order rp) \<le> mem" using assms(1) by (simp add: replay_wf_def)
  show ?thesis
  proof (cases "length (rp_order rp) < mem")
    case True
    then show ?thesis using dec assms(3) False by (simp add: key)
  next
    case full: False
    with len assms(2) obtain h rest where "rp_order rp = h # rest"
      by (cases "rp_order rp") auto
    with full len have "take (Suc (length (rp_order rp)) - mem) (rp_order rp) = [h]" by simp
    then show ?thesis using dec assms(3) full False \<open>rp_order rp = h # rest\<close>
      by (auto simp: key)
  qed
qed

lemma remember_memory_zero [simp]: "remember 0 n key rp = rp"
  by (simp add: remember_def)

end
