(* ===== verification/Journals.thy ===== *)
theory Journals
  imports Prelude Tenancy Auth Administration "HOL-Library.Multiset"
begin

section \<open>Decision and governance records (crates/ccos-enterprise-runtime)\<close>

text \<open>
  The record types of the two journals of a deployment, the order in which
  \<open>Deployment::journal\<close> merges them, and the helpers that build records: identifier
  canonicity, truncation on a character boundary and the metric tag of a refusal.
\<close>

definition MAX_IDENTIFIER_BYTES :: nat where
  "MAX_IDENTIFIER_BYTES = 128"

definition is_canonical_identifier :: "str \<Rightarrow> bool" where
  "is_canonical_identifier i =
     (case i of
        [] \<Rightarrow> False
      | first # rest \<Rightarrow>
          if \<not> (is_ascii_lowercase first \<or> is_ascii_digit first) then False
          else length i \<le> MAX_IDENTIFIER_BYTES \<and>
               list_all (\<lambda>b. is_ascii_lowercase b \<or> is_ascii_digit b \<or> b = CHR ''_'' \<or> b = CHR ''-'')
                 rest)"

definition clamp :: "str \<Rightarrow> str" where
  "clamp s =
     (if length s \<le> MAX_IDENTIFIER_BYTES then s
      else take (boundary_before s MAX_IDENTIFIER_BYTES) s)"

subsection \<open>Outcomes\<close>

datatype refusal =
    Unauthenticated
  | ActorMismatch
  | TenantNotOwnedByOrg
  | MalformedRequest str
  | UnknownTenant
  | OutsideBoundary str
  | ToolNotGoverned
  | PermissionDenied
  | ModelNotAllowed
  | VariantNotActivated
  | BudgetExhausted
  | JustificationRequired
  | StorageExhausted
  | RequiresApproval

datatype outcome = Forwarded | Replayed | Refused refusal

fun is_forwarded :: "outcome \<Rightarrow> bool" where
  "is_forwarded Forwarded = True"
| "is_forwarded _ = False"

fun is_replayed :: "outcome \<Rightarrow> bool" where
  "is_replayed Replayed = True"
| "is_replayed _ = False"

fun outcome_refusal :: "outcome \<Rightarrow> refusal option" where
  "outcome_refusal (Refused r) = Some r"
| "outcome_refusal Forwarded = None"
| "outcome_refusal Replayed = None"

fun tag :: "refusal \<Rightarrow> str" where
  "tag Unauthenticated = ''unauthenticated''"
| "tag ActorMismatch = ''actor_mismatch''"
| "tag TenantNotOwnedByOrg = ''tenant_not_owned''"
| "tag (MalformedRequest _) = ''malformed_request''"
| "tag UnknownTenant = ''unknown_tenant''"
| "tag (OutsideBoundary _) = ''outside_boundary''"
| "tag ToolNotGoverned = ''tool_not_governed''"
| "tag PermissionDenied = ''permission_denied''"
| "tag ModelNotAllowed = ''model_not_allowed''"
| "tag VariantNotActivated = ''variant_not_activated''"
| "tag BudgetExhausted = ''budget_exhausted''"
| "tag JustificationRequired = ''justification_required''"
| "tag StorageExhausted = ''storage_exhausted''"
| "tag RequiresApproval = ''requires_approval''"

record audit_record =
  ar_sequence :: u64
  ar_request_id :: str
  ar_tenant :: str
  ar_actor :: str
  ar_tool :: str
  ar_cost :: u64
  ar_justification :: "str option"
  ar_outcome :: outcome

subsection \<open>Rule changes\<close>

datatype governance_change =
    RoleDefined (rd_role: str) (rd_permissions: "str list")
  | RoleRedefined (rr_role: str) (rr_from: "str list") (rr_to: "str list") (rr_holders: "str list")
  | RoleRemoved (rm_role: str) (rm_holders: "str list")
  | RoleAssigned (ra_org: str) (ra_actor: str) (ra_role: str)
  | RoleUnassigned (ru_org: str) (ru_actor: str) (ru_role: str)
  | ActorRemoved (rmv_org: str) (rmv_actor: str) (rmv_roles: "str list")
  | TenantAdded (ta_tenant: str) (ta_org: str)
  | TenantRulesChanged (tr_tenant: str) (tr_models_allowed: "str list")
      (tr_models_revoked: "str list") (tr_variants_activated: "str list")
      (tr_variants_deactivated: "str list")
  | QPagePolicyChanged (qc_tenant: str) (qc_permitted: "str list") (qc_bridge_opted_in: bool)
  | ToolGoverned (tg_tool: str) (tg_permission: str) (tg_previous: "str option")
  | ToolMadeAdministrative str
  | ToolMadeApprovalGated str
  | ApprovalRecorded str
  | ModelSwitch (ms_tenant: str) (ms_old_model: str) (ms_new_model: str) (ms_outcome: str)
      (ms_record_digest: str)
  | StrengthRequired (sr_from: auth_strength) (sr_to: auth_strength)

record governance_record =
  go_at_sequence :: u64
  go_ordinal :: u64
  go_actor :: "str option"
  go_justification :: "str option"
  go_change :: governance_change

subsection \<open>The merged journal\<close>

datatype journal_entry = Decision audit_record | Governance governance_record

fun entry_sequence :: "journal_entry \<Rightarrow> u64" where
  "entry_sequence (Decision r) = ar_sequence r"
| "entry_sequence (Governance r) = go_at_sequence r"

fun entry_order :: "journal_entry \<Rightarrow> u64 \<times> nat \<times> u64" where
  "entry_order (Governance r) = (go_at_sequence r, 0, go_ordinal r)"
| "entry_order (Decision r) = (ar_sequence r, 1, 0)"

definition merge_journal :: "audit_record list \<Rightarrow> governance_record list \<Rightarrow> journal_entry list" where
  "merge_journal audit governance =
     sort_key entry_order (map Decision audit @ map Governance governance)"

subsection \<open>Lemmas\<close>

text \<open>
  The runtime's identifier rule and the validator of \<open>TenantId\<close> live in two crates; they accept
  the same strings, so the \<open>expect\<close> after the runtime's check cannot fail.
\<close>

lemma is_canonical_identifier_iff:
  "is_canonical_identifier s \<longleftrightarrow> tenant_new s = Some (TenantId s)"
  by (auto simp: is_canonical_identifier_def tenant_new_def tenant_validated_def
      is_identifier_byte_def [abs_def] MAX_IDENTIFIER_BYTES_def split: list.splits)

lemma is_canonical_identifier_wf: "is_canonical_identifier s \<longleftrightarrow> tenant_wf (TenantId s)"
  by (simp add: is_canonical_identifier_iff tenant_wf_def)

lemma length_clamp: "length (clamp s) \<le> MAX_IDENTIFIER_BYTES"
  using boundary_before_le [of s MAX_IDENTIFIER_BYTES] by (simp add: clamp_def)

lemma clamp_short [simp]: "length s \<le> MAX_IDENTIFIER_BYTES \<Longrightarrow> clamp s = s"
  by (simp add: clamp_def)

lemma clamp_idem [simp]: "clamp (clamp s) = clamp s"
  by (simp add: length_clamp)

lemma clamp_prefix: "prefix (clamp s) s"
  by (simp add: clamp_def take_is_prefix)

lemma is_forwarded_iff [simp]: "is_forwarded x \<longleftrightarrow> x = Forwarded"
  by (cases x) simp_all

lemma is_replayed_iff [simp]: "is_replayed x \<longleftrightarrow> x = Replayed"
  by (cases x) simp_all

lemma merge_journal_sorted: "sorted (map entry_order (merge_journal a g))"
  by (simp add: merge_journal_def)

lemma merge_journal_mset:
  "mset (merge_journal a g) = mset (map Decision a) + mset (map Governance g)"
  by (simp add: merge_journal_def)

text \<open>The merge is stable: each stream keeps its own order.\<close>

lemma sort_key_filter_sorted:
  assumes "sorted (map f (filter P xs))"
  shows "filter P (sort_key f xs) = filter P xs"
  using assms by (simp add: filter_sort sorted_sort_id sort_key_id_if_sorted)

definition is_decision :: "journal_entry \<Rightarrow> bool" where
  "is_decision e = (case e of Decision _ \<Rightarrow> True | Governance _ \<Rightarrow> False)"

lemma filter_map_decision [simp]:
  "filter is_decision (map Decision a) = map Decision a"
  "filter is_decision (map Governance g) = []"
  "filter (\<lambda>e. \<not> is_decision e) (map Decision a) = []"
  "filter (\<lambda>e. \<not> is_decision e) (map Governance g) = map Governance g"
  by (auto simp: is_decision_def filter_map comp_def)

lemma merge_journal_decisions:
  assumes "sorted (map ar_sequence a)"
  shows "filter is_decision (merge_journal a g) = map Decision a"
proof -
  have "sorted (map entry_order (map Decision a))"
    using assms by (auto simp: sorted_wrt_map intro: sorted_wrt_mono_rel [rotated])
  then show ?thesis unfolding merge_journal_def
    by (subst sort_key_filter_sorted) simp_all
qed

lemma merge_journal_governance:
  assumes "sorted (map (\<lambda>r. (go_at_sequence r, go_ordinal r)) g)"
  shows "filter (\<lambda>e. \<not> is_decision e) (merge_journal a g) = map Governance g"
proof -
  have "sorted (map entry_order (map Governance g))"
    using assms by (auto simp: sorted_wrt_map intro: sorted_wrt_mono_rel [rotated])
  then show ?thesis unfolding merge_journal_def
    by (subst sort_key_filter_sorted) simp_all
qed

subsection \<open>Dense numbering\<close>

text \<open>Rows numbered consecutively from a first number, by a field of the row.\<close>

fun seq_from :: "('a \<Rightarrow> u64) \<Rightarrow> u64 \<Rightarrow> 'a list \<Rightarrow> bool" where
  "seq_from f n [] = True"
| "seq_from f n (r # rs) = (f r = n \<and> seq_from f (n + 1) rs)"

lemma seq_from_append:
  "seq_from f n (xs @ ys) \<longleftrightarrow> seq_from f n xs \<and> seq_from f (n + of_nat (length xs)) ys"
  by (induction xs arbitrary: n) (auto simp: add.assoc)

lemma seq_from_drop: "seq_from f n xs \<Longrightarrow> k \<le> length xs \<Longrightarrow> seq_from f (n + of_nat k) (drop k xs)"
proof (induction k arbitrary: n xs)
  case (Suc k)
  then show ?case using Suc.IH [of "n + 1" "tl xs"] by (cases xs) (simp_all add: add.assoc)
qed simp

text \<open>A buffer that ends just before \<open>n\<close> stays so when the oldest rows go and one is added.\<close>

lemma seq_from_push:
  assumes "seq_from f (n - of_nat (length xs)) xs" and "k \<le> length xs" and "f r = n"
  shows "seq_from f (n + 1 - of_nat (length (drop k xs @ [r]))) (drop k xs @ [r])"
proof -
  have "n + 1 - of_nat (length (drop k xs @ [r])) = n - of_nat (length xs) + of_nat k"
    using assms(2) by (simp add: algebra_simps)
  then show ?thesis
    using seq_from_drop [OF assms(1,2)] assms(2,3) by (simp add: seq_from_append algebra_simps)
qed

end
