(* ===== verification/Deployment.thy ===== *)
theory Deployment
  imports Prelude Tenancy Auth Policy Rbac Gateway Administration Observability Qpages Approval
    Replay Journals
begin

section \<open>The deployment and its two bounded journals (crates/ccos-enterprise-runtime)\<close>

text \<open>
  The state of \<open>Deployment\<close>, the per-tenant state it governs, the approval ledger wrapper, and
  the two bounded journals with the loops that evict from them. \<open>usize\<close> capacities are natural
  numbers; the \<open>u64\<close> counters wrap, as \<open>+=\<close> does in a release build. The three replay fields
  are grouped in one \<open>replay_state\<close>.
\<close>

definition DEFAULT_AUDIT_CAPACITY :: nat where
  "DEFAULT_AUDIT_CAPACITY = 100000"

definition DEFAULT_REPLAY_MEMORY :: nat where
  "DEFAULT_REPLAY_MEMORY = 65536"

definition MIN_REPLAY_MEMORY_PER_TENANT :: nat where
  "MIN_REPLAY_MEMORY_PER_TENANT = 4"

subsection \<open>Per-tenant state\<close>

record tenant_state =
  ts_budget :: token_budget
  ts_models :: model_allowlist
  ts_qpages :: qpage_registry
  ts_active_model :: "str option"
  ts_variant_policy :: variant_policy
  ts_variant_approvals :: "(qpage_variant, str) fmap"

definition tenant_state_new :: "u64 \<Rightarrow> tenant_state" where
  "tenant_state_new limit =
     \<lparr>ts_budget = budget_new limit, ts_models = ModelAllowlist {||}, ts_qpages = qpages_empty,
      ts_active_model = None, ts_variant_policy = variant_policy_default,
      ts_variant_approvals = fmempty\<rparr>"

definition allow_model :: "str \<Rightarrow> tenant_state \<Rightarrow> tenant_state" where
  "allow_model model s =
     (let s = s\<lparr>ts_models := ModelAllowlist (finsert model (allowed_models (ts_models s)))\<rparr>
      in if ts_active_model s = None then s\<lparr>ts_active_model := Some model\<rparr> else s)"

definition activate_raw :: "qpage_variant \<Rightarrow> tenant_state \<Rightarrow> tenant_state" where
  "activate_raw v s = s\<lparr>ts_qpages := activate (ts_qpages s) v\<rparr>"

definition deactivate_raw :: "qpage_variant \<Rightarrow> tenant_state \<Rightarrow> tenant_state" where
  "deactivate_raw v s =
     s\<lparr>ts_qpages := deactivate (ts_qpages s) v,
       ts_variant_approvals := fmdrop v (ts_variant_approvals s)\<rparr>"

definition permit_variant_raw :: "qpage_variant \<Rightarrow> tenant_state \<Rightarrow> bool \<times> tenant_state" where
  "permit_variant_raw v s =
     (let (ok, p) = permit (ts_variant_policy s) v in (ok, s\<lparr>ts_variant_policy := p\<rparr>))"

definition revoke_variant_raw :: "qpage_variant \<Rightarrow> tenant_state \<Rightarrow> bool \<times> tenant_state" where
  "revoke_variant_raw v s =
     (let (changed, p) = revoke_permit (ts_variant_policy s) v;
          s = s\<lparr>ts_variant_policy := p\<rparr>
      in (changed, if changed then deactivate_raw v s else s))"

definition opt_in_experimental_bridge_raw :: "tenant_state \<Rightarrow> tenant_state" where
  "opt_in_experimental_bridge_raw s =
     s\<lparr>ts_variant_policy := opt_in_experimental_bridge (ts_variant_policy s)\<rparr>"

subsection \<open>Calls\<close>

record call =
  c_actor :: authenticated_actor
  c_request :: gateway_request
  c_model :: str
  c_cost_tokens :: u64
  c_variant :: "qpage_variant option"
  c_justification :: "str option"

subsection \<open>The approval ledger\<close>

datatype approval_ledger = ApprovalLedger (ledger_registry: approval_registry)

definition ledger_evaluate :: "approval_ledger \<Rightarrow> approval_query \<Rightarrow> gate_outcome" where
  "ledger_evaluate l q = evaluate (ledger_registry l) q"

definition ledger_evaluate_id :: "approval_ledger \<Rightarrow> str \<Rightarrow> approval_query \<Rightarrow> gate_outcome" where
  "ledger_evaluate_id l i q = evaluate_id (ledger_registry l) i q"

definition ledger_record ::
  "(str \<Rightarrow> str) \<Rightarrow> approval_ledger \<Rightarrow> approval_request
     \<Rightarrow> (approval_error + str) \<times> approval_ledger" where
  "ledger_record sha l request =
     (let (r, reg) = record_approval_in sha (ledger_registry l) request in (r, ApprovalLedger reg))"

definition ledger_snapshot :: "approval_ledger \<Rightarrow> approval_snapshot" where
  "ledger_snapshot l = registry_snapshot (ledger_registry l)"

definition ledger_from_snapshot ::
  "(str \<Rightarrow> str) \<Rightarrow> approval_snapshot \<Rightarrow> approval_error + approval_ledger" where
  "ledger_from_snapshot sha snap =
     res_bind (from_snapshot sha snap) (\<lambda>reg. Inr (ApprovalLedger reg))"

subsection \<open>The deployment\<close>

type_synonym cell_map = "(str, str) fmap"

record deployment =
  d_tenants :: "(tenant_id, tenant_state) fmap"
  d_tenant_owner :: "(tenant_id, org_id) fmap"
  d_roles :: role_book
  d_governed_tools :: "(str, permission) fmap"
  d_justification_required :: "str fset"
  d_store :: "(tenant_id, cell_map) fmap"
  d_store_bytes :: u64
  d_metrics :: counter_registry
  d_audit :: "audit_record list"
  d_audit_capacity :: nat
  d_audit_dropped :: u64
  d_governance :: "governance_record list"
  d_governance_dropped :: u64
  d_next_governance_ordinal :: u64
  d_serving :: bool
  d_next_sequence :: u64
  d_replay :: replay_state
  d_replay_memory :: nat
  d_required_strength :: auth_strength
  d_approval_required :: "str fset"
  d_approvals :: approval_ledger

definition deployment_new :: deployment where
  "deployment_new =
     \<lparr>d_tenants = fmempty, d_tenant_owner = fmempty, d_roles = role_book_empty,
      d_governed_tools = fmempty, d_justification_required = {||}, d_store = fmempty,
      d_store_bytes = 0, d_metrics = registry_empty, d_audit = [],
      d_audit_capacity = DEFAULT_AUDIT_CAPACITY, d_audit_dropped = 0, d_governance = [],
      d_governance_dropped = 0, d_next_governance_ordinal = 0, d_serving = False,
      d_next_sequence = 0, d_replay = replay_empty, d_replay_memory = DEFAULT_REPLAY_MEMORY,
      d_required_strength = Token, d_approval_required = {||},
      d_approvals = ApprovalLedger approval_registry_new\<rparr>"

definition with_audit_capacity :: "nat \<Rightarrow> deployment \<Rightarrow> deployment" where
  "with_audit_capacity capacity d = d\<lparr>d_audit_capacity := capacity\<rparr>"

definition with_replay_memory :: "nat \<Rightarrow> deployment \<Rightarrow> deployment" where
  "with_replay_memory capacity d =
     d\<lparr>d_replay_memory :=
         max (max capacity MIN_REPLAY_MEMORY_PER_TENANT)
           (MIN_REPLAY_MEMORY_PER_TENANT * max (fmlen (d_tenants d)) 1)\<rparr>"

abbreviation metric :: "str \<Rightarrow> deployment \<Rightarrow> deployment" where
  "metric name d \<equiv> d\<lparr>d_metrics := inc (d_metrics d) name 1\<rparr>"

subsection \<open>Governance journalling\<close>

text \<open>The body of the two eviction loops, and the append that follows them.\<close>

definition note_governance_drop :: "deployment \<Rightarrow> deployment" where
  "note_governance_drop d =
     metric ''governance.dropped'' (d\<lparr>d_governance_dropped := d_governance_dropped d + 1\<rparr>)"

definition append_governance :: "governance_record \<Rightarrow> deployment \<Rightarrow> deployment" where
  "append_governance r d =
     (let (kept, d) = drop_oldest (d_audit_capacity d) (d_governance d) note_governance_drop d
      in d\<lparr>d_governance := kept @ [r]\<rparr>)"

definition record_governance ::
  "governance_change \<Rightarrow> str option \<Rightarrow> str option \<Rightarrow> deployment \<Rightarrow> deployment" where
  "record_governance change actor just d =
     (let ordinal = d_next_governance_ordinal d;
          d = d\<lparr>d_next_governance_ordinal := ordinal + 1\<rparr>
      in if d_audit_capacity d = 0 then note_governance_drop d
         else append_governance
                \<lparr>go_at_sequence = d_next_sequence d, go_ordinal = ordinal,
                 go_actor = map_option clamp actor,
                 go_justification =
                   (if is_written_justification just then map_option clamp just else None),
                 go_change = change\<rparr> d)"

definition record_change ::
  "governance_change \<Rightarrow> str option \<Rightarrow> str option \<Rightarrow> deployment \<Rightarrow> deployment" where
  "record_change change actor just d =
     (if \<not> d_serving d then d else record_governance change actor just d)"

definition note_audit_drop :: "deployment \<Rightarrow> deployment" where
  "note_audit_drop d =
     metric ''audit.dropped'' (d\<lparr>d_audit_dropped := d_audit_dropped d + 1\<rparr>)"

definition append_audit :: "audit_record \<Rightarrow> deployment \<Rightarrow> deployment" where
  "append_audit r d =
     (let (kept, d) = drop_oldest (d_audit_capacity d) (d_audit d) note_audit_drop d
      in d\<lparr>d_audit := kept @ [r]\<rparr>)"

definition audit_row :: "call \<Rightarrow> outcome \<Rightarrow> u64 \<Rightarrow> u64 \<Rightarrow> audit_record" where
  "audit_row c res cost sequence =
     \<lparr>ar_sequence = sequence, ar_request_id = clamp (gr_request_id (c_request c)),
      ar_tenant = clamp (gr_tenant (c_request c)), ar_actor = clamp (gr_actor (c_request c)),
      ar_tool = clamp (gr_tool (c_request c)), ar_cost = cost,
      ar_justification = map_option clamp (c_justification c), ar_outcome = res\<rparr>"

definition journal_decision :: "call \<Rightarrow> outcome \<Rightarrow> u64 \<Rightarrow> deployment \<Rightarrow> deployment" where
  "journal_decision c res cost d =
     (if d_audit_capacity d = 0 then note_audit_drop d
      else let sequence = d_next_sequence d in
        append_audit (audit_row c res cost sequence) (d\<lparr>d_next_sequence := sequence + 1\<rparr>))"

definition require_strength :: "auth_strength \<Rightarrow> deployment \<Rightarrow> deployment" where
  "require_strength strength d =
     (let from = d_required_strength d;
          d = d\<lparr>d_required_strength := strength\<rparr>
      in if from \<noteq> strength then record_change (StrengthRequired from strength) None None d else d)"

definition journal :: "deployment \<Rightarrow> journal_entry list" where
  "journal d = merge_journal (d_audit d) (d_governance d)"

definition audit_of :: "deployment \<Rightarrow> str \<Rightarrow> audit_record list" where
  "audit_of d tenant = filter (\<lambda>r. ar_tenant r = tenant) (d_audit d)"

subsection \<open>What an append does, as one record update\<close>

definition bump :: "str \<Rightarrow> nat \<Rightarrow> counter_registry \<Rightarrow> counter_registry" where
  "bump name n = (\<lambda>m. inc m name 1) ^^ n"

lemma bump_simps [simp]: "bump name 0 m = m" "bump name (Suc n) m = inc (bump name n m) name 1"
  by (simp_all add: bump_def)

lemma registry_wf_bump: "registry_wf m \<Longrightarrow> registry_wf (bump name n m)"
  by (induction n) (simp_all add: registry_wf_inc)

lemma note_audit_drop_funpow:
  "(note_audit_drop ^^ n) d =
     d\<lparr>d_audit_dropped := d_audit_dropped d + of_nat n,
       d_metrics := bump ''audit.dropped'' n (d_metrics d)\<rparr>"
  by (induction n) (simp_all add: note_audit_drop_def add.assoc add.commute)

lemma note_governance_drop_funpow:
  "(note_governance_drop ^^ n) d =
     d\<lparr>d_governance_dropped := d_governance_dropped d + of_nat n,
       d_metrics := bump ''governance.dropped'' n (d_metrics d)\<rparr>"
  by (induction n) (simp_all add: note_governance_drop_def add.assoc add.commute)

lemma append_audit_eq:
  assumes "0 < d_audit_capacity d"
  defines "n \<equiv> Suc (length (d_audit d)) - d_audit_capacity d"
  shows "append_audit r d =
    d\<lparr>d_metrics := bump ''audit.dropped'' n (d_metrics d), d_audit := drop n (d_audit d) @ [r],
      d_audit_dropped := d_audit_dropped d + of_nat n\<rparr>"
  using assms
  by (simp add: append_audit_def case_prod_beta fst_drop_oldest snd_drop_oldest
      note_audit_drop_funpow)

lemma append_governance_eq:
  assumes "0 < d_audit_capacity d"
  defines "n \<equiv> Suc (length (d_governance d)) - d_audit_capacity d"
  shows "append_governance r d =
    d\<lparr>d_metrics := bump ''governance.dropped'' n (d_metrics d),
      d_governance := drop n (d_governance d) @ [r],
      d_governance_dropped := d_governance_dropped d + of_nat n\<rparr>"
  using assms
  by (simp add: append_governance_def case_prod_beta fst_drop_oldest snd_drop_oldest
      note_governance_drop_funpow)

text \<open>A bounded journal keeps exactly the most recent records and counts the others.\<close>

locale bounded_journal =
  fixes buf :: "'s \<Rightarrow> 'r list"
    and cap :: "'s \<Rightarrow> nat"
    and dropped :: "'s \<Rightarrow> u64"
    and push :: "'r \<Rightarrow> 's \<Rightarrow> 's"
  assumes push_buf: "0 < cap s \<Longrightarrow> buf (push r s) = drop (Suc (length (buf s)) - cap s) (buf s) @ [r]"
    and push_cap: "0 < cap s \<Longrightarrow> cap (push r s) = cap s"
    and push_dropped:
      "0 < cap s \<Longrightarrow> dropped (push r s) = dropped s + of_nat (Suc (length (buf s)) - cap s)"
begin

lemma push_bounded: "0 < cap s \<Longrightarrow> length (buf (push r s)) \<le> cap s"
  by (simp add: push_buf)

lemma push_last: "0 < cap s \<Longrightarrow> last (buf (push r s)) = r"
  by (simp add: push_buf)

lemma push_conserves:
  assumes "0 < cap s" and "length (buf s) \<le> cap s"
  shows "dropped (push r s) + of_nat (length (buf (push r s)))
    = dropped s + of_nat (length (buf s)) + 1"
proof -
  let ?n = "Suc (length (buf s)) - cap s"
  have "?n \<le> length (buf s)" using assms by simp
  then have "of_nat (length (buf s)) = (of_nat (length (buf s) - ?n) + of_nat ?n :: u64)"
    by (metis le_add_diff_inverse2 of_nat_add)
  then show ?thesis using assms by (simp add: push_buf push_dropped)
qed

lemma pushes_suffix:
  assumes "0 < cap s" and "length (buf s) \<le> cap s"
  shows "buf (fold push rs s) = drop (length (buf s @ rs) - cap s) (buf s @ rs)
    \<and> cap (fold push rs s) = cap s"
  using assms
proof (induction rs arbitrary: s)
  case Nil
  then show ?case by simp
next
  case (Cons r rs)
  let ?s = "push r s" and ?n = "Suc (length (buf s)) - cap s"
  have buf: "buf ?s = drop ?n (buf s @ [r])"
    using Cons.prems by (simp add: push_buf)
  have "buf (fold push rs ?s) = drop (length (buf ?s @ rs) - cap ?s) (buf ?s @ rs)
      \<and> cap (fold push rs ?s) = cap ?s"
    using Cons.prems by (intro Cons.IH) (simp_all add: push_cap push_bounded)
  moreover have "buf ?s @ rs = drop ?n (buf s @ r # rs)"
    using Cons.prems buf by simp
  moreover have "Suc (length (buf s) + length rs) - (?n + cap s) + ?n
      = Suc (length (buf s) + length rs) - cap s"
    by arith
  ultimately show ?case using Cons.prems by (simp add: push_cap)
qed

end

interpretation decisions: bounded_journal d_audit d_audit_capacity d_audit_dropped append_audit
  by unfold_locales (simp_all add: append_audit_eq)

interpretation changes: bounded_journal d_governance d_audit_capacity d_governance_dropped
    append_governance
  by unfold_locales (simp_all add: append_governance_eq)

subsection \<open>Frames\<close>

text \<open>Journalling a rule change touches the governance journal, its counters and the metrics.\<close>

lemma record_governance_frame [simp]:
  "d_tenants (record_governance ch a j d) = d_tenants d"
  "d_tenant_owner (record_governance ch a j d) = d_tenant_owner d"
  "d_roles (record_governance ch a j d) = d_roles d"
  "d_governed_tools (record_governance ch a j d) = d_governed_tools d"
  "d_justification_required (record_governance ch a j d) = d_justification_required d"
  "d_store (record_governance ch a j d) = d_store d"
  "d_store_bytes (record_governance ch a j d) = d_store_bytes d"
  "d_audit (record_governance ch a j d) = d_audit d"
  "d_audit_capacity (record_governance ch a j d) = d_audit_capacity d"
  "d_audit_dropped (record_governance ch a j d) = d_audit_dropped d"
  "d_serving (record_governance ch a j d) = d_serving d"
  "d_next_sequence (record_governance ch a j d) = d_next_sequence d"
  "d_replay (record_governance ch a j d) = d_replay d"
  "d_replay_memory (record_governance ch a j d) = d_replay_memory d"
  "d_required_strength (record_governance ch a j d) = d_required_strength d"
  "d_approval_required (record_governance ch a j d) = d_approval_required d"
  "d_approvals (record_governance ch a j d) = d_approvals d"
  by (simp_all add: record_governance_def Let_def append_governance_eq note_governance_drop_def)

lemma record_change_frame [simp]:
  "d_tenants (record_change ch a j d) = d_tenants d"
  "d_tenant_owner (record_change ch a j d) = d_tenant_owner d"
  "d_roles (record_change ch a j d) = d_roles d"
  "d_governed_tools (record_change ch a j d) = d_governed_tools d"
  "d_justification_required (record_change ch a j d) = d_justification_required d"
  "d_store (record_change ch a j d) = d_store d"
  "d_store_bytes (record_change ch a j d) = d_store_bytes d"
  "d_audit (record_change ch a j d) = d_audit d"
  "d_audit_capacity (record_change ch a j d) = d_audit_capacity d"
  "d_audit_dropped (record_change ch a j d) = d_audit_dropped d"
  "d_serving (record_change ch a j d) = d_serving d"
  "d_next_sequence (record_change ch a j d) = d_next_sequence d"
  "d_replay (record_change ch a j d) = d_replay d"
  "d_replay_memory (record_change ch a j d) = d_replay_memory d"
  "d_required_strength (record_change ch a j d) = d_required_strength d"
  "d_approval_required (record_change ch a j d) = d_approval_required d"
  "d_approvals (record_change ch a j d) = d_approvals d"
  by (simp_all add: record_change_def)

text \<open>Journalling a decision touches the audit journal, the sequence and the metrics.\<close>

lemma journal_decision_frame [simp]:
  "d_tenants (journal_decision c r n d) = d_tenants d"
  "d_tenant_owner (journal_decision c r n d) = d_tenant_owner d"
  "d_roles (journal_decision c r n d) = d_roles d"
  "d_governed_tools (journal_decision c r n d) = d_governed_tools d"
  "d_justification_required (journal_decision c r n d) = d_justification_required d"
  "d_store (journal_decision c r n d) = d_store d"
  "d_store_bytes (journal_decision c r n d) = d_store_bytes d"
  "d_audit_capacity (journal_decision c r n d) = d_audit_capacity d"
  "d_governance (journal_decision c r n d) = d_governance d"
  "d_governance_dropped (journal_decision c r n d) = d_governance_dropped d"
  "d_next_governance_ordinal (journal_decision c r n d) = d_next_governance_ordinal d"
  "d_serving (journal_decision c r n d) = d_serving d"
  "d_replay (journal_decision c r n d) = d_replay d"
  "d_replay_memory (journal_decision c r n d) = d_replay_memory d"
  "d_required_strength (journal_decision c r n d) = d_required_strength d"
  "d_approval_required (journal_decision c r n d) = d_approval_required d"
  "d_approvals (journal_decision c r n d) = d_approvals d"
  by (simp_all add: journal_decision_def Let_def append_audit_eq note_audit_drop_def)

lemma journal_decision_row:
  assumes "0 < d_audit_capacity d"
  shows "d_audit (journal_decision c r n d) =
      drop (Suc (length (d_audit d)) - d_audit_capacity d) (d_audit d) @ [audit_row c r n (d_next_sequence d)]"
    and "d_next_sequence (journal_decision c r n d) = d_next_sequence d + 1"
  using assms by (simp_all add: journal_decision_def Let_def append_audit_eq)

lemma audit_row_simps [simp]:
  "ar_sequence (audit_row c r n s) = s" "ar_cost (audit_row c r n s) = n"
  "ar_outcome (audit_row c r n s) = r"
  "ar_tenant (audit_row c r n s) = clamp (gr_tenant (c_request c))"
  "ar_request_id (audit_row c r n s) = clamp (gr_request_id (c_request c))"
  "ar_actor (audit_row c r n s) = clamp (gr_actor (c_request c))"
  "ar_tool (audit_row c r n s) = clamp (gr_tool (c_request c))"
  "ar_justification (audit_row c r n s) = map_option clamp (c_justification c)"
  by (simp_all add: audit_row_def)

end
