(* ===== verification/Rules.thy ===== *)
theory Rules
  imports Deployment
begin

section \<open>Changing the rules (crates/ccos-enterprise-runtime)\<close>

text \<open>
  Every operation that changes what a deployment decides by: provisioning, role administration,
  the tenant guard \<open>TenantRules\<close> that journals on drop, Q-Page activation, the approval ledger
  and the tool registries, with the attributed \<open>Admin\<close> variants. An operation with suffix
  \<open>_as\<close> takes the operator and the reason; the bare operation passes none. SHA-256 is the
  parameter \<open>sha\<close>.
\<close>

subsection \<open>Tenants\<close>

definition add_tenant_as ::
  "str \<Rightarrow> str \<Rightarrow> tenant_state \<Rightarrow> str option \<Rightarrow> str option \<Rightarrow> deployment \<Rightarrow> bool \<times> deployment" where
  "add_tenant_as org tenant state by' why d =
     (if \<not> is_canonical_identifier org \<or> \<not> is_canonical_identifier tenant then (False, d)
      else case tenant_new tenant of
        None \<Rightarrow> (False, d)
      | Some i \<Rightarrow>
          if fmcontains (d_tenants d) i then (False, d)
          else (True, record_change (TenantAdded tenant org) by' why
                  (d\<lparr>d_tenant_owner := fmupd i (OrgId org) (d_tenant_owner d),
                     d_tenants := fmupd i state (d_tenants d)\<rparr>)))"

definition add_tenant :: "str \<Rightarrow> str \<Rightarrow> tenant_state \<Rightarrow> deployment \<Rightarrow> bool \<times> deployment" where
  "add_tenant org tenant state d = add_tenant_as org tenant state None None d"

record tenant_rules =
  g_tenant :: tenant_id
  g_before_models :: "str fset"
  g_before_variants :: "qpage_variant fset"
  g_before_variant_policy :: variant_policy
  g_actor :: "str option"
  g_justification :: "str option"

definition tenant_mut_as ::
  "str \<Rightarrow> str option \<Rightarrow> str option \<Rightarrow> deployment \<Rightarrow> tenant_rules option" where
  "tenant_mut_as tenant by' why d =
     (case tenant_new tenant of
        None \<Rightarrow> None
      | Some i \<Rightarrow>
          (case fmlookup (d_tenants d) i of
             None \<Rightarrow> None
           | Some state \<Rightarrow>
               Some \<lparr>g_tenant = i, g_before_models = allowed_models (ts_models state),
                     g_before_variants = fset_of_list (active (ts_qpages state)),
                     g_before_variant_policy = ts_variant_policy state,
                     g_actor = by', g_justification = why\<rparr>))"

definition guard_update ::
  "(tenant_state \<Rightarrow> tenant_state) \<Rightarrow> tenant_rules \<Rightarrow> deployment \<Rightarrow> deployment" where
  "guard_update f g d =
     (case fmlookup (d_tenants d) (g_tenant g) of
        None \<Rightarrow> d
      | Some state \<Rightarrow> d\<lparr>d_tenants := fmupd (g_tenant g) (f state) (d_tenants d)\<rparr>)"

definition owned_diff :: "str fset \<Rightarrow> str fset \<Rightarrow> str list" where
  "owned_diff a b = sorted_list_of_fset (a |-| b)"

definition variant_diff :: "qpage_variant fset \<Rightarrow> qpage_variant fset \<Rightarrow> str list" where
  "variant_diff a b = map variant_debug (sorted_list_of_fset (a |-| b))"

definition rules_drop :: "tenant_rules \<Rightarrow> deployment \<Rightarrow> deployment" where
  "rules_drop g d =
     (case fmlookup (d_tenants d) (g_tenant g) of
        None \<Rightarrow> d
      | Some state \<Rightarrow>
          let after_models = allowed_models (ts_models state);
              after_variants = fset_of_list (active (ts_qpages state));
              after_policy = ts_variant_policy state;
              models_allowed = owned_diff after_models (g_before_models g);
              models_revoked = owned_diff (g_before_models g) after_models;
              variants_activated = variant_diff after_variants (g_before_variants g);
              variants_deactivated = variant_diff (g_before_variants g) after_variants;
              d = (if models_allowed \<noteq> [] \<or> models_revoked \<noteq> [] \<or> variants_activated \<noteq> []
                      \<or> variants_deactivated \<noteq> []
                   then record_change
                          (TenantRulesChanged (as_str (g_tenant g)) models_allowed models_revoked
                             variants_activated variants_deactivated)
                          (g_actor g) (g_justification g) d
                   else d)
          in if after_policy \<noteq> g_before_variant_policy g
             then record_change
                    (QPagePolicyChanged (as_str (g_tenant g))
                       (map variant_debug (sorted_list_of_fset (vp_permitted after_policy)))
                       (vp_bridge_opted_in after_policy))
                    (g_actor g) (g_justification g) d
             else d)"

text \<open>A whole borrow: take the guard, mutate the tenant through it, drop it.\<close>

definition with_tenant_rules ::
  "str \<Rightarrow> str option \<Rightarrow> str option \<Rightarrow> (tenant_state \<Rightarrow> tenant_state) \<Rightarrow> deployment
     \<Rightarrow> bool \<times> deployment" where
  "with_tenant_rules tenant by' why f d =
     (case tenant_mut_as tenant by' why d of
        None \<Rightarrow> (False, d)
      | Some g \<Rightarrow> (True, rules_drop g (guard_update f g d)))"

subsection \<open>Roles\<close>

definition role_of :: "str \<Rightarrow> str list \<Rightarrow> role" where
  "role_of name permissions =
     \<lparr>role_name = name, role_permissions = fset_of_list (map Permission permissions)\<rparr>"

definition add_role_as ::
  "str \<Rightarrow> str list \<Rightarrow> str option \<Rightarrow> str option \<Rightarrow> deployment \<Rightarrow> bool \<times> deployment" where
  "add_role_as name permissions by' why d =
     (let (ok, roles) = add_role (d_roles d) (role_of name permissions);
          d = d\<lparr>d_roles := roles\<rparr>
      in if \<not> ok then (False, d)
         else (True, record_change (RoleDefined name permissions) by' why d))"

definition redefine_role_as ::
  "str \<Rightarrow> str list \<Rightarrow> str option \<Rightarrow> str option \<Rightarrow> deployment \<Rightarrow> bool \<times> deployment" where
  "redefine_role_as name permissions by' why d =
     (let from = permissions_of (d_roles d) name;
          holders = holders_of (d_roles d) name;
          (ok, roles) = redefine_role (d_roles d) (role_of name permissions);
          d = d\<lparr>d_roles := roles\<rparr>
      in if \<not> ok then (False, d)
         else (True, record_change
                 (RoleRedefined name from (permissions_of (d_roles d) name) holders) by' why d))"

definition remove_role_as ::
  "str \<Rightarrow> str option \<Rightarrow> str option \<Rightarrow> deployment \<Rightarrow> bool \<times> deployment" where
  "remove_role_as name by' why d =
     (let holders = holders_of (d_roles d) name;
          (ok, roles) = remove_role (d_roles d) name;
          d = d\<lparr>d_roles := roles\<rparr>
      in if \<not> ok then (False, d)
         else (True, record_change (RoleRemoved name holders) by' why d))"

definition unassign_as ::
  "str \<Rightarrow> str \<Rightarrow> str \<Rightarrow> str option \<Rightarrow> str option \<Rightarrow> deployment \<Rightarrow> bool \<times> deployment" where
  "unassign_as org actor r by' why d =
     (let (ok, roles) = unassign (d_roles d) org actor r;
          d = d\<lparr>d_roles := roles\<rparr>
      in if \<not> ok then (False, d)
         else (True, record_change (RoleUnassigned org actor r) by' why d))"

definition remove_actor_as ::
  "str \<Rightarrow> str \<Rightarrow> str option \<Rightarrow> str option \<Rightarrow> deployment \<Rightarrow> bool \<times> deployment" where
  "remove_actor_as org actor by' why d =
     (let held = roles_of (d_roles d) org actor;
          (ok, roles) = remove_actor (d_roles d) org actor;
          d = d\<lparr>d_roles := roles\<rparr>
      in if \<not> ok then (False, d)
         else (True, record_change (ActorRemoved org actor held) by' why d))"

definition assign_as ::
  "str \<Rightarrow> str \<Rightarrow> str \<Rightarrow> str option \<Rightarrow> str option \<Rightarrow> deployment \<Rightarrow> bool \<times> deployment" where
  "assign_as org actor r by' why d =
     (let (ok, roles) = assign (d_roles d) org actor r;
          d = d\<lparr>d_roles := roles\<rparr>
      in if \<not> ok then (False, d)
         else (True, record_change (RoleAssigned org actor r) by' why d))"

subsection \<open>Tools\<close>

definition require_justification :: "str \<Rightarrow> deployment \<Rightarrow> deployment" where
  "require_justification tool d =
     (let fresh = tool |\<notin>| d_justification_required d;
          d = d\<lparr>d_justification_required := finsert tool (d_justification_required d)\<rparr>
      in if fresh then record_change (ToolMadeAdministrative tool) None None d else d)"

definition requires_justification :: "deployment \<Rightarrow> str \<Rightarrow> bool" where
  "requires_justification d tool \<longleftrightarrow> tool |\<in>| d_justification_required d"

definition require_approval :: "str \<Rightarrow> deployment \<Rightarrow> deployment" where
  "require_approval tool d =
     (let fresh = tool |\<notin>| d_approval_required d;
          d = d\<lparr>d_approval_required := finsert tool (d_approval_required d)\<rparr>
      in if fresh then record_change (ToolMadeApprovalGated tool) None None d else d)"

definition requires_approval :: "deployment \<Rightarrow> str \<Rightarrow> bool" where
  "requires_approval d tool \<longleftrightarrow> tool |\<in>| d_approval_required d"

definition govern_tool :: "str \<Rightarrow> str \<Rightarrow> deployment \<Rightarrow> deployment" where
  "govern_tool tool perm d =
     (let previous = fmlookup (d_governed_tools d) tool;
          d = d\<lparr>d_governed_tools := fmupd tool (Permission perm) (d_governed_tools d)\<rparr>
      in if map_option perm_name previous \<noteq> Some perm
         then record_change (ToolGoverned tool perm (map_option perm_name previous)) None None d
         else d)"

subsection \<open>Q-Page activation\<close>

definition qpage_activation_artifact_hash :: "(str \<Rightarrow> str) \<Rightarrow> tenant_id \<Rightarrow> qpage_variant \<Rightarrow> str" where
  "qpage_activation_artifact_hash sha tenant v =
     hex (sha (framed [''ccos-enterprise-qpage-activation-v1'', as_str tenant, variant_debug v]))"

text \<open>The messages of the \<open>Err(String)\<close> results, one constructor each.\<close>

datatype activation_error =
    ActUnknownTenant str
  | ActNotPermitted qpage_variant
  | ActApprovalMissing qpage_variant
  | ActApprovalInvalid

definition validated_approval ::
  "(str \<Rightarrow> str) \<Rightarrow> tenant_id \<Rightarrow> qpage_variant \<Rightarrow> str option \<Rightarrow> u64 \<Rightarrow> deployment \<Rightarrow> tenant_state
     \<Rightarrow> activation_error + str option" where
  "validated_approval sha tenant v approval_id now d state =
     (case evaluate_variant (ts_variant_policy state) v of
        ActAllowed \<Rightarrow> Inr None
      | ActDenied \<Rightarrow> Inl (ActNotPermitted v)
      | ActRequiresApproval \<Rightarrow>
          (case approval_id of
             None \<Rightarrow> Inl (ActApprovalMissing v)
           | Some i \<Rightarrow>
               if ledger_evaluate_id (d_approvals d) i
                    \<lparr>q_tenant = tenant, q_action = ''qpage.activate'',
                     q_artifact_hash = qpage_activation_artifact_hash sha tenant v,
                     q_now = now\<rparr> \<noteq> GateApproved
               then Inl ActApprovalInvalid else Inr (Some i)))"

definition set_evidence :: "qpage_variant \<Rightarrow> str option \<Rightarrow> tenant_state \<Rightarrow> tenant_state" where
  "set_evidence v approval s = s\<lparr>ts_variant_approvals :=
     (case approval of
        Some i \<Rightarrow> fmupd v i (ts_variant_approvals s)
      | None \<Rightarrow> fmdrop v (ts_variant_approvals s))\<rparr>"

definition activate_variant_governed ::
  "(str \<Rightarrow> str) \<Rightarrow> tenant_id \<Rightarrow> qpage_variant \<Rightarrow> str option \<Rightarrow> u64 \<Rightarrow> deployment
     \<Rightarrow> (activation_error + unit) \<times> deployment" where
  "activate_variant_governed sha tenant v approval_id now d =
     (case fmlookup (d_tenants d) tenant of
        None \<Rightarrow> (Inl (ActUnknownTenant (as_str tenant)), d)
      | Some state \<Rightarrow>
        (case validated_approval sha tenant v approval_id now d state of
           Inl e \<Rightarrow> (Inl e, d)
         | Inr approval \<Rightarrow>
           (case tenant_mut_as (as_str tenant) None None d of
              None \<Rightarrow> (Inl (ActUnknownTenant (as_str tenant)), d)
            | Some g \<Rightarrow>
                (Inr (), rules_drop g (guard_update (set_evidence v approval \<circ> activate_raw v) g d)))))"

definition deactivate_variant_governed ::
  "tenant_id \<Rightarrow> qpage_variant \<Rightarrow> deployment \<Rightarrow> (activation_error + unit) \<times> deployment" where
  "deactivate_variant_governed tenant v d =
     (case tenant_mut_as (as_str tenant) None None d of
        None \<Rightarrow> (Inl (ActUnknownTenant (as_str tenant)), d)
      | Some g \<Rightarrow> (Inr (), rules_drop g (guard_update (deactivate_raw v) g d)))"

subsection \<open>Approvals\<close>

definition approval_gate :: "deployment \<Rightarrow> call \<Rightarrow> str \<Rightarrow> u64 \<Rightarrow> refusal + unit" where
  "approval_gate d c artifact now =
     (if gr_tool (c_request c) |\<notin>| d_approval_required d then Inr ()
      else case tenant_new (gr_tenant (c_request c)) of
        None \<Rightarrow> Inl (MalformedRequest ''tenant'')
      | Some tenant \<Rightarrow>
          (case ledger_evaluate (d_approvals d)
                  \<lparr>q_tenant = tenant, q_action = gr_tool (c_request c),
                   q_artifact_hash = artifact, q_now = now\<rparr> of
             GateApproved \<Rightarrow> Inr ()
           | _ \<Rightarrow> Inl RequiresApproval))"

definition record_approval ::
  "(str \<Rightarrow> str) \<Rightarrow> approval_request \<Rightarrow> deployment \<Rightarrow> (approval_error + str) \<times> deployment" where
  "record_approval sha request d =
     (let (r, ledger) = ledger_record sha (d_approvals d) request;
          d = d\<lparr>d_approvals := ledger\<rparr>
      in case r of
           Inl e \<Rightarrow> (Inl e, d)
         | Inr i \<Rightarrow> (Inr i, record_change (ApprovalRecorded i) None None d))"

subsection \<open>The administrative surface as one operation\<close>

text \<open>
  The operations \<open>Admin\<close> offers. The handle runs each with its operator and reason; the bare
  method on \<open>Deployment\<close> of the same name runs it with neither.
\<close>

datatype rule_op =
    OpAddTenant str str tenant_state
  | OpAddRole str "str list"
  | OpRedefineRole str "str list"
  | OpRemoveRole str
  | OpAssign str str str
  | OpUnassign str str str
  | OpRemoveActor str str
  | OpTenantRules str "tenant_state \<Rightarrow> tenant_state"

fun run_rule :: "str option \<Rightarrow> str option \<Rightarrow> rule_op \<Rightarrow> deployment \<Rightarrow> bool \<times> deployment" where
  "run_rule by' why (OpAddTenant org tenant state) d = add_tenant_as org tenant state by' why d"
| "run_rule by' why (OpAddRole name ps) d = add_role_as name ps by' why d"
| "run_rule by' why (OpRedefineRole name ps) d = redefine_role_as name ps by' why d"
| "run_rule by' why (OpRemoveRole name) d = remove_role_as name by' why d"
| "run_rule by' why (OpAssign org actor r) d = assign_as org actor r by' why d"
| "run_rule by' why (OpUnassign org actor r) d = unassign_as org actor r by' why d"
| "run_rule by' why (OpRemoveActor org actor) d = remove_actor_as org actor by' why d"
| "run_rule by' why (OpTenantRules tenant f) d = with_tenant_rules tenant by' why f d"

record admin =
  ad_actor :: str
  ad_justification :: str

definition as_admin :: "str \<Rightarrow> str \<Rightarrow> admin" where
  "as_admin actor why = \<lparr>ad_actor = actor, ad_justification = why\<rparr>"

definition admin_run :: "admin \<Rightarrow> rule_op \<Rightarrow> deployment \<Rightarrow> bool \<times> deployment" where
  "admin_run a op d = run_rule (Some (ad_actor a)) (Some (ad_justification a)) op d"

subsection \<open>Every rule change leaves a record\<close>

text \<open>
  The rules a deployment decides by, as far as this surface changes them: the role book, who
  owns which tenant, and each tenant's allowlist, activations and variant policy.
\<close>

definition tenant_view :: "tenant_state \<Rightarrow> model_allowlist \<times> qpage_registry \<times> variant_policy" where
  "tenant_view s = (ts_models s, ts_qpages s, ts_variant_policy s)"

definition rule_view :: "deployment \<Rightarrow> role_book \<times> (tenant_id, org_id) fmap
    \<times> (tenant_id, model_allowlist \<times> qpage_registry \<times> variant_policy) fmap" where
  "rule_view d = (d_roles d, d_tenant_owner d, fmmap tenant_view (d_tenants d))"

definition newest_record_by :: "str option \<Rightarrow> str option \<Rightarrow> deployment \<Rightarrow> deployment \<Rightarrow> bool" where
  "newest_record_by by' why d d' \<longleftrightarrow>
     d_governance d' \<noteq> [] \<and>
     go_at_sequence (last (d_governance d')) = d_next_sequence d \<and>
     go_ordinal (last (d_governance d')) + 1 = d_next_governance_ordinal d' \<and>
     go_actor (last (d_governance d')) = map_option clamp by' \<and>
     go_justification (last (d_governance d')) =
       (if is_written_justification why then map_option clamp why else None)"

lemma newest_record_change:
  assumes "d_serving d" and "0 < d_audit_capacity d"
  shows "newest_record_by by' why d (record_change ch by' why d)"
  using assms
  by (simp add: newest_record_by_def record_change_def record_governance_def Let_def
      append_governance_eq)

lemma newest_record_cong:
  "newest_record_by by' why d d' \<Longrightarrow> d_next_sequence e = d_next_sequence d \<Longrightarrow>
     newest_record_by by' why e d'"
  by (simp add: newest_record_by_def)

lemma newest_record_changeI:
  assumes "d_serving d" and "0 < d_audit_capacity d" and "d_next_sequence e = d_next_sequence d"
  shows "newest_record_by by' why e (record_change ch by' why d)"
  using newest_record_change [OF assms(1,2)] assms(3) by (rule newest_record_cong)

lemma rule_view_record_change [simp]: "rule_view (record_change ch a j d) = rule_view d"
  by (simp add: rule_view_def)

text \<open>A role edit either reports success and is journaled, or leaves the book as it was.\<close>

lemma role_ops_silent:
  "\<not> fst (add_role b r) \<Longrightarrow> snd (add_role b r) = b"
  "\<not> fst (assign b org actor x) \<Longrightarrow> snd (assign b org actor x) = b"
  by (auto simp: add_role_def assign_def)

lemma remove_actor_silent: "\<not> fst (remove_actor b org actor) \<Longrightarrow> snd (remove_actor b org actor) = b"
  by (auto simp: remove_actor_def fmdrop_idle)

lemma unassign_silent:
  assumes "book_wf b" and "\<not> fst (unassign b org actor x)"
  shows "snd (unassign b org actor x) = b"
proof (cases "fmlookup (rb_assignments b) (org, actor)")
  case None
  then show ?thesis by (simp add: unassign_def)
next
  case (Some g)
  then have "g |-| {|x|} = g" "g \<noteq> {||}"
    using assms(2) book_wfD(2) [OF assms(1) Some] by (auto simp: unassign_def Let_def)
  moreover have "fmupd (org, actor) g (rb_assignments b) = rb_assignments b"
    using Some by (intro fmap_ext) auto
  ultimately show ?thesis using Some by (simp add: unassign_def)
qed

lemma remove_role_silent:
  assumes "book_wf b" and "\<not> fst (remove_role b n)"
  shows "snd (remove_role b n) = b"
proof -
  have undefined: "n |\<notin>| fmdom (rb_roles b)" using assms(2) by (simp add: remove_role_def Let_def)
  have "fmlookup (rb_assignments (snd (remove_role b n))) k = fmlookup (rb_assignments b) k" for k
  proof (cases "fmlookup (rb_assignments b) k")
    case None
    then show ?thesis by (simp add: remove_role_def Let_def)
  next
    case (Some g)
    then have g: "g |-| {|n|} = g" "g \<noteq> {||}"
      using undefined book_wfD(2) [OF assms(1), of "fst k" "snd k" g] by auto
    from g have "\<not> g |\<subseteq>| {|n|}" by auto
    with g Some show ?thesis by (simp add: remove_role_def Let_def)
  qed
  then have "rb_assignments (snd (remove_role b n)) = rb_assignments b" by (rule fmap_ext)
  with undefined show ?thesis
    by (simp add: remove_role_def Let_def fmdrop_idle)
qed

lemma redefine_role_silent:
  "\<not> fst (redefine_role b r) \<Longrightarrow> has_role b (role_name r) \<Longrightarrow> snd (redefine_role b r) = b"
  by (auto simp: redefine_role_def has_role_def)

lemmas role_op_defs = add_role_as_def redefine_role_as_def remove_role_as_def assign_as_def
  unassign_as_def remove_actor_as_def

definition journaled_or_idle :: "str option \<Rightarrow> str option \<Rightarrow> deployment \<Rightarrow> bool \<times> deployment \<Rightarrow> bool" where
  "journaled_or_idle by' why d res \<longleftrightarrow>
     (if fst res then newest_record_by by' why d (snd res) else rule_view (snd res) = rule_view d)"

lemma role_update_journaled:
  assumes "d_serving d" and "0 < d_audit_capacity d" and "\<not> ok \<Longrightarrow> roles = d_roles d"
  shows "journaled_or_idle by' why d
    (if \<not> ok then (False, d\<lparr>d_roles := roles\<rparr>)
     else (True, record_change ch by' why (d\<lparr>d_roles := roles\<rparr>)))"
  using assms by (auto simp: journaled_or_idle_def rule_view_def intro!: newest_record_changeI)

lemma role_ops_journaled:
  assumes "d_serving d" and "0 < d_audit_capacity d" and "book_wf (d_roles d)"
  shows "journaled_or_idle by' why d (add_role_as n ps by' why d)"
    and "journaled_or_idle by' why d (remove_role_as n by' why d)"
    and "journaled_or_idle by' why d (assign_as org actor n by' why d)"
    and "journaled_or_idle by' why d (unassign_as org actor n by' why d)"
    and "journaled_or_idle by' why d (remove_actor_as org actor by' why d)"
    and "has_role (d_roles d) n \<Longrightarrow> journaled_or_idle by' why d (redefine_role_as n ps by' why d)"
  unfolding role_op_defs Let_def case_prod_beta
  by (rule role_update_journaled [OF assms(1,2)];
      simp add: role_ops_silent remove_actor_silent unassign_silent remove_role_silent
        redefine_role_silent role_of_def assms(3))+

text \<open>The guard journals exactly when the tenant's rules differ across the borrow.\<close>

lemma diff_empty_iff [simp]:
  "owned_diff a b = [] \<longleftrightarrow> a |\<subseteq>| b"
  "variant_diff x y = [] \<longleftrightarrow> x |\<subseteq>| y"
  by (auto simp: owned_diff_def variant_diff_def sorted_list_of_fset.rep_eq)

lemma fset_of_active [simp]: "fset_of_list (active q) = active_set q"
  by (auto simp: fset_of_list.rep_eq fset_inject [symmetric])

lemma with_tenant_rules_cases:
  obtains (absent) "with_tenant_rules tenant by' why f d = (False, d)"
  | (present) i s where "tenant_new tenant = Some i" "fmlookup (d_tenants d) i = Some s"
      "fst (with_tenant_rules tenant by' why f d)"
      "d_tenants (snd (with_tenant_rules tenant by' why f d)) = fmupd i (f s) (d_tenants d)"
      "tenant_view (f s) = tenant_view s \<Longrightarrow>
         snd (with_tenant_rules tenant by' why f d) = d\<lparr>d_tenants := fmupd i (f s) (d_tenants d)\<rparr>"
      "\<lbrakk>d_serving d; 0 < d_audit_capacity d; tenant_view (f s) \<noteq> tenant_view s\<rbrakk> \<Longrightarrow>
         newest_record_by by' why d (snd (with_tenant_rules tenant by' why f d))"
proof (cases "tenant_new tenant")
  case None
  then show ?thesis using absent by (simp add: with_tenant_rules_def tenant_mut_as_def)
next
  case i: (Some i)
  show ?thesis
  proof (cases "fmlookup (d_tenants d) i")
    case None
    then show ?thesis using absent i by (simp add: with_tenant_rules_def tenant_mut_as_def)
  next
    case (Some s)
    show ?thesis
    proof (rule present [OF i Some])
      show "fst (with_tenant_rules tenant by' why f d)"
        using i Some by (simp add: with_tenant_rules_def tenant_mut_as_def)
      show "d_tenants (snd (with_tenant_rules tenant by' why f d)) = fmupd i (f s) (d_tenants d)"
        using i Some
        by (simp add: with_tenant_rules_def tenant_mut_as_def guard_update_def rules_drop_def Let_def)
      show "snd (with_tenant_rules tenant by' why f d) = d\<lparr>d_tenants := fmupd i (f s) (d_tenants d)\<rparr>"
        if "tenant_view (f s) = tenant_view s"
        using that i Some
        by (simp add: with_tenant_rules_def tenant_mut_as_def guard_update_def rules_drop_def Let_def
            tenant_view_def)
      show "newest_record_by by' why d (snd (with_tenant_rules tenant by' why f d))"
        if "d_serving d" "0 < d_audit_capacity d" "tenant_view (f s) \<noteq> tenant_view s"
      proof -
        have "ts_variant_policy (f s) \<noteq> ts_variant_policy s
            \<or> allowed_models (ts_models (f s)) \<noteq> allowed_models (ts_models s)
            \<or> active_set (ts_qpages (f s)) \<noteq> active_set (ts_qpages s)"
          using that(3)
          by (auto simp: tenant_view_def intro: model_allowlist.expand qpage_registry.expand)
        then show ?thesis using that(1,2) i Some
          by (auto simp: with_tenant_rules_def tenant_mut_as_def guard_update_def rules_drop_def
              Let_def intro!: newest_record_changeI)
      qed
    qed
  qed
qed

lemma add_tenant_as_cases:
  obtains (refused) "add_tenant_as org tenant state by' why d = (False, d)"
  | (added) "add_tenant_as org tenant state by' why d =
        (True, record_change (TenantAdded tenant org) by' why
           (d\<lparr>d_tenant_owner := fmupd (TenantId tenant) (OrgId org) (d_tenant_owner d),
              d_tenants := fmupd (TenantId tenant) state (d_tenants d)\<rparr>))"
      "is_canonical_identifier org" "tenant_wf (TenantId tenant)"
      "fmlookup (d_tenants d) (TenantId tenant) = None"
proof (cases "is_canonical_identifier org \<and> is_canonical_identifier tenant
    \<and> fmlookup (d_tenants d) (TenantId tenant) = None")
  case True
  then show ?thesis
    by (intro added) (simp_all add: add_tenant_as_def is_canonical_identifier_iff tenant_wf_def
        fmcontains_iff)
next
  case False
  then show ?thesis
    by (intro refused) (auto simp: add_tenant_as_def is_canonical_identifier_iff fmcontains_iff)
qed

subsection \<open>Properties\<close>

text \<open>
  C33: On a serving deployment with a journal, an administrative operation that changes the role
  book, the ownership of tenants, or a tenant's allowlist, activations or variant policy reports
  success and leaves, as the newest governance record, a record anchored at the next decision and
  carrying the operator and the legible reason. The one operation excluded is the redefinition of
  a role that does not exist.
\<close>

theorem rule_change_journaled:
  assumes "d_serving d" and "0 < d_audit_capacity d" and "book_wf (d_roles d)"
    and "rule_view (snd (run_rule by' why op d)) \<noteq> rule_view d"
    and "\<And>n ps. op = OpRedefineRole n ps \<Longrightarrow> has_role (d_roles d) n"
  shows "fst (run_rule by' why op d) \<and> newest_record_by by' why d (snd (run_rule by' why op d))"
proof -
  have "journaled_or_idle by' why d (run_rule by' why op d)"
  proof (cases op)
    case (OpAddTenant org tenant state)
    then show ?thesis
      by (cases rule: add_tenant_as_cases [of org tenant state by' why d])
        (auto simp: journaled_or_idle_def assms(1,2) intro!: newest_record_changeI)
  next
    case (OpTenantRules tenant f)
    show ?thesis
    proof (cases rule: with_tenant_rules_cases [of tenant by' why f d])
      case absent
      then show ?thesis by (simp add: OpTenantRules journaled_or_idle_def)
    next
      case (present i s)
      moreover have "fmupd i (f s) (d_tenants d) = d_tenants d" if "f s = s"
        using that present by (intro fmap_ext) auto
      moreover have "rule_view (d\<lparr>d_tenants := fmupd i (f s) (d_tenants d)\<rparr>) = rule_view d"
        if "tenant_view (f s) = tenant_view s"
        using that present(2) by (auto simp: rule_view_def intro!: fmap_ext)
      ultimately show ?thesis
        using assms(1,2,4) by (cases "tenant_view (f s) = tenant_view s")
          (auto simp: OpTenantRules journaled_or_idle_def)
    qed
  qed (use assms(1-3,5) in \<open>simp_all add: role_ops_journaled\<close>)
  then show ?thesis using assms(4) by (auto simp: journaled_or_idle_def split: if_splits)
qed

text \<open>
  Redefining a role that does not exist on a serving deployment reports failure, yet defines
  the role with the given permissions and journals nothing: the role book changes with no
  governance record.
\<close>

theorem redefine_undefined_role_silent:
  assumes "\<not> has_role (d_roles d) n" and "n \<noteq> []"
  shows "fst (redefine_role_as n ps by' why d) = False
    \<and> has_role (d_roles (snd (redefine_role_as n ps by' why d))) n
    \<and> set (permissions_of (d_roles (snd (redefine_role_as n ps by' why d))) n) = set ps
    \<and> d_governance (snd (redefine_role_as n ps by' why d)) = d_governance d
    \<and> d_governance_dropped (snd (redefine_role_as n ps by' why d)) = d_governance_dropped d"
  using assms
  by (auto simp: redefine_role_as_def redefine_role_def role_of_def has_role_def permissions_of_def
      image_iff fset_of_list.rep_eq)

text \<open>
  The guard of \<open>tenant_mut\<close> hands out the whole tenant state for assignment, and compares
  only the allowlist, the activations and the variant policy on drop. Assigning a fresh state with
  the same three rewinds the tenant's ledger to zero and sets its limit at will, and the
  deployment is otherwise unchanged: nothing is journaled.
\<close>

theorem tenant_guard_rewinds_ledger:
  assumes "tenant_new tenant = Some i" and "fmlookup (d_tenants d) i = Some s"
    and "tenant_view s = tenant_view (allow_model m (tenant_state_new limit))"
  shows "with_tenant_rules tenant by' why (\<lambda>_. allow_model m (tenant_state_new limit)) d =
      (True, d\<lparr>d_tenants := fmupd i (allow_model m (tenant_state_new limit)) (d_tenants d)\<rparr>)
    \<and> tb_spent (ts_budget (allow_model m (tenant_state_new limit))) = 0
    \<and> tb_limit (ts_budget (allow_model m (tenant_state_new limit))) = limit"
  using assms
  by (cases rule: with_tenant_rules_cases
      [of tenant by' why "\<lambda>_. allow_model m (tenant_state_new limit)" d])
    (auto simp: with_tenant_rules_def tenant_mut_as_def prod_eq_iff allow_model_def
      tenant_state_new_def budget_new_def Let_def)

end
