(* ===== verification/Cells.thy ===== *)
theory Cells
  imports Deployment
begin

section \<open>Tenant cells (crates/ccos-enterprise-runtime)\<close>

text \<open>
  The tenant-scoped store: writes under the per-tenant and the deployment-wide ceiling, deletes,
  and the direct access of the test fixtures. \<open>write_cell\<close> returns the state even when it
  refuses: the refusals after \<open>entry(..).or_default()\<close> leave an empty cell map behind for a
  tenant that had none. \<open>usize\<close> lengths are natural numbers, cast to \<open>u64\<close> where the code casts.
\<close>

definition MAX_CELLS_PER_TENANT :: nat where
  "MAX_CELLS_PER_TENANT = 65536"

definition MAX_CELL_KEY_BYTES :: nat where
  "MAX_CELL_KEY_BYTES = 1024"

definition MAX_CELL_VALUE_BYTES :: nat where
  "MAX_CELL_VALUE_BYTES = 1048576"

definition MAX_TOTAL_CELL_BYTES :: u64 where
  "MAX_TOTAL_CELL_BYTES = 64 * 1024 * 1024 * 1024"

definition cells_of :: "deployment \<Rightarrow> tenant_id \<Rightarrow> (str \<times> str) list" where
  "cells_of d tenant =
     (case fmlookup (d_store d) tenant of None \<Rightarrow> [] | Some cells \<Rightarrow> sorted_list_of_fmap cells)"

definition cell_count :: "deployment \<Rightarrow> tenant_id \<Rightarrow> nat" where
  "cell_count d tenant =
     (case fmlookup (d_store d) tenant of None \<Rightarrow> 0 | Some cells \<Rightarrow> fmlen cells)"

definition updated_store_bytes :: "u64 \<Rightarrow> u64 \<Rightarrow> u64 \<Rightarrow> u64 option" where
  "updated_store_bytes store_bytes old_bytes new_bytes =
     (if old_bytes \<le> new_bytes then
        (case checked_add store_bytes (new_bytes - old_bytes) of
           None \<Rightarrow> None
         | Some n \<Rightarrow> if n \<le> MAX_TOTAL_CELL_BYTES then Some n else None)
      else checked_sub store_bytes (old_bytes - new_bytes))"

definition write_cell ::
  "tenant_id \<Rightarrow> str \<Rightarrow> str \<Rightarrow> deployment \<Rightarrow> (refusal + unit) \<times> deployment" where
  "write_cell tenant key v d =
     (if \<not> fmcontains (d_tenants d) tenant then (Inl UnknownTenant, d)
      else if key = [] \<or> MAX_CELL_KEY_BYTES < length key then
        (Inl (MalformedRequest ''cell_key''), d)
      else if MAX_CELL_VALUE_BYTES < length v then (Inl (MalformedRequest ''cell_value''), d)
      else
        let cells = fmget_or (d_store d) tenant fmempty;
            d = d\<lparr>d_store := fmupd tenant cells (d_store d)\<rparr>;
            new_key = (\<not> fmcontains cells key)
        in if new_key \<and> MAX_CELLS_PER_TENANT \<le> fmlen cells then (Inl StorageExhausted, d)
           else
             let new_bytes = of_nat (length key + length v) :: u64;
                 old_bytes = (case fmlookup cells key of
                                None \<Rightarrow> 0
                              | Some old \<Rightarrow> of_nat (length key + length old))
             in case updated_store_bytes (d_store_bytes d) old_bytes new_bytes of
                  None \<Rightarrow> (Inl StorageExhausted, d)
                | Some n \<Rightarrow>
                    (Inr (), d\<lparr>d_store := fmupd tenant (fmupd key v cells) (d_store d),
                               d_store_bytes := n\<rparr>))"

definition map_bytes :: "cell_map \<Rightarrow> u64" where
  "map_bytes cells = sum_list (map (\<lambda>(k, v). of_nat (length k + length v)) (sorted_list_of_fmap cells))"

definition total_cell_bytes :: "deployment \<Rightarrow> u64" where
  "total_cell_bytes d = sum_list (map (map_bytes \<circ> snd) (sorted_list_of_fmap (d_store d)))"

definition delete_cell :: "tenant_id \<Rightarrow> str \<Rightarrow> deployment \<Rightarrow> bool \<times> deployment" where
  "delete_cell tenant key d =
     (case fmlookup (d_store d) tenant of
        None \<Rightarrow> (False, d)
      | Some cells \<Rightarrow>
          let before = map_bytes cells in
          if \<not> fmcontains cells key then (False, d)
          else
            let cells = fmdrop key cells;
                after = map_bytes cells;
                empty = (cells = fmempty);
                d = d\<lparr>d_store := fmupd tenant cells (d_store d),
                      d_store_bytes := sat_sub (d_store_bytes d) (before - after)\<rparr>
            in (True, if empty then d\<lparr>d_store := fmdrop tenant (d_store d)\<rparr> else d))"

subsection \<open>Direct access (test fixtures)\<close>

definition put :: "str tenant_scope \<Rightarrow> str \<Rightarrow> deployment \<Rightarrow> bool \<times> deployment" where
  "put scope v d =
     (let (r, d) = write_cell (scope_tenant scope) (scope_inner scope) v d in (is_ok r, d))"

definition get :: "str tenant_scope \<Rightarrow> deployment \<Rightarrow> str option" where
  "get scope d =
     (case fmlookup (d_store d) (scope_tenant scope) of
        None \<Rightarrow> None
      | Some cells \<Rightarrow> fmlookup cells (scope_inner scope))"

definition remove :: "str tenant_scope \<Rightarrow> deployment \<Rightarrow> bool \<times> deployment" where
  "remove scope d = delete_cell (scope_tenant scope) (scope_inner scope) d"

definition clear_cells :: "tenant_id \<Rightarrow> deployment \<Rightarrow> nat \<times> deployment" where
  "clear_cells tenant d =
     (case fmlookup (d_store d) tenant of
        None \<Rightarrow> (0, d)
      | Some cells \<Rightarrow>
          (fmlen cells,
           d\<lparr>d_store := fmdrop tenant (d_store d),
             d_store_bytes := sat_sub (d_store_bytes d) (map_bytes cells)\<rparr>))"

subsection \<open>Byte counts as natural numbers\<close>

text \<open>
  The counts above are sums of machine words. Below they are related to exact sums of natural
  numbers, which agree as long as the exact total fits, and the ceiling keeps it there.
\<close>

definition fmsum :: "('k \<Rightarrow> 'v \<Rightarrow> nat) \<Rightarrow> ('k, 'v) fmap \<Rightarrow> nat" where
  "fmsum f m = (\<Sum>k\<in>fset (fmdom m). f k (the (fmlookup m k)))"

lemma fmsum_empty [simp]: "fmsum f fmempty = 0"
  by (simp add: fmsum_def)

lemma fmsum_drop: "fmlookup m k = Some v \<Longrightarrow> fmsum f (fmdrop k m) + f k v = fmsum f m"
proof -
  assume k: "fmlookup m k = Some v"
  have "fmsum f m = f k v + (\<Sum>j\<in>fset (fmdom m) - {k}. f j (the (fmlookup m j)))"
    unfolding fmsum_def using k by (subst sum.remove [of _ k]) (auto simp: fmdomI)
  also have "(\<Sum>j\<in>fset (fmdom m) - {k}. f j (the (fmlookup m j))) = fmsum f (fmdrop k m)"
    unfolding fmsum_def by (rule sum.cong) auto
  finally show ?thesis by simp
qed

lemma fmsum_drop_None [simp]: "fmlookup m k = None \<Longrightarrow> fmsum f (fmdrop k m) = fmsum f m"
proof -
  assume "fmlookup m k = None"
  then have "fmdrop k m = m" by (intro fmap_ext) auto
  then show ?thesis by simp
qed

lemma fmsum_upd: "fmsum f (fmupd k v m) = fmsum f (fmdrop k m) + f k v"
proof -
  have "fmdrop k (fmupd k v m) = fmdrop k m" by (rule fmap_ext) auto
  then show ?thesis using fmsum_drop [of "fmupd k v m" k v f] by simp
qed

lemma sum_list_sorted_fmap:
  "sum_list (map (\<lambda>(k, v). of_nat (f k v)) (sorted_list_of_fmap m)) = (of_nat (fmsum f m) :: u64)"
proof -
  have "sum_list (map (\<lambda>(k, v). of_nat (f k v)) (sorted_list_of_fmap m)) =
      sum_list (map (\<lambda>k. of_nat (f k (the (fmlookup m k))) :: u64) (sorted_list_of_fset (fmdom m)))"
    by (simp add: sorted_list_of_fmap_def comp_def)
  also have "\<dots> = (\<Sum>k\<in>set (sorted_list_of_fset (fmdom m)). of_nat (f k (the (fmlookup m k))))"
    by (rule sum_list_distinct_conv_sum_set) simp
  finally show ?thesis by (simp add: fmsum_def)
qed

definition map_size :: "cell_map \<Rightarrow> nat" where
  "map_size = fmsum (\<lambda>k v. length k + length v)"

definition store_size :: "(tenant_id, cell_map) fmap \<Rightarrow> nat" where
  "store_size = fmsum (\<lambda>_ cells. map_size cells)"

lemma map_bytes_eq: "map_bytes cells = of_nat (map_size cells)"
  unfolding map_bytes_def map_size_def by (rule sum_list_sorted_fmap)

lemma total_cell_bytes_eq: "total_cell_bytes d = of_nat (store_size (d_store d))"
  unfolding total_cell_bytes_def store_size_def sum_list_sorted_fmap [symmetric]
  by (simp add: map_bytes_eq comp_def split_def)

subsection \<open>Invariant\<close>

definition cells_ok :: "cell_map \<Rightarrow> bool" where
  "cells_ok cells \<longleftrightarrow>
     fmlen cells \<le> MAX_CELLS_PER_TENANT \<and>
     (\<forall>k v. fmlookup cells k = Some v \<longrightarrow>
        k \<noteq> [] \<and> length k \<le> MAX_CELL_KEY_BYTES \<and> length v \<le> MAX_CELL_VALUE_BYTES)"

lemma cells_ok_empty [simp]: "cells_ok fmempty"
  by (simp add: cells_ok_def)

lemma cells_ok_upd:
  assumes "cells_ok m" and "fmlookup m k = None \<Longrightarrow> fmlen m < MAX_CELLS_PER_TENANT"
    and "k \<noteq> []" and "length k \<le> MAX_CELL_KEY_BYTES" and "length v \<le> MAX_CELL_VALUE_BYTES"
  shows "cells_ok (fmupd k v m)"
proof -
  have "fmlen (fmupd k v m) \<le> MAX_CELLS_PER_TENANT"
    using assms(1,2) by (cases "fmlookup m k") (simp_all add: cells_ok_def fcard_finsert_if fmcontains_iff)
  then show ?thesis using assms unfolding cells_ok_def by auto
qed

lemma cells_ok_drop:
  assumes "cells_ok m"
  shows "cells_ok (fmdrop k m)"
proof -
  have "fcard (fmdom m |-| {|k|}) \<le> fcard (fmdom m)" by (rule fcard_mono) auto
  then show ?thesis using assms by (auto simp: cells_ok_def split: if_splits)
qed

definition store_ok :: "deployment \<Rightarrow> bool" where
  "store_ok d \<longleftrightarrow>
     unat (d_store_bytes d) = store_size (d_store d) \<and>
     store_size (d_store d) \<le> unat MAX_TOTAL_CELL_BYTES \<and>
     (\<forall>t cells. fmlookup (d_store d) t = Some cells \<longrightarrow>
        fmcontains (d_tenants d) t \<and> cells_ok cells)"

lemma max_total_cell_bytes [simp]: "unat MAX_TOTAL_CELL_BYTES = 2 ^ 36"
  by (simp add: MAX_TOTAL_CELL_BYTES_def)

lemma store_size_lookup: "fmlookup st t = Some cells \<Longrightarrow> store_size (fmdrop t st) + map_size cells = store_size st"
  unfolding store_size_def by (rule fmsum_drop)

lemma store_size_upd: "store_size (fmupd t cells st) = store_size (fmdrop t st) + map_size cells"
  unfolding store_size_def by (rule fmsum_upd)

lemma store_size_get_or: "store_size (fmdrop t st) + map_size (fmget_or st t fmempty) = store_size st"
  by (cases "fmlookup st t")
    (simp_all add: fmget_or_def store_size_lookup, simp add: store_size_def map_size_def)

lemma map_size_upd:
  "map_size (fmupd k v m) + (case fmlookup m k of None \<Rightarrow> 0 | Some old \<Rightarrow> length k + length old)
     = map_size m + length k + length v"
  unfolding map_size_def fmsum_upd
  by (cases "fmlookup m k")
    (simp_all add: fmsum_drop [where f = "\<lambda>k v. length k + length v", symmetric])

definition cell_at :: "deployment \<Rightarrow> tenant_id \<Rightarrow> str \<Rightarrow> str option" where
  "cell_at d t k = fmlookup (fmget_or (d_store d) t fmempty) k"

definition cell_bytes_at :: "deployment \<Rightarrow> tenant_id \<Rightarrow> str \<Rightarrow> nat" where
  "cell_bytes_at d t k = (case cell_at d t k of None \<Rightarrow> 0 | Some old \<Rightarrow> length k + length old)"

definition write_allowed :: "deployment \<Rightarrow> tenant_id \<Rightarrow> str \<Rightarrow> str \<Rightarrow> bool" where
  "write_allowed d t k v \<longleftrightarrow>
     fmcontains (d_tenants d) t \<and> k \<noteq> [] \<and> length k \<le> MAX_CELL_KEY_BYTES \<and>
     length v \<le> MAX_CELL_VALUE_BYTES \<and>
     (cell_at d t k = None \<longrightarrow> cell_count d t < MAX_CELLS_PER_TENANT) \<and>
     (cell_bytes_at d t k \<le> length k + length v \<longrightarrow>
        store_size (d_store d) + (length k + length v) \<le> unat MAX_TOTAL_CELL_BYTES + cell_bytes_at d t k)"

lemma store_okD:
  assumes "store_ok d"
  shows "unat (d_store_bytes d) = store_size (d_store d)" "store_size (d_store d) \<le> 2 ^ 36"
    and "fmlookup (d_store d) t = Some cells \<Longrightarrow> fmcontains (d_tenants d) t"
    and "fmlookup (d_store d) t = Some cells \<Longrightarrow> cells_ok cells"
  using assms by (simp_all add: store_ok_def)

lemma cell_bytes_at_le: "cell_bytes_at d t k \<le> store_size (d_store d)"
proof -
  let ?m = "fmget_or (d_store d) t fmempty"
  have "cell_bytes_at d t k \<le> map_size ?m"
    using fmsum_drop [of ?m k _ "\<lambda>k v. length k + length v"]
    by (auto simp: cell_bytes_at_def cell_at_def map_size_def split: option.splits)
  also have "\<dots> \<le> store_size (d_store d)"
    using store_size_get_or [of t "d_store d"] by simp
  finally show ?thesis .
qed

lemma store_size_write:
  "store_size (fmupd t (fmupd k v (fmget_or (d_store d) t fmempty)) (d_store d)) + cell_bytes_at d t k
     = store_size (d_store d) + (length k + length v)"
  using map_size_upd [of k v "fmget_or (d_store d) t fmempty"] store_size_get_or [of t "d_store d"]
  by (simp add: store_size_upd cell_bytes_at_def cell_at_def)

lemma of_nat_u64_le: "a < 2 ^ 64 \<Longrightarrow> b < 2 ^ 64 \<Longrightarrow> (of_nat a :: u64) \<le> of_nat b \<longleftrightarrow> a \<le> b"
  by (simp add: word_le_nat_alt unat_of_nat_u64)

lemma of_nat_u64_diff: "b \<le> a \<Longrightarrow> (of_nat a :: u64) - of_nat b = of_nat (a - b)"
  by simp

lemma store_total_update:
  assumes "unat sb = S" and "S \<le> 2 ^ 36" and "old \<le> S" and "new < 2 ^ 22"
  shows "updated_store_bytes sb (of_nat old) (of_nat new)
    = (if old \<le> new \<and> unat MAX_TOTAL_CELL_BYTES + old < S + new then None
       else Some (of_nat (S + new - old)))"
proof -
  have sb: "sb = of_nat S" using assms(1) by auto
  have le: "(of_nat old :: u64) \<le> of_nat new \<longleftrightarrow> old \<le> new"
    using assms by (intro of_nat_u64_le) simp_all
  show ?thesis
  proof (cases "old \<le> new")
    case True
    have "unat (of_nat (new - old) :: u64) = new - old"
      using assms by (intro unat_of_nat_u64) simp
    moreover have "unat (of_nat (S + new - old) :: u64) = S + new - old"
      using assms by (intro unat_of_nat_u64) simp
    moreover have "sb + of_nat (new - old) = of_nat (S + new - old)"
      using True by (simp add: sb)
    ultimately show ?thesis
      using assms True unfolding updated_store_bytes_def le
      by (auto simp: checked_add_def word_le_nat_alt of_nat_u64_diff [OF True] simp del: of_nat_diff)
  next
    case False
    then have less: "new \<le> old" by simp
    have "unat (of_nat (old - new) :: u64) = old - new"
      using assms by (intro unat_of_nat_u64) simp
    then have "of_nat (old - new) \<le> sb"
      using assms by (simp add: word_le_nat_alt)
    moreover have "sb - of_nat (old - new) = of_nat (S + new - old)"
      using less assms by (simp add: sb)
    ultimately show ?thesis
      using False unfolding updated_store_bytes_def le
      by (simp add: checked_sub_def of_nat_u64_diff [OF less] del: of_nat_diff)
  qed
qed

lemma cell_count_get_or: "cell_count d t = fmlen (fmget_or (d_store d) t fmempty)"
  by (simp add: cell_count_def fmget_or_def split: option.splits)

lemma cell_bytes_at_word:
  "(case fmlookup (fmget_or (d_store d) t fmempty) k of
      None \<Rightarrow> 0 | Some old \<Rightarrow> of_nat (length k + length old)) = (of_nat (cell_bytes_at d t k) :: u64)"
  by (simp add: cell_bytes_at_def cell_at_def split: option.splits)

lemma fmupd_fmupd [simp]: "fmupd k x (fmupd k y m) = fmupd k x m"
  by (rule fmap_ext) auto

text \<open>
  \<open>write_cell\<close> as one conditional: it lands exactly when \<^const>\<open>write_allowed\<close> holds, and then
  the byte counter is the exact new total; a refusal changes at most the presence of an empty
  cell map.
\<close>

definition touch_cells :: "tenant_id \<Rightarrow> deployment \<Rightarrow> deployment" where
  "touch_cells t d = d\<lparr>d_store := fmupd t (fmget_or (d_store d) t fmempty) (d_store d)\<rparr>"

definition land_cell :: "tenant_id \<Rightarrow> str \<Rightarrow> str \<Rightarrow> deployment \<Rightarrow> deployment" where
  "land_cell t k v d =
     d\<lparr>d_store := fmupd t (fmupd k v (fmget_or (d_store d) t fmempty)) (d_store d),
       d_store_bytes :=
         of_nat (store_size (d_store d) + (length k + length v) - cell_bytes_at d t k)\<rparr>"

lemma write_cell_unfold:
  assumes "store_ok d"
  shows "write_cell t k v d =
     (if \<not> fmcontains (d_tenants d) t then (Inl UnknownTenant, d)
      else if k = [] \<or> MAX_CELL_KEY_BYTES < length k then (Inl (MalformedRequest ''cell_key''), d)
      else if MAX_CELL_VALUE_BYTES < length v then (Inl (MalformedRequest ''cell_value''), d)
      else if write_allowed d t k v then (Inr (), land_cell t k v d)
      else (Inl StorageExhausted, touch_cells t d))"
proof (cases "k = [] \<or> MAX_CELL_KEY_BYTES < length k \<or> MAX_CELL_VALUE_BYTES < length v")
  case True
  then show ?thesis by (auto simp: write_cell_def)
next
  case False
  then have "length k + length v < 2 ^ 22"
    by (simp add: MAX_CELL_KEY_BYTES_def MAX_CELL_VALUE_BYTES_def)
  note upd = store_total_update [OF store_okD(1,2) [OF assms] cell_bytes_at_le [of d t k] this]
  have new: "fmcontains (fmget_or (d_store d) t fmempty) k \<longleftrightarrow> cell_at d t k \<noteq> None"
    by (simp add: cell_at_def fmcontains_iff)
  show ?thesis
    unfolding write_cell_def Let_def cell_bytes_at_word
    using False
    by (auto simp: upd new write_allowed_def cell_count_get_or touch_cells_def land_cell_def
        simp del: of_nat_add of_nat_diff fmlookup_dom_iff)
qed

lemma store_okI:
  assumes "unat (d_store_bytes d) = store_size (d_store d)"
    and "store_size (d_store d) \<le> unat MAX_TOTAL_CELL_BYTES"
    and "\<And>t cells. fmlookup (d_store d) t = Some cells \<Longrightarrow>
          fmcontains (d_tenants d) t \<and> cells_ok cells"
  shows "store_ok d"
  using assms by (simp add: store_ok_def)

lemma cells_ok_get_or: "store_ok d \<Longrightarrow> cells_ok (fmget_or (d_store d) t fmempty)"
  by (cases "fmlookup (d_store d) t") (simp_all add: fmget_or_def store_okD(4))

lemma store_ok_cong:
  "d_store e = d_store d \<Longrightarrow> d_store_bytes e = d_store_bytes d \<Longrightarrow>
     fmdom (d_tenants d) |\<subseteq>| fmdom (d_tenants e) \<Longrightarrow> store_ok d \<Longrightarrow> store_ok e"
  unfolding store_ok_def by auto

lemma store_ok_touch:
  assumes "store_ok d" and "fmcontains (d_tenants d) t"
  shows "store_ok (touch_cells t d)"
proof (rule store_okI)
  have "store_size (d_store (touch_cells t d)) = store_size (d_store d)"
    using store_size_get_or [of t "d_store d"] by (simp add: touch_cells_def store_size_upd)
  then show "unat (d_store_bytes (touch_cells t d)) = store_size (d_store (touch_cells t d))"
    and "store_size (d_store (touch_cells t d)) \<le> unat MAX_TOTAL_CELL_BYTES"
    using assms(1) by (simp_all add: touch_cells_def store_ok_def)
  fix s cells
  assume "fmlookup (d_store (touch_cells t d)) s = Some cells"
  then have "fmlookup (d_store d) s = Some cells \<or> (s = t \<and> cells = fmempty)"
    by (auto simp: touch_cells_def fmget_or_def split: if_splits option.splits)
  then show "fmcontains (d_tenants (touch_cells t d)) s \<and> cells_ok cells"
    using assms(2) store_okD(3,4) [OF assms(1)] by (auto simp: touch_cells_def)
qed

lemma store_size_land:
  assumes "store_ok d" and "write_allowed d t k v"
  shows "store_size (d_store (land_cell t k v d))
      = store_size (d_store d) + (length k + length v) - cell_bytes_at d t k"
    and "store_size (d_store (land_cell t k v d)) \<le> unat MAX_TOTAL_CELL_BYTES"
  using store_size_write [of t k v d] cell_bytes_at_le [of d t k] store_okD(2) [OF assms(1)] assms(2)
  by (auto simp: land_cell_def write_allowed_def)

lemma store_ok_land:
  assumes "store_ok d" and "write_allowed d t k v"
  shows "store_ok (land_cell t k v d)"
proof (rule store_okI)
  let ?m = "fmget_or (d_store d) t fmempty"
  show "store_size (d_store (land_cell t k v d)) \<le> unat MAX_TOTAL_CELL_BYTES"
    by (rule store_size_land [OF assms])
  moreover have "d_store_bytes (land_cell t k v d) = of_nat (store_size (d_store (land_cell t k v d)))"
    by (simp only: store_size_land(1) [OF assms]) (simp add: land_cell_def)
  ultimately show "unat (d_store_bytes (land_cell t k v d)) = store_size (d_store (land_cell t k v d))"
    by (simp add: unat_of_nat_u64)
  have land: "cells_ok (fmupd k v ?m)"
    using assms(2) cells_ok_get_or [OF assms(1)]
    by (intro cells_ok_upd) (auto simp: write_allowed_def cell_at_def cell_count_get_or)
  fix s cells
  assume "fmlookup (d_store (land_cell t k v d)) s = Some cells"
  then show "fmcontains (d_tenants (land_cell t k v d)) s \<and> cells_ok cells"
    using land assms(2) store_okD(3,4) [OF assms(1), of s]
    by (cases "s = t") (auto simp: land_cell_def write_allowed_def)
qed

lemma store_ok_write: "store_ok d \<Longrightarrow> store_ok (snd (write_cell t k v d))"
  by (auto simp: write_cell_unfold store_ok_land store_ok_touch)

subsection \<open>Deletes\<close>

text \<open>A delete releases exactly the bytes of the cell, and the last one drops the map.\<close>

lemma delete_cell_present:
  assumes ok: "store_ok d" and "fmlookup (d_store d) t = Some cells" and "fmlookup cells k = Some v"
  shows "delete_cell t k d =
    (True, d\<lparr>d_store := (if fmdrop k cells = fmempty then fmdrop t (d_store d)
                        else fmupd t (fmdrop k cells) (d_store d)),
             d_store_bytes := of_nat (store_size (d_store d) - (length k + length v))\<rparr>)"
proof -
  have drop: "map_size (fmdrop k cells) + (length k + length v) = map_size cells"
    using fmsum_drop [OF assms(3)] by (simp add: map_size_def)
  then have le: "length k + length v \<le> store_size (d_store d)"
    using store_size_lookup [OF assms(2)] by simp
  have "map_bytes cells - map_bytes (fmdrop k cells) = of_nat (length k + length v)"
    using drop [symmetric] by (simp add: map_bytes_eq)
  moreover have "unat (of_nat (length k + length v) :: u64) = length k + length v"
    using le store_okD(2) [OF ok] by (intro unat_of_nat_u64) simp
  then have "sat_sub (d_store_bytes d) (of_nat (length k + length v)) =
      of_nat (store_size (d_store d) - (length k + length v))"
    using le store_okD(1,2) [OF ok]
    by (simp add: word_unat_eq_iff unat_sat_sub unat_of_nat_u64 del: of_nat_add of_nat_diff)
  ultimately show ?thesis
    using assms(2,3)
    by (cases "fmdrop k cells = fmempty")
      (simp_all add: delete_cell_def Let_def fmcontains_iff fmdrop_fmupd_same
        del: of_nat_add of_nat_diff)
qed

lemma delete_cell_absent:
  "cell_at d t k = None \<Longrightarrow> delete_cell t k d = (False, d)"
  by (cases "fmlookup (d_store d) t")
    (simp_all add: delete_cell_def cell_at_def fmget_or_def fmcontains_iff)

lemma cell_at_Some:
  "cell_at d t k = Some v \<longleftrightarrow>
     (\<exists>cells. fmlookup (d_store d) t = Some cells \<and> fmlookup cells k = Some v)"
  by (cases "fmlookup (d_store d) t") (simp_all add: cell_at_def fmget_or_def)

lemma delete_cell_cases:
  assumes "store_ok d"
  obtains (absent) "cell_at d t k = None" "delete_cell t k d = (False, d)"
  | (present) cells v where "fmlookup (d_store d) t = Some cells" "fmlookup cells k = Some v"
      "delete_cell t k d =
        (True, d\<lparr>d_store := (if fmdrop k cells = fmempty then fmdrop t (d_store d)
                            else fmupd t (fmdrop k cells) (d_store d)),
                 d_store_bytes := of_nat (store_size (d_store d) - (length k + length v))\<rparr>)"
  using delete_cell_absent delete_cell_present [OF assms] cell_at_Some
  by (cases "cell_at d t k") (fastforce simp: cell_at_Some)+

lemma store_ok_delete:
  assumes ok: "store_ok d"
  shows "store_ok (snd (delete_cell t k d))"
  using ok
proof (cases rule: delete_cell_cases [where t = t and k = k])
  case absent
  then show ?thesis using ok by simp
next
  case (present cells v)
  let ?d = "snd (delete_cell t k d)"
  have drop: "map_size (fmdrop k cells) + (length k + length v) = map_size cells"
    using fmsum_drop [OF present(2)] by (simp add: map_size_def)
  have "store_size (d_store ?d) = store_size (d_store d) - (length k + length v)"
    using drop store_size_lookup [OF present(1)] present(3)
    by (auto simp: store_size_upd map_size_def)
  moreover have "unat (of_nat (store_size (d_store d) - (length k + length v)) :: u64)
      = store_size (d_store d) - (length k + length v)"
    using store_okD(2) [OF ok] by (intro unat_of_nat_u64) simp
  ultimately show ?thesis
    using present(3) store_okD(2) [OF ok]
  proof (intro store_okI)
    fix s cs
    assume "fmlookup (d_store ?d) s = Some cs"
    then have "fmlookup (d_store d) s = Some cs \<or> (s = t \<and> cs = fmdrop k cells)"
      using present(3) by (auto split: if_splits)
    then show "fmcontains (d_tenants ?d) s \<and> cells_ok cs"
      using present store_okD(3,4) [OF ok] cells_ok_drop by auto
  qed (simp_all add: del: of_nat_add of_nat_diff)
qed

lemma store_ok_clear:
  assumes ok: "store_ok d"
  shows "store_ok (snd (clear_cells t d))"
proof (cases "fmlookup (d_store d) t")
  case None
  then show ?thesis using ok by (simp add: clear_cells_def)
next
  case (Some cells)
  let ?d = "snd (clear_cells t d)"
  have size: "store_size (fmdrop t (d_store d)) + map_size cells = store_size (d_store d)"
    by (rule store_size_lookup [OF Some])
  then have "unat (map_bytes cells) = map_size cells"
    using store_okD(2) [OF ok] by (simp add: map_bytes_eq unat_of_nat_u64)
  then have "unat (d_store_bytes ?d) = store_size (d_store ?d)"
    using size store_okD(1) [OF ok] Some by (simp add: clear_cells_def unat_sat_sub)
  then show ?thesis
    using size store_okD(2-4) [OF ok] Some
    by (intro store_okI) (auto simp: clear_cells_def split: if_splits)
qed

subsection \<open>The store as a tenant-scoped key-value map\<close>

text \<open>
  What a client of the store relies on: a write that lands is read back and disturbs no other
  cell, a refused write disturbs none, a delete removes its cell and disturbs no other.
\<close>

datatype ('t, 'k, 'v) cell_op = Write 't 'k 'v | Delete 't 'k

locale scoped_store =
  fixes wf :: "'s \<Rightarrow> bool"
    and lookup :: "'s \<Rightarrow> 't \<Rightarrow> 'k \<Rightarrow> 'v option"
    and write_op :: "'t \<Rightarrow> 'k \<Rightarrow> 'v \<Rightarrow> 's \<Rightarrow> ('e + unit) \<times> 's"
    and delete_op :: "'t \<Rightarrow> 'k \<Rightarrow> 's \<Rightarrow> bool \<times> 's"
  assumes write_landed: "wf s \<Longrightarrow> fst (write_op t k v s) = Inr () \<Longrightarrow>
      lookup (snd (write_op t k v s)) t' k' = (if t' = t \<and> k' = k then Some v else lookup s t' k')"
    and write_refused: "wf s \<Longrightarrow> fst (write_op t k v s) \<noteq> Inr () \<Longrightarrow>
      lookup (snd (write_op t k v s)) t' k' = lookup s t' k'"
    and delete_lookup: "wf s \<Longrightarrow>
      lookup (snd (delete_op t k s)) t' k' = (if t' = t \<and> k' = k then None else lookup s t' k')"
    and wf_write: "wf s \<Longrightarrow> wf (snd (write_op t k v s))"
    and wf_delete: "wf s \<Longrightarrow> wf (snd (delete_op t k s))"
begin

fun apply_op :: "('t, 'k, 'v) cell_op \<Rightarrow> 's \<Rightarrow> 's" where
  "apply_op (Write t k v) s = snd (write_op t k v s)"
| "apply_op (Delete t k) s = snd (delete_op t k s)"

fun op_tenant :: "('t, 'k, 'v) cell_op \<Rightarrow> 't" where
  "op_tenant (Write t k v) = t"
| "op_tenant (Delete t k) = t"

lemma wf_apply: "wf s \<Longrightarrow> wf (apply_op op s)"
  by (cases op) (simp_all add: wf_write wf_delete)

lemma apply_other: "wf s \<Longrightarrow> op_tenant op \<noteq> t \<Longrightarrow> lookup (apply_op op s) t k = lookup s t k"
proof (cases op)
  case (Write t' k' v)
  assume "wf s" "op_tenant op \<noteq> t"
  with Write show ?thesis
    using write_landed [of s t' k' v t k] write_refused [of s t' k' v t k]
    by (cases "fst (write_op t' k' v s) = Inr ()") auto
qed (simp add: delete_lookup)

lemma write_other: "wf s \<Longrightarrow> t' \<noteq> t \<Longrightarrow> lookup (snd (write_op t k v s)) t' k' = lookup s t' k'"
  using apply_other [of s "Write t k v" t' k'] by simp

lemma isolation:
  "wf s \<Longrightarrow> \<forall>op\<in>set ops. op_tenant op \<noteq> t \<Longrightarrow> lookup (fold apply_op ops s) t k = lookup s t k"
  by (induction ops arbitrary: s) (simp_all add: wf_apply apply_other)

lemma wf_ops: "wf s \<Longrightarrow> wf (fold apply_op ops s)"
  by (induction ops arbitrary: s) (simp_all add: wf_apply)

lemma write_read_back:
  assumes "wf s" and "fst (write_op t k v s) = Inr ()" and "\<forall>op\<in>set ops. op_tenant op \<noteq> t"
  shows "lookup (fold apply_op ops (snd (write_op t k v s))) t k = Some v"
  using isolation [OF wf_write [OF assms(1)] assms(3)] write_landed [OF assms(1,2)] by simp

end

lemma cell_at_touch [simp]: "cell_at (touch_cells t d) s k = cell_at d s k"
  by (auto simp: cell_at_def touch_cells_def fmget_or_def split: option.splits)

lemma cell_at_land:
  "cell_at (land_cell t k v d) s j = (if s = t \<and> j = k then Some v else cell_at d s j)"
  by (auto simp: cell_at_def land_cell_def fmget_or_def split: option.splits)

lemma cell_at_delete:
  assumes "store_ok d"
  shows "cell_at (snd (delete_cell t k d)) s j = (if s = t \<and> j = k then None else cell_at d s j)"
  using assms
proof (cases rule: delete_cell_cases [where t = t and k = k])
  case absent
  then show ?thesis by simp
next
  case (present cells v)
  then have "j \<noteq> k \<Longrightarrow> fmdrop k cells = fmempty \<Longrightarrow> fmlookup cells j = None"
    by (metis fmempty_lookup fmlookup_drop)
  then show ?thesis using present by (auto simp: cell_at_def fmget_or_def split: option.splits)
qed

interpretation cells: scoped_store store_ok cell_at write_cell delete_cell
proof unfold_locales
  fix t k v d t' k'
  assume ok: "store_ok d"
  show "cell_at (snd (write_cell t k v d)) t' k' = (if t' = t \<and> k' = k then Some v else cell_at d t' k')"
    if "fst (write_cell t k v d) = Inr ()"
    using that by (auto simp: write_cell_unfold [OF ok] cell_at_land split: if_splits)
  show "cell_at (snd (write_cell t k v d)) t' k' = cell_at d t' k'"
    if "fst (write_cell t k v d) \<noteq> Inr ()"
    using that by (auto simp: write_cell_unfold [OF ok] split: if_splits)
qed (simp_all add: cell_at_delete store_ok_write store_ok_delete)

lemma get_eq_cell_at: "get (scope_new t k) d = cell_at d t k"
  by (simp add: get_def scope_new_def cell_at_def fmget_or_def split: option.splits)

end
