(* ===== verification/Admission.thy ===== *)
theory Admission
  imports Rules Cells
begin

section \<open>The composed admission path (crates/ccos-enterprise-runtime)\<close>

text \<open>
  \<open>Deployment::decide\<close>, \<open>admit\<close> and the governed cell path. The SHA-256 function and the value
  \<open>now_unix()\<close> returned during the call are arguments. \<open>decide\<close> returns the outcome, the tokens
  charged and the deployment, which only a forwarded call changes.
\<close>

definition now_unix :: "int \<Rightarrow> u64" where
  "now_unix clock = (if clock < 0 then 0 else of_int clock)"

text \<open>The loop over the three identifiers: the name of the first malformed one.\<close>

fun malformed_field :: "(str \<times> str) list \<Rightarrow> str option" where
  "malformed_field [] = None"
| "malformed_field ((what, v) # rest) =
     (if v = [] \<or> MAX_IDENTIFIER_BYTES < length v then Some what else malformed_field rest)"

definition request_identifiers :: "gateway_request \<Rightarrow> (str \<times> str) list" where
  "request_identifiers r =
     [(''tenant'', gr_tenant r), (''actor'', gr_actor r), (''request_id'', gr_request_id r)]"

text \<open>Step 6 for a call that names a variant: \<open>None\<close> when the variant may be used.\<close>

definition variant_gate ::
  "(str \<Rightarrow> str) \<Rightarrow> u64 \<Rightarrow> deployment \<Rightarrow> tenant_id \<Rightarrow> tenant_state \<Rightarrow> qpage_variant \<Rightarrow> refusal option" where
  "variant_gate sha now d tenant state v =
     (if \<not> is_active (ts_qpages state) v then Some VariantNotActivated
      else case evaluate_variant (ts_variant_policy state) v of
        ActDenied \<Rightarrow> Some VariantNotActivated
      | ActAllowed \<Rightarrow> None
      | ActRequiresApproval \<Rightarrow>
          (case fmlookup (ts_variant_approvals state) v of
             None \<Rightarrow> Some RequiresApproval
           | Some i \<Rightarrow>
               if ledger_evaluate_id (d_approvals d) i
                    \<lparr>q_tenant = tenant, q_action = ''qpage.activate'',
                     q_artifact_hash = qpage_activation_artifact_hash sha tenant v,
                     q_now = now\<rparr> \<noteq> GateApproved
               then Some RequiresApproval else None))"

definition remember_key :: "replay_key \<Rightarrow> deployment \<Rightarrow> deployment" where
  "remember_key key d =
     d\<lparr>d_replay := remember (d_replay_memory d) (fmlen (d_tenants d)) key (d_replay d)\<rparr>"

definition decide ::
  "(str \<Rightarrow> str) \<Rightarrow> u64 \<Rightarrow> call \<Rightarrow> deployment \<Rightarrow> (outcome \<times> u64) \<times> deployment" where
  "decide sha now c d =
     (let req = c_request c;
          org = aa_org (c_actor c);
          actor = aa_actor (c_actor c);
          refuse = (\<lambda>r. ((Refused r, 0), d))
      in
      if aa_strength (c_actor c) < d_required_strength d then refuse Unauthenticated
      else case malformed_field (request_identifiers req) of
        Some what \<Rightarrow> refuse (MalformedRequest what)
      | None \<Rightarrow>
      if gr_actor req \<noteq> actor_name actor then refuse ActorMismatch
      else case tenant_new (gr_tenant req) of
        None \<Rightarrow> refuse (MalformedRequest ''tenant'')
      | Some tenant \<Rightarrow>
      (case fmlookup (d_tenant_owner d) tenant of
        None \<Rightarrow> refuse UnknownTenant
      | Some owner \<Rightarrow>
      if owner \<noteq> org then refuse TenantNotOwnedByOrg
      else case fmlookup (d_tenants d) tenant of
        None \<Rightarrow> refuse UnknownTenant
      | Some state \<Rightarrow>
      (case classify req of
        Reject why \<Rightarrow> refuse (OutsideBoundary why)
      | Forward \<Rightarrow>
      (case fmlookup (d_governed_tools d) (gr_tool req) of
        None \<Rightarrow> refuse ToolNotGoverned
      | Some perm \<Rightarrow>
      if \<not> allows (d_roles d) (org_name org) (actor_name actor) perm then refuse PermissionDenied
      else if gr_tool req |\<in>| d_justification_required d
              \<and> \<not> is_written_justification (c_justification c)
      then refuse JustificationRequired
      else if ts_active_model state \<noteq> Some (c_model c)
              \<or> evaluate_model (ts_models state) (c_model c) \<noteq> Allow
      then refuse ModelNotAllowed
      else case (case c_variant c of
                   None \<Rightarrow> None
                 | Some v \<Rightarrow> variant_gate sha now d tenant state v) of
        Some r \<Rightarrow> refuse r
      | None \<Rightarrow>
      if (tenant, gr_request_id req) |\<in>| rp_decided (d_replay d) then ((Replayed, 0), d)
      else case charge (ts_budget state) (c_cost_tokens c) of
        (Allow, budget) \<Rightarrow>
          ((Forwarded, c_cost_tokens c),
           remember_key (tenant, gr_request_id req)
             (d\<lparr>d_tenants := fmupd tenant (state\<lparr>ts_budget := budget\<rparr>) (d_tenants d)\<rparr>))
      | (_, budget) \<Rightarrow>
          ((Refused BudgetExhausted, 0),
           d\<lparr>d_tenants := fmupd tenant (state\<lparr>ts_budget := budget\<rparr>) (d_tenants d)\<rparr>)))))"

definition outcome_metrics :: "outcome \<Rightarrow> deployment \<Rightarrow> deployment" where
  "outcome_metrics res d =
     (let d = metric ''gateway.requests'' d in
      case res of
        Forwarded \<Rightarrow> metric ''gateway.forwarded'' d
      | Replayed \<Rightarrow> metric ''gateway.replayed'' d
      | Refused r \<Rightarrow> metric (''gateway.refused.'' @ tag r) (metric ''gateway.refused'' d))"

definition admit :: "(str \<Rightarrow> str) \<Rightarrow> u64 \<Rightarrow> call \<Rightarrow> deployment \<Rightarrow> outcome \<times> deployment" where
  "admit sha now c d =
     (let d = d\<lparr>d_serving := True\<rparr>;
          ((res, cost), d) = decide sha now c d
      in (res, journal_decision c res cost (outcome_metrics res d)))"

subsection \<open>The governed cell path\<close>

definition rewrite_last_audit :: "refusal \<Rightarrow> audit_record list \<Rightarrow> audit_record list" where
  "rewrite_last_audit r audit =
     (if audit = [] then []
      else butlast audit @ [(last audit)\<lparr>ar_cost := 0, ar_outcome := Refused r\<rparr>])"

definition cell_call ::
  "(str \<Rightarrow> str) \<Rightarrow> u64 \<Rightarrow> call \<Rightarrow> (tenant_id \<Rightarrow> deployment \<Rightarrow> (refusal + 'a) \<times> deployment)
     \<Rightarrow> deployment \<Rightarrow> (outcome \<times> 'a option) \<times> deployment" where
  "cell_call sha now c effect d =
     (case tenant_new (gr_tenant (c_request c)) of
        None \<Rightarrow> ((Refused (MalformedRequest ''tenant''), None), d)
      | Some tenant \<Rightarrow>
          let cost = c_cost_tokens c;
              (res, d) = admit sha now c d
          in if \<not> is_forwarded res then ((res, None), d)
             else let (r, d) = effect tenant d in
               case r of
                 Inr found \<Rightarrow> ((res, Some found), d)
               | Inl refusal \<Rightarrow>
                   let d = (case fmlookup (d_tenants d) tenant of
                              None \<Rightarrow> d
                            | Some state \<Rightarrow>
                                d\<lparr>d_tenants := fmupd tenant
                                    (state\<lparr>ts_budget := refund (ts_budget state) cost\<rparr>)
                                    (d_tenants d)\<rparr>);
                       d = metric ''gateway.cell_rejected'' d
                   in ((Refused refusal, None),
                       d\<lparr>d_audit := rewrite_last_audit refusal (d_audit d)\<rparr>))"

definition put_cell ::
  "(str \<Rightarrow> str) \<Rightarrow> u64 \<Rightarrow> call \<Rightarrow> str \<Rightarrow> str \<Rightarrow> deployment \<Rightarrow> outcome \<times> deployment" where
  "put_cell sha now c key v d =
     (let ((res, _), d) = cell_call sha now c (\<lambda>tenant. write_cell tenant key v) d in (res, d))"

definition get_cell ::
  "(str \<Rightarrow> str) \<Rightarrow> u64 \<Rightarrow> call \<Rightarrow> str \<Rightarrow> deployment \<Rightarrow> (outcome \<times> str option) \<times> deployment" where
  "get_cell sha now c key d =
     (let ((res, found), d) =
        cell_call sha now c
          (\<lambda>tenant d.
             if \<not> fmcontains (d_tenants d) tenant then (Inl UnknownTenant, d)
             else (Inr (case fmlookup (d_store d) tenant of
                          None \<Rightarrow> None
                        | Some cells \<Rightarrow> fmlookup cells key), d)) d
      in if is_forwarded res then ((res, Option.bind found id), d) else ((res, None), d))"

definition remove_cell ::
  "(str \<Rightarrow> str) \<Rightarrow> u64 \<Rightarrow> call \<Rightarrow> str \<Rightarrow> deployment \<Rightarrow> outcome \<times> deployment" where
  "remove_cell sha now c key d =
     (let ((res, _), d) =
        cell_call sha now c (\<lambda>tenant d. (Inr (), snd (delete_cell tenant key d))) d
      in (res, d))"

subsection \<open>Observation\<close>

definition tenant_limit :: "deployment \<Rightarrow> tenant_id \<Rightarrow> u64 option" where
  "tenant_limit d t = map_option (tb_limit \<circ> ts_budget) (fmlookup (d_tenants d) t)"

definition spent :: "deployment \<Rightarrow> tenant_id \<Rightarrow> u64 option" where
  "spent d t = map_option (tb_spent \<circ> ts_budget) (fmlookup (d_tenants d) t)"

definition tenant_models :: "deployment \<Rightarrow> tenant_id \<Rightarrow> str fset option" where
  "tenant_models d t = map_option (allowed_models \<circ> ts_models) (fmlookup (d_tenants d) t)"

definition tenant_variants :: "deployment \<Rightarrow> tenant_id \<Rightarrow> str list option" where
  "tenant_variants d t =
     map_option (\<lambda>s. map variant_debug (active (ts_qpages s))) (fmlookup (d_tenants d) t)"

definition tenant_active_model :: "deployment \<Rightarrow> tenant_id \<Rightarrow> str option" where
  "tenant_active_model d t = Option.bind (fmlookup (d_tenants d) t) ts_active_model"

subsection \<open>The reference deployment\<close>

definition request :: "str \<Rightarrow> str \<Rightarrow> str \<Rightarrow> str \<Rightarrow> gateway_request" where
  "request tenant actor tool rid =
     \<lparr>gr_tenant = tenant, gr_actor = actor, gr_tool = tool, gr_request_id = rid\<rparr>"

definition two_tenant_deployment :: deployment where
  "two_tenant_deployment =
     fold (\<lambda>step d. step d)
       [snd \<circ> add_role_as ''reader'' [''memory.read''] None None,
        snd \<circ> add_role_as ''writer'' [''memory.read'', ''memory.write''] None None,
        snd \<circ> add_role_as ''operator'' [''memory.read'', ''memory.write'', ''policy.admin''] None None,
        govern_tool ''memory.recall'' ''memory.read'',
        govern_tool ''memory.ingest'' ''memory.write'',
        govern_tool ''policy.set'' ''policy.admin'',
        govern_tool ''audit.query'' ''memory.read'',
        require_justification ''policy.set'',
        snd \<circ> add_tenant ''memorithm'' ''acme''
          (activate_raw Hierarchical
            (snd (permit_variant_raw Hierarchical
              (allow_model ''claude-opus'' (tenant_state_new 1000))))),
        snd \<circ> add_tenant ''memorithm'' ''globex'' (allow_model ''gpt-5'' (tenant_state_new 500)),
        snd \<circ> assign_as ''memorithm'' ''alice'' ''writer'' None None,
        snd \<circ> assign_as ''memorithm'' ''bob'' ''reader'' None None,
        snd \<circ> assign_as ''memorithm'' ''root'' ''operator'' None None]
       deployment_new"

subsection \<open>When a call is forwarded\<close>

text \<open>Every gate of \<open>decide\<close>, as one conjunction.\<close>

definition credential_bound :: "call \<Rightarrow> deployment \<Rightarrow> tenant_id \<Rightarrow> bool" where
  "credential_bound c d tenant \<longleftrightarrow>
     d_required_strength d \<le> aa_strength (c_actor c) \<and>
     malformed_field (request_identifiers (c_request c)) = None \<and>
     gr_actor (c_request c) = actor_name (aa_actor (c_actor c)) \<and>
     tenant_new (gr_tenant (c_request c)) = Some tenant \<and>
     fmlookup (d_tenant_owner d) tenant = Some (aa_org (c_actor c))"

definition tool_authorized :: "call \<Rightarrow> deployment \<Rightarrow> bool" where
  "tool_authorized c d \<longleftrightarrow>
     classify (c_request c) = Forward \<and>
     (\<exists>perm. fmlookup (d_governed_tools d) (gr_tool (c_request c)) = Some perm \<and>
        allows (d_roles d) (org_name (aa_org (c_actor c))) (actor_name (aa_actor (c_actor c))) perm) \<and>
     (gr_tool (c_request c) |\<in>| d_justification_required d \<longrightarrow>
        is_written_justification (c_justification c))"

definition tenant_permits ::
  "(str \<Rightarrow> str) \<Rightarrow> u64 \<Rightarrow> call \<Rightarrow> deployment \<Rightarrow> tenant_id \<Rightarrow> tenant_state \<Rightarrow> bool" where
  "tenant_permits sha now c d tenant state \<longleftrightarrow>
     ts_active_model state = Some (c_model c) \<and> evaluate_model (ts_models state) (c_model c) = Allow \<and>
     (\<forall>v. c_variant c = Some v \<longrightarrow> variant_gate sha now d tenant state v = None)"

definition replay_key_of :: "call \<Rightarrow> tenant_id \<Rightarrow> replay_key" where
  "replay_key_of c tenant = (tenant, gr_request_id (c_request c))"

definition admissible ::
  "(str \<Rightarrow> str) \<Rightarrow> u64 \<Rightarrow> call \<Rightarrow> deployment \<Rightarrow> tenant_id \<Rightarrow> tenant_state \<Rightarrow> bool" where
  "admissible sha now c d tenant state \<longleftrightarrow>
     credential_bound c d tenant \<and> fmlookup (d_tenants d) tenant = Some state \<and>
     tool_authorized c d \<and> tenant_permits sha now c d tenant state"

definition bill :: "tenant_id \<Rightarrow> tenant_state \<Rightarrow> u64 \<Rightarrow> deployment \<Rightarrow> deployment" where
  "bill tenant state cost d =
     d\<lparr>d_tenants := fmupd tenant (state\<lparr>ts_budget := snd (charge (ts_budget state) cost)\<rparr>)
         (d_tenants d)\<rparr>"

lemma fmupd_lookup_same: "fmlookup m k = Some v \<Longrightarrow> fmupd k v m = m"
  by (rule fmap_ext) auto

lemma charge_Deny: "fst (charge b n) \<noteq> Allow \<Longrightarrow> charge b n = (Deny, b)"
  by (auto simp: charge_def split: if_splits)

lemma decide_admissible:
  assumes "admissible sha now c d tenant state"
  shows "decide sha now c d =
    (if replay_key_of c tenant |\<in>| rp_decided (d_replay d) then ((Replayed, 0), d)
     else if fst (charge (ts_budget state) (c_cost_tokens c)) = Allow then
       ((Forwarded, c_cost_tokens c),
        remember_key (replay_key_of c tenant) (bill tenant state (c_cost_tokens c) d))
     else ((Refused BudgetExhausted, 0), d))"
proof -
  have variant: "(case c_variant c of None \<Rightarrow> None | Some v \<Rightarrow> variant_gate sha now d tenant state v) = None"
    using assms by (auto simp: admissible_def tenant_permits_def split: option.splits)
  have same: "d\<lparr>d_tenants := fmupd tenant (state\<lparr>ts_budget := ts_budget state\<rparr>) (d_tenants d)\<rparr> = d"
    using assms by (simp add: admissible_def fmupd_lookup_same)
  show ?thesis
    using assms variant same charge_Deny [of "ts_budget state" "c_cost_tokens c"]
    by (auto simp: decide_def Let_def admissible_def credential_bound_def tool_authorized_def
        tenant_permits_def replay_key_of_def bill_def not_less split: prod.splits policy_decision.splits)
qed

text \<open>The refusal each gate gives, once the gates before it have passed.\<close>

lemma decide_refusals:
  "aa_strength (c_actor c) < d_required_strength d \<Longrightarrow>
     decide sha now c d = ((Refused Unauthenticated, 0), d)"
  "\<lbrakk>\<not> aa_strength (c_actor c) < d_required_strength d;
     malformed_field (request_identifiers (c_request c)) = Some what\<rbrakk> \<Longrightarrow>
     decide sha now c d = ((Refused (MalformedRequest what), 0), d)"
  "\<lbrakk>\<not> aa_strength (c_actor c) < d_required_strength d;
     malformed_field (request_identifiers (c_request c)) = None;
     gr_actor (c_request c) \<noteq> actor_name (aa_actor (c_actor c))\<rbrakk> \<Longrightarrow>
     decide sha now c d = ((Refused ActorMismatch, 0), d)"
  "\<lbrakk>\<not> aa_strength (c_actor c) < d_required_strength d;
     malformed_field (request_identifiers (c_request c)) = None;
     gr_actor (c_request c) = actor_name (aa_actor (c_actor c));
     tenant_new (gr_tenant (c_request c)) = None\<rbrakk> \<Longrightarrow>
     decide sha now c d = ((Refused (MalformedRequest ''tenant''), 0), d)"
  "\<lbrakk>\<not> aa_strength (c_actor c) < d_required_strength d;
     malformed_field (request_identifiers (c_request c)) = None;
     gr_actor (c_request c) = actor_name (aa_actor (c_actor c));
     tenant_new (gr_tenant (c_request c)) = Some tenant;
     fmlookup (d_tenant_owner d) tenant = None\<rbrakk> \<Longrightarrow>
     decide sha now c d = ((Refused UnknownTenant, 0), d)"
  "\<lbrakk>\<not> aa_strength (c_actor c) < d_required_strength d;
     malformed_field (request_identifiers (c_request c)) = None;
     gr_actor (c_request c) = actor_name (aa_actor (c_actor c));
     tenant_new (gr_tenant (c_request c)) = Some tenant;
     fmlookup (d_tenant_owner d) tenant = Some owner; owner \<noteq> aa_org (c_actor c)\<rbrakk> \<Longrightarrow>
     decide sha now c d = ((Refused TenantNotOwnedByOrg, 0), d)"
  by (simp_all add: decide_def Let_def)

lemma decide_bound_refusals:
  "\<lbrakk>credential_bound c d tenant; fmlookup (d_tenants d) tenant = None\<rbrakk> \<Longrightarrow>
     decide sha now c d = ((Refused UnknownTenant, 0), d)"
  "\<lbrakk>credential_bound c d tenant; fmlookup (d_tenants d) tenant = Some state;
     classify (c_request c) = Reject why\<rbrakk> \<Longrightarrow>
     decide sha now c d = ((Refused (OutsideBoundary why), 0), d)"
  "\<lbrakk>credential_bound c d tenant; fmlookup (d_tenants d) tenant = Some state;
     classify (c_request c) = Forward;
     fmlookup (d_governed_tools d) (gr_tool (c_request c)) = None\<rbrakk> \<Longrightarrow>
     decide sha now c d = ((Refused ToolNotGoverned, 0), d)"
  "\<lbrakk>credential_bound c d tenant; fmlookup (d_tenants d) tenant = Some state;
     classify (c_request c) = Forward;
     fmlookup (d_governed_tools d) (gr_tool (c_request c)) = Some perm;
     \<not> allows (d_roles d) (org_name (aa_org (c_actor c))) (actor_name (aa_actor (c_actor c))) perm\<rbrakk> \<Longrightarrow>
     decide sha now c d = ((Refused PermissionDenied, 0), d)"
  "\<lbrakk>credential_bound c d tenant; fmlookup (d_tenants d) tenant = Some state;
     classify (c_request c) = Forward;
     fmlookup (d_governed_tools d) (gr_tool (c_request c)) = Some perm;
     allows (d_roles d) (org_name (aa_org (c_actor c))) (actor_name (aa_actor (c_actor c))) perm;
     gr_tool (c_request c) |\<in>| d_justification_required d;
     \<not> is_written_justification (c_justification c)\<rbrakk> \<Longrightarrow>
     decide sha now c d = ((Refused JustificationRequired, 0), d)"
  "\<lbrakk>credential_bound c d tenant; fmlookup (d_tenants d) tenant = Some state; tool_authorized c d;
     ts_active_model state \<noteq> Some (c_model c) \<or> evaluate_model (ts_models state) (c_model c) \<noteq> Allow\<rbrakk> \<Longrightarrow>
     decide sha now c d = ((Refused ModelNotAllowed, 0), d)"
  "\<lbrakk>credential_bound c d tenant; fmlookup (d_tenants d) tenant = Some state; tool_authorized c d;
     ts_active_model state = Some (c_model c); evaluate_model (ts_models state) (c_model c) = Allow;
     c_variant c = Some v; variant_gate sha now d tenant state v = Some r\<rbrakk> \<Longrightarrow>
     decide sha now c d = ((Refused r, 0), d)"
  by (auto simp: decide_def Let_def credential_bound_def tool_authorized_def not_le)

lemma decide_inadmissible:
  assumes "\<And>tenant state. \<not> admissible sha now c d tenant state"
  shows "\<exists>r. decide sha now c d = ((Refused r, 0), d)"
proof (cases "\<exists>tenant state. credential_bound c d tenant \<and> fmlookup (d_tenants d) tenant = Some state
    \<and> tool_authorized c d")
  case True
  then obtain tenant state where g: "credential_bound c d tenant"
    "fmlookup (d_tenants d) tenant = Some state" "tool_authorized c d" by blast
  then have "\<not> tenant_permits sha now c d tenant state" using assms by (auto simp: admissible_def)
  then show ?thesis
    using decide_bound_refusals(6,7) [OF g] unfolding tenant_permits_def by fastforce
next
  case False
  show ?thesis
  proof (cases "\<exists>tenant state. credential_bound c d tenant \<and> fmlookup (d_tenants d) tenant = Some state")
    case True
    then obtain tenant state where g: "credential_bound c d tenant"
      "fmlookup (d_tenants d) tenant = Some state" by blast
    with False have "\<not> tool_authorized c d" by blast
    then show ?thesis
      using decide_bound_refusals(2-5) [OF g] unfolding tool_authorized_def
      by (cases "classify (c_request c)"; cases "fmlookup (d_governed_tools d) (gr_tool (c_request c))")
        fastforce+
  next
    case unbound: False
    show ?thesis
    proof (cases "\<exists>tenant. credential_bound c d tenant")
      case True
      with unbound show ?thesis using decide_bound_refusals(1) by (metis option.exhaust)
    next
      case False
      then show ?thesis
        using decide_refusals [where c = c and d = d and sha = sha and now = now] unfolding credential_bound_def
        by (metis not_less option.exhaust)
    qed
  qed
qed

lemma decide_shape:
  obtains (refused) r where "decide sha now c d = ((Refused r, 0), d)"
  | (replayed) tenant state where "admissible sha now c d tenant state"
      "replay_key_of c tenant |\<in>| rp_decided (d_replay d)" "decide sha now c d = ((Replayed, 0), d)"
  | (forwarded) tenant state where "admissible sha now c d tenant state"
      "replay_key_of c tenant |\<notin>| rp_decided (d_replay d)"
      "fst (charge (ts_budget state) (c_cost_tokens c)) = Allow"
      "decide sha now c d = ((Forwarded, c_cost_tokens c),
         remember_key (replay_key_of c tenant) (bill tenant state (c_cost_tokens c) d))"
proof (cases "\<exists>tenant state. admissible sha now c d tenant state")
  case True
  then obtain tenant state where a: "admissible sha now c d tenant state" by blast
  show ?thesis
    using refused replayed [OF a] forwarded [OF a] decide_admissible [OF a]
    by (cases "replay_key_of c tenant |\<in>| rp_decided (d_replay d)";
        cases "fst (charge (ts_budget state) (c_cost_tokens c)) = Allow") auto
next
  case False
  then show ?thesis using refused decide_inadmissible by blast
qed

lemma variant_gate_cong:
  "d_approvals e = d_approvals d \<Longrightarrow> ts_qpages s' = ts_qpages s \<Longrightarrow>
     ts_variant_policy s' = ts_variant_policy s \<Longrightarrow> ts_variant_approvals s' = ts_variant_approvals s \<Longrightarrow>
     variant_gate sha now e t s' v = variant_gate sha now d t s v"
  by (simp add: variant_gate_def split: activation_decision.splits option.splits)

lemma admissible_serving [simp]:
  "admissible sha now c (d\<lparr>d_serving := b\<rparr>) tenant state = admissible sha now c d tenant state"
  by (simp add: admissible_def credential_bound_def tool_authorized_def tenant_permits_def
      variant_gate_cong [of "d\<lparr>d_serving := b\<rparr>" d state state])

lemma admissible_unique:
  "admissible sha now c d t s \<Longrightarrow> admissible sha now c d t' s' \<Longrightarrow> t' = t \<and> s' = s"
  by (auto simp: admissible_def credential_bound_def)

lemma outcome_metrics_frame [simp]:
  "d_tenants (outcome_metrics r d) = d_tenants d"
  "d_tenant_owner (outcome_metrics r d) = d_tenant_owner d"
  "d_roles (outcome_metrics r d) = d_roles d"
  "d_governed_tools (outcome_metrics r d) = d_governed_tools d"
  "d_justification_required (outcome_metrics r d) = d_justification_required d"
  "d_store (outcome_metrics r d) = d_store d"
  "d_store_bytes (outcome_metrics r d) = d_store_bytes d"
  "d_audit (outcome_metrics r d) = d_audit d"
  "d_audit_capacity (outcome_metrics r d) = d_audit_capacity d"
  "d_audit_dropped (outcome_metrics r d) = d_audit_dropped d"
  "d_governance (outcome_metrics r d) = d_governance d"
  "d_governance_dropped (outcome_metrics r d) = d_governance_dropped d"
  "d_next_governance_ordinal (outcome_metrics r d) = d_next_governance_ordinal d"
  "d_serving (outcome_metrics r d) = d_serving d"
  "d_next_sequence (outcome_metrics r d) = d_next_sequence d"
  "d_replay (outcome_metrics r d) = d_replay d"
  "d_replay_memory (outcome_metrics r d) = d_replay_memory d"
  "d_required_strength (outcome_metrics r d) = d_required_strength d"
  "d_approval_required (outcome_metrics r d) = d_approval_required d"
  "d_approvals (outcome_metrics r d) = d_approvals d"
  by (cases r; simp add: outcome_metrics_def Let_def)+

lemma remember_bill_frame [simp]:
  "d_tenants (remember_key k d) = d_tenants d"
  "d_tenants (bill t s n d) = fmupd t (s\<lparr>ts_budget := snd (charge (ts_budget s) n)\<rparr>) (d_tenants d)"
  "d_replay (bill t s n d) = d_replay d"
  "d_replay_memory (bill t s n d) = d_replay_memory d"
  by (simp_all add: remember_key_def bill_def)

text \<open>Everything the rules of a deployment consist of, and its store: \<open>admit\<close> writes none of it.\<close>

lemma admit_frame [simp]:
  "d_tenant_owner (snd (admit sha now c d)) = d_tenant_owner d"
  "d_roles (snd (admit sha now c d)) = d_roles d"
  "d_governed_tools (snd (admit sha now c d)) = d_governed_tools d"
  "d_justification_required (snd (admit sha now c d)) = d_justification_required d"
  "d_store (snd (admit sha now c d)) = d_store d"
  "d_store_bytes (snd (admit sha now c d)) = d_store_bytes d"
  "d_audit_capacity (snd (admit sha now c d)) = d_audit_capacity d"
  "d_governance (snd (admit sha now c d)) = d_governance d"
  "d_governance_dropped (snd (admit sha now c d)) = d_governance_dropped d"
  "d_next_governance_ordinal (snd (admit sha now c d)) = d_next_governance_ordinal d"
  "d_serving (snd (admit sha now c d)) = True"
  "d_replay_memory (snd (admit sha now c d)) = d_replay_memory d"
  "d_required_strength (snd (admit sha now c d)) = d_required_strength d"
  "d_approval_required (snd (admit sha now c d)) = d_approval_required d"
  "d_approvals (snd (admit sha now c d)) = d_approvals d"
  by (cases rule: decide_shape [of sha now c "d\<lparr>d_serving := True\<rparr>"];
      simp add: admit_def Let_def remember_key_def bill_def)+

lemma admit_shape:
  obtains (refused) r where "fst (admit sha now c d) = Refused r"
      "d_tenants (snd (admit sha now c d)) = d_tenants d" "d_replay (snd (admit sha now c d)) = d_replay d"
      "snd (admit sha now c d) =
         journal_decision c (Refused r) 0 (outcome_metrics (Refused r) (d\<lparr>d_serving := True\<rparr>))"
  | (replayed) tenant state where "admissible sha now c d tenant state"
      "replay_key_of c tenant |\<in>| rp_decided (d_replay d)" "fst (admit sha now c d) = Replayed"
      "d_tenants (snd (admit sha now c d)) = d_tenants d" "d_replay (snd (admit sha now c d)) = d_replay d"
      "snd (admit sha now c d) =
         journal_decision c Replayed 0 (outcome_metrics Replayed (d\<lparr>d_serving := True\<rparr>))"
  | (forwarded) tenant state where "admissible sha now c d tenant state"
      "replay_key_of c tenant |\<notin>| rp_decided (d_replay d)"
      "fst (charge (ts_budget state) (c_cost_tokens c)) = Allow"
      "fst (admit sha now c d) = Forwarded"
      "d_tenants (snd (admit sha now c d)) =
         fmupd tenant (state\<lparr>ts_budget := snd (charge (ts_budget state) (c_cost_tokens c))\<rparr>) (d_tenants d)"
      "d_replay (snd (admit sha now c d)) =
         remember (d_replay_memory d) (fmlen (d_tenants d)) (replay_key_of c tenant) (d_replay d)"
      "snd (admit sha now c d) =
         journal_decision c Forwarded (c_cost_tokens c) (outcome_metrics Forwarded
           (remember_key (replay_key_of c tenant)
             (bill tenant state (c_cost_tokens c) (d\<lparr>d_serving := True\<rparr>))))"
proof (cases rule: decide_shape [of sha now c "d\<lparr>d_serving := True\<rparr>"])
  case (refused r)
  then show ?thesis by (intro that(1) [of r]) (simp_all add: admit_def Let_def)
next
  case (replayed tenant state)
  then show ?thesis by (intro that(2) [of tenant state]) (simp_all add: admit_def Let_def)
next
  case (forwarded tenant state)
  then have "fmdom (fmupd tenant x (d_tenants d)) = fmdom (d_tenants d)" for x
    by (auto simp: admissible_def fmdomI)
  with forwarded show ?thesis
    by (intro that(3) [of tenant state]) (simp_all add: admit_def Let_def remember_key_def)
qed

definition charged :: "call \<Rightarrow> outcome \<Rightarrow> u64" where
  "charged c res = (if res = Forwarded then c_cost_tokens c else 0)"

lemma admit_journal:
  assumes "0 < d_audit_capacity d"
  shows "d_audit (snd (admit sha now c d)) =
      drop (Suc (length (d_audit d)) - d_audit_capacity d) (d_audit d)
        @ [audit_row c (fst (admit sha now c d)) (charged c (fst (admit sha now c d))) (d_next_sequence d)]"
    and "d_next_sequence (snd (admit sha now c d)) = d_next_sequence d + 1"
  using assms
  by (cases rule: admit_shape [of sha now c d];
      simp add: journal_decision_row charged_def remember_key_def bill_def)+

text \<open>Billing and remembering change no gate before the replay gate.\<close>

lemma admissible_after_admit:
  assumes "admissible sha now c d tenant state"
    and "fmlookup (d_tenants (snd (admit sha now' c' d))) tenant = Some state'"
    and "ts_models state' = ts_models state" and "ts_qpages state' = ts_qpages state"
    and "ts_active_model state' = ts_active_model state"
    and "ts_variant_policy state' = ts_variant_policy state"
    and "ts_variant_approvals state' = ts_variant_approvals state"
  shows "admissible sha now c (snd (admit sha now' c' d)) tenant state'"
proof -
  have "variant_gate sha now (snd (admit sha now' c' d)) tenant state' v =
      variant_gate sha now d tenant state v" for v
    using assms(3-) by (intro variant_gate_cong) simp_all
  then show ?thesis
    using assms
    by (simp add: admissible_def credential_bound_def tool_authorized_def tenant_permits_def)
qed

lemma admit_replayedI:
  assumes "admissible sha now c d tenant state"
    and "replay_key_of c tenant |\<in>| rp_decided (d_replay d)"
  shows "fst (admit sha now c d) = Replayed"
proof (cases rule: admit_shape [of sha now c d])
  case (refused r)
  then show ?thesis using assms decide_admissible [of sha now c "d\<lparr>d_serving := True\<rparr>" tenant state]
    by (simp add: admit_def)
next
  case (forwarded t s)
  then show ?thesis using assms admissible_unique by blast
qed simp

lemma admit_forwardedI:
  assumes "admissible sha now c d tenant state"
    and "replay_key_of c tenant |\<notin>| rp_decided (d_replay d)"
    and "fst (charge (ts_budget state) (c_cost_tokens c)) = Allow"
  shows "fst (admit sha now c d) = Forwarded"
  using assms decide_admissible [of sha now c "d\<lparr>d_serving := True\<rparr>" tenant state]
  by (simp add: admit_def)

subsection \<open>The governed cell path\<close>

lemma cell_call_unforwarded:
  assumes "fst (admit sha now c d) \<noteq> Forwarded" and "tenant_new (gr_tenant (c_request c)) = Some t"
  shows "cell_call sha now c effect d = ((fst (admit sha now c d), None), snd (admit sha now c d))"
  using assms by (simp add: cell_call_def case_prod_beta Let_def)

lemma cell_call_landed:
  assumes "fst (admit sha now c d) = Forwarded" and "tenant_new (gr_tenant (c_request c)) = Some t"
    and "effect t (snd (admit sha now c d)) = (Inr found, d')"
  shows "cell_call sha now c effect d = ((Forwarded, Some found), d')"
  using assms by (simp add: cell_call_def case_prod_beta Let_def)

definition unbill :: "tenant_id \<Rightarrow> u64 \<Rightarrow> deployment \<Rightarrow> deployment" where
  "unbill t cost d =
     (case fmlookup (d_tenants d) t of
        None \<Rightarrow> d
      | Some state \<Rightarrow>
          d\<lparr>d_tenants := fmupd t (state\<lparr>ts_budget := refund (ts_budget state) cost\<rparr>) (d_tenants d)\<rparr>)"

lemma cell_call_rejected:
  assumes "fst (admit sha now c d) = Forwarded" and "tenant_new (gr_tenant (c_request c)) = Some t"
    and "effect t (snd (admit sha now c d)) = (Inl r, d')"
  shows "cell_call sha now c effect d =
    ((Refused r, None),
     (metric ''gateway.cell_rejected'' (unbill t (c_cost_tokens c) d'))
       \<lparr>d_audit := rewrite_last_audit r (d_audit d')\<rparr>)"
  using assms
  by (simp add: cell_call_def case_prod_beta Let_def unbill_def split: option.splits)

lemma cell_call_malformed:
  "tenant_new (gr_tenant (c_request c)) = None \<Longrightarrow>
     cell_call sha now c effect d = ((Refused (MalformedRequest ''tenant''), None), d)"
  by (simp add: cell_call_def)

lemma admit_forwarded_tenant:
  assumes "fst (admit sha now c d) = Forwarded"
  obtains tenant state where "admissible sha now c d tenant state"
    "tenant_new (gr_tenant (c_request c)) = Some tenant" "fmlookup (d_tenants d) tenant = Some state"
    "fst (charge (ts_budget state) (c_cost_tokens c)) = Allow"
    "d_tenants (snd (admit sha now c d)) =
       fmupd tenant (state\<lparr>ts_budget := snd (charge (ts_budget state) (c_cost_tokens c))\<rparr>) (d_tenants d)"
    "d_replay (snd (admit sha now c d)) =
       remember (d_replay_memory d) (fmlen (d_tenants d)) (replay_key_of c tenant) (d_replay d)"
    "replay_key_of c tenant |\<notin>| rp_decided (d_replay d)"
  using assms that
  by (cases rule: admit_shape [of sha now c d])
    (auto simp: admissible_def credential_bound_def)

lemma store_ok_admit:
  assumes "store_ok d"
  shows "store_ok (snd (admit sha now c d))"
proof (rule store_ok_cong [OF _ _ _ assms])
  show "fmdom (d_tenants d) |\<subseteq>| fmdom (d_tenants (snd (admit sha now c d)))"
    by (cases rule: admit_shape [of sha now c d]) auto
qed simp_all

lemma cell_at_frame: "d_store e = d_store d \<Longrightarrow> cell_at e t k = cell_at d t k"
  by (simp add: cell_at_def)

lemma write_cell_tenants [simp]: "d_tenants (snd (write_cell t k v d)) = d_tenants d"
  by (simp add: write_cell_def Let_def split: option.splits)

lemma delete_cell_tenants [simp]: "d_tenants (snd (delete_cell t k d)) = d_tenants d"
  by (simp add: delete_cell_def Let_def split: option.splits)

lemma admit_foreign:
  assumes "fmlookup (d_tenant_owner d) other \<noteq> Some (aa_org (c_actor c))"
  shows "fmlookup (d_tenants (snd (admit sha now c d))) other = fmlookup (d_tenants d) other"
  using assms
  by (cases rule: admit_shape [of sha now c d]) (auto simp: admissible_def credential_bound_def)

text \<open>An effect that leaves the other tenants alone keeps doing so under the gates.\<close>

lemma cell_call_foreign:
  assumes ok: "store_ok d" and foreign: "fmlookup (d_tenant_owner d) other \<noteq> Some (aa_org (c_actor c))"
    and eff: "\<And>t e. t \<noteq> other \<Longrightarrow> store_ok e \<Longrightarrow>
      fmlookup (d_tenants (snd (effect t e))) other = fmlookup (d_tenants e) other \<and>
      cell_at (snd (effect t e)) other k = cell_at e other k"
  shows "fmlookup (d_tenants (snd (cell_call sha now c effect d))) other = fmlookup (d_tenants d) other
    \<and> cell_at (snd (cell_call sha now c effect d)) other k = cell_at d other k"
proof (cases "tenant_new (gr_tenant (c_request c))")
  case None
  then show ?thesis by (simp add: cell_call_malformed)
next
  case (Some t)
  let ?e = "snd (admit sha now c d)"
  have same: "fmlookup (d_tenants ?e) other = fmlookup (d_tenants d) other"
      "cell_at ?e other k = cell_at d other k"
    using admit_foreign [OF foreign] by (simp_all add: cell_at_def)
  show ?thesis
  proof (cases "fst (admit sha now c d) = Forwarded")
    case False
    then show ?thesis using same Some by (simp add: cell_call_unforwarded)
  next
    case True
    then have "t \<noteq> other"
      using foreign Some by (auto elim!: admit_forwarded_tenant simp: admissible_def credential_bound_def)
    note e = eff [OF this store_ok_admit [OF ok, of sha now c]]
    show ?thesis
    proof (cases "effect t ?e")
      case (Pair r d')
      then show ?thesis
        using e same \<open>t \<noteq> other\<close>
        by (cases r) (auto simp: cell_call_rejected [where effect = effect, OF True Some]
            cell_call_landed [where effect = effect, OF True Some] unbill_def cell_at_def
            split: option.splits)
    qed
  qed
qed

subsection \<open>The reference deployment, evaluated\<close>

lemmas provisioning_defs = add_role_as_def add_role_def role_of_def govern_tool_def
  require_justification_def add_tenant_def add_tenant_as_def assign_as_def assign_def allow_model_def
  tenant_state_new_def permit_variant_raw_def permit_def activate_raw_def record_change_def Let_def
  role_book_empty_def is_canonical_identifier_def tenant_new_def tenant_validated_def
  is_identifier_byte_def is_ascii_lowercase_def is_ascii_digit_def MAX_IDENTIFIER_BYTES_def
  fmget_or_def

definition acme_state :: tenant_state where
  "acme_state = activate_raw Hierarchical (snd (permit_variant_raw Hierarchical
     (allow_model ''claude-opus'' (tenant_state_new 1000))))"

lemma two_tenant_deployment_eq:
  "two_tenant_deployment = deployment_new
     \<lparr>d_tenants :=
        fmupd (TenantId ''globex'') (allow_model ''gpt-5'' (tenant_state_new 500))
          (fmupd (TenantId ''acme'') acme_state fmempty),
      d_tenant_owner :=
        fmupd (TenantId ''globex'') (OrgId ''memorithm'')
          (fmupd (TenantId ''acme'') (OrgId ''memorithm'') fmempty),
      d_roles :=
        \<lparr>rb_roles =
           fmupd ''operator'' (role_of ''operator'' [''memory.read'', ''memory.write'', ''policy.admin''])
            (fmupd ''writer'' (role_of ''writer'' [''memory.read'', ''memory.write''])
              (fmupd ''reader'' (role_of ''reader'' [''memory.read'']) fmempty)),
         rb_assignments =
           fmupd (''memorithm'', ''root'') {|''operator''|}
            (fmupd (''memorithm'', ''bob'') {|''reader''|}
              (fmupd (''memorithm'', ''alice'') {|''writer''|} fmempty))\<rparr>,
      d_governed_tools :=
        fmupd ''audit.query'' (Permission ''memory.read'')
         (fmupd ''policy.set'' (Permission ''policy.admin'')
           (fmupd ''memory.ingest'' (Permission ''memory.write'')
             (fmupd ''memory.recall'' (Permission ''memory.read'') fmempty))),
      d_justification_required := {|''policy.set''|}\<rparr>"
  unfolding two_tenant_deployment_def acme_state_def
  by (simp add: provisioning_defs deployment_new_def)

definition alice_call :: "str \<Rightarrow> str \<Rightarrow> u64 \<Rightarrow> call" where
  "alice_call tool rid cost =
     \<lparr>c_actor = asserted ''memorithm'' ''alice'' Token,
      c_request = request ''acme'' ''alice'' tool rid, c_model = ''claude-opus'',
      c_cost_tokens = cost, c_variant = None, c_justification = None\<rparr>"

lemma acme_state_simps [simp]:
  "ts_active_model acme_state = Some ''claude-opus''"
  "ts_models acme_state = ModelAllowlist {|''claude-opus''|}"
  "ts_budget acme_state = budget_new 1000"
  by (simp_all add: acme_state_def provisioning_defs)

lemma alice_bound:
  assumes "rid \<noteq> []" and "length rid \<le> 128"
  shows "credential_bound (alice_call tool rid cost) two_tenant_deployment (TenantId ''acme'')"
  using assms
  by (simp add: credential_bound_def alice_call_def request_def asserted_def two_tenant_deployment_eq
      deployment_new_def request_identifiers_def MAX_IDENTIFIER_BYTES_def tenant_new_def
      tenant_validated_def is_identifier_byte_def is_ascii_lowercase_def)

lemma alice_tool:
  "tool_authorized (alice_call ''memory.recall'' rid cost) two_tenant_deployment"
  "tool_authorized (alice_call ''memory.ingest'' rid cost) two_tenant_deployment"
  by (simp_all add: tool_authorized_def alice_call_def request_def asserted_def
      two_tenant_deployment_eq allows_def roles_of_def role_of_def sorted_list_of_fset.rep_eq
      classify_def is_canonical_tool_name_def MAX_TOOL_NAME_BYTES_def dotted_name_def is_name_byte_def
      is_ascii_lowercase_def is_ascii_uppercase_def to_ascii_lowercase_def to_ascii_lower_def
      segment_suffixes_def is_forbidden_suffix_def is_exposed_def FORBIDDEN_PREFIXES_def
      FORBIDDEN_TOOLS_def ALLOWED_PREFIXES_def starts_with_def)

lemma alice_admissible:
  assumes "rid \<noteq> []" and "length rid \<le> 128" and "tool \<in> {''memory.recall'', ''memory.ingest''}"
  shows "admissible sha now (alice_call tool rid cost) two_tenant_deployment (TenantId ''acme'') acme_state"
proof -
  have "tool_authorized (alice_call tool rid cost) two_tenant_deployment"
    using assms(3) alice_tool by auto
  moreover have "fmlookup (d_tenants two_tenant_deployment) (TenantId ''acme'') = Some acme_state"
    by (simp add: two_tenant_deployment_eq)
  moreover have "tenant_permits sha now (alice_call tool rid cost) two_tenant_deployment
      (TenantId ''acme'') acme_state"
    by (simp add: tenant_permits_def alice_call_def evaluate_model_def)
  ultimately show ?thesis using alice_bound [OF assms(1,2)] by (simp add: admissible_def)
qed


text \<open>Alice's call is forwarded as long as it fits the ledger of 1,000 tokens.\<close>

lemma alice_forwarded:
  assumes "rid \<noteq> []" and "length rid \<le> 128" and "tool \<in> {''memory.recall'', ''memory.ingest''}"
    and "unat cost \<le> 1000"
  shows "fst (admit sha now (alice_call tool rid cost) two_tenant_deployment) = Forwarded"
proof (rule admit_forwardedI [OF alice_admissible [OF assms(1-3)]])
  show "replay_key_of (alice_call tool rid cost) (TenantId ''acme'')
      |\<notin>| rp_decided (d_replay two_tenant_deployment)"
    by (simp add: two_tenant_deployment_eq deployment_new_def replay_empty_def)
  show "fst (charge (ts_budget acme_state) (c_cost_tokens (alice_call tool rid cost))) = Allow"
    using assms(4) by (simp add: charge_Allow_iff budget_new_def alice_call_def)
qed

end
