(* ===== verification/Restore.thy ===== *)
theory Restore
  imports Admission
begin

section \<open>Snapshot and restore (crates/ccos-enterprise-runtime)\<close>

text \<open>
  A deployment's governed state as plain data, and its reconstruction from a snapshot followed by
  a replay of the decision journal and of the governance records. The loops of \<open>restore\<close> are
  \<^const>\<open>res_fold\<close>: the first error ends the restore. The text of \<open>VariantPolicyCorrupt\<close>
  is one constructor per message.
\<close>

definition SNAPSHOT_SCHEMA :: str where
  "SNAPSHOT_SCHEMA = ''ccos.enterprise.deployment/v1''"

definition LEGACY_MISSING_VARIANT_POLICY_SCHEMA :: u32 where
  "LEGACY_MISSING_VARIANT_POLICY_SCHEMA = - 1"

definition legacy_missing_variant_policy :: variant_policy where
  "legacy_missing_variant_policy =
     \<lparr>vp_schema_version = LEGACY_MISSING_VARIANT_POLICY_SCHEMA, vp_permitted = {||},
      vp_bridge_opted_in = False\<rparr>"

definition is_legacy_missing_variant_policy :: "variant_policy \<Rightarrow> bool" where
  "is_legacy_missing_variant_policy p \<longleftrightarrow>
     vp_schema_version p = LEGACY_MISSING_VARIANT_POLICY_SCHEMA"

text \<open>
  The field-level serde attributes of \<open>variant_policy\<close>: an absent field reads as the sentinel, a
  present field may not carry it, and the sentinel is not written.
\<close>

definition deserialize_variant_policy_field :: "variant_policy option \<Rightarrow> str + variant_policy" where
  "deserialize_variant_policy_field field =
     (case field of
        None \<Rightarrow> Inr legacy_missing_variant_policy
      | Some p \<Rightarrow>
          if vp_schema_version p = LEGACY_MISSING_VARIANT_POLICY_SCHEMA
          then Inl ''reserved legacy-missing variant policy schema marker'' else Inr p)"

definition serialize_variant_policy_field :: "variant_policy \<Rightarrow> variant_policy option" where
  "serialize_variant_policy_field p =
     (if is_legacy_missing_variant_policy p then None else Some p)"

record tenant_snapshot =
  sp_owner :: str
  sp_budget :: token_budget
  sp_models :: model_allowlist
  sp_qpages :: qpage_registry
  sp_active_model :: "str option"
  sp_variant_policy :: variant_policy
  sp_variant_approvals :: "(qpage_variant, str) fmap"

record deployment_snapshot =
  ds_schema :: str
  ds_sequence_watermark :: u64
  ds_audit_dropped :: u64
  ds_required_strength :: auth_strength
  ds_tenants :: "(str, tenant_snapshot) fmap"
  ds_roles :: role_book
  ds_governed_tools :: "(str, permission) fmap"
  ds_justification_required :: "str fset"
  ds_governance_dropped :: u64
  ds_approval_required :: "str fset"
  ds_approvals :: approval_snapshot
  ds_cells :: "(str \<times> str \<times> str) list"

datatype policy_detail =
    PolicyInvalid str
  | LegacyBridgeActive
  | ActiveDenied qpage_variant
  | NoApprovalIdentity qpage_variant
  | UnknownApproval str
  | ApprovalNotBound str qpage_variant

datatype restore_error =
    SchemaMismatch (found_schema: str) (expected_schema: str)
  | LedgerOverLimit str u64 u64
  | TenantWithoutOwner str
  | MalformedIdentifier (mi_what: str) (mi_value: str)
  | JournalTenantUnknown u64 str
  | ApprovalLedgerCorrupt str
  | ActiveModelInvalid str "str option"
  | VariantPolicyCorrupt str policy_detail
  | JournalDiscontinuity (jd_expected: u64) (jd_found: u64)
  | GovernanceDiscontinuity (gd_expected: u64) (gd_found: u64)
  | GovernanceAnchorRegression (ga_ordinal: u64) (ga_at_sequence: u64)

definition check_identifier :: "str \<Rightarrow> str \<Rightarrow> restore_error + unit" where
  "check_identifier what v =
     (if \<not> is_canonical_identifier v then Inl (MalformedIdentifier what (clamp v)) else Inr ())"

subsection \<open>Snapshot\<close>

definition snapshot_tenant :: "deployment \<Rightarrow> tenant_id \<Rightarrow> tenant_state \<Rightarrow> tenant_snapshot" where
  "snapshot_tenant d i s =
     \<lparr>sp_owner = (case fmlookup (d_tenant_owner d) i of None \<Rightarrow> [] | Some owner \<Rightarrow> org_name owner),
      sp_budget = ts_budget s, sp_models = ts_models s, sp_qpages = ts_qpages s,
      sp_active_model = ts_active_model s, sp_variant_policy = ts_variant_policy s,
      sp_variant_approvals = ts_variant_approvals s\<rparr>"

definition store_rows :: "(tenant_id, cell_map) fmap \<Rightarrow> (str \<times> str \<times> str) list" where
  "store_rows st =
     concat (map (\<lambda>(t, cells). map (\<lambda>(k, v). (as_str t, k, v)) (sorted_list_of_fmap cells))
       (sorted_list_of_fmap st))"

definition snapshot :: "deployment \<Rightarrow> deployment_snapshot" where
  "snapshot d =
     \<lparr>ds_schema = SNAPSHOT_SCHEMA, ds_sequence_watermark = d_next_sequence d,
      ds_audit_dropped = d_audit_dropped d, ds_required_strength = d_required_strength d,
      ds_tenants =
        fmap_of_list (map (\<lambda>(i, s). (as_str i, snapshot_tenant d i s))
          (sorted_list_of_fmap (d_tenants d))),
      ds_roles = d_roles d, ds_governed_tools = d_governed_tools d,
      ds_justification_required = d_justification_required d,
      ds_governance_dropped = d_governance_dropped d,
      ds_approval_required = d_approval_required d,
      ds_approvals = ledger_snapshot (d_approvals d), ds_cells = store_rows (d_store d)\<rparr>"

subsection \<open>Restore\<close>

definition restore_active_model :: "str \<Rightarrow> tenant_snapshot \<Rightarrow> restore_error + str option" where
  "restore_active_model name t =
     (case sp_active_model t of
        Some model \<Rightarrow>
          if model |\<in>| allowed_models (sp_models t) then Inr (Some model)
          else Inl (ActiveModelInvalid name (Some model))
      | None \<Rightarrow>
          if allowed_models (sp_models t) = {||} then Inr None
          else if fcard (allowed_models (sp_models t)) = 1
          then Inr (Some (hd (sorted_list_of_fset (allowed_models (sp_models t)))))
          else Inl (ActiveModelInvalid name None))"

definition restore_variant_policy :: "tenant_id \<Rightarrow> tenant_snapshot \<Rightarrow> restore_error + variant_policy" where
  "restore_variant_policy i t =
     (if vp_schema_version (sp_variant_policy t) = LEGACY_MISSING_VARIANT_POLICY_SCHEMA then
        let act = active (sp_qpages t) in
        if ExperimentalBridge \<in> set act then Inl (VariantPolicyCorrupt (as_str i) LegacyBridgeActive)
        else Inr (fold (\<lambda>v p. snd (permit p v)) act variant_policy_default)
      else
        case validate_variant_policy (sp_variant_policy t) of
          Inl detail \<Rightarrow> Inl (VariantPolicyCorrupt (as_str i) (PolicyInvalid detail))
        | Inr _ \<Rightarrow> Inr (sp_variant_policy t))"

definition restore_variant ::
  "(str \<Rightarrow> str) \<Rightarrow> approval_ledger \<Rightarrow> tenant_id \<Rightarrow> variant_policy \<Rightarrow> (qpage_variant, str) fmap
     \<Rightarrow> qpage_variant \<Rightarrow> restore_error + unit" where
  "restore_variant sha ledger i p evidence v =
     (case evaluate_variant p v of
        ActDenied \<Rightarrow> Inl (VariantPolicyCorrupt (as_str i) (ActiveDenied v))
      | ActAllowed \<Rightarrow> Inr ()
      | ActRequiresApproval \<Rightarrow>
          (case fmlookup evidence v of
             None \<Rightarrow> Inl (VariantPolicyCorrupt (as_str i) (NoApprovalIdentity v))
           | Some approval_id \<Rightarrow>
               (case fmlookup (sn_approvals (ledger_snapshot ledger)) approval_id of
                  None \<Rightarrow> Inl (VariantPolicyCorrupt (as_str i) (UnknownApproval approval_id))
                | Some rec \<Rightarrow>
                    if ap_tenant rec \<noteq> as_str i \<or> ap_action rec \<noteq> ''qpage.activate''
                       \<or> ap_artifact_hash rec \<noteq> qpage_activation_artifact_hash sha i v
                       \<or> ap_decision rec \<noteq> Approved
                    then Inl (VariantPolicyCorrupt (as_str i) (ApprovalNotBound approval_id v))
                    else Inr ())))"

definition restore_tenant ::
  "(str \<Rightarrow> str) \<Rightarrow> str \<times> tenant_snapshot \<Rightarrow> deployment \<Rightarrow> restore_error + deployment" where
  "restore_tenant sha e d =
     (let (name, t) = e in
      res_bind (check_identifier ''tenant'' name) (\<lambda>_.
      res_bind (check_identifier ''org'' (sp_owner t)) (\<lambda>_.
      if sp_owner t = [] then Inl (TenantWithoutOwner name)
      else if tb_limit (sp_budget t) < tb_spent (sp_budget t) then
        Inl (LedgerOverLimit name (tb_spent (sp_budget t)) (tb_limit (sp_budget t)))
      else
      res_bind (restore_active_model name t) (\<lambda>active_model.
      let i = TenantId name;
          d = d\<lparr>d_tenant_owner := fmupd i (OrgId (sp_owner t)) (d_tenant_owner d)\<rparr> in
      res_bind (restore_variant_policy i t) (\<lambda>p.
      res_bind (res_check (restore_variant sha (d_approvals d) i p (sp_variant_approvals t))
                  (active (sp_qpages t))) (\<lambda>_.
      Inr (d\<lparr>d_tenants := fmupd i
               \<lparr>ts_budget = sp_budget t, ts_models = sp_models t, ts_qpages = sp_qpages t,
                ts_active_model = active_model, ts_variant_policy = p,
                ts_variant_approvals = sp_variant_approvals t\<rparr> (d_tenants d)\<rparr>)))))))"

definition restore_cell :: "str \<times> str \<times> str \<Rightarrow> deployment \<Rightarrow> restore_error + deployment" where
  "restore_cell row d =
     (let (tenant, key, v) = row in
      case tenant_new tenant of
        None \<Rightarrow> Inl (MalformedIdentifier ''tenant'' (clamp tenant))
      | Some i \<Rightarrow>
          (case write_cell i key v d of
             (Inl _, _) \<Rightarrow> Inl (MalformedIdentifier ''cell'' (clamp key))
           | (Inr _, d) \<Rightarrow> Inr d))"

definition replay_cost :: "u64 \<Rightarrow> audit_record \<Rightarrow> tenant_id \<Rightarrow> deployment \<Rightarrow> restore_error + deployment" where
  "replay_cost watermark r tenant d =
     (if 0 < ar_cost r \<and> watermark \<le> ar_sequence r then
        (case fmlookup (d_tenants d) tenant of
           None \<Rightarrow> Inl (JournalTenantUnknown (ar_sequence r) (ar_tenant r))
         | Some state \<Rightarrow>
             let (verdict, budget) = charge (ts_budget state) (ar_cost r) in
             if verdict \<noteq> Allow then
               Inl (LedgerOverLimit (ar_tenant r) (sat_add (tb_spent budget) (ar_cost r)) (tb_limit budget))
             else Inr (d\<lparr>d_tenants := fmupd tenant (state\<lparr>ts_budget := budget\<rparr>) (d_tenants d)\<rparr>))
      else Inr d)"

definition replay_record ::
  "u64 \<Rightarrow> audit_record \<Rightarrow> u64 \<times> deployment \<Rightarrow> restore_error + u64 \<times> deployment" where
  "replay_record watermark r st =
     (let (next, d) = st in
      if ar_sequence r \<noteq> next then Inl (JournalDiscontinuity next (ar_sequence r))
      else
        let next = ar_sequence r + 1 in
        case tenant_new (ar_tenant r) of
          None \<Rightarrow> Inl (MalformedIdentifier ''tenant'' (clamp (ar_tenant r)))
        | Some tenant \<Rightarrow>
            res_bind (replay_cost watermark r tenant d) (\<lambda>d.
            let d = (if is_forwarded (ar_outcome r) then remember_key (tenant, ar_request_id r) d else d);
                d = outcome_metrics (ar_outcome r) d
            in Inr (next, append_audit r d)))"

definition check_governance ::
  "nat \<times> governance_record \<Rightarrow> u64 option \<Rightarrow> restore_error + u64 option" where
  "check_governance e previous =
     (let (n, r) = e in
      if go_ordinal r \<noteq> of_nat n then Inl (GovernanceDiscontinuity (of_nat n) (go_ordinal r))
      else if (case previous of None \<Rightarrow> False | Some p \<Rightarrow> go_at_sequence r < p) then
        Inl (GovernanceAnchorRegression (go_ordinal r) (go_at_sequence r))
      else Inr (Some (go_at_sequence r)))"

definition restore_base ::
  "(str \<Rightarrow> str) \<Rightarrow> deployment_snapshot \<Rightarrow> restore_error + deployment" where
  "restore_base sha snap =
     res_bind
       (case ledger_from_snapshot sha (ds_approvals snap) of
          Inl e \<Rightarrow> Inl (ApprovalLedgerCorrupt (approval_error_display e))
        | Inr ledger \<Rightarrow> Inr ledger) (\<lambda>ledger.
     Inr (deployment_new
       \<lparr>d_required_strength := ds_required_strength snap, d_roles := ds_roles snap,
        d_governed_tools := ds_governed_tools snap,
        d_justification_required := ds_justification_required snap,
        d_audit_dropped := ds_audit_dropped snap,
        d_governance_dropped := ds_governance_dropped snap,
        d_approval_required := ds_approval_required snap, d_approvals := ledger\<rparr>))"

definition restore_journals ::
  "u64 \<Rightarrow> audit_record list \<Rightarrow> governance_record list \<Rightarrow> deployment \<Rightarrow> restore_error + deployment" where
  "restore_journals watermark jour gov d =
     (let first = (case jour of [] \<Rightarrow> 0 | r # _ \<Rightarrow> ar_sequence r) in
      res_bind (res_fold (replay_record watermark) jour (first, d)) (\<lambda>(next, d).
      if next < watermark then Inl (JournalDiscontinuity watermark next)
      else
      res_bind (res_fold check_governance (List.enumerate 0 gov) None) (\<lambda>_.
      let d = fold append_governance gov d in
      Inr (d\<lparr>d_next_sequence := next,
             d_next_governance_ordinal :=
               (if gov = [] then 0 else go_ordinal (last gov) + 1),
             d_serving := (0 < next \<or> gov \<noteq> [])\<rparr>))))"

definition restore ::
  "(str \<Rightarrow> str) \<Rightarrow> deployment_snapshot \<Rightarrow> audit_record list \<Rightarrow> governance_record list
     \<Rightarrow> restore_error + deployment" where
  "restore sha snap jour gov =
     (if ds_schema snap \<noteq> SNAPSHOT_SCHEMA then Inl (SchemaMismatch (ds_schema snap) SNAPSHOT_SCHEMA)
      else
      res_bind (restore_base sha snap) (\<lambda>d.
      res_bind (res_fold (restore_tenant sha) (sorted_list_of_fmap (ds_tenants snap)) d) (\<lambda>d.
      res_bind (res_fold restore_cell (ds_cells snap) d) (\<lambda>d.
      restore_journals (ds_sequence_watermark snap) jour gov d))))"

subsection \<open>Restoring the tenants\<close>

text \<open>
  What the restore demands of a tenant: a ledger within its limit, an active model that is one of
  the allowed ones, a readable policy, and for every active variant a policy that still permits
  it, with a bound approval where one is required.
\<close>

definition evidence_ok ::
  "(str \<Rightarrow> str) \<Rightarrow> approval_ledger \<Rightarrow> tenant_id \<Rightarrow> tenant_state \<Rightarrow> qpage_variant \<Rightarrow> bool" where
  "evidence_ok sha ledger i s v \<longleftrightarrow>
     restore_variant sha ledger i (ts_variant_policy s) (ts_variant_approvals s) v = Inr ()"

definition active_model_ok :: "str option \<Rightarrow> model_allowlist \<Rightarrow> bool" where
  "active_model_ok act models \<longleftrightarrow>
     (case act of None \<Rightarrow> allowed_models models = {||} | Some m \<Rightarrow> m |\<in>| allowed_models models)"

definition tenant_ok :: "(str \<Rightarrow> str) \<Rightarrow> approval_ledger \<Rightarrow> tenant_id \<Rightarrow> tenant_state \<Rightarrow> bool" where
  "tenant_ok sha ledger i s \<longleftrightarrow>
     tenant_wf i \<and> budget_ok (ts_budget s) \<and>
     active_model_ok (ts_active_model s) (ts_models s) \<and>
     vp_schema_version (ts_variant_policy s) = VARIANT_POLICY_SCHEMA \<and>
     (\<forall>v. is_active (ts_qpages s) v \<longrightarrow> evidence_ok sha ledger i s v)"

lemma tenant_state_eta:
  "\<lparr>ts_budget = ts_budget s, ts_models = ts_models s, ts_qpages = ts_qpages s,
    ts_active_model = ts_active_model s, ts_variant_policy = ts_variant_policy s,
    ts_variant_approvals = ts_variant_approvals s\<rparr> = s"
  by (cases s) simp

lemma restore_tenant_snapshot:
  assumes ok: "tenant_ok sha (d_approvals e) i s"
    and owner: "fmlookup (d_tenant_owner d) i = Some org" "is_canonical_identifier (org_name org)"
  shows "restore_tenant sha (as_str i, snapshot_tenant d i s) e =
    Inr (e\<lparr>d_tenants := fmupd i s (d_tenants e), d_tenant_owner := fmupd i org (d_tenant_owner e)\<rparr>)"
proof -
  have i: "is_canonical_identifier (as_str i)"
    using ok by (simp add: tenant_ok_def is_canonical_identifier_wf)
  have "org_name org \<noteq> []" using owner(2) by (auto simp: is_canonical_identifier_def)
  moreover have "restore_active_model (as_str i) (snapshot_tenant d i s) = Inr (ts_active_model s)"
    using ok by (auto simp: restore_active_model_def snapshot_tenant_def tenant_ok_def
      active_model_ok_def split: option.splits)
  moreover have "restore_variant_policy i (snapshot_tenant d i s) = Inr (ts_variant_policy s)"
    using ok by (simp add: restore_variant_policy_def snapshot_tenant_def tenant_ok_def
        LEGACY_MISSING_VARIANT_POLICY_SCHEMA_def VARIANT_POLICY_SCHEMA_def validate_variant_policy_def)
  moreover have "res_check (restore_variant sha (d_approvals e) i (ts_variant_policy s)
      (ts_variant_approvals s)) (active (ts_qpages s)) = Inr ()"
    using ok by (simp add: res_check_ok_iff tenant_ok_def evidence_ok_def is_active_def)
  ultimately show ?thesis
    using i owner ok
    by (simp add: restore_tenant_def check_identifier_def snapshot_tenant_def tenant_ok_def
        budget_ok_def Let_def not_less tenant_state_eta)
qed

text \<open>A loop that only updates two maps, read off entry by entry.\<close>

lemma fold_fmupd_lookup:
  assumes "distinct (map fst xs)" and "inj g"
  shows "(k, v) \<in> set xs \<Longrightarrow> fmlookup (fold (\<lambda>(k, v). fmupd (g k) (f k v)) xs m) (g k) = Some (f k v)"
    and "y \<notin> g ` fst ` set xs \<Longrightarrow> fmlookup (fold (\<lambda>(k, v). fmupd (g k) (f k v)) xs m) y = fmlookup m y"
proof -
  have other: "y \<notin> g ` fst ` set xs \<Longrightarrow>
      fmlookup (fold (\<lambda>(k, v). fmupd (g k) (f k v)) xs m) y = fmlookup m y" for xs m y
    by (induction xs arbitrary: m) auto
  then show "y \<notin> g ` fst ` set xs \<Longrightarrow>
      fmlookup (fold (\<lambda>(k, v). fmupd (g k) (f k v)) xs m) y = fmlookup m y" .
  show "(k, v) \<in> set xs \<Longrightarrow>
      fmlookup (fold (\<lambda>(k, v). fmupd (g k) (f k v)) xs m) (g k) = Some (f k v)"
    using assms(1)
  proof (induction xs arbitrary: m)
    case (Cons x xs)
    show ?case
    proof (cases "x = (k, v)")
      case True
      then have "g k \<notin> g ` fst ` set xs"
        using Cons.prems(2) assms(2) by (force simp: inj_eq)
      then show ?thesis using True other by simp
    next
      case False
      with Cons show ?thesis by (cases x) auto
    qed
  qed simp
qed

lemma inj_TenantId [simp]: "inj TenantId"
  by (auto intro: injI)

definition owners_ok :: "deployment \<Rightarrow> bool" where
  "owners_ok d \<longleftrightarrow>
     fmdom (d_tenant_owner d) = fmdom (d_tenants d) \<and>
     (\<forall>i org. fmlookup (d_tenant_owner d) i = Some org \<longrightarrow> is_canonical_identifier (org_name org))"

definition tenants_ok :: "(str \<Rightarrow> str) \<Rightarrow> deployment \<Rightarrow> bool" where
  "tenants_ok sha d \<longleftrightarrow>
     (\<forall>i s. fmlookup (d_tenants d) i = Some s \<longrightarrow> tenant_ok sha (d_approvals d) i s)"

lemma as_str_eq_iff: "as_str i = n \<longleftrightarrow> i = TenantId n"
  by (cases i) auto

lemma ds_tenants_lookup:
  "fmlookup (ds_tenants (snapshot d)) n =
     map_option (snapshot_tenant d (TenantId n)) (fmlookup (d_tenants d) (TenantId n))"
proof -
  let ?xs = "sorted_list_of_fmap (d_tenants d)"
  have "map_of (map (\<lambda>(i, s). (as_str i, snapshot_tenant d i s)) xs) n =
      map_option (snapshot_tenant d (TenantId n)) (map_of xs (TenantId n))" for xs
    by (induction xs) (auto simp: as_str_eq_iff)
  then show ?thesis by (simp add: snapshot_def fmlookup_of_list)
qed

lemma restore_tenants_snapshot:
  assumes owners: "owners_ok d" and ok: "tenants_ok sha d" and ledger: "d_approvals e = d_approvals d"
    and empty: "d_tenants e = fmempty" "d_tenant_owner e = fmempty"
  shows "res_fold (restore_tenant sha) (sorted_list_of_fmap (ds_tenants (snapshot d))) e =
    Inr (e\<lparr>d_tenants := d_tenants d, d_tenant_owner := d_tenant_owner d\<rparr>)"
proof -
  let ?xs = "sorted_list_of_fmap (ds_tenants (snapshot d))"
  let ?st = "\<lambda>n (t :: tenant_snapshot). the (fmlookup (d_tenants d) (TenantId n))"
  let ?ow = "\<lambda>n (t :: tenant_snapshot). the (fmlookup (d_tenant_owner d) (TenantId n))"
  have entry: "\<exists>s org. t = snapshot_tenant d (TenantId n) s \<and> fmlookup (d_tenants d) (TenantId n) = Some s
      \<and> fmlookup (d_tenant_owner d) (TenantId n) = Some org \<and> is_canonical_identifier (org_name org)
      \<and> tenant_ok sha (d_approvals d) (TenantId n) s" if in_xs: "(n, t) \<in> set ?xs" for n t
  proof -
    obtain s where s: "fmlookup (d_tenants d) (TenantId n) = Some s" "t = snapshot_tenant d (TenantId n) s"
      using in_xs by (auto simp: ds_tenants_lookup)
    then have "TenantId n |\<in>| fmdom (d_tenant_owner d)"
      using owners by (simp add: owners_ok_def fmdomI)
    then show ?thesis using s owners ok
      by (auto simp: owners_ok_def tenants_ok_def fmlookup_dom_iff)
  qed
  have fold: "res_fold (restore_tenant sha) ys e = Inr (e\<lparr>
      d_tenants := fold (\<lambda>(n, t). fmupd (TenantId n) (?st n t)) ys (d_tenants e),
      d_tenant_owner := fold (\<lambda>(n, t). fmupd (TenantId n) (?ow n t)) ys (d_tenant_owner e)\<rparr>)"
    if "set ys \<subseteq> set ?xs" "d_approvals e = d_approvals d" for ys e
    using that
  proof (induction ys arbitrary: e)
    case (Cons y ys)
    obtain n t where y: "y = (n, t)" by (cases y)
    then obtain s org where sn: "t = snapshot_tenant d (TenantId n) s"
      "fmlookup (d_tenants d) (TenantId n) = Some s" "fmlookup (d_tenant_owner d) (TenantId n) = Some org"
      "is_canonical_identifier (org_name org)" "tenant_ok sha (d_approvals e) (TenantId n) s"
      using entry [of n t] Cons.prems by auto
    have "restore_tenant sha y e = Inr (e\<lparr>d_tenants := fmupd (TenantId n) s (d_tenants e),
        d_tenant_owner := fmupd (TenantId n) org (d_tenant_owner e)\<rparr>)"
      using restore_tenant_snapshot [OF sn(5,3,4)] by (simp add: y sn(1))
    then show ?case using Cons sn(2,3) y by simp
  qed simp
  have dist: "distinct (map fst ?xs)" by simp
  have keys: "TenantId n \<in> TenantId ` fst ` set ?xs \<longleftrightarrow> TenantId n |\<in>| fmdom (d_tenants d)" for n
    by (force simp: ds_tenants_lookup image_iff fmlookup_dom_iff)
  have "fold (\<lambda>(n, t). fmupd (TenantId n) (?st n t)) ?xs fmempty = d_tenants d"
  proof (rule fmap_ext)
    fix i
    obtain n where i: "i = TenantId n" by (cases i)
    show "fmlookup (fold (\<lambda>(n, t). fmupd (TenantId n) (?st n t)) ?xs fmempty) i = fmlookup (d_tenants d) i"
      using fold_fmupd_lookup [OF dist inj_TenantId, where f = ?st and m = fmempty] keys [of n]
      by (cases "fmlookup (d_tenants d) i")
        (force simp: i fmdom_notI ds_tenants_lookup)+
  qed
  moreover have "fold (\<lambda>(n, t). fmupd (TenantId n) (?ow n t)) ?xs fmempty = d_tenant_owner d"
  proof (rule fmap_ext)
    fix i
    obtain n where i: "i = TenantId n" by (cases i)
    have dom: "fmlookup (d_tenant_owner d) i = None \<longleftrightarrow> fmlookup (d_tenants d) i = None"
      using owners by (metis fmdom_notD fmdom_notI owners_ok_def)
    show "fmlookup (fold (\<lambda>(n, t). fmupd (TenantId n) (?ow n t)) ?xs fmempty) i =
        fmlookup (d_tenant_owner d) i"
      using fold_fmupd_lookup [OF dist inj_TenantId, where f = ?ow and m = fmempty] keys [of n] dom
      by (cases "fmlookup (d_tenants d) i")
        (force simp: i fmdom_notI ds_tenants_lookup)+
  qed
  ultimately show ?thesis using fold [of ?xs e] ledger empty by simp
qed

subsection \<open>Restoring the cells\<close>

definition row_size :: "str \<times> str \<times> str \<Rightarrow> nat" where
  "row_size row = length (fst (snd row)) + length (snd (snd row))"

lemma row_size_simp [simp]: "row_size (n, k, v) = length k + length v"
  by (simp add: row_size_def)

definition row_key :: "str \<times> str \<times> str \<Rightarrow> tenant_id \<times> str" where
  "row_key row = (TenantId (fst row), fst (snd row))"

definition rows_of :: "tenant_id \<Rightarrow> (str \<times> str \<times> str) list \<Rightarrow> nat" where
  "rows_of t rows = length (filter (\<lambda>row. TenantId (fst row) = t) rows)"

definition row_ok :: "deployment \<Rightarrow> str \<times> str \<times> str \<Rightarrow> bool" where
  "row_ok d row \<longleftrightarrow>
     tenant_wf (TenantId (fst row)) \<and> fmcontains (d_tenants d) (TenantId (fst row)) \<and>
     fst (snd row) \<noteq> [] \<and> length (fst (snd row)) \<le> MAX_CELL_KEY_BYTES \<and>
     length (snd (snd row)) \<le> MAX_CELL_VALUE_BYTES"

lemma land_cell_tenants [simp]: "d_tenants (land_cell t k v d) = d_tenants d"
  by (simp add: land_cell_def)

lemma land_cell_fresh:
  assumes "store_ok d" and "write_allowed d t k v" and "cell_at d t k = None"
  shows "store_size (d_store (land_cell t k v d)) = store_size (d_store d) + (length k + length v)"
    and "cell_count (land_cell t k v d) s = (if s = t then Suc (cell_count d s) else cell_count d s)"
  using assms store_size_land(1) [OF assms(1,2)]
  by (auto simp: cell_bytes_at_def cell_count_get_or land_cell_def cell_at_def fcard_finsert_if
      fmcontains_iff fmget_or_upd)

text \<open>
  Writing rows with distinct keys into a store that holds none of them succeeds as long as the
  totals fit, and leaves exactly the old cells and the rows.
\<close>

lemma restore_cells:
  assumes "store_ok d" and "\<forall>row\<in>set rows. row_ok d row \<and> cell_at d (fst (row_key row)) (snd (row_key row)) = None"
    and "distinct (map row_key rows)"
    and "store_size (d_store d) + sum_list (map row_size rows) \<le> unat MAX_TOTAL_CELL_BYTES"
    and "\<And>t. cell_count d t + rows_of t rows \<le> MAX_CELLS_PER_TENANT"
  shows "\<exists>st b. res_fold restore_cell rows d = Inr (d\<lparr>d_store := st, d_store_bytes := b\<rparr>)
    \<and> store_ok (d\<lparr>d_store := st, d_store_bytes := b\<rparr>)
    \<and> store_size st = store_size (d_store d) + sum_list (map row_size rows)
    \<and> (\<forall>t k v. cell_at (d\<lparr>d_store := st, d_store_bytes := b\<rparr>) t k = Some v \<longleftrightarrow>
          cell_at d t k = Some v \<or> (\<exists>n. t = TenantId n \<and> (n, k, v) \<in> set rows))"
  using assms
proof (induction rows arbitrary: d)
  case Nil
  have "d\<lparr>d_store := d_store d, d_store_bytes := d_store_bytes d\<rparr> = d" by simp
  with Nil show ?case by (intro exI [of _ "d_store d"] exI [of _ "d_store_bytes d"]) simp
next
  case (Cons row rows)
  obtain n k v where row: "row = (n, k, v)" by (cases row)
  let ?t = "TenantId n"
  let ?e = "land_cell ?t k v d"
  have fresh: "cell_at d ?t k = None" and rok: "row_ok d row"
    using Cons.prems(2) by (auto simp: row row_key_def)
  have "rows_of ?t (row # rows) = Suc (rows_of ?t rows)" by (simp add: rows_of_def row)
  then have allowed: "write_allowed d ?t k v"
    using rok fresh Cons.prems(4) Cons.prems(5) [of ?t]
    by (simp add: write_allowed_def row_ok_def row cell_bytes_at_def)
  have step: "restore_cell row d = Inr ?e"
    using rok write_cell_unfold [OF Cons.prems(1), of ?t k v] allowed
    by (simp add: restore_cell_def row row_ok_def tenant_wf_def not_less)
  have key: "row_key r \<noteq> (?t, k)" if "r \<in> set rows" for r
    using Cons.prems(3) that by (auto simp: row row_key_def)
  have "\<exists>st b. res_fold restore_cell rows ?e = Inr (?e\<lparr>d_store := st, d_store_bytes := b\<rparr>)
    \<and> store_ok (?e\<lparr>d_store := st, d_store_bytes := b\<rparr>)
    \<and> store_size st = store_size (d_store ?e) + sum_list (map row_size rows)
    \<and> (\<forall>t k v. cell_at (?e\<lparr>d_store := st, d_store_bytes := b\<rparr>) t k = Some v \<longleftrightarrow>
          cell_at ?e t k = Some v \<or> (\<exists>n. t = TenantId n \<and> (n, k, v) \<in> set rows))"
  proof (rule Cons.IH)
    show "store_ok ?e" by (rule store_ok_land [OF Cons.prems(1) allowed])
    show "\<forall>row\<in>set rows. row_ok ?e row \<and> cell_at ?e (fst (row_key row)) (snd (row_key row)) = None"
      using Cons.prems(2) key by (auto simp: cell_at_land row_ok_def row_key_def)
    show "distinct (map row_key rows)" using Cons.prems(3) by simp
    show "store_size (d_store ?e) + sum_list (map row_size rows) \<le> unat MAX_TOTAL_CELL_BYTES"
      using Cons.prems(4) land_cell_fresh(1) [OF Cons.prems(1) allowed fresh]
      by (simp add: row)
    show "cell_count ?e t + rows_of t rows \<le> MAX_CELLS_PER_TENANT" for t
      using Cons.prems(5) [of t] land_cell_fresh(2) [OF Cons.prems(1) allowed fresh, of t]
      by (auto simp: rows_of_def row)
  qed
  then obtain st b where ih: "res_fold restore_cell rows ?e = Inr (?e\<lparr>d_store := st, d_store_bytes := b\<rparr>)"
    "store_ok (?e\<lparr>d_store := st, d_store_bytes := b\<rparr>)"
    "store_size st = store_size (d_store ?e) + sum_list (map row_size rows)"
    "\<And>t k v. cell_at (?e\<lparr>d_store := st, d_store_bytes := b\<rparr>) t k = Some v \<longleftrightarrow>
       cell_at ?e t k = Some v \<or> (\<exists>n. t = TenantId n \<and> (n, k, v) \<in> set rows)"
    by blast
  have over: "?e\<lparr>d_store := st, d_store_bytes := b\<rparr> = d\<lparr>d_store := st, d_store_bytes := b\<rparr>"
    by (simp add: land_cell_def)
  show ?case
  proof (intro exI conjI allI)
    show "res_fold restore_cell (row # rows) d = Inr (d\<lparr>d_store := st, d_store_bytes := b\<rparr>)"
      using ih(1) step over by simp
    show "store_ok (d\<lparr>d_store := st, d_store_bytes := b\<rparr>)" using ih(2) over by simp
    show "store_size st = store_size (d_store d) + sum_list (map row_size (row # rows))"
      using ih(3) land_cell_fresh(1) [OF Cons.prems(1) allowed fresh] by (simp add: row)
    fix t j w
    show "cell_at (d\<lparr>d_store := st, d_store_bytes := b\<rparr>) t j = Some w \<longleftrightarrow>
        cell_at d t j = Some w \<or> (\<exists>n. t = TenantId n \<and> (n, j, w) \<in> set (row # rows))"
      using ih(4) [of t j w] fresh unfolding over by (auto simp: cell_at_land row)
  qed
qed

text \<open>The rows of a store: distinct keys, its exact size, and its cells.\<close>

definition rows_for :: "tenant_id \<times> cell_map \<Rightarrow> (str \<times> str \<times> str) list" where
  "rows_for e = map (\<lambda>(k, v). (as_str (fst e), k, v)) (sorted_list_of_fmap (snd e))"

lemma store_rows_alt: "store_rows st = concat (map rows_for (sorted_list_of_fmap st))"
  by (simp add: store_rows_def rows_for_def [abs_def] split_def)

lemma set_store_rows:
  "(n, k, v) \<in> set (store_rows st) \<longleftrightarrow>
     (\<exists>cells. fmlookup st (TenantId n) = Some cells \<and> fmlookup cells k = Some v)"
  by (force simp: store_rows_def as_str_eq_iff)

lemma row_key_rows_for: "map row_key (rows_for (t, cells)) = map (Pair t) (sorted_list_of_fset (fmdom cells))"
  by (simp add: rows_for_def row_key_def split_def comp_def sorted_list_of_fmap_def)

lemma row_key_concat: "row_key row = (t, k) \<Longrightarrow> row \<in> set (concat (map rows_for xs)) \<Longrightarrow> t \<in> fst ` set xs"
  by (auto simp: rows_for_def row_key_def image_iff) (metis fst_conv tenant_id.collapse)+

lemma distinct_rows_concat:
  "distinct (map fst xs) \<Longrightarrow> distinct (map row_key (concat (map rows_for xs)))"
proof (induction xs)
  case (Cons x xs)
  obtain t cells where x: "x = (t, cells)" by (cases x)
  have "distinct (map row_key (rows_for x))"
    by (simp add: x row_key_rows_for distinct_map inj_on_def)
  moreover have "row_key ` set (rows_for x) \<inter> row_key ` set (concat (map rows_for xs)) = {}"
  proof -
    have "fst k = t" if "k \<in> row_key ` set (rows_for x)" for k
      using that by (auto simp: x rows_for_def row_key_def)
    moreover have "fst k \<in> fst ` set xs" if "k \<in> row_key ` set (concat (map rows_for xs))" for k
    proof -
      from that obtain row where "row \<in> set (concat (map rows_for xs))" "row_key row = (fst k, snd k)"
        by auto
      then show ?thesis using row_key_concat by blast
    qed
    moreover have "t \<notin> fst ` set xs" using Cons.prems by (simp add: x)
    ultimately show ?thesis by blast
  qed
  ultimately show ?case using Cons by (simp add: distinct_append)
qed simp

lemma distinct_store_rows: "distinct (map row_key (store_rows st))"
  by (simp add: store_rows_alt distinct_rows_concat del: map_map)

lemma sum_list_concat_map: "sum_list (map f (concat xss)) = sum_list (map (\<lambda>xs. sum_list (map f xs)) xss)"
  for f :: "'a \<Rightarrow> nat"
  by (induction xss) simp_all

lemma sum_rows_for: "sum_list (map row_size (rows_for (t, cells))) = map_size cells"
proof -
  have "sum_list (map row_size (rows_for (t, cells))) =
      sum_list (map (\<lambda>k. length k + length (the (fmlookup cells k))) (sorted_list_of_fset (fmdom cells)))"
    by (simp add: sorted_list_of_fmap_def comp_def rows_for_def)
  also have "\<dots> = (\<Sum>k\<in>set (sorted_list_of_fset (fmdom cells)). length k + length (the (fmlookup cells k)))"
    by (rule sum_list_distinct_conv_sum_set) simp
  finally show ?thesis by (simp add: map_size_def fmsum_def)
qed

lemma sum_store_rows: "sum_list (map row_size (store_rows st)) = store_size st"
proof -
  have "sum_list (map row_size (store_rows st)) =
      sum_list (map (\<lambda>t. map_size (the (fmlookup st t))) (sorted_list_of_fset (fmdom st)))"
    by (simp add: store_rows_alt sum_list_concat_map comp_def sum_rows_for sorted_list_of_fmap_def)
  also have "\<dots> = (\<Sum>t\<in>set (sorted_list_of_fset (fmdom st)). map_size (the (fmlookup st t)))"
    by (rule sum_list_distinct_conv_sum_set) simp
  finally show ?thesis by (simp add: store_size_def fmsum_def)
qed

lemma rows_of_append [simp]: "rows_of t (xs @ ys) = rows_of t xs + rows_of t ys"
  by (simp add: rows_of_def)

lemma rows_of_rows_for: "rows_of t (rows_for (u, cells)) = (if t = u then fmlen cells else 0)"
proof -
  have "length (sorted_list_of_fmap cells) = fmlen cells"
    by (simp add: sorted_list_of_fmap_def sorted_list_of_fset.rep_eq fcard.rep_eq)
  then show ?thesis by (auto simp: rows_of_def rows_for_def filter_map comp_def split_def)
qed

lemma rows_of_concat:
  "distinct (map fst xs) \<Longrightarrow>
     rows_of t (concat (map rows_for xs)) = (case map_of xs t of None \<Rightarrow> 0 | Some cells \<Rightarrow> fmlen cells)"
proof (induction xs)
  case Nil
  then show ?case by (simp add: rows_of_def)
next
  case (Cons x xs)
  obtain u cells where x: "x = (u, cells)" by (cases x)
  have "map_of xs u = None" using Cons.prems by (simp add: x map_of_eq_None_iff)
  with Cons show ?case by (cases "t = u") (simp_all add: x rows_of_rows_for)
qed

lemma rows_of_store_rows: "rows_of t (store_rows st) = fmlen (fmget_or st t fmempty)"
  by (simp add: store_rows_alt rows_of_concat fmget_or_def split: option.splits)

text \<open>The cells of a snapshot land on an empty store and reproduce the store it was taken from.\<close>

lemma restore_cells_snapshot:
  assumes ok: "store_ok d" and tenants: "\<And>t. fmcontains (d_tenants d) t \<Longrightarrow> tenant_wf t"
    and e: "d_tenants e = d_tenants d" "d_store e = fmempty" "d_store_bytes e = 0"
  shows "\<exists>st. res_fold restore_cell (ds_cells (snapshot d)) e =
      Inr (e\<lparr>d_store := st, d_store_bytes := d_store_bytes d\<rparr>)
    \<and> (\<forall>t k. fmlookup (fmget_or st t fmempty) k = cell_at d t k)"
proof -
  let ?rows = "store_rows (d_store d)"
  have ok_e: "store_ok e" using e by (simp add: store_ok_def store_size_def)
  have fresh: "\<forall>row\<in>set ?rows. row_ok e row \<and> cell_at e (fst (row_key row)) (snd (row_key row)) = None"
  proof (clarify, intro conjI)
    fix n k v
    assume "(n, k, v) \<in> set ?rows"
    then obtain cells where c: "fmlookup (d_store d) (TenantId n) = Some cells" "fmlookup cells k = Some v"
      by (auto simp: set_store_rows)
    show "row_ok e (n, k, v)"
      using c store_okD(3,4) [OF ok c(1)] tenants by (auto simp: row_ok_def e cells_ok_def)
    show "cell_at e (fst (row_key (n, k, v))) (snd (row_key (n, k, v))) = None"
      by (simp add: cell_at_def e)
  qed
  have fits: "store_size (d_store e) + sum_list (map row_size ?rows) \<le> unat MAX_TOTAL_CELL_BYTES"
    using ok by (simp add: sum_store_rows e store_ok_def) (simp add: store_size_def)
  have counts: "cell_count e t + rows_of t ?rows \<le> MAX_CELLS_PER_TENANT" for t
    using cells_ok_get_or [OF ok, of t] by (simp add: rows_of_store_rows cell_count_def e cells_ok_def)
  obtain st b where st:
    "res_fold restore_cell ?rows e = Inr (e\<lparr>d_store := st, d_store_bytes := b\<rparr>)"
    "store_ok (e\<lparr>d_store := st, d_store_bytes := b\<rparr>)"
    "store_size st = store_size (d_store e) + sum_list (map row_size ?rows)"
    "\<And>t k v. cell_at (e\<lparr>d_store := st, d_store_bytes := b\<rparr>) t k = Some v \<longleftrightarrow>
       cell_at e t k = Some v \<or> (\<exists>n. t = TenantId n \<and> (n, k, v) \<in> set ?rows)"
    using restore_cells [OF ok_e fresh distinct_store_rows fits counts] by blast
  have "unat b = unat (d_store_bytes d)"
    using st(2,3) store_okD(1) [OF ok] by (simp add: store_ok_def sum_store_rows e) (simp add: store_size_def)
  then have "b = d_store_bytes d" by (simp add: word_unat_eq_iff)
  moreover have "fmlookup (fmget_or st t fmempty) k = cell_at d t k" for t k
  proof -
    have "fmlookup (fmget_or st t fmempty) k = Some v \<longleftrightarrow> cell_at d t k = Some v" for v
      using st(4) [of t k v] by (cases t) (auto simp: cell_at_def e set_store_rows cell_at_Some [unfolded cell_at_def])
    then show ?thesis by (metis option.exhaust)
  qed
  ultimately show ?thesis using st(1) by (auto simp: snapshot_def)
qed

subsection \<open>Replaying the journal\<close>

text \<open>The charges of a journal, on the tenants alone.\<close>

definition charge_row ::
  "u64 \<Rightarrow> audit_record \<Rightarrow> (tenant_id, tenant_state) fmap \<Rightarrow> restore_error + (tenant_id, tenant_state) fmap" where
  "charge_row watermark r T =
     (if 0 < ar_cost r \<and> watermark \<le> ar_sequence r then
        (case fmlookup T (TenantId (ar_tenant r)) of
           None \<Rightarrow> Inl (JournalTenantUnknown (ar_sequence r) (ar_tenant r))
         | Some state \<Rightarrow>
             if fst (charge (ts_budget state) (ar_cost r)) \<noteq> Allow then
               Inl (LedgerOverLimit (ar_tenant r)
                 (sat_add (tb_spent (ts_budget state)) (ar_cost r)) (tb_limit (ts_budget state)))
             else Inr (fmupd (TenantId (ar_tenant r))
                    (state\<lparr>ts_budget := snd (charge (ts_budget state) (ar_cost r))\<rparr>) T))
      else Inr T)"

lemma replay_cost_eq:
  "replay_cost watermark r (TenantId (ar_tenant r)) d =
     res_bind (charge_row watermark r (d_tenants d)) (\<lambda>T. Inr (d\<lparr>d_tenants := T\<rparr>))"
proof -
  have "fst (charge b n) \<noteq> Allow \<Longrightarrow> snd (charge b n) = b" for b n
    by (auto simp: charge_def split: if_splits)
  then show ?thesis
    by (auto simp: replay_cost_def charge_row_def case_prod_beta Let_def split: option.splits)
qed

abbreviation dense_from :: "u64 \<Rightarrow> audit_record list \<Rightarrow> bool" where
  "dense_from \<equiv> seq_from ar_sequence"

lemma append_audit_room:
  "length (d_audit d) < d_audit_capacity d \<Longrightarrow> append_audit r d = d\<lparr>d_audit := d_audit d @ [r]\<rparr>"
  by (simp add: append_audit_eq)

lemma outcome_metrics_eq: "\<exists>m. outcome_metrics res d = d\<lparr>d_metrics := m\<rparr>"
  by (cases res) (auto simp: outcome_metrics_def Let_def)

lemma replay_journal:
  assumes "dense_from n jour" and "\<forall>r\<in>set jour. is_canonical_identifier (ar_tenant r)"
    and "res_fold (charge_row watermark) jour (d_tenants e) = Inr T"
    and "length (d_audit e) + length jour \<le> d_audit_capacity e"
  shows "\<exists>m rp. res_fold (replay_record watermark) jour (n, e) =
    Inr (n + of_nat (length jour),
         e\<lparr>d_tenants := T, d_metrics := m, d_audit := d_audit e @ jour, d_replay := rp\<rparr>)"
  using assms
proof (induction jour arbitrary: n e)
  case Nil
  then show ?case by (intro exI [of _ "d_metrics e"] exI [of _ "d_replay e"]) simp
next
  case (Cons r jour)
  obtain T1 where T1: "charge_row watermark r (d_tenants e) = Inr T1"
    "res_fold (charge_row watermark) jour T1 = Inr T"
    using Cons.prems(3) by auto
  have t: "tenant_new (ar_tenant r) = Some (TenantId (ar_tenant r))"
    using Cons.prems(2) by (simp add: is_canonical_identifier_iff)
  define e1 where "e1 = (if is_forwarded (ar_outcome r)
    then remember_key (TenantId (ar_tenant r), ar_request_id r) (e\<lparr>d_tenants := T1\<rparr>)
    else e\<lparr>d_tenants := T1\<rparr>)"
  obtain rp1 where rp1: "e1 = e\<lparr>d_tenants := T1, d_replay := rp1\<rparr>"
  proof (cases "is_forwarded (ar_outcome r)")
    case False
    have "e\<lparr>d_tenants := T1\<rparr> = e\<lparr>d_tenants := T1, d_replay := d_replay e\<rparr>" by simp
    with False show ?thesis using that [of "d_replay e"] by (simp add: e1_def)
  qed (simp add: e1_def remember_key_def that)
  obtain m1 where m1: "outcome_metrics (ar_outcome r) e1 = e1\<lparr>d_metrics := m1\<rparr>"
    using outcome_metrics_eq by blast
  let ?e = "e\<lparr>d_tenants := T1, d_metrics := m1, d_audit := d_audit e @ [r], d_replay := rp1\<rparr>"
  have "append_audit r (outcome_metrics (ar_outcome r) e1) = ?e"
    unfolding m1 using Cons.prems(4) by (subst append_audit_room) (simp_all add: rp1)
  then have step: "replay_record watermark r (n, e) = Inr (n + 1, ?e)"
    using Cons.prems(1) T1(1) t
    by (simp add: replay_record_def Let_def replay_cost_eq e1_def)
  obtain m rp where "res_fold (replay_record watermark) jour (n + 1, ?e) =
    Inr (n + 1 + of_nat (length jour),
         ?e\<lparr>d_tenants := T, d_metrics := m, d_audit := d_audit ?e @ jour, d_replay := rp\<rparr>)"
    using Cons.IH [of "n + 1" ?e] Cons.prems T1(2) by auto
  then show ?case using step
    by (intro exI [of _ m] exI [of _ rp]) (simp add: add.assoc)
qed

subsection \<open>Replaying the governance records\<close>

abbreviation governance_dense :: "nat \<Rightarrow> governance_record list \<Rightarrow> bool" where
  "governance_dense n \<equiv> seq_from go_ordinal (of_nat n)"

lemma check_governance_ok:
  assumes "governance_dense n gov" and "sorted (map go_at_sequence gov)"
    and "\<And>p r. previous = Some p \<Longrightarrow> r \<in> set gov \<Longrightarrow> p \<le> go_at_sequence r"
  shows "\<exists>q. res_fold check_governance (List.enumerate n gov) previous = Inr q"
  using assms
proof (induction gov arbitrary: n previous)
  case (Cons r gov)
  have "check_governance (n, r) previous = Inr (Some (go_at_sequence r))"
    using Cons.prems by (auto simp: check_governance_def not_less split: option.splits)
  moreover have "\<exists>q. res_fold check_governance (List.enumerate (Suc n) gov) (Some (go_at_sequence r)) = Inr q"
    using Cons.prems by (intro Cons.IH) (auto simp: add.commute)
  ultimately show ?case by simp
qed simp

lemma append_governance_room:
  "length (d_governance d) < d_audit_capacity d \<Longrightarrow>
     append_governance r d = d\<lparr>d_governance := d_governance d @ [r]\<rparr>"
  by (simp add: append_governance_eq)

lemma fold_append_governance:
  "length (d_governance d) + length gov \<le> d_audit_capacity d \<Longrightarrow>
     fold append_governance gov d = d\<lparr>d_governance := d_governance d @ gov\<rparr>"
  by (induction gov arbitrary: d) (simp_all add: append_governance_room)

subsection \<open>Restoring a snapshot with a journal\<close>

definition restorable :: "(str \<Rightarrow> str) \<Rightarrow> deployment \<Rightarrow> bool" where
  "restorable sha d \<longleftrightarrow>
     registry_valid sha (ledger_registry (d_approvals d)) \<and> owners_ok d \<and> tenants_ok sha d \<and> store_ok d"

definition journal_ok :: "audit_record list \<Rightarrow> bool" where
  "journal_ok jour \<longleftrightarrow>
     dense_from 0 jour \<and> length jour \<le> DEFAULT_AUDIT_CAPACITY \<and>
     (\<forall>r\<in>set jour. is_canonical_identifier (ar_tenant r))"

definition governance_ok :: "governance_record list \<Rightarrow> bool" where
  "governance_ok gov \<longleftrightarrow>
     governance_dense 0 gov \<and> sorted (map go_at_sequence gov) \<and> length gov \<le> DEFAULT_AUDIT_CAPACITY"

text \<open>What a restored deployment shares with the one the snapshot was taken of.\<close>

definition same_rules :: "deployment \<Rightarrow> deployment \<Rightarrow> bool" where
  "same_rules d d' \<longleftrightarrow>
     d_tenant_owner d' = d_tenant_owner d \<and> d_roles d' = d_roles d \<and>
     d_governed_tools d' = d_governed_tools d \<and>
     d_justification_required d' = d_justification_required d \<and>
     d_approval_required d' = d_approval_required d \<and> d_approvals d' = d_approvals d \<and>
     d_required_strength d' = d_required_strength d \<and>
     d_audit_dropped d' = d_audit_dropped d \<and> d_governance_dropped d' = d_governance_dropped d \<and>
     d_store_bytes d' = d_store_bytes d \<and> (\<forall>t k. cell_at d' t k = cell_at d t k)"

text \<open>The restored state before any journal row is read.\<close>

lemma restore_state:
  assumes "restorable sha d"
  obtains e where "same_rules d e" "d_tenants e = d_tenants d" "d_audit e = []" "d_governance e = []"
    "d_audit_capacity e = DEFAULT_AUDIT_CAPACITY"
    "\<And>jour gov. restore sha (snapshot d) jour gov = restore_journals (d_next_sequence d) jour gov e"
proof -
  have ok: "registry_valid sha (ledger_registry (d_approvals d))" "owners_ok d" "tenants_ok sha d"
      "store_ok d"
    using assms by (simp_all add: restorable_def)
  define e where "e = deployment_new
     \<lparr>d_required_strength := d_required_strength d, d_roles := d_roles d,
      d_governed_tools := d_governed_tools d, d_justification_required := d_justification_required d,
      d_audit_dropped := d_audit_dropped d, d_governance_dropped := d_governance_dropped d,
      d_approval_required := d_approval_required d, d_approvals := d_approvals d\<rparr>"
  have base: "restore_base sha (snapshot d) = Inr e"
    using registry_valid_roundtrip [OF ok(1)]
    by (simp add: restore_base_def ledger_from_snapshot_def snapshot_def ledger_snapshot_def e_def)
  let ?e1 = "e\<lparr>d_tenants := d_tenants d, d_tenant_owner := d_tenant_owner d\<rparr>"
  have tenants: "res_fold (restore_tenant sha) (sorted_list_of_fmap (ds_tenants (snapshot d))) e = Inr ?e1"
    by (rule restore_tenants_snapshot [OF ok(2,3)]) (simp_all add: e_def deployment_new_def)
  have "tenant_wf t" if "fmcontains (d_tenants d) t" for t
    using that ok(3) by (auto simp: tenants_ok_def tenant_ok_def fmlookup_dom_iff)
  then obtain st where st: "res_fold restore_cell (ds_cells (snapshot d)) ?e1 =
      Inr (?e1\<lparr>d_store := st, d_store_bytes := d_store_bytes d\<rparr>)"
    "\<forall>t k. fmlookup (fmget_or st t fmempty) k = cell_at d t k"
    using restore_cells_snapshot [OF ok(4), of ?e1] by (auto simp: e_def deployment_new_def)
  show ?thesis
  proof (rule that [of "?e1\<lparr>d_store := st, d_store_bytes := d_store_bytes d\<rparr>"])
    show "restore sha (snapshot d) jour gov = restore_journals (d_next_sequence d) jour gov
        (?e1\<lparr>d_store := st, d_store_bytes := d_store_bytes d\<rparr>)" for jour gov
      using base tenants st(1) by (simp add: restore_def snapshot_def)
  qed (use st(2) in \<open>simp_all add: same_rules_def cell_at_def e_def deployment_new_def\<close>)
qed

lemma journal_ok_first: "journal_ok jour \<Longrightarrow> (case jour of [] \<Rightarrow> 0 | r # _ \<Rightarrow> ar_sequence r) = 0"
  by (auto simp: journal_ok_def split: list.splits)

lemma restore_from_snapshot:
  assumes "restorable sha d" and jour: "journal_ok jour" and gov: "governance_ok gov"
    and costs: "res_fold (charge_row (d_next_sequence d)) jour (d_tenants d) = Inr T"
    and reach: "d_next_sequence d \<le> of_nat (length jour)"
  shows "\<exists>d'. restore sha (snapshot d) jour gov = Inr d' \<and> same_rules d d' \<and> d_tenants d' = T
    \<and> d_audit d' = jour \<and> d_governance d' = gov \<and> d_next_sequence d' = of_nat (length jour)
    \<and> d_serving d' = (0 < (of_nat (length jour) :: u64) \<or> gov \<noteq> [])"
proof -
  obtain e where e: "same_rules d e" "d_tenants e = d_tenants d" "d_audit e = []" "d_governance e = []"
    "d_audit_capacity e = DEFAULT_AUDIT_CAPACITY"
    "\<And>jour gov. restore sha (snapshot d) jour gov = restore_journals (d_next_sequence d) jour gov e"
    using restore_state [OF assms(1)] by metis
  obtain m rp where replay: "res_fold (replay_record (d_next_sequence d)) jour (0, e) =
      Inr (0 + of_nat (length jour),
        e\<lparr>d_tenants := T, d_metrics := m, d_audit := d_audit e @ jour, d_replay := rp\<rparr>)"
    using replay_journal [of 0 jour "d_next_sequence d" e T] jour costs e(2,3,5)
    by (auto simp: journal_ok_def)
  obtain q where check: "res_fold check_governance (List.enumerate 0 gov) None = Inr q"
    using gov check_governance_ok [of 0 gov None] by (auto simp: governance_ok_def)
  let ?e = "e\<lparr>d_tenants := T, d_metrics := m, d_audit := d_audit e @ jour, d_replay := rp\<rparr>"
  have "fold append_governance gov ?e = ?e\<lparr>d_governance := gov\<rparr>"
    using gov fold_append_governance [of ?e gov] e(4,5) by (simp add: governance_ok_def)
  then show ?thesis
    using replay check journal_ok_first [OF jour] reach e(1,3)
    by (simp add: e(6) restore_journals_def not_less same_rules_def cell_at_def)
qed

subsection \<open>Decisions made after a snapshot\<close>

fun admit_all :: "(str \<Rightarrow> str) \<Rightarrow> (u64 \<times> call) list \<Rightarrow> deployment \<Rightarrow> deployment" where
  "admit_all sha [] d = d"
| "admit_all sha ((now, c) # cs) d = admit_all sha cs (snd (admit sha now c d))"

lemma charge_zero: "fst (charge b 0) = Allow \<Longrightarrow> snd (charge b 0) = b"
  by (auto simp: charge_def sat_add_def split: if_splits)

text \<open>The journal row of a decision, replayed, charges what the decision charged.\<close>

lemma charge_row_admit:
  assumes "watermark \<le> n"
  shows "charge_row watermark
      (audit_row c (fst (admit sha now c d)) (charged c (fst (admit sha now c d))) n) (d_tenants d)
    = Inr (d_tenants (snd (admit sha now c d)))"
proof (cases rule: admit_shape [of sha now c d])
  case (refused r)
  then show ?thesis by (simp add: charge_row_def charged_def)
next
  case (replayed tenant state)
  then show ?thesis by (simp add: charge_row_def charged_def)
next
  case (forwarded tenant state)
  have t: "tenant = TenantId (gr_tenant (c_request c))" "tenant_wf tenant"
      "fmlookup (d_tenants d) tenant = Some state"
    using forwarded(1) by (auto simp: admissible_def credential_bound_def tenant_new_iff)
  then have "clamp (gr_tenant (c_request c)) = gr_tenant (c_request c)"
    using tenant_wf_path_safe(2) [OF t(2)] by (simp add: MAX_IDENTIFIER_BYTES_def)
  then have row: "TenantId (ar_tenant (audit_row c Forwarded (c_cost_tokens c) n)) = tenant"
    using t(1) by simp
  show ?thesis
  proof (cases "c_cost_tokens c = 0")
    case True
    then have "d_tenants (snd (admit sha now c d)) = d_tenants d"
      using forwarded(3,5) t(3) by (simp add: charge_zero fmupd_lookup_same)
    then show ?thesis using True forwarded(4) by (simp add: charge_row_def charged_def)
  next
    case False
    then have "0 < c_cost_tokens c" by (simp add: word_gt_0)
    then show ?thesis
      using forwarded row t(3) assms unfolding charge_row_def charged_def
      by simp
  qed
qed

lemma admit_all_journal:
  assumes "length (d_audit d) + length cs \<le> d_audit_capacity d"
    and "unat (d_next_sequence d) + length cs < 2 ^ 64" and "watermark \<le> d_next_sequence d"
  shows "\<exists>rows. d_audit (admit_all sha cs d) = d_audit d @ rows \<and> length rows = length cs
    \<and> dense_from (d_next_sequence d) rows
    \<and> res_fold (charge_row watermark) rows (d_tenants d) = Inr (d_tenants (admit_all sha cs d))
    \<and> (\<forall>r\<in>set rows. \<exists>c\<in>set (map snd cs). ar_tenant r = clamp (gr_tenant (c_request c)))
    \<and> d_next_sequence (admit_all sha cs d) = d_next_sequence d + of_nat (length cs)
    \<and> d_governance (admit_all sha cs d) = d_governance d"
  using assms
proof (induction cs arbitrary: d)
  case (Cons x cs)
  obtain now c where x: "x = (now, c)" by (cases x)
  let ?d = "snd (admit sha now c d)"
  let ?row = "audit_row c (fst (admit sha now c d)) (charged c (fst (admit sha now c d))) (d_next_sequence d)"
  have cap: "0 < d_audit_capacity d" using Cons.prems(1) by simp
  have audit: "d_audit ?d = d_audit d @ [?row]" "d_next_sequence ?d = d_next_sequence d + 1"
    using admit_journal [OF cap, of sha now c] Cons.prems(1) by simp_all
  have seq: "unat (d_next_sequence ?d) = Suc (unat (d_next_sequence d))"
    using Cons.prems(2) by (simp add: audit unat_word_ariths)
  then obtain rows where rows: "d_audit (admit_all sha cs ?d) = d_audit ?d @ rows" "length rows = length cs"
    "dense_from (d_next_sequence ?d) rows"
    "res_fold (charge_row watermark) rows (d_tenants ?d) = Inr (d_tenants (admit_all sha cs ?d))"
    "\<forall>r\<in>set rows. \<exists>c\<in>set (map snd cs). ar_tenant r = clamp (gr_tenant (c_request c))"
    "d_next_sequence (admit_all sha cs ?d) = d_next_sequence ?d + of_nat (length cs)"
    "d_governance (admit_all sha cs ?d) = d_governance d"
    using Cons.IH [of ?d] Cons.prems by (auto simp: audit word_le_nat_alt)
  show ?case
    using rows audit charge_row_admit [OF Cons.prems(3), of c sha now d]
    by (intro exI [of _ "?row # rows"]) (auto simp: x)
qed simp

lemma dense_from_below:
  assumes "dense_from n rows" and "unat n + length rows < 2 ^ 64" and "r \<in> set rows"
  shows "ar_sequence r < n + of_nat (length rows)"
  using assms
proof (induction rows arbitrary: n)
  case (Cons x rows)
  have n: "unat (n + 1) = Suc (unat n)" using Cons.prems(2) by (simp add: unat_word_ariths)
  have "unat (n + of_nat (length (x # rows))) = unat n + length (x # rows)"
    using Cons.prems(2) by (simp add: unat_word_ariths unat_of_nat_u64 del: of_nat_Suc)
  moreover have "r \<in> set rows \<Longrightarrow> ar_sequence r < n + 1 + of_nat (length rows)"
    using Cons n by simp
  ultimately show ?case using Cons.prems(1,3) by (auto simp: word_less_nat_alt add.assoc)
qed simp

lemma charge_row_below: "ar_sequence r < watermark \<Longrightarrow> charge_row watermark r T = Inr T"
  by (auto simp: charge_row_def)

lemma charge_rows_below:
  assumes "\<forall>r\<in>set rows. ar_sequence r < watermark"
  shows "res_fold (charge_row watermark) rows T = Inr T"
  using assms by (induction rows) (simp_all add: charge_row_below)

definition journal_complete :: "deployment \<Rightarrow> bool" where
  "journal_complete d \<longleftrightarrow>
     journal_ok (d_audit d) \<and> d_next_sequence d = of_nat (length (d_audit d)) \<and>
     governance_ok (d_governance d)"

lemma complete_rows_below:
  assumes "journal_complete d"
  shows "\<forall>r\<in>set (d_audit d). ar_sequence r < d_next_sequence d"
  using assms dense_from_below [of 0 "d_audit d"]
  by (auto simp: journal_complete_def journal_ok_def DEFAULT_AUDIT_CAPACITY_def)

subsection \<open>Properties\<close>

text \<open>
  C32: Restore inverts snapshot: a restorable deployment whose journal is complete from sequence
  zero and names only canonical tenants is rebuilt from its snapshot, its journal and its
  governance records with the same tenants (ledgers included), owners, roles, tool registries,
  approvals, cells, byte count, journals and counters.
\<close>

theorem snapshot_restore_roundtrip:
  assumes "restorable sha d" and "journal_complete d"
  shows "\<exists>d'. restore sha (snapshot d) (d_audit d) (d_governance d) = Inr d' \<and> same_rules d d'
    \<and> d_tenants d' = d_tenants d \<and> d_audit d' = d_audit d \<and> d_governance d' = d_governance d
    \<and> d_next_sequence d' = d_next_sequence d"
proof -
  have "res_fold (charge_row (d_next_sequence d)) (d_audit d) (d_tenants d) = Inr (d_tenants d)"
    by (rule charge_rows_below [OF complete_rows_below [OF assms(2)]])
  then show ?thesis
    using restore_from_snapshot [OF assms(1), of "d_audit d" "d_governance d" "d_tenants d"] assms(2)
    by (auto simp: journal_complete_def)
qed

text \<open>
  C3: A crash after the last snapshot loses no decision. Take a restorable deployment with complete journals
  that is snapshotted and then only decides calls, each for a tenant with a canonical name, with no more
  rows in all than its journal and that of a restored deployment hold. Restoring the older snapshot with
  the journal of the crashed deployment yields exactly the crashed deployment's tenants, every ledger
  included, its journal and its next sequence number: no charge is lost and none is applied twice.
  A refused call with a malformed tenant name is excluded; it would block the restore.
\<close>

theorem crash_recovery_exact:
  assumes "restorable sha d" and "journal_complete d"
    and "length (d_audit d) + length cs \<le> min (d_audit_capacity d) DEFAULT_AUDIT_CAPACITY"
    and "\<forall>c\<in>set (map snd cs). is_canonical_identifier (clamp (gr_tenant (c_request c)))"
  shows "\<exists>d'. restore sha (snapshot d) (d_audit (admit_all sha cs d)) (d_governance (admit_all sha cs d))
      = Inr d' \<and> same_rules d d' \<and> d_tenants d' = d_tenants (admit_all sha cs d)
    \<and> d_audit d' = d_audit (admit_all sha cs d)
    \<and> d_next_sequence d' = d_next_sequence (admit_all sha cs d)"
proof -
  let ?e = "admit_all sha cs d"
  have nx: "d_next_sequence d = of_nat (length (d_audit d))" "journal_ok (d_audit d)"
      "governance_ok (d_governance d)"
    using assms(2) by (simp_all add: journal_complete_def)
  have len: "unat (d_next_sequence d) = length (d_audit d)"
    using nx(2) by (simp add: nx(1) journal_ok_def DEFAULT_AUDIT_CAPACITY_def unat_of_nat_u64)
  have fits: "unat (d_next_sequence d) + length cs < 2 ^ 64" "length (d_audit d) + length cs \<le> d_audit_capacity d"
    using assms(3) by (simp_all add: len DEFAULT_AUDIT_CAPACITY_def)
  obtain rows where rows: "d_audit ?e = d_audit d @ rows" "length rows = length cs"
    "dense_from (d_next_sequence d) rows"
    "res_fold (charge_row (d_next_sequence d)) rows (d_tenants d) = Inr (d_tenants ?e)"
    "\<forall>r\<in>set rows. \<exists>c\<in>set (map snd cs). ar_tenant r = clamp (gr_tenant (c_request c))"
    "d_next_sequence ?e = d_next_sequence d + of_nat (length cs)" "d_governance ?e = d_governance d"
    using admit_all_journal [OF fits(2,1), of "d_next_sequence d" sha] by auto
  have "\<forall>r\<in>set rows. is_canonical_identifier (ar_tenant r)" using rows(5) assms(4) by force
  then have "journal_ok (d_audit ?e)"
    using nx(1,2) rows(1-3) assms(3)
    by (auto simp: journal_ok_def seq_from_append)
  moreover have "res_fold (charge_row (d_next_sequence d)) (d_audit ?e) (d_tenants d) = Inr (d_tenants ?e)"
    using charge_rows_below [OF complete_rows_below [OF assms(2)]] rows(1,4)
    by (simp add: res_fold_append)
  moreover have "d_next_sequence d \<le> of_nat (length (d_audit ?e))"
    using fits(1) by (simp add: word_le_nat_alt len rows(1,2) unat_of_nat_u64 del: of_nat_add)
  ultimately show ?thesis
    using restore_from_snapshot [OF assms(1), of "d_audit ?e" "d_governance ?e" "d_tenants ?e"] nx rows
    by auto
qed

text \<open>
  A decision journal that holds one row whose tenant is not a canonical identifier is refused
  by restore. Admission journals refused calls under the tenant string they carried, so a single
  malformed call, refused as it should be, makes the deployment's own journal unrestorable.
\<close>

theorem malformed_call_blocks_restore:
  assumes "restorable sha d" and "journal_complete d"
    and "length (d_audit d) < min (d_audit_capacity d) DEFAULT_AUDIT_CAPACITY"
    and "\<not> is_canonical_identifier (clamp (gr_tenant (c_request c)))"
  shows "(\<exists>r. fst (admit sha now c d) = Refused r) \<and>
    restore sha (snapshot d) (d_audit (snd (admit sha now c d))) gov =
      Inl (MalformedIdentifier ''tenant'' (clamp (gr_tenant (c_request c))))"
proof
  have "\<not> is_canonical_identifier (gr_tenant (c_request c))"
    using assms(4) tenant_wf_path_safe(2) [of "TenantId (gr_tenant (c_request c))"]
    by (auto simp: is_canonical_identifier_wf MAX_IDENTIFIER_BYTES_def)
  then have "\<not> admissible sha now c d tenant state" for tenant state
    by (auto simp: admissible_def credential_bound_def is_canonical_identifier_wf tenant_new_iff)
  then show refused: "\<exists>r. fst (admit sha now c d) = Refused r"
    by (cases rule: admit_shape [of sha now c d]) auto
  let ?row = "audit_row c (fst (admit sha now c d)) (charged c (fst (admit sha now c d))) (d_next_sequence d)"
  obtain e where e: "d_tenants e = d_tenants d" "d_audit e = []"
    "d_audit_capacity e = DEFAULT_AUDIT_CAPACITY"
    "\<And>jour gov. restore sha (snapshot d) jour gov = restore_journals (d_next_sequence d) jour gov e"
    using restore_state [OF assms(1)] by metis
  have jour: "journal_ok (d_audit d)" "d_next_sequence d = of_nat (length (d_audit d))"
    using assms(2) by (simp_all add: journal_complete_def)
  have audit: "d_audit (snd (admit sha now c d)) = d_audit d @ [?row]"
    using admit_journal(1) [of d sha now c] assms(3) by simp
  have first: "(case d_audit d @ [?row] of [] \<Rightarrow> 0 | r # _ \<Rightarrow> ar_sequence r) = 0"
    using journal_ok_first [OF jour(1)] jour(2) by (auto split: list.splits)
  obtain e' where replay: "res_fold (replay_record (d_next_sequence d)) (d_audit d) (0, e) =
      Inr (d_next_sequence d, e')"
    using replay_journal [of 0 "d_audit d" "d_next_sequence d" e "d_tenants d"] jour e(1-3)
      charge_rows_below [OF complete_rows_below [OF assms(2)]]
    by (auto simp: journal_ok_def)
  have "tenant_new (clamp (gr_tenant (c_request c))) = None"
    using assms(4) by (cases "tenant_new (clamp (gr_tenant (c_request c)))")
      (auto simp: is_canonical_identifier_wf tenant_new_iff)
  then have "replay_record (d_next_sequence d) ?row (d_next_sequence d, e') =
      Inl (MalformedIdentifier ''tenant'' (clamp (gr_tenant (c_request c))))"
    by (simp add: replay_record_def)
  then show "restore sha (snapshot d) (d_audit (snd (admit sha now c d))) gov =
      Inl (MalformedIdentifier ''tenant'' (clamp (gr_tenant (c_request c))))"
    using replay first by (simp add: audit e(4) restore_journals_def res_fold_append)
qed

end
