(* ===== verification/Reachability.thy ===== *)
theory Reachability
  imports Restore
begin

section \<open>Reachable deployments\<close>

text \<open>
  The invariant of a deployment, and that fourteen kinds of operations keep it: the admission path,
  the governed cell path, the rule changes and the approval ledger, as one step relation. A reachable
  deployment is what a provisioning script and any interleaving of these can produce. Not among the
  steps are \<open>restore\<close>, \<open>switch_tenant_model\<close>, edits through the raw references the runtime
  hands out, and \<open>with_audit_capacity\<close> on a deployment that already has journals.
\<close>

definition journals_wf :: "deployment \<Rightarrow> bool" where
  "journals_wf d \<longleftrightarrow>
     length (d_audit d) \<le> d_audit_capacity d \<and> length (d_governance d) \<le> d_audit_capacity d \<and>
     seq_from ar_sequence (d_next_sequence d - of_nat (length (d_audit d))) (d_audit d) \<and>
     seq_from go_ordinal (d_next_governance_ordinal d - of_nat (length (d_governance d))) (d_governance d)"

definition deployment_inv :: "(str \<Rightarrow> str) \<Rightarrow> deployment \<Rightarrow> bool" where
  "deployment_inv sha d \<longleftrightarrow>
     registry_valid sha (ledger_registry (d_approvals d)) \<and> owners_ok d \<and> tenants_ok sha d \<and>
     store_ok d \<and> book_wf (d_roles d) \<and> registry_wf (d_metrics d) \<and>
     replay_wf (d_replay_memory d) (d_replay d) \<and> journals_wf d"

lemma deployment_inv_restorable: "deployment_inv sha d \<Longrightarrow> restorable sha d"
  by (simp add: deployment_inv_def restorable_def)

subsection \<open>Updates of one field\<close>

lemma deployment_inv_new [simp]: "deployment_inv sha deployment_new"
  by (simp add: deployment_inv_def deployment_new_def owners_ok_def tenants_ok_def store_ok_def
      store_size_def journals_wf_def)

text \<open>Fields the invariant does not read.\<close>

lemma inv_plain_fields:
  assumes "deployment_inv sha d"
  shows "deployment_inv sha (d\<lparr>d_serving := b\<rparr>)" "deployment_inv sha (d\<lparr>d_governed_tools := g\<rparr>)"
    "deployment_inv sha (d\<lparr>d_justification_required := j\<rparr>)"
    "deployment_inv sha (d\<lparr>d_approval_required := a\<rparr>)"
    "deployment_inv sha (d\<lparr>d_required_strength := s\<rparr>)"
    "deployment_inv sha (d\<lparr>d_audit_dropped := n\<rparr>)" "deployment_inv sha (d\<lparr>d_governance_dropped := n\<rparr>)"
  using assms
  by (simp_all add: deployment_inv_def owners_ok_def tenants_ok_def store_ok_def journals_wf_def)

lemma inv_registry: "deployment_inv sha d \<Longrightarrow> registry_wf (d_metrics d)"
  by (simp add: deployment_inv_def)

lemma inv_metrics: "deployment_inv sha d \<Longrightarrow> registry_wf m \<Longrightarrow> deployment_inv sha (d\<lparr>d_metrics := m\<rparr>)"
  by (simp add: deployment_inv_def owners_ok_def tenants_ok_def store_ok_def journals_wf_def)

lemma inv_metric: "deployment_inv sha d \<Longrightarrow> deployment_inv sha (metric name d)"
  by (intro inv_metrics) (simp_all add: deployment_inv_def registry_wf_inc)

lemma inv_roles: "deployment_inv sha d \<Longrightarrow> book_wf b \<Longrightarrow> deployment_inv sha (d\<lparr>d_roles := b\<rparr>)"
  by (simp add: deployment_inv_def owners_ok_def tenants_ok_def store_ok_def journals_wf_def)

lemma inv_tenant:
  assumes "deployment_inv sha d" and "fmcontains (d_tenants d) i" and "tenant_ok sha (d_approvals d) i s"
  shows "deployment_inv sha (d\<lparr>d_tenants := fmupd i s (d_tenants d)\<rparr>)"
proof -
  have "fmdom (fmupd i s (d_tenants d)) = fmdom (d_tenants d)" using assms(2) by auto
  then show ?thesis
    using assms by (auto simp: deployment_inv_def owners_ok_def tenants_ok_def store_ok_def journals_wf_def
        split: if_splits)
qed

lemma inv_new_tenant:
  assumes "deployment_inv sha d" and "is_canonical_identifier org" and "tenant_ok sha (d_approvals d) i s"
  shows "deployment_inv sha (d\<lparr>d_tenant_owner := fmupd i (OrgId org) (d_tenant_owner d),
    d_tenants := fmupd i s (d_tenants d)\<rparr>)"
proof -
  let ?d = "d\<lparr>d_tenant_owner := fmupd i (OrgId org) (d_tenant_owner d), d_tenants := fmupd i s (d_tenants d)\<rparr>"
  have "store_ok ?d"
    using assms(1) by (intro store_ok_cong [of ?d d]) (auto simp: deployment_inv_def)
  then show ?thesis
    using assms by (auto simp: deployment_inv_def owners_ok_def tenants_ok_def journals_wf_def
        split: if_splits)
qed

lemma inv_store:
  assumes "deployment_inv sha d" and "store_ok (d\<lparr>d_store := st, d_store_bytes := b\<rparr>)"
  shows "deployment_inv sha (d\<lparr>d_store := st, d_store_bytes := b\<rparr>)"
  using assms by (simp add: deployment_inv_def owners_ok_def tenants_ok_def journals_wf_def)

lemma inv_remember_key: "deployment_inv sha d \<Longrightarrow> deployment_inv sha (remember_key k d)"
  by (simp add: remember_key_def deployment_inv_def owners_ok_def tenants_ok_def store_ok_def
      journals_wf_def replay_wf_remember)

subsection \<open>Journalling\<close>

lemma inv_governance_rows:
  assumes "deployment_inv sha d" and "seq_from go_ordinal (n - of_nat (length rows)) rows"
    and "length rows \<le> d_audit_capacity d" and "registry_wf m"
  shows "deployment_inv sha (d\<lparr>d_metrics := m, d_governance := rows, d_governance_dropped := k,
    d_next_governance_ordinal := n\<rparr>)"
  using assms
  by (simp add: deployment_inv_def owners_ok_def tenants_ok_def store_ok_def journals_wf_def)

lemma inv_audit_rows:
  assumes "deployment_inv sha d" and "seq_from ar_sequence (n - of_nat (length rows)) rows"
    and "length rows \<le> d_audit_capacity d" and "registry_wf m"
  shows "deployment_inv sha (d\<lparr>d_metrics := m, d_audit := rows, d_audit_dropped := k,
    d_next_sequence := n\<rparr>)"
  using assms
  by (simp add: deployment_inv_def owners_ok_def tenants_ok_def store_ok_def journals_wf_def)

lemma inv_record_governance:
  assumes "deployment_inv sha d"
  shows "deployment_inv sha (record_governance ch a j d)"
proof (cases "d_audit_capacity d = 0")
  case True
  with assms show ?thesis
    by (simp add: record_governance_def Let_def note_governance_drop_def deployment_inv_def owners_ok_def
        tenants_ok_def store_ok_def journals_wf_def registry_wf_inc)
next
  case False
  let ?n = "Suc (length (d_governance d)) - d_audit_capacity d"
  define r where "r = \<lparr>go_at_sequence = d_next_sequence d, go_ordinal = d_next_governance_ordinal d,
    go_actor = map_option clamp a,
    go_justification = (if is_written_justification j then map_option clamp j else None), go_change = ch\<rparr>"
  have "?n \<le> length (d_governance d)" using assms False by (simp add: deployment_inv_def journals_wf_def)
  then have "seq_from go_ordinal (d_next_governance_ordinal d + 1
      - of_nat (length (drop ?n (d_governance d) @ [r]))) (drop ?n (d_governance d) @ [r])"
    using assms by (intro seq_from_push) (simp_all add: deployment_inv_def journals_wf_def r_def)
  moreover have "length (drop ?n (d_governance d) @ [r]) \<le> d_audit_capacity d" using False by simp
  moreover have "record_governance ch a j d =
      d\<lparr>d_metrics := bump ''governance.dropped'' ?n (d_metrics d),
        d_governance := drop ?n (d_governance d) @ [r],
        d_governance_dropped := d_governance_dropped d + of_nat ?n,
        d_next_governance_ordinal := d_next_governance_ordinal d + 1\<rparr>"
    using False by (simp add: record_governance_def Let_def append_governance_eq r_def)
  moreover have "registry_wf (bump ''governance.dropped'' ?n (d_metrics d))"
    using assms by (simp add: deployment_inv_def registry_wf_bump)
  ultimately show ?thesis using inv_governance_rows [OF assms] by presburger
qed

lemma inv_record_change: "deployment_inv sha d \<Longrightarrow> deployment_inv sha (record_change ch a j d)"
  by (simp add: record_change_def inv_record_governance)

lemma inv_journal_decision:
  assumes "deployment_inv sha d"
  shows "deployment_inv sha (journal_decision c res n d)"
proof (cases "d_audit_capacity d = 0")
  case True
  with assms show ?thesis
    by (simp add: journal_decision_def note_audit_drop_def deployment_inv_def owners_ok_def
        tenants_ok_def store_ok_def journals_wf_def registry_wf_inc)
next
  case False
  let ?n = "Suc (length (d_audit d)) - d_audit_capacity d"
  let ?r = "audit_row c res n (d_next_sequence d)"
  have "?n \<le> length (d_audit d)" using assms False by (simp add: deployment_inv_def journals_wf_def)
  then have "seq_from ar_sequence (d_next_sequence d + 1
      - of_nat (length (drop ?n (d_audit d) @ [?r]))) (drop ?n (d_audit d) @ [?r])"
    using assms by (intro seq_from_push) (simp_all add: deployment_inv_def journals_wf_def)
  moreover have "length (drop ?n (d_audit d) @ [?r]) \<le> d_audit_capacity d" using False by simp
  moreover have "journal_decision c res n d =
      d\<lparr>d_metrics := bump ''audit.dropped'' ?n (d_metrics d), d_audit := drop ?n (d_audit d) @ [?r],
        d_audit_dropped := d_audit_dropped d + of_nat ?n, d_next_sequence := d_next_sequence d + 1\<rparr>"
    using False by (simp add: journal_decision_def Let_def append_audit_eq)
  moreover have "registry_wf (bump ''audit.dropped'' ?n (d_metrics d))"
    using assms by (simp add: deployment_inv_def registry_wf_bump)
  ultimately show ?thesis using inv_audit_rows [OF assms] by presburger
qed

lemma inv_rewrite_audit:
  assumes "deployment_inv sha d"
  shows "deployment_inv sha (d\<lparr>d_audit := rewrite_last_audit r (d_audit d)\<rparr>)"
proof (cases "d_audit d" rule: rev_cases)
  case Nil
  then have "d\<lparr>d_audit := rewrite_last_audit r (d_audit d)\<rparr> = d"
    by (simp add: rewrite_last_audit_def)
  with assms show ?thesis by simp
next
  case (snoc rows row)
  then show ?thesis using assms
    by (simp add: rewrite_last_audit_def deployment_inv_def owners_ok_def tenants_ok_def store_ok_def
        journals_wf_def seq_from_append)
qed

subsection \<open>Tenant rules\<close>

lemma evidence_ok_alt:
  "evidence_ok sha ledger i s v \<longleftrightarrow>
     evaluate_variant (ts_variant_policy s) v \<noteq> ActDenied \<and>
     (evaluate_variant (ts_variant_policy s) v = ActRequiresApproval \<longrightarrow>
        (\<exists>a rec. fmlookup (ts_variant_approvals s) v = Some a \<and>
           fmlookup (sn_approvals (ledger_snapshot ledger)) a = Some rec \<and>
           ap_tenant rec = as_str i \<and> ap_action rec = ''qpage.activate'' \<and>
           ap_artifact_hash rec = qpage_activation_artifact_hash sha i v \<and> ap_decision rec = Approved))"
  by (auto simp: evidence_ok_def restore_variant_def split: activation_decision.splits option.splits)

lemma tenant_ok_budget:
  "tenant_ok sha l i s \<Longrightarrow> budget_ok b \<Longrightarrow> tenant_ok sha l i (s\<lparr>ts_budget := b\<rparr>)"
  by (simp add: tenant_ok_def evidence_ok_def)

lemma tenant_ok_allow_model: "tenant_ok sha l i s \<Longrightarrow> tenant_ok sha l i (allow_model m s)"
  by (auto simp: tenant_ok_def allow_model_def Let_def evidence_ok_def active_model_ok_def
      split: option.splits)

lemma tenant_ok_new: "tenant_wf i \<Longrightarrow> tenant_ok sha l i (tenant_state_new limit)"
  by (simp add: tenant_ok_def tenant_state_new_def variant_policy_default_def active_model_ok_def)

lemma tenant_ok_permit: "tenant_ok sha l i s \<Longrightarrow> tenant_ok sha l i (snd (permit_variant_raw v s))"
  by (auto simp: tenant_ok_def permit_variant_raw_def case_prod_beta evidence_ok_alt evaluate_permit)

lemma tenant_ok_deactivate: "tenant_ok sha l i s \<Longrightarrow> tenant_ok sha l i (deactivate_raw v s)"
  by (auto simp: tenant_ok_def deactivate_raw_def evidence_ok_alt)

lemma tenant_ok_revoke:
  assumes "tenant_ok sha l i s"
  shows "tenant_ok sha l i (snd (revoke_variant_raw v s))"
proof (cases "fst (revoke_permit (ts_variant_policy s) v)")
  case True
  then show ?thesis
    using assms by (auto simp: tenant_ok_def revoke_variant_raw_def case_prod_beta Let_def
        deactivate_raw_def evidence_ok_alt evaluate_revoke_permit)
next
  case False
  then have "evaluate_variant (ts_variant_policy s) v = ActDenied" by (simp add: revoke_permit_changed)
  then have "\<not> is_active (ts_qpages s) v" using assms by (auto simp: tenant_ok_def evidence_ok_alt)
  with False assms show ?thesis
    by (auto simp: tenant_ok_def revoke_variant_raw_def case_prod_beta Let_def evidence_ok_alt
        evaluate_revoke_permit)
qed

lemma tenant_ok_opt_in: "tenant_ok sha l i s \<Longrightarrow> tenant_ok sha l i (opt_in_experimental_bridge_raw s)"
proof -
  have "evaluate_variant (ts_variant_policy s) ExperimentalBridge \<in> {ActDenied, ActRequiresApproval}"
    by (simp add: evaluate_variant_def)
  moreover assume "tenant_ok sha l i s"
  ultimately show ?thesis
    by (auto simp: tenant_ok_def opt_in_experimental_bridge_raw_def evidence_ok_alt evaluate_opt_in)
qed

text \<open>What a borrow of \<open>TenantRules\<close> can do through its methods.\<close>

inductive tenant_edit :: "(tenant_state \<Rightarrow> tenant_state) \<Rightarrow> bool" where
  edit_allow_model: "tenant_edit (allow_model m)"
| edit_permit: "tenant_edit (snd \<circ> permit_variant_raw v)"
| edit_revoke: "tenant_edit (snd \<circ> revoke_variant_raw v)"
| edit_opt_in: "tenant_edit opt_in_experimental_bridge_raw"
| edit_both: "tenant_edit f \<Longrightarrow> tenant_edit g \<Longrightarrow> tenant_edit (g \<circ> f)"

lemma tenant_ok_edit: "tenant_edit f \<Longrightarrow> tenant_ok sha l i s \<Longrightarrow> tenant_ok sha l i (f s)"
  by (induction arbitrary: s rule: tenant_edit.induct)
    (simp_all add: tenant_ok_allow_model tenant_ok_permit tenant_ok_revoke tenant_ok_opt_in)

lemma inv_rules_drop: "deployment_inv sha d \<Longrightarrow> deployment_inv sha (rules_drop g d)"
  by (auto simp: rules_drop_def Let_def inv_record_change split: option.splits)

lemma inv_guard:
  assumes "deployment_inv sha d" and "tenant_mut_as tenant by' why d = Some g"
    and "\<And>s. tenant_ok sha (d_approvals d) (g_tenant g) s \<Longrightarrow>
           fmlookup (d_tenants d) (g_tenant g) = Some s \<Longrightarrow> tenant_ok sha (d_approvals d) (g_tenant g) (f s)"
  shows "deployment_inv sha (rules_drop g (guard_update f g d))"
proof -
  obtain s where s: "fmlookup (d_tenants d) (g_tenant g) = Some s"
    using assms(2) by (auto simp: tenant_mut_as_def split: option.splits)
  moreover have "tenant_ok sha (d_approvals d) (g_tenant g) s"
    using assms(1) s by (simp add: deployment_inv_def tenants_ok_def)
  ultimately show ?thesis
    using assms(1,3) by (intro inv_rules_drop)
      (simp add: guard_update_def inv_tenant fmdomI)
qed

lemma inv_with_tenant_rules:
  assumes "deployment_inv sha d" and "tenant_edit f"
  shows "deployment_inv sha (snd (with_tenant_rules tenant by' why f d))"
  using assms inv_guard [OF assms(1), of tenant by' why _ f] tenant_ok_edit [OF assms(2)]
  by (auto simp: with_tenant_rules_def split: option.splits)

lemma inv_deactivate_variant:
  assumes "deployment_inv sha d"
  shows "deployment_inv sha (snd (deactivate_variant_governed t v d))"
  using assms inv_guard [OF assms, of "as_str t" None None _ "deactivate_raw v"] tenant_ok_deactivate
  by (auto simp: deactivate_variant_governed_def split: option.splits)

lemma tenant_ok_activate:
  assumes "tenant_ok sha l i s" and "evaluate_variant (ts_variant_policy s) v = ActAllowed"
  shows "tenant_ok sha l i (set_evidence v None (activate_raw v s))"
  using assms by (auto simp: tenant_ok_def activate_raw_def evidence_ok_alt set_evidence_def)

lemma tenant_ok_activate_approved:
  assumes "tenant_ok sha l i s" and "registry_valid sha (ledger_registry l)"
    and "evaluate_variant (ts_variant_policy s) v = ActRequiresApproval"
    and "ledger_evaluate_id l a \<lparr>q_tenant = i, q_action = ''qpage.activate'',
       q_artifact_hash = qpage_activation_artifact_hash sha i v, q_now = now\<rparr> = GateApproved"
  shows "tenant_ok sha l i (set_evidence v (Some a) (activate_raw v s))"
  using assms
  by (auto simp: tenant_ok_def activate_raw_def evidence_ok_alt ledger_evaluate_id_def
      evaluate_id_Approved_iff live_for_def ledger_snapshot_def set_evidence_def)

text \<open>Activation refuses, or sets the variant with the evidence the policy asked for.\<close>

lemma activate_variant_cases:
  obtains (refused) e where "activate_variant_governed sha t v approval now d = (Inl e, d)"
  | (activated) s g ev where "fmlookup (d_tenants d) t = Some s"
      "tenant_mut_as (as_str t) None None d = Some g" "g_tenant g = t"
      "activate_variant_governed sha t v approval now d =
         (Inr (), rules_drop g (guard_update (set_evidence v ev \<circ> activate_raw v) g d))"
      "evaluate_variant (ts_variant_policy s) v = ActAllowed \<and> ev = None \<or>
       evaluate_variant (ts_variant_policy s) v = ActRequiresApproval \<and> (\<exists>a. ev = Some a \<and>
         ledger_evaluate_id (d_approvals d) a \<lparr>q_tenant = t, q_action = ''qpage.activate'',
           q_artifact_hash = qpage_activation_artifact_hash sha t v, q_now = now\<rparr> = GateApproved)"
proof (cases "fmlookup (d_tenants d) t")
  case None
  then show ?thesis by (intro refused) (simp add: activate_variant_governed_def)
next
  case s: (Some s)
  show ?thesis
  proof (cases "validated_approval sha t v approval now d s")
    case (Inl e)
    with s show ?thesis by (intro refused) (simp add: activate_variant_governed_def)
  next
    case ev: (Inr ev)
    show ?thesis
    proof (cases "tenant_mut_as (as_str t) None None d")
      case None
      with s ev show ?thesis by (intro refused) (simp add: activate_variant_governed_def)
    next
      case g: (Some g)
      then have gt: "g_tenant g = t"
        by (auto simp: tenant_mut_as_def tenant_new_iff split: option.splits)
      show ?thesis
        by (rule activated [OF s g gt, of ev])
          (use s g ev in \<open>auto simp: activate_variant_governed_def validated_approval_def
            split: activation_decision.splits option.splits if_splits\<close>)
    qed
  qed
qed

lemma inv_activate_variant:
  assumes inv: "deployment_inv sha d"
  shows "deployment_inv sha (snd (activate_variant_governed sha t v approval now d))"
proof (cases rule: activate_variant_cases [of sha t v approval now d])
  case refused
  with inv show ?thesis by simp
next
  case (activated s g ev)
  have s: "tenant_ok sha (d_approvals d) t s"
    using inv activated(1) by (simp add: deployment_inv_def tenants_ok_def)
  have valid: "registry_valid sha (ledger_registry (d_approvals d))" using inv by (simp add: deployment_inv_def)
  have "tenant_ok sha (d_approvals d) t (set_evidence v ev (activate_raw v s))"
    using activated(5) tenant_ok_activate [OF s] tenant_ok_activate_approved [OF s valid] by auto
  then show ?thesis
    using inv_guard [OF inv activated(2), of "set_evidence v ev \<circ> activate_raw v"] activated(1,3,4) by auto
qed

subsection \<open>The approval ledger\<close>

lemma record_approval_extends:
  assumes "fmlookup (sn_approvals (registry_snapshot reg)) i = Some rec"
  shows "fmlookup (sn_approvals (registry_snapshot (snd (record_approval_in sha reg rq)))) i = Some rec"
  using assms by (auto simp: record_approval_in_def Let_def fmdomI split: sum.splits)

lemma tenant_ok_extends:
  assumes "tenant_ok sha l i s"
    and "\<And>a rec. fmlookup (sn_approvals (ledger_snapshot l)) a = Some rec \<Longrightarrow>
           fmlookup (sn_approvals (ledger_snapshot l')) a = Some rec"
  shows "tenant_ok sha l' i s"
  using assms unfolding tenant_ok_def evidence_ok_alt by blast

lemma inv_record_approval:
  assumes inv: "deployment_inv sha d"
  shows "deployment_inv sha (snd (record_approval sha rq d))"
proof -
  let ?l = "ApprovalLedger (snd (record_approval_in sha (ledger_registry (d_approvals d)) rq))"
  have "tenant_ok sha ?l i s" if "fmlookup (d_tenants d) i = Some s" for i s
    using that inv
    by (intro tenant_ok_extends [of sha "d_approvals d" i s ?l])
      (auto simp: deployment_inv_def tenants_ok_def ledger_snapshot_def intro: record_approval_extends)
  then have "deployment_inv sha (d\<lparr>d_approvals := ?l\<rparr>)"
    using inv by (simp add: deployment_inv_def owners_ok_def tenants_ok_def store_ok_def journals_wf_def
        registry_valid_record)
  then show ?thesis
    by (simp add: record_approval_def ledger_record_def case_prod_beta Let_def inv_record_change
        split: sum.splits)
qed

subsection \<open>Rule changes\<close>

lemma inv_role_update:
  assumes "deployment_inv sha d" and "book_wf roles"
  shows "deployment_inv sha (snd (if \<not> ok then (False, d\<lparr>d_roles := roles\<rparr>)
    else (True, record_change ch by' why (d\<lparr>d_roles := roles\<rparr>))))"
  using assms by (simp add: inv_record_change inv_roles)

lemma inv_role_ops:
  assumes inv: "deployment_inv sha d"
  shows "deployment_inv sha (snd (add_role_as n ps by' why d))"
    and "deployment_inv sha (snd (redefine_role_as n ps by' why d))"
    and "deployment_inv sha (snd (remove_role_as n by' why d))"
    and "deployment_inv sha (snd (assign_as org actor n by' why d))"
    and "deployment_inv sha (snd (unassign_as org actor n by' why d))"
    and "deployment_inv sha (snd (remove_actor_as org actor by' why d))"
proof -
  have b: "book_wf (d_roles d)" using inv by (simp add: deployment_inv_def)
  show "deployment_inv sha (snd (add_role_as n ps by' why d))"
    "deployment_inv sha (snd (redefine_role_as n ps by' why d))"
    "deployment_inv sha (snd (remove_role_as n by' why d))"
    "deployment_inv sha (snd (assign_as org actor n by' why d))"
    "deployment_inv sha (snd (unassign_as org actor n by' why d))"
    "deployment_inv sha (snd (remove_actor_as org actor by' why d))"
    unfolding role_op_defs Let_def case_prod_beta
    by (rule inv_role_update [OF inv]; simp add: b book_wf_add_role book_wf_redefine_role
        book_wf_remove_role book_wf_assign book_wf_unassign book_wf_remove_actor)+
qed

lemma inv_add_tenant:
  assumes "deployment_inv sha d"
    and "tenant_wf (TenantId tenant) \<Longrightarrow> tenant_ok sha (d_approvals d) (TenantId tenant) s"
  shows "deployment_inv sha (snd (add_tenant_as org tenant s by' why d))"
proof (cases rule: add_tenant_as_cases [of org tenant s by' why d])
  case refused
  with assms show ?thesis by simp
next
  case added
  with assms show ?thesis by (simp add: inv_record_change inv_new_tenant)
qed

lemma inv_tool_ops:
  assumes "deployment_inv sha d"
  shows "deployment_inv sha (govern_tool tool perm d)" "deployment_inv sha (require_justification tool d)"
    "deployment_inv sha (require_approval tool d)" "deployment_inv sha (require_strength strength d)"
  using assms
  by (simp_all add: govern_tool_def require_justification_def require_approval_def require_strength_def
      Let_def inv_record_change inv_plain_fields)

subsection \<open>Admission and cells\<close>

lemma inv_outcome_metrics: "deployment_inv sha d \<Longrightarrow> deployment_inv sha (outcome_metrics r d)"
  by (cases r) (simp_all add: outcome_metrics_def Let_def inv_metrics registry_wf_inc inv_registry)

lemma inv_bill:
  assumes "deployment_inv sha d" and "fmlookup (d_tenants d) t = Some s"
  shows "deployment_inv sha (bill t s n d)"
proof -
  have "tenant_ok sha (d_approvals d) t s" using assms by (simp add: deployment_inv_def tenants_ok_def)
  moreover from this have "budget_ok (ts_budget s)" by (simp add: tenant_ok_def)
  ultimately show ?thesis
    using assms by (simp add: bill_def inv_tenant tenant_ok_budget budget_ok_charge fmdomI)
qed

lemma inv_unbill:
  assumes "deployment_inv sha d"
  shows "deployment_inv sha (unbill t n d)"
proof (cases "fmlookup (d_tenants d) t")
  case None
  then show ?thesis using assms by (simp add: unbill_def)
next
  case (Some s)
  then have "tenant_ok sha (d_approvals d) t s" using assms by (simp add: deployment_inv_def tenants_ok_def)
  moreover from this have "budget_ok (ts_budget s)" by (simp add: tenant_ok_def)
  ultimately show ?thesis
    using assms Some by (simp add: unbill_def inv_tenant tenant_ok_budget budget_ok_refund fmdomI)
qed

lemma inv_admit:
  assumes "deployment_inv sha d"
  shows "deployment_inv sha (snd (admit sha now c d))"
  using assms
  by (cases rule: admit_shape [of sha now c d])
    (simp_all add: inv_journal_decision inv_outcome_metrics inv_remember_key inv_bill inv_plain_fields
      admissible_def)

lemma write_cell_shape:
  assumes "store_ok d"
  obtains st b where "snd (write_cell t k v d) = d\<lparr>d_store := st, d_store_bytes := b\<rparr>"
proof -
  have "d = d\<lparr>d_store := d_store d, d_store_bytes := d_store_bytes d\<rparr>"
    "touch_cells t d = d\<lparr>d_store := fmupd t (fmget_or (d_store d) t fmempty) (d_store d),
       d_store_bytes := d_store_bytes d\<rparr>"
    by (simp_all add: touch_cells_def)
  then show ?thesis
    using that write_cell_unfold [OF assms, of t k v] by (metis land_cell_def snd_conv)
qed

lemma inv_write_cell: "deployment_inv sha d \<Longrightarrow> deployment_inv sha (snd (write_cell t k v d))"
  using store_ok_write [of d t k v]
  by (metis deployment_inv_def inv_store write_cell_shape)

lemma delete_cell_shape:
  assumes "store_ok d"
  obtains st b where "snd (delete_cell t k d) = d\<lparr>d_store := st, d_store_bytes := b\<rparr>"
proof -
  have "d = d\<lparr>d_store := d_store d, d_store_bytes := d_store_bytes d\<rparr>" by simp
  then show ?thesis using that assms by (metis delete_cell_cases snd_conv)
qed

lemma inv_delete_cell: "deployment_inv sha d \<Longrightarrow> deployment_inv sha (snd (delete_cell t k d))"
  using store_ok_delete [of d t k]
  by (metis deployment_inv_def inv_store delete_cell_shape)

lemma inv_cell_call:
  assumes inv: "deployment_inv sha d"
    and eff: "\<And>t e. deployment_inv sha e \<Longrightarrow> deployment_inv sha (snd (effect t e))"
  shows "deployment_inv sha (snd (cell_call sha now c effect d))"
proof (cases "tenant_new (gr_tenant (c_request c))")
  case None
  then show ?thesis using inv by (simp add: cell_call_malformed)
next
  case t: (Some t)
  let ?e = "snd (admit sha now c d)"
  have e: "deployment_inv sha ?e" by (rule inv_admit [OF inv])
  show ?thesis
  proof (cases "fst (admit sha now c d) = Forwarded")
    case False
    then show ?thesis using e t by (simp add: cell_call_unforwarded)
  next
    case True
    obtain r d' where r: "effect t ?e = (r, d')" by (cases "effect t ?e")
    then have d': "deployment_inv sha d'" using eff [OF e, of t] by simp
    show ?thesis
    proof (cases r)
      case (Inl rf)
      let ?d = "metric ''gateway.cell_rejected'' (unbill t (c_cost_tokens c) d')"
      have "d_audit ?d = d_audit d'" by (simp add: unbill_def split: option.splits)
      moreover have "deployment_inv sha ?d" using d' by (intro inv_metric inv_unbill)
      ultimately show ?thesis
        using cell_call_rejected [where effect = effect, OF True t] r Inl inv_rewrite_audit [of sha ?d rf]
        by simp
    next
      case (Inr found)
      then show ?thesis using cell_call_landed [where effect = effect, OF True t] r d' by simp
    qed
  qed
qed

lemma inv_cells:
  assumes "deployment_inv sha d"
  shows "deployment_inv sha (snd (put_cell sha now c key v d))"
    and "deployment_inv sha (snd (get_cell sha now c key d))"
    and "deployment_inv sha (snd (remove_cell sha now c key d))"
  using inv_cell_call [OF assms, where effect = "\<lambda>t. write_cell t key v" and now = now and c = c]
    inv_cell_call [OF assms, where now = now and c = c and
      effect = "\<lambda>t d. (Inr () :: refusal + unit, snd (delete_cell t key d))"]
    inv_cell_call [OF assms, where now = now and c = c and effect = "\<lambda>t d.
      if \<not> fmcontains (d_tenants d) t then (Inl UnknownTenant, d)
      else (Inr (case fmlookup (d_store d) t of None \<Rightarrow> None | Some cells \<Rightarrow> fmlookup cells key), d)"]
  by (simp_all add: put_cell_def get_cell_def remove_cell_def case_prod_beta inv_write_cell inv_delete_cell)

subsection \<open>The step relation\<close>

text \<open>
  One of the operations the invariant is shown for. Tenant states are provisioned with a limit and models;
  tenant rules are edited through the methods of the guard; \<open>run_rule\<close> covers the attributed and
  the bare form of the role operations.
\<close>

inductive role_operation :: "rule_op \<Rightarrow> bool" where
  "role_operation (OpAddRole n ps)"
| "role_operation (OpRedefineRole n ps)"
| "role_operation (OpRemoveRole n)"
| "role_operation (OpAssign org actor n)"
| "role_operation (OpUnassign org actor n)"
| "role_operation (OpRemoveActor org actor)"

inductive_cases role_operationE: "role_operation op"

inductive step :: "(str \<Rightarrow> str) \<Rightarrow> deployment \<Rightarrow> deployment \<Rightarrow> bool" for sha where
  step_admit: "step sha d (snd (admit sha now c d))"
| step_put: "step sha d (snd (put_cell sha now c key v d))"
| step_get: "step sha d (snd (get_cell sha now c key d))"
| step_remove: "step sha d (snd (remove_cell sha now c key d))"
| step_role: "role_operation op \<Longrightarrow> step sha d (snd (run_rule by' why op d))"
| step_add_tenant: "step sha d (snd (run_rule by' why
    (OpAddTenant org tenant (fold allow_model models (tenant_state_new limit))) d))"
| step_edit: "tenant_edit f \<Longrightarrow> step sha d (snd (run_rule by' why (OpTenantRules tenant f) d))"
| step_activate: "step sha d (snd (activate_variant_governed sha t va approval now d))"
| step_deactivate: "step sha d (snd (deactivate_variant_governed t va d))"
| step_govern: "step sha d (govern_tool tool perm d)"
| step_justify: "step sha d (require_justification tool d)"
| step_gate: "step sha d (require_approval tool d)"
| step_strength: "step sha d (require_strength strength d)"
| step_approve: "step sha d (snd (record_approval sha rq d))"

inductive reachable :: "(str \<Rightarrow> str) \<Rightarrow> deployment \<Rightarrow> bool" for sha where
  initial: "reachable sha (with_replay_memory mem (with_audit_capacity cap deployment_new))"
| later: "reachable sha d \<Longrightarrow> step sha d d' \<Longrightarrow> reachable sha d'"

lemma tenant_ok_provisioned:
  "tenant_wf i \<Longrightarrow> tenant_ok sha l i (fold allow_model models (tenant_state_new limit))"
proof -
  assume "tenant_wf i"
  then have "tenant_ok sha l i s \<Longrightarrow> tenant_ok sha l i (fold allow_model models s)" for s
    by (induction models arbitrary: s) (simp_all add: tenant_ok_allow_model)
  with \<open>tenant_wf i\<close> show ?thesis by (simp add: tenant_ok_new)
qed

lemma step_inv: "step sha d d' \<Longrightarrow> deployment_inv sha d \<Longrightarrow> deployment_inv sha d'"
proof (induction rule: step.induct)
  case (step_role op d by' why)
  then show ?case by (auto elim!: role_operationE simp: inv_role_ops)
qed (simp_all add: inv_admit inv_cells inv_add_tenant tenant_ok_provisioned inv_with_tenant_rules
    inv_activate_variant inv_deactivate_variant inv_tool_ops inv_record_approval)

lemma inv_initial: "deployment_inv sha (with_replay_memory mem (with_audit_capacity cap deployment_new))"
  by (simp add: deployment_inv_def deployment_new_def with_replay_memory_def with_audit_capacity_def
      owners_ok_def tenants_ok_def store_ok_def store_size_def journals_wf_def)

lemma reachable_inv: "reachable sha d \<Longrightarrow> deployment_inv sha d"
  by (induction rule: reachable.induct) (simp_all add: inv_initial step_inv)

subsection \<open>Properties\<close>

text \<open>
  C2: In every deployment reached from an empty one by admission, the three cell operations, role and tenant
  rule changes, governed activation and deactivation of variants, the four tool requirements and recording
  an approval, in any order, no tenant has spent more than its limit, every tenant is
  filed under a valid identifier and owned by a canonically named organization, the byte counter
  is exactly the bytes the cells hold and at most 64 GiB, every tenant is within its cell
  allowance, both journals are within their capacity with consecutive numbers ending just before
  the next one to be issued, the replay memory is within its bound, and the metric registry within
  its cardinality.
\<close>

theorem reachable_safe:
  assumes "reachable sha d"
  shows "(\<forall>t s. fmlookup (d_tenants d) t = Some s \<longrightarrow>
        tb_spent (ts_budget s) \<le> tb_limit (ts_budget s) \<and> tenant_wf t \<and>
        (\<exists>org. fmlookup (d_tenant_owner d) t = Some org \<and> is_canonical_identifier (org_name org)))
    \<and> unat (d_store_bytes d) = store_size (d_store d) \<and> store_size (d_store d) \<le> 2 ^ 36
    \<and> (\<forall>t. cell_count d t \<le> MAX_CELLS_PER_TENANT)
    \<and> length (d_audit d) \<le> d_audit_capacity d \<and> length (d_governance d) \<le> d_audit_capacity d
    \<and> seq_from ar_sequence (d_next_sequence d - of_nat (length (d_audit d))) (d_audit d)
    \<and> seq_from go_ordinal (d_next_governance_ordinal d - of_nat (length (d_governance d))) (d_governance d)
    \<and> fcard (rp_decided (d_replay d)) \<le> d_replay_memory d
    \<and> series (d_metrics d) \<le> MAX_SERIES"
proof -
  have inv: "deployment_inv sha d" by (rule reachable_inv [OF assms])
  have "\<exists>org. fmlookup (d_tenant_owner d) t = Some org \<and> is_canonical_identifier (org_name org)"
    if "fmlookup (d_tenants d) t = Some s" for t s
  proof -
    have "t |\<in>| fmdom (d_tenant_owner d)" using that inv by (simp add: deployment_inv_def owners_ok_def fmdomI)
    then show ?thesis using inv by (auto simp: deployment_inv_def owners_ok_def fmlookup_dom_iff)
  qed
  moreover have "cell_count d t \<le> MAX_CELLS_PER_TENANT" for t
    using inv cells_ok_get_or [of d t] by (simp add: deployment_inv_def cell_count_get_or cells_ok_def)
  ultimately show ?thesis
    using inv replay_wf_bound
    by (auto simp: deployment_inv_def tenants_ok_def tenant_ok_def budget_ok_def store_ok_def
        journals_wf_def registry_wf_def series_def)
qed

text \<open>
  Every reachable deployment whose journal still holds all its decisions, and names only
  canonical tenants, is restored by its own snapshot and journals to the same tenants, rules,
  cells and counters: no sequence of calls and rule changes leads to a state restore rejects.
\<close>

theorem reachable_restores:
  assumes "reachable sha d" and "journal_complete d"
  shows "\<exists>d'. restore sha (snapshot d) (d_audit d) (d_governance d) = Inr d' \<and> same_rules d d'
    \<and> d_tenants d' = d_tenants d \<and> d_next_sequence d' = d_next_sequence d"
proof -
  have inv: "restorable sha d"
    by (rule deployment_inv_restorable [OF reachable_inv [OF assms(1)]])
  have "res_fold (charge_row (d_next_sequence d)) (d_audit d) (d_tenants d) = Inr (d_tenants d)"
    by (rule charge_rows_below [OF complete_rows_below [OF assms(2)]])
  then show ?thesis
    using restore_from_snapshot [OF inv, of "d_audit d" "d_governance d" "d_tenants d"] assms(2)
    by (auto simp: journal_complete_def)
qed

end
