(* ===== verification/Model_Switch.thy ===== *)
theory Model_Switch
  imports Reachability
begin

section \<open>The governed model switch (crates/ccos-enterprise-runtime/src/model_switch.rs)\<close>

text \<open>
  The transaction \<open>switch_tenant_model\<close>: validation, approval of an unlisted target, checkpoint,
  the caller's transition, the invariant comparison, commit or rollback, and the governance record.
  The transition is a parameter of the model, an arbitrary function on deployments, as the trait
  allows; \<open>serde_json::to_vec\<close> is the parameters \<open>json_rec\<close> and \<open>json_state\<close>, and SHA-256 the
  parameter \<open>sha\<close>. The \<open>Err(String)\<close> messages are one constructor each.
\<close>

definition MODEL_SWITCH_SCHEMA :: str where
  "MODEL_SWITCH_SCHEMA = ''ccos.enterprise.model-switch/v2''"

definition MODEL_ALLOWLIST_ACTION :: str where
  "MODEL_ALLOWLIST_ACTION = ''model.allowlist.change''"

datatype switch_outcome = Committed | DivergedReverted | TransitionFailedReverted

fun switch_outcome_debug :: "switch_outcome \<Rightarrow> str" where
  "switch_outcome_debug Committed = ''Committed''"
| "switch_outcome_debug DivergedReverted = ''DivergedReverted''"
| "switch_outcome_debug TransitionFailedReverted = ''TransitionFailedReverted''"

record model_switch_record =
  sw_schema :: str
  sw_tenant :: str
  sw_authorizing_actor :: str
  sw_approval_id :: "str option"
  sw_old_model :: str
  sw_new_model :: str
  sw_snapshot_hash_before :: str
  sw_snapshot_hash_after :: str
  sw_equivalent :: bool
  sw_divergence_digest :: "str option"
  sw_outcome :: switch_outcome
  sw_at_unix :: u64

record invariant_state =
  is_tenant :: str
  is_spent :: u64
  is_limit :: u64
  is_models :: "str fset"
  is_variants :: "str list"
  is_cells :: "(str \<times> str \<times> str) list"

record model_switch_checkpoint =
  ck_state :: tenant_state
  ck_cells :: "cell_map option"

datatype switch_error =
    ModelNameInvalid
  | ActorInvalid
  | SwitchUnknownTenant str
  | NoActiveModel str
  | SameModel
  | SwitchApprovalMissing
  | SwitchApprovalUnrecorded
  | SwitchApprovalUnbound
  | SwitchApprovalRevoked
  | SwitchApprovalExpired
  | CaptureBeforeFailed
  | CheckpointFailed
  | BeginFailed
  | CaptureAfterFailed

definition digest_framed :: "(str \<Rightarrow> str) \<Rightarrow> str \<Rightarrow> str list \<Rightarrow> str" where
  "digest_framed sha domain parts = hex (sha (framed (domain # parts)))"

definition record_digest ::
  "(str \<Rightarrow> str) \<Rightarrow> (model_switch_record \<Rightarrow> str) \<Rightarrow> model_switch_record \<Rightarrow> str" where
  "record_digest sha json_rec r =
     digest_framed sha ''ccos-enterprise-model-switch-record-v2'' [json_rec r]"

definition capture_excluding ::
  "deployment \<Rightarrow> tenant_id \<Rightarrow> str list \<Rightarrow> invariant_state option" where
  "capture_excluding d tenant excluded =
     (case (tenant_models d tenant, tenant_variants d tenant, spent d tenant, tenant_limit d tenant) of
        (Some models, Some variants, Some sp, Some limit) \<Rightarrow>
          Some \<lparr>is_tenant = as_str tenant, is_spent = sp, is_limit = limit,
                is_models = models |-| fset_of_list excluded, is_variants = variants,
                is_cells = sort (map (\<lambda>(k, v). (as_str tenant, k, v)) (cells_of d tenant))\<rparr>
      | _ \<Rightarrow> None)"

datatype equivalence = Equal | Divergent str

definition compare_invariant_states ::
  "(str \<Rightarrow> str) \<Rightarrow> (invariant_state \<Rightarrow> str) \<Rightarrow> invariant_state \<Rightarrow> invariant_state \<Rightarrow> equivalence" where
  "compare_invariant_states sha json_state before after =
     (if before = after then Equal
      else Divergent (digest_framed sha ''ccos-enterprise-model-switch-divergence-v2''
             [json_state before, json_state after]))"

definition snapshot_digest :: "(str \<Rightarrow> str) \<Rightarrow> (invariant_state \<Rightarrow> str) \<Rightarrow> invariant_state \<Rightarrow> str" where
  "snapshot_digest sha json_state st =
     digest_framed sha ''ccos-enterprise-model-switch-snapshot-v2'' [json_state st]"

definition validate_model_name :: "str \<Rightarrow> switch_error + unit" where
  "validate_model_name model =
     (if model = [] \<or> 256 < length model \<or> list_ex is_control (utf8_chars model) \<or> trim model \<noteq> model
      then Inl ModelNameInvalid else Inr ())"

definition allowlist_artifact_hash :: "(str \<Rightarrow> str) \<Rightarrow> tenant_id \<Rightarrow> str \<Rightarrow> switch_error + str" where
  "allowlist_artifact_hash sha tenant new_model =
     res_bind (validate_model_name new_model) (\<lambda>_.
     Inr (digest_framed sha ''ccos-enterprise-model-allowlist-change-v1'' [as_str tenant, new_model]))"

definition validate_allowlist_approval ::
  "(str \<Rightarrow> str) \<Rightarrow> deployment \<Rightarrow> tenant_id \<Rightarrow> str \<Rightarrow> str option \<Rightarrow> u64 \<Rightarrow> switch_error + str" where
  "validate_allowlist_approval sha d tenant new_model approval_id at =
     (case approval_id of
        None \<Rightarrow> Inl SwitchApprovalMissing
      | Some i \<Rightarrow>
          res_bind (allowlist_artifact_hash sha tenant new_model) (\<lambda>artifact.
          let reg = ledger_registry (d_approvals d) in
          case fmlookup (sn_approvals (registry_snapshot reg)) i of
            None \<Rightarrow> Inl SwitchApprovalUnrecorded
          | Some rec \<Rightarrow>
              if \<not> starts_with (ap_id rec) ''approval-v2-'' \<or> ap_schema_version rec \<noteq> APPROVAL_SCHEMA
                 \<or> ap_tenant rec \<noteq> as_str tenant \<or> ap_action rec \<noteq> MODEL_ALLOWLIST_ACTION
                 \<or> ap_artifact_hash rec \<noteq> artifact \<or> ap_decision rec \<noteq> Approved
              then Inl SwitchApprovalUnbound
              else if is_revoked reg i then Inl SwitchApprovalRevoked
              else if expired_at (ap_expires_at rec) at then Inl SwitchApprovalExpired
              else Inr i))"

subsection \<open>Checkpoint, begin, rollback, journal (lib.rs)\<close>

definition checkpoint_model_switch :: "deployment \<Rightarrow> tenant_id \<Rightarrow> model_switch_checkpoint option" where
  "checkpoint_model_switch d tenant =
     (case fmlookup (d_tenants d) tenant of
        None \<Rightarrow> None
      | Some s \<Rightarrow> Some \<lparr>ck_state = s, ck_cells = fmlookup (d_store d) tenant\<rparr>)"

definition begin_model_switch ::
  "tenant_id \<Rightarrow> str \<Rightarrow> deployment \<Rightarrow> (switch_error + unit) \<times> deployment" where
  "begin_model_switch tenant new_model d =
     (case fmlookup (d_tenants d) tenant of
        None \<Rightarrow> (Inl (SwitchUnknownTenant (as_str tenant)), d)
      | Some s \<Rightarrow>
          (Inr (), d\<lparr>d_tenants := fmupd tenant
             (s\<lparr>ts_models := ModelAllowlist (finsert new_model (allowed_models (ts_models s))),
                ts_active_model := Some new_model\<rparr>) (d_tenants d)\<rparr>))"

definition restore_model_switch_checkpoint ::
  "tenant_id \<Rightarrow> model_switch_checkpoint \<Rightarrow> deployment \<Rightarrow> deployment" where
  "restore_model_switch_checkpoint tenant ck d =
     (let d = d\<lparr>d_tenants := fmupd tenant (ck_state ck) (d_tenants d)\<rparr>;
          d = (case ck_cells ck of
                 Some cells \<Rightarrow> d\<lparr>d_store := fmupd tenant cells (d_store d)\<rparr>
               | None \<Rightarrow> d\<lparr>d_store := fmdrop tenant (d_store d)\<rparr>)
      in d\<lparr>d_store_bytes := total_cell_bytes d\<rparr>)"

definition journal_model_switch ::
  "(str \<Rightarrow> str) \<Rightarrow> (model_switch_record \<Rightarrow> str) \<Rightarrow> model_switch_record \<Rightarrow> deployment \<Rightarrow> deployment" where
  "journal_model_switch sha json_rec r d =
     record_governance
       (ModelSwitch (sw_tenant r) (sw_old_model r) (sw_new_model r)
          (switch_outcome_debug (sw_outcome r)) (record_digest sha json_rec r))
       (Some (sw_authorizing_actor r)) None d"

subsection \<open>The transaction\<close>

type_synonym transition =
  "deployment \<Rightarrow> tenant_id \<Rightarrow> str \<Rightarrow> str \<Rightarrow> (str + unit) \<times> deployment"

definition conclude_switch ::
  "(str \<Rightarrow> str) \<Rightarrow> (invariant_state \<Rightarrow> str) \<Rightarrow> tenant_id \<Rightarrow> model_switch_checkpoint
     \<Rightarrow> invariant_state \<Rightarrow> invariant_state \<Rightarrow> str + unit \<Rightarrow> deployment
     \<Rightarrow> (bool \<times> str option \<times> switch_outcome) \<times> deployment" where
  "conclude_switch sha json_state tenant ck before after verdict d =
     (case verdict of
        Inl error \<Rightarrow>
          ((False, Some (digest_framed sha ''ccos-enterprise-model-switch-transition-error-v1'' [error]),
            TransitionFailedReverted), restore_model_switch_checkpoint tenant ck d)
      | Inr _ \<Rightarrow>
          (case compare_invariant_states sha json_state before after of
             Equal \<Rightarrow> ((True, None, Committed), d)
           | Divergent digest \<Rightarrow>
               ((False, Some digest, DivergedReverted), restore_model_switch_checkpoint tenant ck d)))"

record switch_plan =
  pl_old_model :: str
  pl_approval :: "str option"
  pl_excluded :: "str list"
  pl_before :: invariant_state
  pl_checkpoint :: model_switch_checkpoint

text \<open>Everything up to the point where the deployment is first changed.\<close>

definition plan_switch ::
  "(str \<Rightarrow> str) \<Rightarrow> tenant_id \<Rightarrow> str \<Rightarrow> str \<Rightarrow> str option \<Rightarrow> u64 \<Rightarrow> deployment
     \<Rightarrow> switch_error + switch_plan" where
  "plan_switch sha tenant new_model actor approval_id at d =
     res_bind (validate_model_name new_model) (\<lambda>_.
     if actor = [] \<or> 256 < length actor then Inl ActorInvalid
     else case fmlookup (d_tenants d) tenant of
       None \<Rightarrow> Inl (SwitchUnknownTenant (as_str tenant))
     | Some state \<Rightarrow>
     (case ts_active_model state of
       None \<Rightarrow> Inl (NoActiveModel (as_str tenant))
     | Some old_model \<Rightarrow>
     if old_model = new_model then Inl SameModel
     else
     let listed = (new_model |\<in>| allowed_models (ts_models state));
         excluded = (if listed then [] else [new_model])
     in
     res_bind (if listed then Inr None
               else res_bind (validate_allowlist_approval sha d tenant new_model approval_id at)
                      (\<lambda>i. Inr (Some i))) (\<lambda>approval.
     case capture_excluding d tenant excluded of
       None \<Rightarrow> Inl CaptureBeforeFailed
     | Some before \<Rightarrow>
     (case checkpoint_model_switch d tenant of
       None \<Rightarrow> Inl CheckpointFailed
     | Some ck \<Rightarrow>
         Inr \<lparr>pl_old_model = old_model, pl_approval = approval, pl_excluded = excluded,
              pl_before = before, pl_checkpoint = ck\<rparr>))))"

definition switch_record ::
  "(str \<Rightarrow> str) \<Rightarrow> (invariant_state \<Rightarrow> str) \<Rightarrow> tenant_id \<Rightarrow> str \<Rightarrow> str \<Rightarrow> u64 \<Rightarrow> switch_plan
     \<Rightarrow> invariant_state \<Rightarrow> bool \<times> str option \<times> switch_outcome \<Rightarrow> model_switch_record" where
  "switch_record sha json_state tenant new_model actor at plan after verdict =
     \<lparr>sw_schema = MODEL_SWITCH_SCHEMA, sw_tenant = as_str tenant,
      sw_authorizing_actor = actor, sw_approval_id = pl_approval plan,
      sw_old_model = pl_old_model plan, sw_new_model = new_model,
      sw_snapshot_hash_before = snapshot_digest sha json_state (pl_before plan),
      sw_snapshot_hash_after = snapshot_digest sha json_state after,
      sw_equivalent = fst verdict, sw_divergence_digest = fst (snd verdict),
      sw_outcome = snd (snd verdict), sw_at_unix = at\<rparr>"

definition switch_tenant_model ::
  "(str \<Rightarrow> str) \<Rightarrow> (model_switch_record \<Rightarrow> str) \<Rightarrow> (invariant_state \<Rightarrow> str) \<Rightarrow> transition
     \<Rightarrow> tenant_id \<Rightarrow> str \<Rightarrow> str \<Rightarrow> str option \<Rightarrow> u64 \<Rightarrow> deployment
     \<Rightarrow> (switch_error + model_switch_record) \<times> deployment" where
  "switch_tenant_model sha json_rec json_state transition tenant new_model actor approval_id at d =
     (case plan_switch sha tenant new_model actor approval_id at d of
        Inl e \<Rightarrow> (Inl e, d)
      | Inr plan \<Rightarrow>
      (case begin_model_switch tenant new_model d of
        (Inl _, d) \<Rightarrow> (Inl BeginFailed, d)
      | (Inr _, d) \<Rightarrow>
      let (result, d) = transition d tenant (pl_old_model plan) new_model in
      (case capture_excluding d tenant (pl_excluded plan) of
        None \<Rightarrow> (Inl CaptureAfterFailed, d)
      | Some after \<Rightarrow>
      let (verdict, d) =
            conclude_switch sha json_state tenant (pl_checkpoint plan) (pl_before plan) after result d;
          rec = switch_record sha json_state tenant new_model actor at plan after verdict
      in (Inr rec, journal_model_switch sha json_rec rec d))))"

subsection \<open>What a completed switch means\<close>

lemma plan_switch_Inr:
  assumes "plan_switch sha tenant new_model actor approval_id at d = Inr plan"
  obtains state where "fmlookup (d_tenants d) tenant = Some state"
    "ts_active_model state = Some (pl_old_model plan)" "pl_old_model plan \<noteq> new_model"
    "new_model |\<in>| allowed_models (ts_models state) \<and> pl_approval plan = None \<and> pl_excluded plan = [] \<or>
     new_model |\<notin>| allowed_models (ts_models state) \<and> pl_excluded plan = [new_model] \<and>
       (\<exists>i. pl_approval plan = Some i \<and>
         validate_allowlist_approval sha d tenant new_model approval_id at = Inr i)"
    "capture_excluding d tenant (pl_excluded plan) = Some (pl_before plan)"
    "pl_checkpoint plan = \<lparr>ck_state = state, ck_cells = fmlookup (d_store d) tenant\<rparr>"
    "validate_model_name new_model = Inr ()"
  using assms that
  by (auto simp: plan_switch_def Let_def checkpoint_model_switch_def
      split: option.splits if_splits)

lemma switch_completed:
  assumes "switch_tenant_model sha json_rec json_state transition tenant new_model actor approval_id at d
    = (Inr rec, d')"
  obtains plan result e after verdict e'
  where "plan_switch sha tenant new_model actor approval_id at d = Inr plan"
    "transition (snd (begin_model_switch tenant new_model d)) tenant (pl_old_model plan) new_model = (result, e)"
    "capture_excluding e tenant (pl_excluded plan) = Some after"
    "conclude_switch sha json_state tenant (pl_checkpoint plan) (pl_before plan) after result e = (verdict, e')"
    "rec = switch_record sha json_state tenant new_model actor at plan after verdict"
    "d' = journal_model_switch sha json_rec rec e'"
  using assms that
  by (auto simp: switch_tenant_model_def Let_def split: sum.splits prod.splits option.splits)

text \<open>The outcome of a switch that got as far as its transition.\<close>

lemma conclude_outcome:
  "snd (snd (fst (conclude_switch sha json_state tenant ck before after result d))) =
     (case result of Inl _ \<Rightarrow> TransitionFailedReverted
      | Inr _ \<Rightarrow> if before = after then Committed else DivergedReverted)"
  by (simp add: conclude_switch_def compare_invariant_states_def split: sum.splits)

lemma switch_runs:
  assumes "plan_switch sha tenant new_model actor approval_id at d = Inr plan"
    and "transition (snd (begin_model_switch tenant new_model d)) tenant (pl_old_model plan) new_model = (result, e)"
    and "capture_excluding e tenant (pl_excluded plan) = Some after"
  shows "\<exists>rec d'.
    switch_tenant_model sha json_rec json_state transition tenant new_model actor approval_id at d
       = (Inr rec, d') \<and> sw_approval_id rec = pl_approval plan \<and>
    sw_outcome rec =
       (case result of Inl _ \<Rightarrow> TransitionFailedReverted
        | Inr _ \<Rightarrow> if pl_before plan = after then Committed else DivergedReverted)"
proof -
  obtain state where "fmlookup (d_tenants d) tenant = Some state"
    using plan_switch_Inr [OF assms(1)] by metis
  then obtain d1 where d1: "begin_model_switch tenant new_model d = (Inr (), d1)"
    by (simp add: begin_model_switch_def)
  let ?c = "conclude_switch sha json_state tenant (pl_checkpoint plan) (pl_before plan) after result e"
  let ?rec = "switch_record sha json_state tenant new_model actor at plan after (fst ?c)"
  have "switch_tenant_model sha json_rec json_state transition tenant new_model actor approval_id at d
      = (Inr ?rec, journal_model_switch sha json_rec ?rec (snd ?c))"
    using assms d1 by (simp add: switch_tenant_model_def case_prod_beta Let_def)
  moreover have "sw_approval_id ?rec = pl_approval plan" "sw_outcome ?rec = snd (snd (fst ?c))"
    by (simp_all add: switch_record_def)
  ultimately show ?thesis by (simp only: conclude_outcome) blast
qed

lemma restore_checkpoint_simps [simp]:
  "fmlookup (d_tenants (restore_model_switch_checkpoint t ck d)) t = Some (ck_state ck)"
  "fmlookup (d_store (restore_model_switch_checkpoint t ck d)) t = ck_cells ck"
  "d_store_bytes (restore_model_switch_checkpoint t ck d) =
     of_nat (store_size (d_store (restore_model_switch_checkpoint t ck d)))"
  by (auto simp: restore_model_switch_checkpoint_def Let_def total_cell_bytes_eq split: option.splits)

lemma journal_model_switch_frame [simp]:
  "d_tenants (journal_model_switch sha json r d) = d_tenants d"
  "d_store (journal_model_switch sha json r d) = d_store d"
  "d_store_bytes (journal_model_switch sha json r d) = d_store_bytes d"
  by (simp_all add: journal_model_switch_def)

lemma capture_frame:
  assumes "d_tenants e = d_tenants d" and "d_store e = d_store d"
  shows "capture_excluding e t ex = capture_excluding d t ex"
proof -
  have "tenant_models e t = tenant_models d t" "tenant_variants e t = tenant_variants d t"
    "spent e t = spent d t" "tenant_limit e t = tenant_limit d t" "cells_of e t = cells_of d t"
    using assms
    by (simp_all add: tenant_models_def tenant_variants_def spent_def tenant_limit_def cells_of_def)
  then show ?thesis by (simp add: capture_excluding_def split: option.splits)
qed

lemma capture_after_begin:
  assumes "fmlookup (d_tenants d) t = Some s" and "fmlookup (d_tenants e) t = Some s'"
    and "ts_budget s' = ts_budget s" and "ts_qpages s' = ts_qpages s"
    and "ts_models s' = ModelAllowlist (finsert m (allowed_models (ts_models s)))"
    and "m |\<in>| allowed_models (ts_models s) \<or> m \<in> set excluded"
    and "d_store e = d_store d"
  shows "capture_excluding e t excluded = capture_excluding d t excluded"
proof -
  have "finsert m (allowed_models (ts_models s)) |-| fset_of_list excluded =
      allowed_models (ts_models s) |-| fset_of_list excluded"
    using assms(6) by (auto simp: fset_of_list.rep_eq)
  then show ?thesis
    using assms(1-5,7)
    by (simp add: capture_excluding_def tenant_models_def tenant_variants_def spent_def tenant_limit_def
        cells_of_def)
qed

lemma capture_excluding_Some:
  assumes "capture_excluding d t ex = Some st"
  shows "spent d t = Some (is_spent st)" "tenant_limit d t = Some (is_limit st)"
    "tenant_variants d t = Some (is_variants st)"
    "\<exists>m. tenant_models d t = Some m \<and> is_models st = m |-| fset_of_list ex"
    "set (is_cells st) = (\<lambda>(k, v). (as_str t, k, v)) ` set (cells_of d t)"
  using assms by (auto simp: capture_excluding_def split: option.splits)

lemma captured_cells:
  assumes "capture_excluding d t ex = Some st" and "capture_excluding e t ex = Some st"
  shows "set (cells_of e t) = set (cells_of d t)"
proof -
  have inj: "inj (\<lambda>(k, v). (as_str t, k, v))" by (auto intro: injI)
  have "(\<lambda>(k, v). (as_str t, k, v)) ` set (cells_of e t) = (\<lambda>(k, v). (as_str t, k, v)) ` set (cells_of d t)"
    using capture_excluding_Some(5) [OF assms(1)] capture_excluding_Some(5) [OF assms(2)] by simp
  then show ?thesis using inj_image_eq_iff [OF inj] by blast
qed

lemma captured_models:
  assumes "capture_excluding d t ex = Some st" and "capture_excluding e t ex = Some st"
    and "ex = [] \<or> ex = [m]"
  shows "map_option (\<lambda>ms. ms |-| {|m|}) (tenant_models e t) = map_option (\<lambda>ms. ms |-| {|m|}) (tenant_models d t)"
  using capture_excluding_Some(4) [OF assms(1)] capture_excluding_Some(4) [OF assms(2)] assms(3) by auto

lemma with_tenant_rules_store [simp]: "d_store (snd (with_tenant_rules t by' why f d)) = d_store d"
  by (simp add: with_tenant_rules_def guard_update_def rules_drop_def Let_def split: option.splits)

text \<open>A transition that permits one more variant through the tenant guard.\<close>

definition widen_policy :: "qpage_variant \<Rightarrow> transition" where
  "widen_policy v = (\<lambda>d t _ _.
     (Inr (), snd (with_tenant_rules (as_str t) None None (snd \<circ> permit_variant_raw v) d)))"

subsection \<open>Properties\<close>

text \<open>
  C4: Rollback is exact. Whatever the transition did to the deployment, when a completed switch
  was reverted (transition failure or divergence) the tenant's whole state, ledger included, and
  every cell it holds are exactly those from before the switch, and the byte counter is an exact
  recount of the store.
\<close>

theorem switch_rollback_exact:
  assumes "switch_tenant_model sha json_rec json_state transition tenant new_model actor approval_id at d
      = (Inr rec, d')"
    and "sw_outcome rec \<noteq> Committed"
  shows "fmlookup (d_tenants d') tenant = fmlookup (d_tenants d) tenant
    \<and> (\<forall>k. cell_at d' tenant k = cell_at d tenant k)
    \<and> d_store_bytes d' = of_nat (store_size (d_store d'))"
proof -
  obtain plan result e after verdict e' where c:
    "plan_switch sha tenant new_model actor approval_id at d = Inr plan"
    "conclude_switch sha json_state tenant (pl_checkpoint plan) (pl_before plan) after result e = (verdict, e')"
    "rec = switch_record sha json_state tenant new_model actor at plan after verdict"
    "d' = journal_model_switch sha json_rec rec e'"
    using switch_completed [OF assms(1)] by metis
  obtain state where s: "fmlookup (d_tenants d) tenant = Some state"
    "pl_checkpoint plan = \<lparr>ck_state = state, ck_cells = fmlookup (d_store d) tenant\<rparr>"
    using plan_switch_Inr [OF c(1)] by metis
  have "snd (snd verdict) \<noteq> Committed" using assms(2) by (simp add: c(3) switch_record_def)
  then have "e' = restore_model_switch_checkpoint tenant (pl_checkpoint plan) e"
    using c(2) by (auto simp: conclude_switch_def split: sum.splits equivalence.splits)
  then show ?thesis by (simp add: c(4) s cell_at_def fmget_or_def)
qed

text \<open>
  A committed switch preserves what the comparison covers: tokens spent and limit, the active
  variants, every cell, and the allowlist up to the target when the target was not listed before.
\<close>

theorem switch_commit_preserves:
  assumes "switch_tenant_model sha json_rec json_state transition tenant new_model actor approval_id at d
      = (Inr rec, d')"
    and "sw_outcome rec = Committed"
  shows "spent d' tenant = spent d tenant \<and> tenant_limit d' tenant = tenant_limit d tenant
    \<and> tenant_variants d' tenant = tenant_variants d tenant
    \<and> set (cells_of d' tenant) = set (cells_of d tenant)
    \<and> map_option (\<lambda>m. m |-| {|new_model|}) (tenant_models d' tenant) =
        map_option (\<lambda>m. m |-| {|new_model|}) (tenant_models d tenant)"
proof -
  obtain plan result e after verdict e' where c:
    "plan_switch sha tenant new_model actor approval_id at d = Inr plan"
    "capture_excluding e tenant (pl_excluded plan) = Some after"
    "conclude_switch sha json_state tenant (pl_checkpoint plan) (pl_before plan) after result e = (verdict, e')"
    "rec = switch_record sha json_state tenant new_model actor at plan after verdict"
    "d' = journal_model_switch sha json_rec rec e'"
    using switch_completed [OF assms(1)] by metis
  have "snd (snd verdict) = Committed" using assms(2) by (simp add: c(4) switch_record_def)
  then have e: "e' = e" "pl_before plan = after"
    using c(3) by (auto simp: conclude_switch_def compare_invariant_states_def
        split: sum.splits equivalence.splits if_splits)
  obtain before: "capture_excluding d tenant (pl_excluded plan) = Some after"
    and "pl_excluded plan = [] \<or> pl_excluded plan = [new_model]"
    using plan_switch_Inr [OF c(1)] e(2) by metis
  moreover have "capture_excluding d' tenant (pl_excluded plan) = Some after"
    using c(2) capture_frame [of d' e tenant] by (simp add: c(5) e(1))
  ultimately show ?thesis
    by (metis capture_excluding_Some(1-3) captured_cells captured_models)
qed

text \<open>
  C34: A model outside the tenant's allowlist is reached only through a live approval: a completed
  switch to an unlisted target names a recorded, approving, unrevoked and unexpired version-two
  approval bound to exactly this tenant, the allowlist-change action and this target.
\<close>

theorem unlisted_model_needs_live_approval:
  assumes "switch_tenant_model sha json_rec json_state transition tenant new_model actor approval_id at d
      = (Inr rec, d')"
    and "fmlookup (d_tenants d) tenant = Some state" and "new_model |\<notin>| allowed_models (ts_models state)"
    and "registry_valid sha (ledger_registry (d_approvals d))"
  shows "\<exists>i r. sw_approval_id rec = Some i \<and>
    fmlookup (sn_approvals (registry_snapshot (ledger_registry (d_approvals d)))) i = Some r \<and>
    live_for (ledger_registry (d_approvals d))
      \<lparr>q_tenant = tenant, q_action = MODEL_ALLOWLIST_ACTION,
       q_artifact_hash = digest_framed sha ''ccos-enterprise-model-allowlist-change-v1''
         [as_str tenant, new_model], q_now = at\<rparr> r"
proof -
  obtain plan result e after verdict e' where c:
    "plan_switch sha tenant new_model actor approval_id at d = Inr plan"
    "rec = switch_record sha json_state tenant new_model actor at plan after verdict"
    using switch_completed [OF assms(1)] by metis
  obtain i where i: "pl_approval plan = Some i"
    "validate_allowlist_approval sha d tenant new_model approval_id at = Inr i"
    using plan_switch_Inr [OF c(1)] assms(2,3) by (metis option.inject)
  then obtain r where r: "fmlookup (sn_approvals (registry_snapshot (ledger_registry (d_approvals d)))) i = Some r"
    by (auto simp: validate_allowlist_approval_def Let_def split: option.splits if_splits)
  then have "ap_id r = i" using assms(4) by (auto simp: registry_valid_iff)
  with i r show ?thesis
    by (auto simp: c(2) switch_record_def validate_allowlist_approval_def Let_def live_for_def
        allowlist_artifact_hash_def split: option.splits if_splits)
qed

text \<open>
  Every completed switch is journaled, before the first decision too: the newest governance
  record carries the tenant, both models, the outcome, the digest of the full record and the
  authorizing actor.
\<close>

theorem switch_always_journaled:
  assumes "switch_tenant_model sha json_rec json_state transition tenant new_model actor approval_id at d
      = (Inr rec, d')"
    and "0 < d_audit_capacity d'"
  shows "d_governance d' \<noteq> [] \<and> go_actor (last (d_governance d')) = Some (clamp actor)
    \<and> go_change (last (d_governance d')) =
        ModelSwitch (as_str tenant) (sw_old_model rec) new_model (switch_outcome_debug (sw_outcome rec))
          (record_digest sha json_rec rec)"
proof -
  obtain plan after verdict e' where c:
    "rec = switch_record sha json_state tenant new_model actor at plan after verdict"
    "d' = journal_model_switch sha json_rec rec e'"
    using switch_completed [OF assms(1)] by metis
  have "sw_tenant rec = as_str tenant" "sw_new_model rec = new_model" "sw_authorizing_actor rec = actor"
    by (simp_all add: c(1) switch_record_def)
  moreover have "0 < d_audit_capacity e'" using assms(2) by (simp add: c(2) journal_model_switch_def)
  ultimately show ?thesis
    by (simp add: c(2) journal_model_switch_def record_governance_def Let_def append_governance_eq)
qed

text \<open>
  The comparison does not cover the tenant's variant policy: a transition that permits a
  variant through the guard commits as equivalent, and the tenant comes out of the switch with a
  wider policy than it went in with.
\<close>

theorem policy_drift_commits:
  assumes "plan_switch sha tenant new_model actor approval_id at d = Inr plan"
    and "tenant_wf tenant" and "v \<noteq> ExperimentalBridge"
  shows "\<exists>rec d' s. switch_tenant_model sha json_rec json_state (widen_policy v) tenant new_model actor approval_id at d
      = (Inr rec, d') \<and> sw_outcome rec = Committed
    \<and> fmlookup (d_tenants d') tenant = Some s \<and> evaluate_variant (ts_variant_policy s) v = ActAllowed"
proof -
  obtain state where s: "fmlookup (d_tenants d) tenant = Some state"
    "new_model |\<in>| allowed_models (ts_models state) \<or> new_model \<in> set (pl_excluded plan)"
    "capture_excluding d tenant (pl_excluded plan) = Some (pl_before plan)"
    using plan_switch_Inr [OF assms(1)] by (metis list.set_intros(1))
  define s1 where "s1 = state\<lparr>ts_models := ModelAllowlist (finsert new_model (allowed_models (ts_models state))),
    ts_active_model := Some new_model\<rparr>"
  let ?d1 = "d\<lparr>d_tenants := fmupd tenant s1 (d_tenants d)\<rparr>"
  let ?f = "snd \<circ> permit_variant_raw v"
  let ?e = "snd (with_tenant_rules (as_str tenant) None None ?f ?d1)"
  have begun: "begin_model_switch tenant new_model d = (Inr (), ?d1)"
    using s(1) by (simp add: begin_model_switch_def s1_def)
  have e: "fmlookup (d_tenants ?e) tenant = Some (?f s1)"
    using assms(2)
    by (cases rule: with_tenant_rules_cases [of "as_str tenant" None None ?f ?d1])
      (auto simp: with_tenant_rules_def tenant_mut_as_def tenant_wf_def split: option.splits)
  have "capture_excluding ?e tenant (pl_excluded plan) = capture_excluding d tenant (pl_excluded plan)"
    by (rule capture_after_begin [OF s(1) e _ _ _ s(2)])
      (simp_all add: s1_def permit_variant_raw_def case_prod_beta)
  then have after: "capture_excluding ?e tenant (pl_excluded plan) = Some (pl_before plan)"
    using s(3) by simp
  have "evaluate_variant (ts_variant_policy (?f s1)) v = ActAllowed"
    using assms(3) by (simp add: permit_variant_raw_def case_prod_beta evaluate_permit)
  then show ?thesis
    using assms(1) begun e after
    by (simp add: switch_tenant_model_def widen_policy_def conclude_switch_def compare_invariant_states_def
        switch_record_def Let_def)
qed

end
