(* ===== verification/Framing.thy ===== *)
theory Framing
  imports Prelude
begin

section \<open>Journals of one JSON object per line\<close>

text \<open>
  The framing every journal file of the product shares: a record is the JSON of its codec followed by
  a newline, a file is a sequence of such lines, and what follows the last newline is a write that a
  crash interrupted. \<open>codec_keeps\<close> and \<open>codec_keeps_line\<close> state what the stores rely on of
  \<open>serde_json\<close>.
\<close>

text \<open>\<open>Path::join\<close> with a relative file name.\<close>

definition path_join :: "str \<Rightarrow> str \<Rightarrow> str" where
  "path_join root f = (if root = [] \<or> last root = CHR ''/'' then root @ f else root @ ''/'' @ f)"

abbreviation newline :: char where
  "newline \<equiv> CHR 0x0A"

text \<open>The bytes up to and including the last newline.\<close>

definition committed_len :: "str \<Rightarrow> nat" where
  "committed_len bytes = length (dropWhile (\<lambda>b. b \<noteq> newline) (rev bytes))"

subsection \<open>Codecs\<close>

definition codec_keeps :: "'a json_codec \<Rightarrow> 'a \<Rightarrow> bool" where
  "codec_keeps json x \<longleftrightarrow>
     (case to_vec json x of Inl _ \<Rightarrow> False | Inr b \<Rightarrow> from_slice json (b @ [newline]) = Inr x)"

definition codec_keeps_line :: "'a json_codec \<Rightarrow> 'a \<Rightarrow> bool" where
  "codec_keeps_line json x \<longleftrightarrow>
     (case to_vec json x of Inl _ \<Rightarrow> False
      | Inr b \<Rightarrow> b \<noteq> [] \<and> newline \<notin> set b \<and> from_slice json b = Inr x)"

definition json_line :: "'a json_codec \<Rightarrow> 'a \<Rightarrow> str" where
  "json_line json x = (case to_vec json x of Inl _ \<Rightarrow> [] | Inr b \<Rightarrow> b @ [newline])"

definition journal_bytes :: "'a json_codec \<Rightarrow> 'a list \<Rightarrow> str" where
  "journal_bytes json xs = concat (map (json_line json) xs)"

subsection \<open>Committed lines\<close>

lemma dropWhile_no_newline:
  "newline \<notin> set torn \<Longrightarrow>
     dropWhile (\<lambda>b. b \<noteq> newline) (rev torn @ xs) = dropWhile (\<lambda>b. b \<noteq> newline) xs"
  by (rule dropWhile_append2) auto

lemma journal_bytes_ends:
  assumes "\<forall>x\<in>set xs. codec_keeps_line json x"
  shows "journal_bytes json xs = [] \<or> last (journal_bytes json xs) = newline"
  using assms
  by (induction xs rule: rev_induct)
    (auto simp: journal_bytes_def json_line_def codec_keeps_line_def split: sum.splits)

lemma committed_journal:
  assumes "\<forall>x\<in>set xs. codec_keeps_line json x" and "newline \<notin> set torn"
  shows "committed_len (journal_bytes json xs @ torn) = length (journal_bytes json xs)"
proof -
  have "dropWhile (\<lambda>b. b \<noteq> newline) (rev (journal_bytes json xs)) = rev (journal_bytes json xs)"
    using journal_bytes_ends [OF assms(1)]
    by (cases "journal_bytes json xs" rule: rev_cases) auto
  then show ?thesis
    using assms(2) by (simp add: committed_len_def dropWhile_no_newline)
qed

lemma committed_len_snoc [simp]: "committed_len (xs @ [newline]) = Suc (length xs)"
  by (simp add: committed_len_def)

lemma committed_len_torn: "newline \<notin> set torn \<Longrightarrow> committed_len (xs @ torn) = committed_len xs"
  by (simp add: committed_len_def dropWhile_no_newline)

lemma committed_len_Nil [simp]: "committed_len [] = 0"
  by (simp add: committed_len_def)

lemma journal_bytes_simps [simp]:
  "journal_bytes json [] = []"
  "journal_bytes json (x # xs) = json_line json x @ journal_bytes json xs"
  "journal_bytes json (xs @ ys) = journal_bytes json xs @ journal_bytes json ys"
  by (simp_all add: journal_bytes_def)

text \<open>The text of a record, without its newline.\<close>

definition json_text :: "'a json_codec \<Rightarrow> 'a \<Rightarrow> str" where
  "json_text json x = projr (to_vec json x)"

lemma codec_keeps_lineD:
  assumes "codec_keeps_line json x"
  shows "to_vec json x = Inr (json_text json x)" "json_text json x \<noteq> []" "newline \<notin> set (json_text json x)"
    "from_slice json (json_text json x) = Inr x" "json_line json x = json_text json x @ [newline]"
  using assms by (auto simp: codec_keeps_line_def json_text_def json_line_def split: sum.splits)

lemma split_journal:
  assumes "\<forall>x\<in>set xs. codec_keeps_line json x"
  shows "split_on newline (journal_bytes json xs) = map (json_text json) xs @ [[]]"
  using assms by (induction xs) (simp_all add: codec_keeps_lineD split_on_line)

text \<open>An interrupted write of whole lines leaves whole lines and a torn one.\<close>

lemma take_journal:
  assumes "\<forall>x\<in>set xs. codec_keeps_line json x"
  shows "\<exists>k torn. take n (journal_bytes json xs) = journal_bytes json (take k xs) @ torn \<and> newline \<notin> set torn"
  using assms
proof (induction xs arbitrary: n)
  case Nil
  have "take n (journal_bytes json []) = journal_bytes json (take 0 []) @ []" by simp
  then show ?case by fastforce
next
  case (Cons x xs)
  let ?text = "json_text json x"
  have x: "json_line json x = ?text @ [newline]" "newline \<notin> set ?text"
    using Cons.prems by (simp_all add: codec_keeps_lineD)
  show ?case
  proof (cases "n \<le> length ?text")
    case True
    then have "take n (journal_bytes json (x # xs)) = journal_bytes json (take 0 (x # xs)) @ take n ?text"
      by (simp add: x)
    moreover have "newline \<notin> set (take n ?text)" using x(2) by (auto dest: in_set_takeD)
    ultimately show ?thesis by blast
  next
    case False
    then obtain m where m: "n = Suc (length ?text) + m" using less_eqE by (metis Suc_leI not_le)
    from Cons.IH [of m] Cons.prems
    obtain k torn where "take m (journal_bytes json xs) = journal_bytes json (take k xs) @ torn" "newline \<notin> set torn"
      by auto
    then have "take n (journal_bytes json (x # xs)) = journal_bytes json (take (Suc k) (x # xs)) @ torn"
      by (simp add: x m)
    with \<open>newline \<notin> set torn\<close> show ?thesis by blast
  qed
qed

text \<open>Lines as such, whatever wrote them.\<close>

definition lines_bytes :: "str list \<Rightarrow> str" where
  "lines_bytes ls = concat (map (\<lambda>l. l @ [newline]) ls)"

lemma lines_bytes_simps [simp]:
  "lines_bytes [] = []" "lines_bytes (l # ls) = l @ newline # lines_bytes ls"
  "lines_bytes (ls @ ls') = lines_bytes ls @ lines_bytes ls'"
  by (simp_all add: lines_bytes_def)

lemma journal_bytes_lines:
  "\<forall>x\<in>set xs. codec_keeps_line json x \<Longrightarrow> journal_bytes json xs = lines_bytes (map (json_text json) xs)"
  by (induction xs) (simp_all add: codec_keeps_lineD)

lemma split_lines: "\<forall>l\<in>set ls. newline \<notin> set l \<Longrightarrow> split_on newline (lines_bytes ls) = ls @ [[]]"
  by (induction ls) (simp_all add: split_on_line)

lemma committed_lines: "newline \<notin> set torn \<Longrightarrow> committed_len (lines_bytes ls @ torn) = length (lines_bytes ls)"
proof -
  have "committed_len (lines_bytes ls) = length (lines_bytes ls)"
  proof (cases ls rule: rev_cases)
    case (snoc xs l)
    have "committed_len ((lines_bytes xs @ l) @ [newline]) = Suc (length (lines_bytes xs @ l))"
      by (rule committed_len_snoc)
    then show ?thesis using snoc by simp
  qed simp
  then show "newline \<notin> set torn \<Longrightarrow> committed_len (lines_bytes ls @ torn) = length (lines_bytes ls)"
    by (simp add: committed_len_torn)
qed

end
