(* ===== verification/Approval_Store.thy ===== *)
theory Approval_Store
  imports Approval Framing
begin

section \<open>The approval store on disk (crates/ccos-enterprise-approval, ApprovalStore)\<close>

text \<open>
  The store keeps the approval ledger in \<open>approvals.json\<close> and the revocations, one JSON line
  each, in \<open>revocations.jsonl\<close>. The record \<open>approval_files\<close> is the directory the store owns.
  Every system call the code can see fail is a constructor of \<open>io_step\<close>; a \<open>faults\<close> argument
  says which of them fail in a run, with what message, and, for a write, how many bytes reach
  the file first. A crash in the middle of a write is such a fault. The \<open>serde_json\<close> codec is
  the parameter \<open>json\<close>; \<open>codec_keeps\<close> and \<open>codec_keeps_line\<close> of the theory \<open>Framing\<close> state what
  the store relies on.

  The lemmas show that an interrupted write never damages what was durable before it, and that
  a durable revocation is in force in every registry the store loads.
\<close>

subsection \<open>Files, faults and codecs\<close>

record approval_files =
  fs_snapshot :: "str option"
  fs_revocations :: "str option"
  fs_temp :: "str option"
  fs_locked :: bool

datatype io_step =
    CreateRoot | LockOpen | SnapshotRead | RevocationRead | RevocationScan
  | TruncateOpen | TruncateLen | TruncateSync | AppendOpen | AppendWrite | AppendSync
  | TempOpen | TempWrite | TempNewline | TempSync | SnapshotRename | DirectorySync

type_synonym faults = "io_step \<Rightarrow> (nat \<times> str) option"

abbreviation no_faults :: faults where
  "no_faults \<equiv> \<lambda>_. None"

definition APPROVAL_FILE :: str where
  "APPROVAL_FILE = ''approvals.json''"

definition REVOCATION_FILE :: str where
  "REVOCATION_FILE = ''revocations.jsonl''"

definition LOCK_FILE :: str where
  "LOCK_FILE = ''approvals.lock''"

definition TEMP_FILE :: str where
  "TEMP_FILE = ''approvals.json.tmp''"

record approval_store =
  st_root :: str
  st_snapshot_path :: str
  st_revocation_path :: str

text \<open>A step that may fail before anything changed, \<open>.map_err(io(path))?\<close>.\<close>

definition io_guard ::
  "faults \<Rightarrow> io_step \<Rightarrow> str \<Rightarrow> 's \<Rightarrow> (approval_error + 'a) \<times> 's \<Rightarrow> (approval_error + 'a) \<times> 's" where
  "io_guard fl stp path s k =
     (case fl stp of Some (_, e) \<Rightarrow> (Inl (ApprovalIo path e), s) | None \<Rightarrow> k)"

definition open_store ::
  "faults \<Rightarrow> str \<Rightarrow> str \<Rightarrow> approval_files
     \<Rightarrow> (approval_error + approval_store) \<times> approval_files" where
  "open_store fl would_block root fs =
     io_guard fl CreateRoot root fs
       (io_guard fl LockOpen (path_join root LOCK_FILE) fs
         (if fs_locked fs then (Inl (ApprovalIo (path_join root LOCK_FILE) would_block), fs)
          else (Inr \<lparr>st_root = root, st_snapshot_path = path_join root APPROVAL_FILE,
                     st_revocation_path = path_join root REVOCATION_FILE\<rparr>,
                fs\<lparr>fs_locked := True\<rparr>)))"

subsection \<open>Reading\<close>

definition load_snapshot ::
  "(str \<Rightarrow> str) \<Rightarrow> approval_snapshot json_codec \<Rightarrow> faults \<Rightarrow> approval_store \<Rightarrow> approval_files
     \<Rightarrow> approval_error + approval_snapshot option" where
  "load_snapshot sha json fl st fs =
     (case fl SnapshotRead of
        Some (_, e) \<Rightarrow> Inl (ApprovalIo (st_snapshot_path st) e)
      | None \<Rightarrow>
          (case fs_snapshot fs of
             None \<Rightarrow> Inr None
           | Some bytes \<Rightarrow>
               (case from_slice json bytes of
                  Inl e \<Rightarrow> Inl (Corrupt (st_snapshot_path st) e)
                | Inr snap \<Rightarrow> res_bind (from_snapshot sha snap) (\<lambda>_. Inr (Some snap)))))"

fun revocation_lines ::
  "revocation_record json_codec \<Rightarrow> str \<Rightarrow> nat \<Rightarrow> str list
     \<Rightarrow> approval_error + revocation_record list" where
  "revocation_lines json path index [] = Inr []"
| "revocation_lines json path index (line # lines) =
     (if line = [] then revocation_lines json path (index + 1) lines
      else case from_slice json line of
          Inl e \<Rightarrow>
            Inl (Corrupt path (''revocation line '' @ show_nat (index + 1) @ '': '' @ e))
        | Inr rv \<Rightarrow>
            res_bind (validate_revocation_shape rv) (\<lambda>_.
              res_bind (revocation_lines json path (index + 1) lines) (\<lambda>rvs. Inr (rv # rvs))))"

definition load_revocations ::
  "revocation_record json_codec \<Rightarrow> faults \<Rightarrow> approval_store \<Rightarrow> approval_files
     \<Rightarrow> approval_error + revocation_record list" where
  "load_revocations json fl st fs =
     (case fl RevocationRead of
        Some (_, e) \<Rightarrow> Inl (ApprovalIo (st_revocation_path st) e)
      | None \<Rightarrow>
          (case fs_revocations fs of
             None \<Rightarrow> Inr []
           | Some bytes \<Rightarrow>
               revocation_lines json (st_revocation_path st) 0
                 (split_on newline (take (committed_len bytes) bytes))))"

subsection \<open>Writing\<close>

definition save ::
  "(str \<Rightarrow> str) \<Rightarrow> approval_snapshot json_codec \<Rightarrow> faults \<Rightarrow> approval_store \<Rightarrow> approval_snapshot
     \<Rightarrow> approval_files \<Rightarrow> (approval_error + unit) \<times> approval_files" where
  "save sha json fl st snap fs =
     (case from_snapshot sha snap of
        Inl e \<Rightarrow> (Inl e, fs)
      | Inr _ \<Rightarrow>
          (case to_vec json snap of
             Inl e \<Rightarrow>
               (Inl (Corrupt (st_snapshot_path st)
                  (''cannot serialize approval ledger: '' @ e)), fs)
           | Inr bytes \<Rightarrow>
               let temporary = path_join (st_root st) TEMP_FILE;
                   opened = fs\<lparr>fs_temp := Some []\<rparr>;
                   written = fs\<lparr>fs_temp := Some bytes\<rparr>;
                   ended = fs\<lparr>fs_temp := Some (bytes @ [newline])\<rparr>;
                   renamed = fs\<lparr>fs_temp := None, fs_snapshot := Some (bytes @ [newline])\<rparr>
               in io_guard fl TempOpen temporary fs
                   (case fl TempWrite of
                      Some (n, e) \<Rightarrow>
                        (Inl (ApprovalIo temporary e), opened\<lparr>fs_temp := Some (take n bytes)\<rparr>)
                    | None \<Rightarrow>
                        io_guard fl TempNewline temporary written
                          (io_guard fl TempSync temporary ended
                            (io_guard fl SnapshotRename (st_snapshot_path st) ended
                              (io_guard fl DirectorySync (st_root st) renamed
                                (Inr (), renamed)))))))"

definition append_committed ::
  "revocation_record json_codec \<Rightarrow> faults \<Rightarrow> approval_store \<Rightarrow> revocation_record
     \<Rightarrow> approval_files \<Rightarrow> (approval_error + unit) \<times> approval_files" where
  "append_committed json fl st rv fs =
     (case load_revocations json fl st fs of
        Inl e \<Rightarrow> (Inl e, fs)
      | Inr committed \<Rightarrow>
          (case find (\<lambda>x. rv_approval_id x = rv_approval_id rv) committed of
             Some found \<Rightarrow>
               (if found = rv then Inr ()
                else Inl (Invalid ''conflicting revocation for the same approval''), fs)
           | None \<Rightarrow>
               (case to_vec json rv of
                  Inl e \<Rightarrow>
                    (Inl (Corrupt (st_revocation_path st)
                       (''cannot serialize revocation: '' @ e)), fs)
                | Inr text \<Rightarrow>
                    let line = text @ [newline];
                        old = (case fs_revocations fs of None \<Rightarrow> [] | Some b \<Rightarrow> b);
                        appended = fs\<lparr>fs_revocations := Some (old @ line)\<rparr>
                    in io_guard fl AppendOpen (st_revocation_path st) fs
                        (case fl AppendWrite of
                           Some (n, e) \<Rightarrow>
                             (Inl (ApprovalIo (st_revocation_path st) e),
                              fs\<lparr>fs_revocations := Some (old @ take n line)\<rparr>)
                         | None \<Rightarrow>
                             io_guard fl AppendSync (st_revocation_path st) appended
                               (io_guard fl DirectorySync (st_root st) appended
                                 (Inr (), appended))))))"

definition append_revocation ::
  "revocation_record json_codec \<Rightarrow> faults \<Rightarrow> approval_store \<Rightarrow> revocation_record
     \<Rightarrow> approval_files \<Rightarrow> (approval_error + unit) \<times> approval_files" where
  "append_revocation json fl st rv fs =
     (case validate_revocation_shape rv of
        Inl e \<Rightarrow> (Inl e, fs)
      | Inr _ \<Rightarrow>
          io_guard fl RevocationScan (st_revocation_path st) fs
            (let existing = (case fs_revocations fs of None \<Rightarrow> [] | Some b \<Rightarrow> b);
                 cut = fs\<lparr>fs_revocations := Some (take (committed_len existing) existing)\<rparr>
             in if committed_len existing \<noteq> length existing then
                  io_guard fl TruncateOpen (st_revocation_path st) fs
                    (io_guard fl TruncateLen (st_revocation_path st) fs
                      (io_guard fl TruncateSync (st_revocation_path st) cut
                        (append_committed json fl st rv cut)))
                else append_committed json fl st rv fs))"

subsection \<open>The registry a directory holds\<close>

definition reconcile ::
  "revocation_record \<Rightarrow> approval_registry \<Rightarrow> approval_error + approval_registry" where
  "reconcile rv reg =
     (let snap = registry_snapshot reg; i = rv_approval_id rv in
      case fmlookup (sn_approvals snap) i of
        None \<Rightarrow> Inl (Unknown i)
      | Some a \<Rightarrow>
          if ap_decision a \<noteq> Approved then
            Inl (Invalid ''revocation points to a denied approval'')
          else case fmlookup (sn_revocations snap) i of
              Some found \<Rightarrow>
                if found = rv then Inr reg
                else Inl (Invalid ''snapshot and revocation journal disagree'')
            | None \<Rightarrow>
                res_bind (validate_revocation snap i rv) (\<lambda>_.
                  Inr (ApprovalRegistry
                    (snap\<lparr>sn_revocations := fmupd i rv (sn_revocations snap)\<rparr>))))"

definition load_registry ::
  "(str \<Rightarrow> str) \<Rightarrow> approval_snapshot json_codec \<Rightarrow> revocation_record json_codec \<Rightarrow> faults
     \<Rightarrow> approval_store \<Rightarrow> approval_files \<Rightarrow> approval_error + approval_registry" where
  "load_registry sha sjson rjson fl st fs =
     res_bind (load_snapshot sha sjson fl st fs) (\<lambda>loaded.
       res_bind (case loaded of
                   Some snap \<Rightarrow> from_snapshot sha snap
                 | None \<Rightarrow> Inr approval_registry_new) (\<lambda>registry.
         res_bind (load_revocations rjson fl st fs) (\<lambda>rvs. res_fold reconcile rvs registry)))"

subsection \<open>Torn tails\<close>

definition journal_holds ::
  "revocation_record json_codec \<Rightarrow> revocation_record list \<Rightarrow> approval_files \<Rightarrow> bool" where
  "journal_holds json rvs fs \<longleftrightarrow>
     fs_revocations fs = None \<and> rvs = [] \<or>
     (\<exists>torn. newline \<notin> set torn \<and> fs_revocations fs = Some (journal_bytes json rvs @ torn))"

definition journal_records_ok ::
  "revocation_record json_codec \<Rightarrow> revocation_record list \<Rightarrow> bool" where
  "journal_records_ok json rvs \<longleftrightarrow>
     (\<forall>rv\<in>set rvs. codec_keeps_line json rv \<and> validate_revocation_shape rv = Inr ())"

lemma revocation_lines_journal:
  assumes "journal_records_ok json rvs"
  shows "revocation_lines json path index (split_on newline (journal_bytes json rvs)) = Inr rvs"
  using assms
proof (induction rvs arbitrary: index)
  case Nil
  then show ?case by (simp add: journal_bytes_def)
next
  case (Cons rv rvs)
  then obtain b where b: "to_vec json rv = Inr b" "b \<noteq> []" "newline \<notin> set b"
      "from_slice json b = Inr rv" "validate_revocation_shape rv = Inr ()"
    by (auto simp: journal_records_ok_def codec_keeps_line_def split: sum.splits)
  then have "split_on newline (journal_bytes json (rv # rvs)) =
      b # split_on newline (journal_bytes json rvs)"
    by (simp add: journal_bytes_def json_line_def split_on_line)
  then show ?case using b Cons by (simp add: journal_records_ok_def)
qed

lemma load_journal:
  assumes "journal_records_ok json rvs" and "journal_holds json rvs fs"
  shows "load_revocations json no_faults st fs = Inr rvs"
proof -
  have keeps: "\<forall>x\<in>set rvs. codec_keeps_line json x"
    using assms(1) by (simp add: journal_records_ok_def)
  show ?thesis
    using assms(2) committed_journal [OF keeps] revocation_lines_journal [OF assms(1)]
    by (auto simp: journal_holds_def load_revocations_def)
qed


subsection \<open>Interrupted appends\<close>

definition journal_after ::
  "revocation_record list \<Rightarrow> revocation_record \<Rightarrow> revocation_record list" where
  "journal_after rvs rv = (if rv \<in> set rvs then rvs else rvs @ [rv])"

definition conflicts :: "revocation_record list \<Rightarrow> revocation_record \<Rightarrow> bool" where
  "conflicts rvs rv \<longleftrightarrow> (\<exists>x\<in>set rvs. rv_approval_id x = rv_approval_id rv \<and> x \<noteq> rv)"

lemma journal_holds_snoc_torn:
  assumes "codec_keeps_line json rv" and "to_vec json rv = Inr b"
    and "fs_revocations fs = Some (journal_bytes json rvs @ take n (b @ [newline]))"
  shows "journal_holds json rvs fs \<or> journal_holds json (rvs @ [rv]) fs"
proof (cases "n \<le> length b")
  case True
  then have "newline \<notin> set (take n (b @ [newline]))"
    using assms(1,2) by (auto simp: codec_keeps_line_def dest: in_set_takeD)
  then show ?thesis using assms(3) by (auto simp: journal_holds_def)
next
  case False
  then have "journal_bytes json rvs @ take n (b @ [newline]) = journal_bytes json (rvs @ [rv]) @ []"
    by (simp add: journal_bytes_def json_line_def assms(2))
  then show ?thesis using assms(3) by (fastforce simp: journal_holds_def)
qed

lemma append_committed_journal:
  assumes ok: "journal_records_ok json rvs" and keeps: "codec_keeps_line json rv"
    and bytes: "(case fs_revocations fs of None \<Rightarrow> [] | Some b \<Rightarrow> b) = journal_bytes json rvs"
    and res: "append_committed json fl st rv fs = (res, fs')"
  shows "journal_holds json rvs fs' \<or> journal_holds json (rvs @ [rv]) fs' \<and> rv \<notin> set rvs"
    and "res = Inr () \<Longrightarrow> journal_holds json (journal_after rvs rv) fs'"
    and "fl = no_faults \<Longrightarrow> \<not> conflicts rvs rv \<Longrightarrow> res = Inr ()"
proof -
  have holds: "journal_holds json rvs fs"
    using bytes ok
    by (cases rvs) (auto simp: journal_holds_def journal_bytes_def json_line_def
        journal_records_ok_def codec_keeps_line_def split: option.splits sum.splits)
  obtain b where b: "to_vec json rv = Inr b"
    using keeps by (auto simp: codec_keeps_line_def split: sum.splits)
  have load: "load_revocations json fl st fs = Inr rvs" if "fl RevocationRead = None"
    using load_journal [OF ok holds, of st] that by (simp add: load_revocations_def)
  have full: "journal_holds json (rvs @ [rv])
      (fs\<lparr>fs_revocations := Some (journal_bytes json rvs @ b @ [newline])\<rparr>)"
    by (auto simp: journal_holds_def journal_bytes_def json_line_def b intro: exI [of _ "[]"])
  have torn: "journal_holds json rvs
        (fs\<lparr>fs_revocations := Some (journal_bytes json rvs @ take n (b @ [newline]))\<rparr>) \<or>
      journal_holds json (rvs @ [rv])
        (fs\<lparr>fs_revocations := Some (journal_bytes json rvs @ take n (b @ [newline]))\<rparr>)" for n
    by (rule journal_holds_snoc_torn [OF keeps b]) simp
  have new: "rv \<notin> set rvs" if "find (\<lambda>x. rv_approval_id x = rv_approval_id rv) rvs = None"
    using that by (auto simp: find_None_iff)
  show "journal_holds json rvs fs' \<or> journal_holds json (rvs @ [rv]) fs' \<and> rv \<notin> set rvs"
  proof (cases "fl RevocationRead")
    case None
    show ?thesis
      using res full torn holds new
      by (auto simp: append_committed_def io_guard_def bytes b load [OF None] Let_def
          split: option.splits)
  next
    case (Some f)
    then show ?thesis
      using res holds by (auto simp: append_committed_def load_revocations_def split: prod.splits)
  qed
  show "journal_holds json (journal_after rvs rv) fs'" if "res = Inr ()"
  proof (cases "fl RevocationRead")
    case None
    show ?thesis
      using res that full holds new
      by (auto simp: append_committed_def io_guard_def bytes b load [OF None] Let_def journal_after_def
          find_Some_iff split: option.splits if_splits)
  next
    case (Some f)
    then show ?thesis
      using res that by (auto simp: append_committed_def load_revocations_def split: prod.splits)
  qed
  show "res = Inr ()" if "fl = no_faults" "\<not> conflicts rvs rv"
    using res that load
    by (auto simp: append_committed_def io_guard_def bytes b Let_def conflicts_def
        find_Some_iff split: option.splits if_splits)
qed

lemma append_revocation_journal:
  assumes ok: "journal_records_ok json rvs" and keeps: "codec_keeps_line json rv"
    and holds: "journal_holds json rvs fs"
    and res: "append_revocation json fl st rv fs = (res, fs')"
  shows "journal_holds json rvs fs' \<or> journal_holds json (rvs @ [rv]) fs' \<and> rv \<notin> set rvs"
    and "res = Inr () \<Longrightarrow> journal_holds json (journal_after rvs rv) fs'"
    and "fl = no_faults \<Longrightarrow> \<not> conflicts rvs rv \<Longrightarrow> validate_revocation_shape rv = Inr () \<Longrightarrow>
           res = Inr ()"
proof -
  let ?old = "case fs_revocations fs of None \<Rightarrow> [] | Some b \<Rightarrow> b"
  let ?cut = "fs\<lparr>fs_revocations := Some (journal_bytes json rvs)\<rparr>"
  have keeps_all: "\<forall>x\<in>set rvs. codec_keeps_line json x"
    using ok by (simp add: journal_records_ok_def)
  have old: "take (committed_len ?old) ?old = journal_bytes json rvs"
      "committed_len ?old = length (journal_bytes json rvs)"
    using holds committed_journal [OF keeps_all]
    by (auto simp: journal_holds_def journal_bytes_def committed_len_def)
  have "journal_holds json rvs ?cut" by (simp add: journal_holds_def exI [of _ "[]"])
  have same: "?old = journal_bytes json rvs" if "committed_len ?old = length ?old"
    using old(1) that by simp
  have cut: "(case fs_revocations ?cut of None \<Rightarrow> [] | Some b \<Rightarrow> b) = journal_bytes json rvs"
    by simp
  consider (early) "res \<noteq> Inr ()" "fs' = fs \<or> fs' = ?cut"
      "fl \<noteq> no_faults \<or> validate_revocation_shape rv \<noteq> Inr ()"
    | (whole) "committed_len ?old = length ?old" "append_committed json fl st rv fs = (res, fs')"
    | (torn) "append_committed json fl st rv ?cut = (res, fs')"
    using res unfolding append_revocation_def io_guard_def Let_def old(1)
    by (cases "validate_revocation_shape rv")
      (auto split: option.splits if_splits, metis Inl_Inr_False)
  note appended = this append_committed_journal [OF ok keeps]
  show "journal_holds json rvs fs' \<or> journal_holds json (rvs @ [rv]) fs' \<and> rv \<notin> set rvs"
    using appended(1)
  proof cases
    case early
    then show ?thesis using holds \<open>journal_holds json rvs ?cut\<close> by auto
  qed (use same cut appended(2) in blast)+
  show "journal_holds json (journal_after rvs rv) fs'" if "res = Inr ()"
    using appended(1) that
  proof cases
    case early
    then show ?thesis using that by simp
  qed (use that same cut appended(3) in blast)+
  show "res = Inr ()" if "fl = no_faults" "\<not> conflicts rvs rv" "validate_revocation_shape rv = Inr ()"
    using appended(1) that
  proof cases
    case early
    then show ?thesis using that by simp
  qed (use that same cut appended(4) in blast)+
qed

subsection \<open>What a loaded registry enforces\<close>

lemma reconcile_step:
  assumes "reconcile rv reg = Inr reg'" and "registry_valid sha reg"
  shows "registry_valid sha reg'" and "is_revoked reg' (rv_approval_id rv)"
    and "is_revoked reg i \<Longrightarrow> is_revoked reg' i"
    and "sn_approvals (registry_snapshot reg') = sn_approvals (registry_snapshot reg)"
proof -
  have frame: "validate_revocation (snap\<lparr>sn_revocations := m\<rparr>) k rv = validate_revocation snap k rv"
    for snap m k rv by (simp add: validate_revocation_def)
  show "registry_valid sha reg'"
    using assms
    by (auto simp: reconcile_def Let_def registry_valid_iff frame split: option.splits if_splits)
  show "is_revoked reg' (rv_approval_id rv)"
    using assms(1)
    by (auto simp: reconcile_def Let_def is_revoked_def fmcontains_iff split: option.splits if_splits)
  show "is_revoked reg' i" if "is_revoked reg i"
    using assms(1) that
    by (auto simp: reconcile_def Let_def is_revoked_def fmcontains_iff split: option.splits if_splits)
  show "sn_approvals (registry_snapshot reg') = sn_approvals (registry_snapshot reg)"
    using assms(1) by (auto simp: reconcile_def Let_def split: option.splits if_splits)
qed

lemma reconcile_all:
  assumes "res_fold reconcile rvs reg = Inr reg'" and "registry_valid sha reg"
  shows "registry_valid sha reg' \<and> (\<forall>rv\<in>set rvs. is_revoked reg' (rv_approval_id rv)) \<and>
     (\<forall>i. is_revoked reg i \<longrightarrow> is_revoked reg' i) \<and>
     sn_approvals (registry_snapshot reg') = sn_approvals (registry_snapshot reg)"
  using assms
proof (induction rvs arbitrary: reg)
  case Nil
  then show ?case by simp
next
  case (Cons rv rvs)
  then obtain mid where mid: "reconcile rv reg = Inr mid" "res_fold reconcile rvs mid = Inr reg'"
    by auto
  from reconcile_step [OF mid(1) Cons.prems(2)] Cons.IH [OF mid(2)] show ?case by auto
qed

lemma revoked_not_live: "is_revoked reg (ap_id rec) \<Longrightarrow> \<not> live_for reg q rec"
  by (simp add: live_for_def)

subsection \<open>Properties\<close>

text \<open>C26: Appending a revocation is atomic under every combination of I/O failures and torn
  writes. Whatever tail a crash left behind, the journal afterwards reads back as the records
  it held before, or as those records with the new one at the end; if the call returned Ok it
  is the latter (or the record was there already); and a call that meets no failure and no
  conflicting record does return Ok.\<close>

theorem append_revocation_atomic:
  assumes "journal_records_ok json rvs" and "journal_holds json rvs fs"
    and "codec_keeps_line json rv" and "validate_revocation_shape rv = Inr ()"
  shows "load_revocations json no_faults st (snd (append_revocation json fl st rv fs))
           \<in> {Inr rvs, Inr (journal_after rvs rv)} \<and>
     (fst (append_revocation json fl st rv fs) = Inr () \<longrightarrow>
        load_revocations json no_faults st (snd (append_revocation json fl st rv fs))
          = Inr (journal_after rvs rv)) \<and>
     (\<not> conflicts rvs rv \<longrightarrow> fst (append_revocation json no_faults st rv fs) = Inr ())"
proof (intro conjI impI)
  have ok: "journal_records_ok json (rvs @ [rv])" "journal_records_ok json (journal_after rvs rv)"
    using assms by (auto simp: journal_records_ok_def journal_after_def)
  obtain res fs' where r: "append_revocation json fl st rv fs = (res, fs')" by fastforce
  note j = append_revocation_journal [OF assms(1,3,2) r]
  show "load_revocations json no_faults st (snd (append_revocation json fl st rv fs))
      \<in> {Inr rvs, Inr (journal_after rvs rv)}"
    using j(1) load_journal [OF assms(1)] load_journal [OF ok(1)]
    by (auto simp: r journal_after_def)
  show "load_revocations json no_faults st (snd (append_revocation json fl st rv fs))
      = Inr (journal_after rvs rv)" if "fst (append_revocation json fl st rv fs) = Inr ()"
    using j(2) load_journal [OF ok(2)] that by (simp add: r)
  show "fst (append_revocation json no_faults st rv fs) = Inr ()" if "\<not> conflicts rvs rv"
    using append_revocation_journal(3) [OF assms(1,3,2), of no_faults st] that assms(4)
    by (metis prod.collapse)
qed

text \<open>Saving a ledger is atomic under every combination of I/O failures: afterwards the
  store loads either exactly what it loaded before or the saved ledger, and the latter if the
  call returned Ok. Saving an invalid ledger changes nothing. The revocation journal is never
  touched.\<close>

theorem save_atomic:
  assumes "codec_keeps json snap"
  shows "load_snapshot sha json no_faults st (snd (save sha json fl st snap fs))
           \<in> {load_snapshot sha json no_faults st fs, Inr (Some snap)} \<and>
     (fst (save sha json fl st snap fs) = Inr () \<longrightarrow>
        load_snapshot sha json no_faults st (snd (save sha json fl st snap fs)) = Inr (Some snap)) \<and>
     (fst (save sha json no_faults st snap fs) = Inr () \<longleftrightarrow> is_ok (from_snapshot sha snap)) \<and>
     (\<not> is_ok (from_snapshot sha snap) \<longrightarrow> snd (save sha json fl st snap fs) = fs) \<and>
     fs_revocations (snd (save sha json fl st snap fs)) = fs_revocations fs"
proof -
  obtain b where b: "to_vec json snap = Inr b" "from_slice json (b @ [newline]) = Inr snap"
    using assms by (auto simp: codec_keeps_def split: sum.splits)
  show ?thesis
  proof (cases "from_snapshot sha snap")
    case (Inl e)
    then show ?thesis by (simp add: save_def)
  next
    case (Inr reg)
    then show ?thesis
      by (auto simp: save_def load_snapshot_def io_guard_def Let_def b split: option.splits)
  qed
qed

text \<open>A registry the store loads is valid, holds exactly the approvals of the saved ledger,
  and enforces every revocation that is in the saved ledger or in the committed part of the
  revocation journal: neither gate ever answers with an approval that one of them revokes.\<close>

theorem loaded_registry_enforces_revocations:
  assumes "load_registry sha sjson rjson fl st fs = Inr reg"
  shows "registry_valid sha reg \<and>
     (\<exists>loaded rvs. load_snapshot sha sjson fl st fs = Inr loaded \<and>
        load_revocations rjson fl st fs = Inr rvs \<and>
        sn_approvals (registry_snapshot reg) =
          (case loaded of None \<Rightarrow> fmempty | Some snap \<Rightarrow> sn_approvals snap) \<and>
        (\<forall>rv\<in>set rvs. is_revoked reg (rv_approval_id rv)) \<and>
        (\<forall>snap i. loaded = Some snap \<and> fmlookup (sn_revocations snap) i \<noteq> None \<longrightarrow>
           is_revoked reg i)) \<and>
     (\<forall>i q. is_revoked reg i \<longrightarrow> evaluate_id reg i q \<noteq> GateApproved) \<and>
     (\<forall>q. evaluate reg q = GateApproved \<longrightarrow>
        (\<exists>i rec. fmlookup (sn_approvals (registry_snapshot reg)) i = Some rec \<and>
           live_for reg q rec \<and> \<not> is_revoked reg i))"
proof -
  obtain loaded base rvs where load: "load_snapshot sha sjson fl st fs = Inr loaded"
      "(case loaded of Some snap \<Rightarrow> from_snapshot sha snap | None \<Rightarrow> Inr approval_registry_new) = Inr base"
      "load_revocations rjson fl st fs = Inr rvs" "res_fold reconcile rvs base = Inr reg"
    using assms by (auto simp: load_registry_def)
  have valid: "registry_valid sha base"
    using load(2) by (auto intro: from_snapshot_valid split: option.splits)
  have base: "registry_snapshot base =
         (case loaded of None \<Rightarrow> approval_snapshot_default | Some snap \<Rightarrow> snap)"
    using load(2)
    by (auto simp: from_snapshot_def approval_registry_new_def split: option.splits if_splits)
  note result = reconcile_all [OF load(4) valid]
  have "evaluate_id reg i q \<noteq> GateApproved" if "is_revoked reg i" for i q
    using that result evaluate_id_Approved_iff [of sha reg i q]
    by (auto simp: live_for_def registry_valid_iff)
  moreover have "\<exists>i rec. fmlookup (sn_approvals (registry_snapshot reg)) i = Some rec \<and>
      live_for reg q rec \<and> \<not> is_revoked reg i" if "evaluate reg q = GateApproved" for q
    using evaluate_Approved [OF that] result by (fastforce simp: live_for_def registry_valid_iff)
  moreover have "is_revoked reg i"
    if "loaded = Some snap" "fmlookup (sn_revocations snap) i \<noteq> None" for snap i
    using that result base by (auto simp: is_revoked_def fmcontains_iff)
  ultimately show ?thesis
    using result load(1,3) base
    by (auto simp: approval_snapshot_default_def split: option.splits intro!: exI [of _ loaded])
qed

end
