(* ===== verification/Scenarios.thy ===== *)
theory Scenarios
  imports Model_Switch Approval_Store
begin

section \<open>Concrete deployments the properties apply to\<close>

text \<open>
  Small deployments and files on which the hypotheses of the component properties hold, each
  property applied to one of them. \<open>two_tenant_deployment\<close> is the construction helper of the
  runtime crate; \<open>duo\<close> is a deployment reached from the empty one by steps of \<open>Reachability\<close>, with one
  tenant that lists two models. The digest \<open>zero_digest\<close> has the length of SHA-256.
\<close>

definition zero_digest :: "str \<Rightarrow> str" where
  "zero_digest _ = replicate 32 (CHR 0x00)"

abbreviation acme :: tenant_id where
  "acme \<equiv> TenantId ''acme''"

definition duo_state :: tenant_state where
  "duo_state = fold allow_model [''opus'', ''haiku''] (tenant_state_new 1000)"

definition duo :: deployment where
  "duo = snd (run_rule None None (OpAddTenant ''memorithm'' ''acme'' duo_state)
     (with_replay_memory 8 (with_audit_capacity 16 deployment_new)))"

lemma acme_canonical [simp]: "is_canonical_identifier ''acme''" "is_canonical_identifier ''memorithm''"
    "is_canonical_identifier ''globex''" "tenant_wf acme" "tenant_wf (TenantId ''globex'')"
    "tenant_new ''acme'' = Some acme" "tenant_new ''globex'' = Some (TenantId ''globex'')"
  by (simp_all add: is_canonical_identifier_def MAX_IDENTIFIER_BYTES_def is_identifier_byte_def
      tenant_wf_def tenant_new_def tenant_validated_def is_ascii_lowercase_def)

lemma duo_state_simps [simp]:
  "ts_active_model duo_state = Some ''opus''" "allowed_models (ts_models duo_state) = {|''haiku'', ''opus''|}"
  "ts_budget duo_state = budget_new 1000"
  by (simp_all add: duo_state_def allow_model_def tenant_state_new_def)

lemma duo_reachable: "reachable sha duo"
  unfolding duo_def duo_state_def by (rule later [OF initial step_add_tenant])

lemma duo_eq:
  "duo = deployment_new\<lparr>d_audit_capacity := 16, d_replay_memory := 8,
     d_tenants := fmupd acme duo_state fmempty,
     d_tenant_owner := fmupd acme (OrgId ''memorithm'') fmempty\<rparr>"
  by (simp add: duo_def add_tenant_as_def with_replay_memory_def with_audit_capacity_def
      deployment_new_def record_change_def Let_def MIN_REPLAY_MEMORY_PER_TENANT_def)


lemma acme_state_ok: "tenant_ok sha l acme acme_state"
  "tenant_ok sha l (TenantId ''globex'') (allow_model ''gpt-5'' (tenant_state_new 500))"
  by (auto simp: tenant_ok_def acme_state_def provisioning_defs budget_ok_def active_model_ok_def
      evidence_ok_def restore_variant_def is_active_def active_def activate_def evaluate_variant_def
      permit_def variant_policy_default_def qpages_empty_def budget_new_def)

lemma two_tenant_restorable: "restorable sha two_tenant_deployment"
  using acme_state_ok
  by (auto simp: restorable_def two_tenant_deployment_eq deployment_new_def owners_ok_def tenants_ok_def
      store_ok_def store_size_def split: if_splits)

lemma two_tenant_complete: "journal_complete two_tenant_deployment"
  by (simp add: journal_complete_def journal_ok_def governance_ok_def two_tenant_deployment_eq
      deployment_new_def)

subsection \<open>Rules\<close>

abbreviation served :: deployment where
  "served \<equiv> duo\<lparr>d_serving := True\<rparr>"

theorem rule_change_journaled_witness:
  "fst (run_rule (Some ''ops'') (Some ''new role'') (OpAddRole ''reader'' [''memory.read'']) served)
   \<and> newest_record_by (Some ''ops'') (Some ''new role'') served
      (snd (run_rule (Some ''ops'') (Some ''new role'') (OpAddRole ''reader'' [''memory.read'']) served))"
  by (rule rule_change_journaled)
    (simp_all add: duo_eq deployment_new_def book_wf_def role_book_empty_def rule_view_def add_role_as_def
      add_role_def role_of_def record_change_def)

theorem redefine_undefined_role_silent_witness:
  "\<not> has_role (d_roles served) ''ghost''
   \<and> has_role (d_roles (snd (redefine_role_as ''ghost'' [''policy.admin''] None None served))) ''ghost''
   \<and> d_governance (snd (redefine_role_as ''ghost'' [''policy.admin''] None None served)) = []"
  using redefine_undefined_role_silent [of served "''ghost''" "[''policy.admin'']" None None]
  by (simp add: duo_eq deployment_new_def has_role_def role_book_empty_def)

theorem tenant_guard_rewinds_ledger_witness:
  "\<exists>d s s'. fmlookup (d_tenants d) acme = Some s \<and> tb_spent (ts_budget s) = 900
    \<and> snd (with_tenant_rules ''acme'' None None (\<lambda>_. allow_model ''opus'' (tenant_state_new 5000)) d)
      = d\<lparr>d_tenants := fmupd acme s' (d_tenants d)\<rparr>
    \<and> tb_spent (ts_budget s') = 0 \<and> tb_limit (ts_budget s') = 5000"
proof -
  define s where "s = allow_model ''opus'' (tenant_state_new 1000)\<lparr>ts_budget :=
    \<lparr>tb_limit = 1000, tb_spent = 900, tb_epoch = 0\<rparr>\<rparr>"
  let ?d = "served\<lparr>d_tenants := fmupd acme s fmempty\<rparr>"
  have view: "tenant_view s = tenant_view (allow_model ''opus'' (tenant_state_new 5000))"
    by (simp add: s_def tenant_view_def allow_model_def tenant_state_new_def)
  show ?thesis
    using tenant_guard_rewinds_ledger [of "''acme''" acme ?d s "''opus''" 5000 None None] view
    by (intro exI [of _ ?d] exI [of _ s] exI [of _ "allow_model ''opus'' (tenant_state_new 5000)"])
      (simp add: s_def allow_model_def)
qed

subsection \<open>Restore\<close>

theorem snapshot_restore_roundtrip_witness:
  "\<exists>d'. restore zero_digest (snapshot two_tenant_deployment) [] [] = Inr d'
     \<and> d_tenants d' = d_tenants two_tenant_deployment \<and> d_roles d' = d_roles two_tenant_deployment"
  using snapshot_restore_roundtrip [OF two_tenant_restorable two_tenant_complete, of zero_digest]
  by (auto simp: two_tenant_deployment_eq deployment_new_def same_rules_def)

theorem crash_recovery_exact_witness:
  "\<exists>d'. restore zero_digest (snapshot two_tenant_deployment)
       (d_audit (admit_all zero_digest [(0, alice_call ''memory.recall'' ''r1'' 70)] two_tenant_deployment))
       (d_governance (admit_all zero_digest [(0, alice_call ''memory.recall'' ''r1'' 70)] two_tenant_deployment))
     = Inr d' \<and> d_tenants d' =
       d_tenants (admit_all zero_digest [(0, alice_call ''memory.recall'' ''r1'' 70)] two_tenant_deployment)"
  using crash_recovery_exact [OF two_tenant_restorable two_tenant_complete,
      of "[(0, alice_call ''memory.recall'' ''r1'' 70)]" zero_digest]
  by (auto simp: two_tenant_deployment_eq deployment_new_def DEFAULT_AUDIT_CAPACITY_def alice_call_def
      request_def clamp_def MAX_IDENTIFIER_BYTES_def)

theorem malformed_call_blocks_restore_witness:
  "\<exists>c r. fst (admit zero_digest 0 c two_tenant_deployment) = Refused r \<and>
     restore zero_digest (snapshot two_tenant_deployment)
       (d_audit (snd (admit zero_digest 0 c two_tenant_deployment))) [] =
     Inl (MalformedIdentifier ''tenant'' ''ACME'')"
proof -
  let ?c = "alice_call ''memory.recall'' ''r1'' 0\<lparr>c_request := request ''ACME'' ''alice'' ''memory.recall'' ''r1''\<rparr>"
  have "clamp ''ACME'' = ''ACME''" by (simp add: clamp_def MAX_IDENTIFIER_BYTES_def)
  moreover have "\<not> is_canonical_identifier ''ACME''"
    by (simp add: is_canonical_identifier_def is_identifier_byte_def is_ascii_lowercase_def is_ascii_digit_def)
  ultimately show ?thesis
    using malformed_call_blocks_restore [OF two_tenant_restorable two_tenant_complete,
        of ?c zero_digest 0 "[]"]
    by (intro exI [of _ ?c]) (auto simp: two_tenant_deployment_eq deployment_new_def
        DEFAULT_AUDIT_CAPACITY_def request_def)
qed

subsection \<open>Reachable deployments\<close>

theorem reachable_safe_witness:
  "unat (d_store_bytes (snd (admit zero_digest 0 (alice_call ''memory.recall'' ''r1'' 70) duo))) =
     store_size (d_store (snd (admit zero_digest 0 (alice_call ''memory.recall'' ''r1'' 70) duo)))"
  using reachable_safe [OF later [OF duo_reachable step_admit],
      of zero_digest 0 "alice_call ''memory.recall'' ''r1'' 70"] by blast

theorem reachable_restores_witness:
  "\<exists>d'. restore zero_digest (snapshot duo) [] [] = Inr d' \<and> d_tenants d' = d_tenants duo"
  using reachable_restores [OF duo_reachable, of zero_digest]
  by (auto simp: duo_eq deployment_new_def journal_complete_def journal_ok_def governance_ok_def)


subsection \<open>Model switches\<close>

abbreviation no_text :: "'a \<Rightarrow> str" where
  "no_text \<equiv> \<lambda>_. ''{}''"

text \<open>A provider that fails after spending the tenant's ledger, and one that succeeds.\<close>

definition failing_transition :: transition where
  "failing_transition d tenant old new =
     (Inl ''provider down'',
      d\<lparr>d_tenants := fmupd tenant (tenant_state_new 0) (d_tenants d)\<rparr>)"

definition clean_transition :: transition where
  "clean_transition d tenant old new = (Inr (), d)"

abbreviation switch_duo :: "transition \<Rightarrow> (switch_error + model_switch_record) \<times> deployment" where
  "switch_duo tr \<equiv> switch_tenant_model zero_digest no_text no_text tr acme ''haiku'' ''ops'' None 0 duo"

lemma duo_tenant [simp]: "fmlookup (d_tenants duo) acme = Some duo_state" "d_store duo = fmempty"
    "d_audit_capacity duo = 16"
  by (simp_all add: duo_eq deployment_new_def)

lemma haiku_valid: "validate_model_name ''haiku'' = Inr ()"
proof -
  have "is_ascii_str ''haiku''" by (simp add: is_ascii_str_def)
  then show ?thesis
    by (simp add: validate_model_name_def utf8_chars_ascii trim_ascii_id is_control_def is_whitespace_def)
qed

lemma duo_plan:
  obtains plan where "plan_switch zero_digest acme ''haiku'' ''ops'' None 0 duo = Inr plan"
    "pl_excluded plan = []"
  by (simp add: plan_switch_def haiku_valid capture_excluding_def tenant_models_def tenant_variants_def
      spent_def tenant_limit_def checkpoint_model_switch_def)

lemma capture_present:
  "fmlookup (d_tenants d) t = Some s \<Longrightarrow> \<exists>st. capture_excluding d t ex = Some st"
  by (simp add: capture_excluding_def tenant_models_def tenant_variants_def spent_def tenant_limit_def)

lemma switch_duo_fails:
  "\<exists>rec d'. switch_duo failing_transition = (Inr rec, d') \<and> sw_outcome rec \<noteq> Committed"
proof -
  obtain plan where plan: "plan_switch zero_digest acme ''haiku'' ''ops'' None 0 duo = Inr plan"
    by (rule duo_plan)
  let ?d = "snd (begin_model_switch acme ''haiku'' duo)"
  let ?e = "?d\<lparr>d_tenants := fmupd acme (tenant_state_new 0) (d_tenants ?d)\<rparr>"
  have tr: "failing_transition ?d acme (pl_old_model plan) ''haiku'' = (Inl ''provider down'', ?e)"
    by (simp add: failing_transition_def)
  obtain after where "capture_excluding ?e acme (pl_excluded plan) = Some after"
    using capture_present [of ?e acme] by auto
  from switch_runs [where transition = failing_transition, OF plan tr this] show ?thesis by fastforce
qed

lemma switch_duo_commits:
  "\<exists>rec d'. switch_duo clean_transition = (Inr rec, d') \<and> sw_outcome rec = Committed"
proof -
  obtain plan where plan: "plan_switch zero_digest acme ''haiku'' ''ops'' None 0 duo = Inr plan"
    "pl_excluded plan = []" by (rule duo_plan)
  let ?d = "snd (begin_model_switch acme ''haiku'' duo)"
  have tr: "clean_transition ?d acme (pl_old_model plan) ''haiku'' = (Inr (), ?d)"
    by (simp add: clean_transition_def)
  have before: "capture_excluding duo acme (pl_excluded plan) = Some (pl_before plan)"
    using plan_switch_Inr [OF plan(1)] by metis
  have after: "capture_excluding ?d acme (pl_excluded plan) = Some (pl_before plan)"
    unfolding before [symmetric]
    by (rule capture_after_begin [OF duo_tenant(1), where m = "''haiku''" and
        s' = "duo_state\<lparr>ts_models := ModelAllowlist {|''haiku'', ''opus''|}, ts_active_model := Some ''haiku''\<rparr>"])
      (simp_all add: begin_model_switch_def)
  from switch_runs [where transition = clean_transition, OF plan(1) tr after] show ?thesis by fastforce
qed

theorem switch_rollback_exact_witness:
  "fmlookup (d_tenants (snd (switch_duo failing_transition))) acme = Some duo_state"
  using switch_duo_fails switch_rollback_exact [where transition = failing_transition and d = duo]
  by (metis duo_tenant(1) snd_conv)

theorem switch_commit_preserves_witness:
  "spent (snd (switch_duo clean_transition)) acme = spent duo acme"
  using switch_duo_commits switch_commit_preserves [where transition = clean_transition and d = duo]
  by (metis snd_conv)

lemma switch_duo_capacity: "d_audit_capacity (snd (switch_duo clean_transition)) = 16"
proof -
  obtain rec d' where run: "switch_duo clean_transition = (Inr rec, d')"
    using switch_duo_commits by blast
  then show ?thesis
    by (rule switch_completed)
      (auto simp: run clean_transition_def begin_model_switch_def conclude_switch_def
        restore_model_switch_checkpoint_def journal_model_switch_def Let_def
        split: sum.splits equivalence.splits option.splits)
qed

theorem switch_always_journaled_witness:
  "d_governance (snd (switch_duo clean_transition)) \<noteq> []"
  using switch_duo_commits switch_duo_capacity
    switch_always_journaled [where transition = clean_transition and d = duo]
  by (metis snd_conv zero_less_numeral)

text \<open>An approval for one more model, recorded in the ledger.\<close>

definition sonnet_request :: approval_request where
  "sonnet_request = \<lparr>rq_tenant = acme, rq_action = MODEL_ALLOWLIST_ACTION,
     rq_artifact_hash = hex (replicate 32 (CHR 0x00)), rq_approver = ''root'', rq_decision = Approved,
     rq_recorded_at = 10, rq_expires_at = Some 20, rq_justification = ''vetted''\<rparr>"

definition vetted :: deployment where
  "vetted = snd (record_approval zero_digest sonnet_request duo)"

lemma vetted_reachable: "reachable zero_digest vetted"
  unfolding vetted_def by (rule later [OF duo_reachable step_approve])

lemma zero_hex: "is_sha256_hex (hex (replicate 32 (CHR 0x00)))"
  by (simp add: is_sha256_hex_def list_all_iff hex_bytes)

lemma sonnet_legible: "legible_bounded ''root'' MAX_APPROVER_BYTES"
    "legible_bounded ''vetted'' MAX_JUSTIFICATION_BYTES"
    "approval_canonical_action MODEL_ALLOWLIST_ACTION"
  by (simp_all add: legible_bounded_def renders_blank_def MAX_APPROVER_BYTES_def
      MAX_JUSTIFICATION_BYTES_def ZERO_WIDTH_def is_whitespace_def is_control_def approval_canonical_action_def
      MODEL_ALLOWLIST_ACTION_def MAX_ACTION_BYTES_def dotted_name_def is_name_byte_def is_ascii_lowercase_def)

lemma sonnet_valid: "validate_record zero_digest (record_of_request zero_digest sonnet_request) = Inr ()"
  by (simp add: validate_record_def record_of_request_def request_from_record_def approval_request_new_def
      sonnet_request_def sonnet_legible zero_hex expired_at_def is_identifier_byte_def is_ascii_lowercase_def
      request_id_def starts_with_def Let_def)

abbreviation sonnet_id :: str where
  "sonnet_id \<equiv> request_id zero_digest sonnet_request"

lemma vetted_approvals:
  "registry_snapshot (ledger_registry (d_approvals vetted)) = approval_snapshot_default
     \<lparr>sn_approvals := fmupd sonnet_id (record_of_request zero_digest sonnet_request) fmempty\<rparr>"
  "fmlookup (d_tenants vetted) acme = Some duo_state"
  by (simp_all add: vetted_def record_approval_def ledger_record_def record_approval_in_def sonnet_valid
      record_change_def duo_eq deployment_new_def approval_registry_new_def approval_snapshot_default_def
      Let_def)

lemma sonnet_name: "validate_model_name ''sonnet'' = Inr ()"
proof -
  have "is_ascii_str ''sonnet''" by (simp add: is_ascii_str_def)
  then show ?thesis
    by (simp add: validate_model_name_def utf8_chars_ascii trim_ascii_id is_control_def is_whitespace_def)
qed

lemma vetted_plan:
  obtains plan where "plan_switch zero_digest acme ''sonnet'' ''ops'' (Some sonnet_id) 15 vetted = Inr plan"
  by (simp add: plan_switch_def sonnet_name vetted_approvals validate_allowlist_approval_def Let_def
      allowlist_artifact_hash_def record_of_request_def request_id_def starts_with_def sonnet_request_def
      digest_framed_def zero_digest_def is_revoked_def approval_snapshot_default_def expired_at_def
      capture_excluding_def tenant_models_def tenant_variants_def spent_def tenant_limit_def
      checkpoint_model_switch_def)

theorem unlisted_model_needs_live_approval_witness:
  "\<exists>rec d' i. switch_tenant_model zero_digest no_text no_text clean_transition acme ''sonnet'' ''ops''
      (Some sonnet_id) 15 vetted = (Inr rec, d') \<and> sw_approval_id rec = Some i"
proof -
  obtain plan where plan: "plan_switch zero_digest acme ''sonnet'' ''ops'' (Some sonnet_id) 15 vetted = Inr plan"
    by (rule vetted_plan)
  let ?d = "snd (begin_model_switch acme ''sonnet'' vetted)"
  have tr: "clean_transition ?d acme (pl_old_model plan) ''sonnet'' = (Inr (), ?d)"
    by (simp add: clean_transition_def)
  obtain after where "capture_excluding ?d acme (pl_excluded plan) = Some after"
    using capture_present [of ?d acme] by (auto simp: begin_model_switch_def vetted_approvals)
  then obtain rec d' where run: "switch_tenant_model zero_digest no_text no_text clean_transition acme ''sonnet''
      ''ops'' (Some sonnet_id) 15 vetted = (Inr rec, d')"
    using switch_runs [where transition = clean_transition, OF plan tr] by blast
  have "registry_valid zero_digest (ledger_registry (d_approvals vetted))"
    using reachable_inv [OF vetted_reachable] by (simp add: deployment_inv_def)
  from unlisted_model_needs_live_approval [OF run vetted_approvals(2) _ this] run show ?thesis by auto
qed

theorem policy_drift_commits_witness:
  "\<exists>rec d' s. switch_tenant_model zero_digest no_text no_text (widen_policy Hierarchical) acme ''haiku''
      ''ops'' None 0 duo = (Inr rec, d') \<and> sw_outcome rec = Committed
    \<and> fmlookup (d_tenants d') acme = Some s \<and> evaluate_variant (ts_variant_policy s) Hierarchical = ActAllowed"
proof -
  obtain plan where "plan_switch zero_digest acme ''haiku'' ''ops'' None 0 duo = Inr plan"
    by (rule duo_plan)
  from policy_drift_commits [OF this, of Hierarchical no_text no_text] show ?thesis by simp
qed


subsection \<open>The approval store\<close>

definition revoke_one :: revocation_record where
  "revoke_one = \<lparr>rv_approval_id = ''approval-v2-01'', rv_revoked_by = ''root'', rv_revoked_at = 7,
     rv_justification = ''vetted''\<rparr>"

definition revoke_two :: revocation_record where
  "revoke_two = revoke_one\<lparr>rv_approval_id := ''approval-v2-02''\<rparr>"

text \<open>A codec for these two records.\<close>

definition two_lines :: "revocation_record json_codec" where
  "two_lines =
     \<lparr>from_slice = (\<lambda>b. if b = ''1'' then Inr revoke_one else if b = ''2'' then Inr revoke_two
                       else Inl ''expected a record''),
      to_vec = (\<lambda>r. if r = revoke_one then Inr ''1'' else Inr ''2'')\<rparr>"

definition demo_store :: approval_store where
  "demo_store = \<lparr>st_root = ''d'', st_snapshot_path = ''d/approvals.json'',
     st_revocation_path = ''d/revocations.jsonl''\<rparr>"

text \<open>A journal with one record and a torn second line; the disk fills up during the append.\<close>

definition torn_files :: approval_files where
  "torn_files = \<lparr>fs_snapshot = None, fs_revocations = Some ([CHR ''1'', newline] @ ''{tor''),
     fs_temp = None, fs_locked = True\<rparr>"

definition disk_full :: faults where
  "disk_full s = (if s = AppendWrite then Some (1, ''no space left'') else None)"

lemma revoke_shapes:
  "validate_revocation_shape revoke_one = Inr ()" "validate_revocation_shape revoke_two = Inr ()"
  using sonnet_legible
  by (simp_all add: validate_revocation_shape_def revoke_one_def revoke_two_def starts_with_def
      legible_bounded_def)

lemma two_lines_ok: "journal_records_ok two_lines [revoke_one]" "codec_keeps_line two_lines revoke_two"
  using revoke_shapes
  by (simp_all add: journal_records_ok_def codec_keeps_line_def two_lines_def)

lemma torn_files_hold: "journal_holds two_lines [revoke_one] torn_files"
  by (auto simp: journal_holds_def torn_files_def journal_bytes_def json_line_def two_lines_def
      intro: exI [of _ "''{tor''"])

theorem append_revocation_atomic_witness:
  "load_revocations two_lines no_faults demo_store
       (snd (append_revocation two_lines disk_full demo_store revoke_two torn_files))
     \<in> {Inr [revoke_one], Inr [revoke_one, revoke_two]}
   \<and> load_revocations two_lines no_faults demo_store
       (snd (append_revocation two_lines no_faults demo_store revoke_two torn_files))
     = Inr [revoke_one, revoke_two]"
  using append_revocation_atomic [OF two_lines_ok(1) torn_files_hold two_lines_ok(2) revoke_shapes(2),
      of demo_store disk_full]
    append_revocation_atomic [OF two_lines_ok(1) torn_files_hold two_lines_ok(2) revoke_shapes(2),
      of demo_store no_faults]
  by (simp add: journal_after_def conflicts_def revoke_one_def revoke_two_def)

definition empty_ledger_codec :: "approval_snapshot json_codec" where
  "empty_ledger_codec =
     \<lparr>from_slice = (\<lambda>b. if b = [CHR ''0'', newline] then Inr approval_snapshot_default
                       else Inl ''expected a ledger''),
      to_vec = (\<lambda>s. Inr ''0'')\<rparr>"

theorem save_atomic_witness:
  "load_snapshot zero_digest empty_ledger_codec no_faults demo_store
     (snd (save zero_digest empty_ledger_codec no_faults demo_store approval_snapshot_default torn_files))
   = Inr (Some approval_snapshot_default)"
proof -
  have "codec_keeps empty_ledger_codec approval_snapshot_default"
    by (simp add: codec_keeps_def empty_ledger_codec_def)
  moreover have "from_snapshot zero_digest approval_snapshot_default = Inr approval_registry_new"
    using registry_valid_roundtrip [OF registry_valid_new, of zero_digest]
    by (simp add: approval_registry_new_def)
  ultimately show ?thesis
    using save_atomic [of empty_ledger_codec approval_snapshot_default zero_digest demo_store no_faults torn_files]
    by auto
qed

text \<open>A ledger with one approval, and a journal line that revokes it.\<close>

definition sonnet_ledger :: approval_snapshot where
  "sonnet_ledger = registry_snapshot (ledger_registry (d_approvals vetted))"

definition sonnet_revocation :: revocation_record where
  "sonnet_revocation = revoke_one\<lparr>rv_approval_id := sonnet_id\<rparr>"

definition sonnet_codec :: "approval_snapshot json_codec" where
  "sonnet_codec = \<lparr>from_slice = (\<lambda>_. Inr sonnet_ledger), to_vec = (\<lambda>_. Inr ''0'')\<rparr>"

definition sonnet_line :: "revocation_record json_codec" where
  "sonnet_line = \<lparr>from_slice = (\<lambda>_. Inr sonnet_revocation), to_vec = (\<lambda>_. Inr ''1'')\<rparr>"

definition sonnet_files :: approval_files where
  "sonnet_files = \<lparr>fs_snapshot = Some ''0'', fs_revocations = Some [CHR ''1'', newline],
     fs_temp = None, fs_locked = True\<rparr>"

lemma sonnet_files_load:
  "\<exists>reg. load_registry zero_digest sonnet_codec sonnet_line no_faults demo_store sonnet_files = Inr reg
    \<and> is_revoked reg sonnet_id"
proof -
  have valid: "from_snapshot zero_digest sonnet_ledger = Inr (ApprovalRegistry sonnet_ledger)"
    using registry_valid_roundtrip reachable_inv [OF vetted_reachable]
    by (metis approval_registry.collapse deployment_inv_def sonnet_ledger_def)
  have shape: "validate_revocation_shape sonnet_revocation = Inr ()"
    using sonnet_legible
    by (simp add: validate_revocation_shape_def sonnet_revocation_def revoke_one_def starts_with_def
        legible_bounded_def request_id_def)
  have "load_revocations sonnet_line no_faults demo_store sonnet_files = Inr [sonnet_revocation]"
    by (simp add: load_revocations_def sonnet_files_def committed_len_def sonnet_line_def shape)
  moreover have "load_snapshot zero_digest sonnet_codec no_faults demo_store sonnet_files = Inr (Some sonnet_ledger)"
    by (simp add: load_snapshot_def sonnet_files_def sonnet_codec_def valid)
  moreover have "\<exists>reg. reconcile sonnet_revocation (ApprovalRegistry sonnet_ledger) = Inr reg
      \<and> is_revoked reg sonnet_id"
    using shape
    by (simp add: reconcile_def sonnet_ledger_def vetted_approvals validate_revocation_def Let_def
        approval_snapshot_default_def is_revoked_def)
      (simp add: sonnet_revocation_def record_of_request_def sonnet_request_def)
  ultimately show ?thesis by (auto simp: load_registry_def valid)
qed

theorem loaded_registry_enforces_revocations_witness:
  "\<exists>reg. load_registry zero_digest sonnet_codec sonnet_line no_faults demo_store sonnet_files = Inr reg
    \<and> (\<forall>q. evaluate_id reg sonnet_id q \<noteq> GateApproved)"
  using sonnet_files_load loaded_registry_enforces_revocations by blast

end
