(* ===== verification/Base64url.thy ===== *)
theory Base64url
  imports Prelude
begin

section \<open>Canonical base64url (crates/ccos-enterprise-governance, module b64url)\<close>

text \<open>
  The encoder and decoder every signed artifact of the product goes through. The 24-bit group
  \<open>n\<close> is a natural number: the shifts and ors of the source act on disjoint bit fields, so they
  are multiplications, sums, divisions and remainders by powers of two. The chunks of three and
  four bytes of \<open>chunks(3)\<close> and \<open>chunks(4)\<close> are the equations of the two functions.

  The lemmas show that decoding inverts encoding and that every byte string has exactly one
  accepted encoding.
\<close>

definition ALPHABET :: str where
  "ALPHABET = ''ABCDEFGHIJKLMNOPQRSTUVWXYZabcdefghijklmnopqrstuvwxyz0123456789-_''"

definition six_bits :: "nat \<Rightarrow> nat \<Rightarrow> nat" where
  "six_bits n shift = n div 2 ^ shift mod 64"

definition sextet :: "nat \<Rightarrow> nat \<Rightarrow> char" where
  "sextet n shift = ALPHABET ! six_bits n shift"

definition byte_group :: "char \<Rightarrow> char \<Rightarrow> char \<Rightarrow> nat" where
  "byte_group a b c = of_char a * 2 ^ 16 + of_char b * 2 ^ 8 + of_char c"

fun b64_encode :: "str \<Rightarrow> str" where
  "b64_encode [] = []"
| "b64_encode [a] =
     (let n = byte_group a (CHR 0x00) (CHR 0x00) in [sextet n 18, sextet n 12])"
| "b64_encode [a, b] =
     (let n = byte_group a b (CHR 0x00) in [sextet n 18, sextet n 12, sextet n 6])"
| "b64_encode (a # b # c # rest) =
     (let n = byte_group a b c in
      [sextet n 18, sextet n 12, sextet n 6, sextet n 0] @ b64_encode rest)"

definition sextet_val :: "char \<Rightarrow> nat option" where
  "sextet_val c =
     (let b = of_char c :: nat in
      if 65 \<le> b \<and> b \<le> 90 then Some (b - 65)
      else if 97 \<le> b \<and> b \<le> 122 then Some (b - 97 + 26)
      else if 48 \<le> b \<and> b \<le> 57 then Some (b - 48 + 52)
      else if b = 45 then Some 62
      else if b = 95 then Some 63
      else None)"

definition sextet_group :: "nat \<Rightarrow> nat \<Rightarrow> nat \<Rightarrow> nat \<Rightarrow> nat" where
  "sextet_group v w x y = v * 2 ^ 18 + w * 2 ^ 12 + x * 2 ^ 6 + y"

definition group_byte :: "nat \<Rightarrow> nat \<Rightarrow> char" where
  "group_byte n shift = char_of (n div 2 ^ shift mod 256)"

fun b64_decode :: "str \<Rightarrow> str option" where
  "b64_decode [] = Some []"
| "b64_decode [_] = None"
| "b64_decode [c, d] =
     (case (sextet_val c, sextet_val d) of
        (Some v, Some w) \<Rightarrow>
          let n = sextet_group v w 0 0 in
          if n div 2 ^ 12 mod 16 \<noteq> 0 then None else Some [group_byte n 16]
      | _ \<Rightarrow> None)"
| "b64_decode [c, d, e] =
     (case (sextet_val c, sextet_val d, sextet_val e) of
        (Some v, Some w, Some x) \<Rightarrow>
          let n = sextet_group v w x 0 in
          if n div 2 ^ 6 mod 4 \<noteq> 0 then None else Some [group_byte n 16, group_byte n 8]
      | _ \<Rightarrow> None)"
| "b64_decode (c # d # e # f # rest) =
     (case (sextet_val c, sextet_val d, sextet_val e, sextet_val f) of
        (Some v, Some w, Some x, Some y) \<Rightarrow>
          let n = sextet_group v w x y in
          (case b64_decode rest of
             None \<Rightarrow> None
           | Some bytes \<Rightarrow> Some ([group_byte n 16, group_byte n 8, group_byte n 0] @ bytes))
      | _ \<Rightarrow> None)"

subsection \<open>The alphabet\<close>

lemma alphabet_vals: "map sextet_val ALPHABET = map Some [0..<64]"
  by (simp add: ALPHABET_def sextet_val_def upt_conv_Cons)

lemma length_ALPHABET [simp]: "length ALPHABET = 64"
  by (simp add: ALPHABET_def)

lemma alphabet_val: "i < 64 \<Longrightarrow> sextet_val (ALPHABET ! i) = Some i"
  using arg_cong [OF alphabet_vals, of "\<lambda>xs. xs ! i"] by simp

lemma sextet_val_sextet [simp]: "sextet_val (sextet n k) = Some (six_bits n k)"
  by (simp add: sextet_def alphabet_val six_bits_def)

lemma val_alphabet:
  assumes "sextet_val c = Some v"
  shows "v < 64" and "ALPHABET ! v = c"
proof -
  have "\<forall>c\<in>set (Enum.enum :: char list).
      (case sextet_val c of None \<Rightarrow> True | Some v \<Rightarrow> v < 64 \<and> ALPHABET ! v = c)"
    by code_simp
  then have "case sextet_val c of None \<Rightarrow> True | Some v \<Rightarrow> v < 64 \<and> ALPHABET ! v = c"
    by (simp only: enum_UNIV) simp
  then show "v < 64" and "ALPHABET ! v = c" using assms by simp_all
qed

subsection \<open>Bit groups as digits\<close>

lemma byte_group_eq: "byte_group a b c = of_char a * 65536 + of_char b * 256 + of_char c"
  by (simp add: byte_group_def)

lemma byte_group_bound: "byte_group a b c < 16777216"
  unfolding byte_group_eq
  using of_char_bound [of a] of_char_bound [of b] of_char_bound [of c] by linarith

lemma byte_group_bytes [simp]:
  "group_byte (byte_group a b c) 16 = a" "group_byte (byte_group a b c) 8 = b"
  "group_byte (byte_group a b c) 0 = c"
proof -
  let ?a = "of_char a :: nat" and ?b = "of_char b :: nat" and ?c = "of_char c :: nat"
  note bounds = of_char_bound [of a] of_char_bound [of b] of_char_bound [of c]
  have "(?a * 65536 + ?b * 256 + ?c) div 65536 = ?a" using bounds by linarith
  then show "group_byte (byte_group a b c) 16 = a" by (simp add: group_byte_def byte_group_eq)
  have "(?a * 65536 + ?b * 256 + ?c) div 256 = ?a * 256 + ?b" using bounds by linarith
  then show "group_byte (byte_group a b c) 8 = b" by (simp add: group_byte_def byte_group_eq)
  have "?a * 65536 + ?b * 256 + ?c = (?a * 256 + ?b) * 256 + ?c" by simp
  then have "(?a * 65536 + ?b * 256 + ?c) mod 256 = ?c" by (simp only: mod_mult_self3) simp
  then show "group_byte (byte_group a b c) 0 = c" by (simp add: group_byte_def byte_group_eq)
qed

lemma sextet_digits:
  assumes "n < 16777216"
  shows "sextet_group (six_bits n 18) (six_bits n 12) (six_bits n 6) (six_bits n 0) = n"
proof -
  have "n = 262144 * (n div 262144 mod 64) + n mod 262144"
    using mod_mult2_eq [of n 262144 64] assms by simp
  moreover have "n mod 262144 = 4096 * (n div 4096 mod 64) + n mod 4096"
    using mod_mult2_eq [of n 4096 64] by simp
  moreover have "n mod 4096 = 64 * (n div 64 mod 64) + n mod 64"
    using mod_mult2_eq [of n 64 64] by simp
  moreover have "sextet_group (six_bits n 18) (six_bits n 12) (six_bits n 6) (six_bits n 0) =
      (n div 262144 mod 64) * 262144 + (n div 4096 mod 64) * 4096 + (n div 64 mod 64) * 64 + n mod 64"
    by (simp add: sextet_group_def six_bits_def)
  ultimately show ?thesis by linarith
qed

text \<open>Conversely, sextets read back from the number they were packed into.\<close>

lemma pack_sextets:
  assumes "v < 64" "w < 64" "x < 64" "y < 64"
  shows "sextet_group v w x y < 16777216"
    and "six_bits (sextet_group v w x y) 18 = v" and "six_bits (sextet_group v w x y) 12 = w"
    and "six_bits (sextet_group v w x y) 6 = x" and "six_bits (sextet_group v w x y) 0 = y"
proof -
  have n: "sextet_group v w x y = v * 262144 + w * 4096 + x * 64 + y" by (simp add: sextet_group_def)
  show "sextet_group v w x y < 16777216" unfolding n using assms by linarith
  have "sextet_group v w x y div 262144 = v" unfolding n using assms by linarith
  then show "six_bits (sextet_group v w x y) 18 = v" using assms(1) by (simp add: six_bits_def)
  have "sextet_group v w x y div 4096 = v * 64 + w" unfolding n using assms by linarith
  then show "six_bits (sextet_group v w x y) 12 = w" using assms(2) by (simp add: six_bits_def)
  have "sextet_group v w x y div 64 = v * 4096 + w * 64 + x" unfolding n using assms by linarith
  also have "\<dots> = (v * 64 + w) * 64 + x" by simp
  finally have "sextet_group v w x y div 64 mod 64 = x" using assms(3) by (simp only: mod_mult_self3) simp
  then show "six_bits (sextet_group v w x y) 6 = x" by (simp add: six_bits_def)
  have "sextet_group v w x y = (v * 4096 + w * 64 + x) * 64 + y" unfolding n by simp
  then show "six_bits (sextet_group v w x y) 0 = y"
    using assms(4) by (simp only: six_bits_def mod_mult_self3 power_0 div_by_1) simp
qed

lemma byte_digits:
  fixes n :: nat
  assumes "n < 16777216"
  shows "byte_group (group_byte n 16) (group_byte n 8) (group_byte n 0) = n"
proof -
  have "n = 65536 * (n div 65536 mod 256) + n mod 65536"
    using mod_mult2_eq [of n 65536 256] assms by simp
  moreover have "n mod 65536 = 256 * (n div 256 mod 256) + n mod 256"
    using mod_mult2_eq [of n 256 256] by simp
  moreover have "byte_group (group_byte n 16) (group_byte n 8) (group_byte n 0) =
      (n div 65536 mod 256) * 65536 + (n div 256 mod 256) * 256 + n mod 256"
    by (simp add: byte_group_eq group_byte_def)
  ultimately show ?thesis by linarith
qed

subsection \<open>Encoding and decoding\<close>

text \<open>A short group carries zeros in the sextets it does not send and in the padding bits.\<close>

lemma short_groups:
  "six_bits (byte_group a (CHR 0x00) (CHR 0x00)) 6 = 0"
  "six_bits (byte_group a (CHR 0x00) (CHR 0x00)) 0 = 0" "six_bits (byte_group a b (CHR 0x00)) 0 = 0"
  "byte_group a (CHR 0x00) (CHR 0x00) div 2 ^ 12 mod 16 = 0" "byte_group a b (CHR 0x00) div 2 ^ 6 mod 4 = 0"
proof -
  have "byte_group a (CHR 0x00) (CHR 0x00) = of_char a * 1024 * 64"
    "byte_group a (CHR 0x00) (CHR 0x00) = of_char a * 16 * 4096"
    "byte_group a b (CHR 0x00) = (of_char a * 256 + of_char b) * 4 * 64" by (simp_all add: byte_group_eq)
  moreover have "k * 1024 mod 64 = 0" for k :: nat by (simp add: mod_eq_0_iff_dvd)
  ultimately show "six_bits (byte_group a (CHR 0x00) (CHR 0x00)) 6 = 0"
    "six_bits (byte_group a (CHR 0x00) (CHR 0x00)) 0 = 0" "six_bits (byte_group a b (CHR 0x00)) 0 = 0"
    "byte_group a (CHR 0x00) (CHR 0x00) div 2 ^ 12 mod 16 = 0" "byte_group a b (CHR 0x00) div 2 ^ 6 mod 4 = 0"
    by (simp_all add: six_bits_def)
qed

lemma b64_roundtrip: "b64_decode (b64_encode bytes) = Some bytes"
proof (induction bytes rule: b64_encode.induct)
  case (2 a)
  show ?case
    using sextet_digits [OF byte_group_bound, of a "CHR 0x00" "CHR 0x00"] short_groups(1,2,4) [of a]
    by (simp add: Let_def del: power_numeral_reduce)
next
  case (3 a b)
  show ?case
    using sextet_digits [OF byte_group_bound, of a b "CHR 0x00"] short_groups(3,5) [of a b]
    by (simp add: Let_def)
next
  case (4 a b c rest)
  then show ?case
    using sextet_digits [OF byte_group_bound, of a b c] by (simp add: Let_def)
qed simp

text \<open>The bytes a decoded group leaves out are zero, so encoding rebuilds the same number.\<close>

lemma char_of_zero [simp]: "char_of (0 :: nat) = CHR 0x00"
  by (simp add: char_of_def)

lemma padded_two:
  assumes "sextet_group v w 0 0 div 2 ^ 12 mod 16 = 0"
  shows "group_byte (sextet_group v w 0 0) 8 = CHR 0x00" "group_byte (sextet_group v w 0 0) 0 = CHR 0x00"
proof -
  have n: "sextet_group v w 0 0 = 4096 * (v * 64 + w)" by (simp add: sextet_group_def)
  then have "sextet_group v w 0 0 div 2 ^ 12 = v * 64 + w" by simp
  with assms have "16 dvd (v * 64 + w)" by (simp only: mod_eq_0_iff_dvd)
  then obtain q where "v * 64 + w = 16 * q" by (rule dvdE)
  with n have "sextet_group v w 0 0 = 65536 * q" by simp
  then show "group_byte (sextet_group v w 0 0) 8 = CHR 0x00" "group_byte (sextet_group v w 0 0) 0 = CHR 0x00"
    by (simp_all add: group_byte_def mod_eq_0_iff_dvd)
qed

lemma padded_three:
  assumes "sextet_group v w x 0 div 2 ^ 6 mod 4 = 0"
  shows "group_byte (sextet_group v w x 0) 0 = CHR 0x00"
proof -
  have n: "sextet_group v w x 0 = 64 * (v * 4096 + w * 64 + x)" by (simp add: sextet_group_def)
  then have "sextet_group v w x 0 div 2 ^ 6 = v * 4096 + w * 64 + x" by simp
  with assms have "4 dvd (v * 4096 + w * 64 + x)" by (simp only: mod_eq_0_iff_dvd)
  then obtain q where "v * 4096 + w * 64 + x = 4 * q" by (rule dvdE)
  with n have "sextet_group v w x 0 = 256 * q" by simp
  then show ?thesis by (simp add: group_byte_def)
qed

lemma sextet_of_val:
  assumes "sextet_val c = Some v" "sextet_val d = Some w" "sextet_val e = Some x" "sextet_val f = Some y"
  shows "sextet (sextet_group v w x y) 18 = c" "sextet (sextet_group v w x y) 12 = d"
    "sextet (sextet_group v w x y) 6 = e" "sextet (sextet_group v w x y) 0 = f"
    "byte_group (group_byte (sextet_group v w x y) 16) (group_byte (sextet_group v w x y) 8)
       (group_byte (sextet_group v w x y) 0) = sextet_group v w x y"
  using val_alphabet [OF assms(1)] val_alphabet [OF assms(2)] val_alphabet [OF assms(3)]
    val_alphabet [OF assms(4)] pack_sextets [of v w x y]
  by (simp_all add: sextet_def byte_digits)

lemma zero_sextet: "sextet_val (CHR ''A'') = Some 0"
  by (simp add: sextet_val_def)

lemma b64_canonical: "b64_decode s = Some bytes \<Longrightarrow> b64_encode bytes = s"
proof (induction s arbitrary: bytes rule: b64_decode.induct)
  case (3 c d)
  then obtain v w where v: "sextet_val c = Some v" "sextet_val d = Some w"
    and pad: "sextet_group v w 0 0 div 2 ^ 12 mod 16 = 0" and b: "bytes = [group_byte (sextet_group v w 0 0) 16]"
    by (auto simp: Let_def split: option.splits if_splits)
  show ?case
    using sextet_of_val [OF v zero_sextet zero_sextet] by (simp add: b padded_two [OF pad] Let_def)
next
  case (4 c d e)
  then obtain v w x where v: "sextet_val c = Some v" "sextet_val d = Some w" "sextet_val e = Some x"
    and pad: "sextet_group v w x 0 div 2 ^ 6 mod 4 = 0"
    and b: "bytes = [group_byte (sextet_group v w x 0) 16, group_byte (sextet_group v w x 0) 8]"
    by (auto simp: Let_def split: option.splits if_splits)
  show ?case
    using sextet_of_val [OF v zero_sextet] by (simp add: b padded_three [OF pad] Let_def)
next
  case (5 c d e f rest)
  then obtain v w x y bs where v: "sextet_val c = Some v" "sextet_val d = Some w" "sextet_val e = Some x"
      "sextet_val f = Some y" and rest: "b64_decode rest = Some bs"
    and b: "bytes = [group_byte (sextet_group v w x y) 16, group_byte (sextet_group v w x y) 8,
      group_byte (sextet_group v w x y) 0] @ bs"
    by (auto simp: Let_def split: option.splits if_splits)
  have "b64_encode bs = rest" using "5.IH" v rest by simp
  then show ?case using sextet_of_val [OF v] by (simp add: b Let_def)
qed simp_all

text \<open>An encoding never contains the separator of the token envelope.\<close>

lemma b64_encode_alphabet: "set (b64_encode bytes) \<subseteq> set ALPHABET"
  by (induction bytes rule: b64_encode.induct) (auto simp: Let_def sextet_def six_bits_def)

lemma b64_encode_no_dot: "CHR ''.'' \<notin> set (b64_encode bytes)"
  using b64_encode_alphabet [of bytes] by (auto simp: ALPHABET_def)

end
