(* ===== verification/Revocation.thy ===== *)
theory Revocation
  imports Auth
begin

section \<open>Deny-list and replay guard (crates/ccos-enterprise-auth, revocation.rs)\<close>

text \<open>
  \<open>Revocations\<close>: the credentials and actors a deployment has withdrawn, its durable snapshot and
  the journaled mutations. \<open>ReplayGuard\<close>: the single-use identifiers already presented. Both are
  bounded and refuse when full. The list is shared by every verifier of a process behind a mutex;
  the model passes it explicitly, so sharing is passing the same value.
\<close>

definition MAX_REVOKED_TOKENS :: nat where
  "MAX_REVOKED_TOKENS = 65536"

definition MAX_REVOKED_ACTORS :: nat where
  "MAX_REVOKED_ACTORS = 65536"

definition MAX_REPLAY_ENTRIES :: nat where
  "MAX_REPLAY_ENTRIES = 1048576"

definition REVOCATION_SNAPSHOT_VERSION :: u32 where
  "REVOCATION_SNAPSHOT_VERSION = 1"

subsection \<open>The deny-list\<close>

record revocations =
  dl_tokens :: "(str, u64) fmap"
  dl_actors :: "(str \<times> str, u64) fmap"
  dl_max_tokens :: nat
  dl_max_actors :: nat

definition revocations_new :: revocations where
  "revocations_new =
     \<lparr>dl_tokens = fmempty, dl_actors = fmempty, dl_max_tokens = MAX_REVOKED_TOKENS,
      dl_max_actors = MAX_REVOKED_ACTORS\<rparr>"

definition revocations_with_capacity :: "nat \<Rightarrow> nat \<Rightarrow> revocations" where
  "revocations_with_capacity max_tokens max_actors =
     revocations_new\<lparr>dl_max_tokens := max_tokens, dl_max_actors := max_actors\<rparr>"

definition prune :: "u64 \<Rightarrow> revocations \<Rightarrow> revocations" where
  "prune now r = r\<lparr>dl_tokens := fmretain (\<lambda>e. now \<le> e) (dl_tokens r)\<rparr>"

definition revoke_token :: "str \<Rightarrow> u64 \<Rightarrow> u64 \<Rightarrow> revocations \<Rightarrow> bool \<times> revocations" where
  "revoke_token jti expires_at now r =
     (let r = prune now r in
      if dl_max_tokens r \<le> fmlen (dl_tokens r) \<and> \<not> fmcontains (dl_tokens r) jti then (False, r)
      else (True, r\<lparr>dl_tokens := fmupd jti expires_at (dl_tokens r)\<rparr>))"

definition revoke_actor :: "org_id \<Rightarrow> actor_id \<Rightarrow> u64 \<Rightarrow> revocations \<Rightarrow> bool \<times> revocations" where
  "revoke_actor org actor issued_through r =
     (let key = (org_name org, actor_name actor) in
      case fmlookup (dl_actors r) key of
        Some existing \<Rightarrow>
          (True, r\<lparr>dl_actors := fmupd key (max existing issued_through) (dl_actors r)\<rparr>)
      | None \<Rightarrow>
          if dl_max_actors r \<le> fmlen (dl_actors r) then (False, r)
          else (True, r\<lparr>dl_actors := fmupd key issued_through (dl_actors r)\<rparr>))"

definition restore_actor :: "org_id \<Rightarrow> actor_id \<Rightarrow> revocations \<Rightarrow> bool \<times> revocations" where
  "restore_actor org actor r =
     (let key = (org_name org, actor_name actor) in
      (fmcontains (dl_actors r) key, r\<lparr>dl_actors := fmdrop key (dl_actors r)\<rparr>))"

definition credential_revoked :: "revocations \<Rightarrow> str option \<Rightarrow> org_id \<Rightarrow> actor_id \<Rightarrow> u64 \<Rightarrow> bool" where
  "credential_revoked r jti org actor issued_at \<longleftrightarrow>
     (case jti of None \<Rightarrow> False | Some j \<Rightarrow> fmcontains (dl_tokens r) j) \<or>
     (case fmlookup (dl_actors r) (org_name org, actor_name actor) of
        None \<Rightarrow> False
      | Some through \<Rightarrow> issued_at \<le> through)"

subsection \<open>Durable form\<close>

record revoked_token_snapshot =
  rt_jti :: str
  rt_expires_at :: u64

record revoked_actor_snapshot =
  ra_org :: str
  ra_actor :: str
  ra_issued_through :: u64

record revocation_snapshot =
  rs_version :: u32
  rs_tokens :: "revoked_token_snapshot list"
  rs_actors :: "revoked_actor_snapshot list"

datatype revocation_state_error =
    UnsupportedVersion u32
  | CapacityExceeded str
  | InvalidIdentifier str
  | DuplicateEntry str

datatype revocation_event =
    RevokeToken (ev_jti: str) (ev_expires_at: u64) (ev_observed_at: u64)
  | RevokeActor (ev_org: str) (ev_actor: str) (ev_issued_through: u64)
  | RestoreActor (ev_org: str) (ev_actor: str)

definition revocations_snapshot :: "revocations \<Rightarrow> revocation_snapshot" where
  "revocations_snapshot r =
     \<lparr>rs_version = REVOCATION_SNAPSHOT_VERSION,
      rs_tokens = map (\<lambda>(j, e). \<lparr>rt_jti = j, rt_expires_at = e\<rparr>) (sorted_list_of_fmap (dl_tokens r)),
      rs_actors = map (\<lambda>((org, actor), t). \<lparr>ra_org = org, ra_actor = actor, ra_issued_through = t\<rparr>)
        (sorted_list_of_fmap (dl_actors r))\<rparr>"

definition load_token ::
  "u64 \<Rightarrow> revoked_token_snapshot \<Rightarrow> revocations \<Rightarrow> revocation_state_error + revocations" where
  "load_token now token out =
     (if \<not> is_canonical_identity (rt_jti token) then Inl (InvalidIdentifier ''token'')
      else if rt_expires_at token < now then Inr out
      else if fmcontains (dl_tokens out) (rt_jti token) then Inl (DuplicateEntry ''token'')
      else Inr (out\<lparr>dl_tokens := fmupd (rt_jti token) (rt_expires_at token) (dl_tokens out)\<rparr>))"

definition load_actor ::
  "revoked_actor_snapshot \<Rightarrow> revocations \<Rightarrow> revocation_state_error + revocations" where
  "load_actor a out =
     (if \<not> is_canonical_identity (ra_org a) \<or> \<not> is_canonical_identity (ra_actor a) then
        Inl (InvalidIdentifier ''actor'')
      else if fmcontains (dl_actors out) (ra_org a, ra_actor a) then Inl (DuplicateEntry ''actor'')
      else Inr (out\<lparr>dl_actors := fmupd (ra_org a, ra_actor a) (ra_issued_through a) (dl_actors out)\<rparr>))"

definition revocations_from_snapshot ::
  "revocation_snapshot \<Rightarrow> u64 \<Rightarrow> revocation_state_error + revocations" where
  "revocations_from_snapshot snap now =
     (if rs_version snap \<noteq> REVOCATION_SNAPSHOT_VERSION then Inl (UnsupportedVersion (rs_version snap))
      else if MAX_REVOKED_TOKENS < length (rs_tokens snap) then Inl (CapacityExceeded ''token'')
      else if MAX_REVOKED_ACTORS < length (rs_actors snap) then Inl (CapacityExceeded ''actor'')
      else res_bind (res_fold (load_token now) (rs_tokens snap) revocations_new)
             (res_fold load_actor (rs_actors snap)))"

fun apply_event ::
  "revocation_event \<Rightarrow> u64 \<Rightarrow> revocations \<Rightarrow> (revocation_state_error + bool) \<times> revocations" where
  "apply_event (RevokeToken jti expires_at observed_at) now r =
     (if \<not> is_canonical_identity jti then (Inl (InvalidIdentifier ''token''), r)
      else if expires_at < now then (Inr True, prune now r)
      else let (ok, r) = revoke_token jti expires_at now r in (Inr ok, r))"
| "apply_event (RevokeActor org actor issued_through) now r =
     (if \<not> is_canonical_identity org \<or> \<not> is_canonical_identity actor then
        (Inl (InvalidIdentifier ''actor''), r)
      else let (ok, r) = revoke_actor (OrgId org) (ActorId actor) issued_through r in (Inr ok, r))"
| "apply_event (RestoreActor org actor) now r =
     (if \<not> is_canonical_identity org \<or> \<not> is_canonical_identity actor then
        (Inl (InvalidIdentifier ''actor''), r)
      else let (was, r) = restore_actor (OrgId org) (ActorId actor) r in (Inr was, r))"

subsection \<open>The replay guard\<close>

record replay_guard =
  gd_seen :: "(str, u64) fmap"
  gd_capacity :: nat

definition guard_new :: replay_guard where
  "guard_new = \<lparr>gd_seen = fmempty, gd_capacity = MAX_REPLAY_ENTRIES\<rparr>"

definition guard_with_capacity :: "nat \<Rightarrow> replay_guard" where
  "guard_with_capacity n = guard_new\<lparr>gd_capacity := n\<rparr>"

definition guard_witness ::
  "str \<Rightarrow> u64 \<Rightarrow> u64 \<Rightarrow> replay_guard \<Rightarrow> (auth_error + unit) \<times> replay_guard" where
  "guard_witness jti expires_at now g =
     (let g = g\<lparr>gd_seen := fmretain (\<lambda>e. now \<le> e) (gd_seen g)\<rparr> in
      if fmcontains (gd_seen g) jti then (Inl CredentialReplayed, g)
      else if gd_capacity g \<le> fmlen (gd_seen g) then (Inl ReplayCapacity, g)
      else (Inr (), g\<lparr>gd_seen := fmupd jti expires_at (gd_seen g)\<rparr>))"

subsection \<open>Bounds\<close>

definition denylist_ok :: "revocations \<Rightarrow> bool" where
  "denylist_ok r \<longleftrightarrow> fmlen (dl_tokens r) \<le> dl_max_tokens r \<and> fmlen (dl_actors r) \<le> dl_max_actors r"

lemma fmlen_drop: "fmlen (fmdrop k m) \<le> fmlen m"
  by (intro fcard_mono) auto

lemma denylist_ok_prune: "denylist_ok r \<Longrightarrow> denylist_ok (prune now r)"
  using fmlen_retain [of "\<lambda>e. now \<le> e" "dl_tokens r"] by (auto simp: denylist_ok_def prune_def)

lemma denylist_ok_revoke_token: "denylist_ok r \<Longrightarrow> denylist_ok (snd (revoke_token jti e now r))"
  using denylist_ok_prune [of r now]
  by (auto simp: revoke_token_def Let_def denylist_ok_def fcard_finsert_if prune_def simp del: fmlookup_retain)

lemma denylist_ok_actor_ops:
  assumes "denylist_ok r"
  shows "denylist_ok (snd (revoke_actor org actor t r))" and "denylist_ok (snd (restore_actor org actor r))"
  using assms fmlen_drop [of "(org_name org, actor_name actor)" "dl_actors r"]
  by (auto simp: revoke_actor_def restore_actor_def Let_def denylist_ok_def fcard_finsert_if fmlookup_dom_iff
      split: option.splits)

lemma denylist_ok_apply: "denylist_ok r \<Longrightarrow> denylist_ok (snd (apply_event ev now r))"
  by (cases ev) (auto simp: denylist_ok_prune denylist_ok_revoke_token denylist_ok_actor_ops case_prod_beta)


lemma denylist_ok_new [simp]:
  "denylist_ok revocations_new" "denylist_ok (revocations_with_capacity n m)"
  by (simp_all add: denylist_ok_def revocations_new_def revocations_with_capacity_def)

definition run_events :: "(revocation_event \<times> u64) list \<Rightarrow> revocations \<Rightarrow> revocations" where
  "run_events es r = fold (\<lambda>(ev, now) r. snd (apply_event ev now r)) es r"

lemma run_events_simps [simp]:
  "run_events [] r = r"
  "run_events ((ev, now) # es) r = run_events es (snd (apply_event ev now r))"
  by (simp_all add: run_events_def)

lemma denylist_ok_run: "denylist_ok r \<Longrightarrow> denylist_ok (run_events es r)"
  by (induction es arbitrary: r) (auto simp: denylist_ok_apply)

subsection \<open>What stays withdrawn\<close>

text \<open>Token entries survive every event observed up to their expiry, as long as no later
  revocation of the same identifier names an earlier expiry; actor entries survive every event
  but their own restoration.\<close>

definition keeps_token :: "str \<Rightarrow> u64 \<Rightarrow> revocation_event \<times> u64 \<Rightarrow> bool" where
  "keeps_token jti e = (\<lambda>(ev, now). now \<le> e \<and>
     (case ev of RevokeToken j e' _ \<Rightarrow> j = jti \<longrightarrow> e \<le> e' | _ \<Rightarrow> True))"

definition keeps_actor :: "str \<Rightarrow> str \<Rightarrow> revocation_event \<times> u64 \<Rightarrow> bool" where
  "keeps_actor org actor = (\<lambda>(ev, now). ev \<noteq> RestoreActor org actor)"

definition token_listed :: "revocations \<Rightarrow> str \<Rightarrow> u64 \<Rightarrow> bool" where
  "token_listed r jti e \<longleftrightarrow> (\<exists>e'. fmlookup (dl_tokens r) jti = Some e' \<and> e \<le> e')"

definition actor_listed :: "revocations \<Rightarrow> str \<Rightarrow> str \<Rightarrow> u64 \<Rightarrow> bool" where
  "actor_listed r org actor t \<longleftrightarrow> (\<exists>t'. fmlookup (dl_actors r) (org, actor) = Some t' \<and> t \<le> t')"

lemma token_listed_prune: "token_listed r jti e \<Longrightarrow> now \<le> e \<Longrightarrow> token_listed (prune now r) jti e"
  by (auto simp: token_listed_def prune_def)

lemma token_listed_apply:
  assumes "token_listed r jti e" and "keeps_token jti e (ev, now)"
  shows "token_listed (snd (apply_event ev now r)) jti e"
proof -
  have now: "now \<le> e" using assms(2) by (simp add: keeps_token_def)
  note kept = token_listed_prune [OF assms(1) now]
  show ?thesis
  proof (cases ev)
    case (RevokeToken j e' o')
    then show ?thesis
      using kept assms by (auto simp: revoke_token_def Let_def token_listed_def keeps_token_def case_prod_beta)
  next
    case (RevokeActor org actor t)
    then show ?thesis
      using assms(1) by (auto simp: revoke_actor_def Let_def token_listed_def case_prod_beta split: option.splits)
  next
    case (RestoreActor org actor)
    then show ?thesis using assms(1) by (auto simp: restore_actor_def Let_def token_listed_def case_prod_beta)
  qed
qed

lemma actor_listed_apply:
  assumes "actor_listed r org actor t" and "keeps_actor org actor (ev, now)"
  shows "actor_listed (snd (apply_event ev now r)) org actor t"
proof (cases ev)
  case (RevokeToken j e' o')
  then show ?thesis
    using assms by (auto simp: revoke_token_def prune_def Let_def actor_listed_def case_prod_beta)
next
  case (RevokeActor org' actor' t')
  then show ?thesis
    using assms(1)
    by (auto simp: revoke_actor_def Let_def actor_listed_def case_prod_beta max_def split: option.splits)
next
  case (RestoreActor org' actor')
  then show ?thesis
    using assms by (auto simp: restore_actor_def Let_def actor_listed_def keeps_actor_def case_prod_beta)
qed

lemma token_listed_run:
  "token_listed r jti e \<Longrightarrow> list_all (keeps_token jti e) es \<Longrightarrow> token_listed (run_events es r) jti e"
  by (induction es arbitrary: r) (auto simp: token_listed_apply)

lemma actor_listed_run:
  "actor_listed r org actor t \<Longrightarrow> list_all (keeps_actor org actor) es \<Longrightarrow>
     actor_listed (run_events es r) org actor t"
  by (induction es arbitrary: r) (auto simp: actor_listed_apply)

lemma revoke_token_lists: "fst (revoke_token jti e now r) \<Longrightarrow> token_listed (snd (revoke_token jti e now r)) jti e"
  by (auto simp: revoke_token_def Let_def token_listed_def split: if_splits)

lemma revoke_actor_lists:
  "fst (revoke_actor org actor t r) \<Longrightarrow>
     actor_listed (snd (revoke_actor org actor t r)) (org_name org) (actor_name actor) t"
  by (auto simp: revoke_actor_def Let_def actor_listed_def split: if_splits option.splits)

lemma token_listed_revoked: "token_listed r jti e \<Longrightarrow> credential_revoked r (Some jti) org actor iat"
  by (auto simp: token_listed_def credential_revoked_def fmlookup_dom_iff)

lemma actor_listed_revoked:
  "actor_listed r (org_name org) (actor_name actor) t \<Longrightarrow> iat \<le> t \<Longrightarrow> credential_revoked r jti org actor iat"
  by (auto simp: actor_listed_def credential_revoked_def)

subsection \<open>The durable form\<close>

definition canonical_entries :: "revocations \<Rightarrow> bool" where
  "canonical_entries r \<longleftrightarrow>
     (\<forall>j\<in>fset (fmdom (dl_tokens r)). is_canonical_identity j) \<and>
     (\<forall>(org, actor)\<in>fset (fmdom (dl_actors r)). is_canonical_identity org \<and> is_canonical_identity actor)"

lemma load_tokens:
  assumes "distinct (map fst xs)" and "\<forall>j\<in>set (map fst xs). is_canonical_identity j"
    and "\<forall>j\<in>set (map fst xs). fmlookup (dl_tokens out) j = None"
  shows "\<exists>m. res_fold (load_token now) (map (\<lambda>(j, e). \<lparr>rt_jti = j, rt_expires_at = e\<rparr>) xs) out =
      Inr (out\<lparr>dl_tokens := m\<rparr>) \<and>
    (\<forall>k. fmlookup m k =
       (case map_of xs k of Some e \<Rightarrow> if now \<le> e then Some e else None | None \<Rightarrow> fmlookup (dl_tokens out) k))"
  using assms
proof (induction xs arbitrary: out)
  case Nil
  have "out = out\<lparr>dl_tokens := dl_tokens out\<rparr>" by simp
  then show ?case by (intro exI [of _ "dl_tokens out"]) simp
next
  case (Cons x xs)
  obtain j e where x: "x = (j, e)" by (cases x)
  define out' where "out' = (if now \<le> e then out\<lparr>dl_tokens := fmupd j e (dl_tokens out)\<rparr> else out)"
  have step: "load_token now \<lparr>rt_jti = j, rt_expires_at = e\<rparr> out = Inr out'"
    using Cons.prems by (auto simp: x load_token_def fmlookup_dom_iff out'_def)
  have fresh: "\<forall>j\<in>set (map fst xs). fmlookup (dl_tokens out') j = None"
    using Cons.prems by (auto simp: x out'_def)
  obtain m where "res_fold (load_token now) (map (\<lambda>(j, e). \<lparr>rt_jti = j, rt_expires_at = e\<rparr>) xs) out' =
      Inr (out'\<lparr>dl_tokens := m\<rparr>)"
    and m: "\<forall>k. fmlookup m k =
       (case map_of xs k of Some e \<Rightarrow> if now \<le> e then Some e else None | None \<Rightarrow> fmlookup (dl_tokens out') k)"
    using Cons.IH [OF _ _ fresh] Cons.prems by auto
  moreover have "out'\<lparr>dl_tokens := m\<rparr> = out\<lparr>dl_tokens := m\<rparr>" by (simp add: out'_def)
  moreover have "map_of xs j = None" using Cons.prems(1) by (auto simp: x map_of_eq_None_iff)
  ultimately show ?case
    using step Cons.prems(3) by (intro exI [of _ m]) (auto simp: x out'_def split: option.splits)
qed

lemma load_actors:
  assumes "distinct (map fst xs)"
    and "\<forall>(org, actor)\<in>set (map fst xs). is_canonical_identity org \<and> is_canonical_identity actor"
    and "\<forall>k\<in>set (map fst xs). fmlookup (dl_actors out) k = None"
  shows "\<exists>m. res_fold load_actor
      (map (\<lambda>((org, actor), t). \<lparr>ra_org = org, ra_actor = actor, ra_issued_through = t\<rparr>) xs) out =
      Inr (out\<lparr>dl_actors := m\<rparr>) \<and>
    (\<forall>k. fmlookup m k = (case map_of xs k of Some t \<Rightarrow> Some t | None \<Rightarrow> fmlookup (dl_actors out) k))"
  using assms
proof (induction xs arbitrary: out)
  case Nil
  have "out = out\<lparr>dl_actors := dl_actors out\<rparr>" by simp
  then show ?case by (intro exI [of _ "dl_actors out"]) simp
next
  case (Cons x xs)
  obtain org actor t where x: "x = ((org, actor), t)" by (cases x) auto
  define out' where "out' = out\<lparr>dl_actors := fmupd (org, actor) t (dl_actors out)\<rparr>"
  have step: "load_actor \<lparr>ra_org = org, ra_actor = actor, ra_issued_through = t\<rparr> out = Inr out'"
    using Cons.prems by (auto simp: x load_actor_def fmlookup_dom_iff out'_def)
  have fresh: "\<forall>k\<in>set (map fst xs). fmlookup (dl_actors out') k = None"
    using Cons.prems by (auto simp: x out'_def)
  obtain m where "res_fold load_actor
      (map (\<lambda>((org, actor), t). \<lparr>ra_org = org, ra_actor = actor, ra_issued_through = t\<rparr>) xs) out' =
      Inr (out'\<lparr>dl_actors := m\<rparr>)"
    and m: "\<forall>k. fmlookup m k = (case map_of xs k of Some t \<Rightarrow> Some t | None \<Rightarrow> fmlookup (dl_actors out') k)"
    using Cons.IH [OF _ _ fresh] Cons.prems by auto
  moreover have "map_of xs (org, actor) = None" using Cons.prems(1) by (auto simp: x map_of_eq_None_iff)
  ultimately show ?case
    using step by (intro exI [of _ m]) (auto simp: x out'_def split: option.splits)
qed

lemma revocations_new_simps [simp]:
  "dl_tokens revocations_new = fmempty" "dl_actors revocations_new = fmempty"
  by (simp_all add: revocations_new_def)

lemma from_snapshot_eq:
  assumes "canonical_entries r" and "fmlen (dl_tokens r) \<le> MAX_REVOKED_TOKENS"
    and "fmlen (dl_actors r) \<le> MAX_REVOKED_ACTORS"
  shows "revocations_from_snapshot (revocations_snapshot r) now =
    Inr ((prune now r)\<lparr>dl_max_tokens := MAX_REVOKED_TOKENS, dl_max_actors := MAX_REVOKED_ACTORS\<rparr>)"
proof -
  let ?ts = "sorted_list_of_fmap (dl_tokens r)" and ?as = "sorted_list_of_fmap (dl_actors r)"
  obtain m where m: "res_fold (load_token now) (map (\<lambda>(j, e). \<lparr>rt_jti = j, rt_expires_at = e\<rparr>) ?ts) revocations_new
      = Inr (revocations_new\<lparr>dl_tokens := m\<rparr>)"
    "\<forall>k. fmlookup m k = (case map_of ?ts k of Some e \<Rightarrow> if now \<le> e then Some e else None
       | None \<Rightarrow> fmlookup (dl_tokens revocations_new) k)"
    using load_tokens [of ?ts revocations_new now] assms(1) by (force simp: canonical_entries_def)
  let ?out = "revocations_new\<lparr>dl_tokens := m\<rparr>"
  obtain n where n: "res_fold load_actor
      (map (\<lambda>((org, actor), t). \<lparr>ra_org = org, ra_actor = actor, ra_issued_through = t\<rparr>) ?as) ?out
      = Inr (?out\<lparr>dl_actors := n\<rparr>)"
    "\<forall>k. fmlookup n k = (case map_of ?as k of Some t \<Rightarrow> Some t | None \<Rightarrow> fmlookup (dl_actors ?out) k)"
    using load_actors [of ?as ?out] assms(1) by (force simp: canonical_entries_def)
  have "m = dl_tokens (prune now r)" by (rule fmap_ext) (simp add: m(2) prune_def split: option.splits)
  moreover have "n = dl_actors r" by (rule fmap_ext) (simp add: n(2) split: option.splits)
  ultimately show ?thesis
    using m(1) n(1) assms(2,3)
    by (simp add: revocations_from_snapshot_def revocations_snapshot_def prune_def revocations_new_def)
qed

subsection \<open>The replay guard\<close>

definition guard_run :: "(str \<times> u64 \<times> u64) list \<Rightarrow> replay_guard \<Rightarrow> replay_guard" where
  "guard_run ws g = fold (\<lambda>(jti, e, now) g. snd (guard_witness jti e now g)) ws g"

lemma guard_run_simps [simp]:
  "guard_run [] g = g"
  "guard_run ((jti, e, now) # ws) g = guard_run ws (snd (guard_witness jti e now g))"
  by (simp_all add: guard_run_def)

lemma guard_bounded:
  "fmlen (gd_seen g) \<le> gd_capacity g \<Longrightarrow>
     fmlen (gd_seen (snd (guard_witness jti e now g))) \<le> gd_capacity (snd (guard_witness jti e now g))"
  using fmlen_retain [of "\<lambda>e. now \<le> e" "gd_seen g"]
  by (auto simp: guard_witness_def Let_def fcard_finsert_if)

lemma guard_keeps:
  assumes "fmlookup (gd_seen g) j = Some e" and "now \<le> e"
  shows "fmlookup (gd_seen (snd (guard_witness jti x now g))) j = Some e"
  using assms by (auto simp: guard_witness_def Let_def fmlookup_dom_iff)

lemma guard_run_keeps:
  "fmlookup (gd_seen g) j = Some e \<Longrightarrow> list_all (\<lambda>(_, _, now). now \<le> e) ws \<Longrightarrow>
     fmlookup (gd_seen (guard_run ws g)) j = Some e"
  by (induction ws arbitrary: g) (auto simp: guard_keeps)

lemma guard_refuses:
  "fmlookup (gd_seen g) jti = Some e \<Longrightarrow> now \<le> e \<Longrightarrow> fst (guard_witness jti x now g) = Inl CredentialReplayed"
  by (auto simp: guard_witness_def Let_def fmlookup_dom_iff)

lemma guard_records:
  "fst (guard_witness jti e now g) = Inr () \<Longrightarrow> fmlookup (gd_seen (snd (guard_witness jti e now g))) jti = Some e"
  by (auto simp: guard_witness_def Let_def split: if_splits)

subsection \<open>Properties\<close>

text \<open>
  C37: How long a withdrawal stays in force, on a deny-list within its ceilings. A token whose revocation was
  accepted is refused after any later events that are all observed no later than the recorded expiry and none of
  which revokes the same token again with an earlier expiry. An actor whose revocation was accepted is
  refused, for every credential issued up to the recorded instant, after any later events none of which
  restores that actor. The list never exceeds its ceilings, whatever the events.
\<close>

theorem withdrawal_stays_in_force:
  assumes "denylist_ok r"
  shows "(fst (revoke_token jti e now r) \<and> list_all (keeps_token jti e) es \<longrightarrow>
        credential_revoked (run_events es (snd (revoke_token jti e now r))) (Some jti) org actor iat)
    \<and> (fst (revoke_actor org actor t r) \<and> list_all (keeps_actor (org_name org) (actor_name actor)) es
        \<and> iat \<le> t \<longrightarrow>
        credential_revoked (run_events es (snd (revoke_actor org actor t r))) j org actor iat)
    \<and> denylist_ok (run_events es (snd (revoke_token jti e now r)))
    \<and> denylist_ok (run_events es (snd (revoke_actor org actor t r)))"
proof (intro conjI impI)
  show "credential_revoked (run_events es (snd (revoke_token jti e now r))) (Some jti) org actor iat"
    if "fst (revoke_token jti e now r) \<and> list_all (keeps_token jti e) es"
    using that by (intro token_listed_revoked [where e = e] token_listed_run revoke_token_lists) simp_all
  show "credential_revoked (run_events es (snd (revoke_actor org actor t r))) j org actor iat"
    if "fst (revoke_actor org actor t r) \<and> list_all (keeps_actor (org_name org) (actor_name actor)) es
        \<and> iat \<le> t"
    using that by (intro actor_listed_revoked [where t = t] actor_listed_run revoke_actor_lists) simp_all
qed (simp_all add: assms denylist_ok_run denylist_ok_revoke_token denylist_ok_actor_ops)

theorem withdrawal_stays_in_force_witness:
  "credential_revoked (run_events [(RevokeToken ''other'' 50 20, 20), (RestoreActor ''acme'' ''bob'', 30)]
     (snd (revoke_token ''tok'' 40 10 revocations_new))) (Some ''tok'') (OrgId ''acme'') (ActorId ''bob'') 5"
proof -
  have "fst (revoke_token ''tok'' 40 10 revocations_new)"
    by (simp add: revoke_token_def prune_def revocations_new_def MAX_REVOKED_TOKENS_def fmretain_def Let_def)
  then show ?thesis
    using withdrawal_stays_in_force [of revocations_new "''tok''" 40 10
        "[(RevokeToken ''other'' 50 20, 20), (RestoreActor ''acme'' ''bob'', 30)]" "OrgId ''acme''" "ActorId ''bob''" 5]
    by (simp add: keeps_token_def)
qed

text \<open>
  The durable form loses nothing that still matters: loading the snapshot of a deny-list with
  canonical entries within the default ceilings gives back the list itself, less the tokens that
  have expired in the meantime.
\<close>

theorem denylist_snapshot_roundtrip:
  assumes "canonical_entries r" and "dl_max_tokens r = MAX_REVOKED_TOKENS"
    and "dl_max_actors r = MAX_REVOKED_ACTORS" and "denylist_ok r"
  shows "revocations_from_snapshot (revocations_snapshot r) now = Inr (prune now r)"
  using from_snapshot_eq [OF assms(1), of now] assms(2-4)
  by (simp add: denylist_ok_def prune_def)

theorem denylist_snapshot_roundtrip_witness:
  "revocations_from_snapshot (revocations_snapshot (revocations_new\<lparr>dl_tokens := fmupd ''tok'' 40 fmempty\<rparr>)) 10
     = Inr (prune 10 (revocations_new\<lparr>dl_tokens := fmupd ''tok'' 40 fmempty\<rparr>))"
  by (rule denylist_snapshot_roundtrip)
    (simp_all add: canonical_entries_def is_canonical_identity_def MAX_IDENTITY_BYTES_def is_ascii_lowercase_def
      revocations_new_def denylist_ok_def MAX_REVOKED_TOKENS_def fcard_finsert_if)

text \<open>
  A single-use identifier is admitted once before its expiry: after an accepted presentation,
  every later presentation up to the expiry is refused as a replay, whatever other identifiers were
  presented in between, and the guard never exceeds its capacity.
\<close>

theorem single_use_until_expiry:
  assumes "fst (guard_witness jti e now g) = Inr ()" and "list_all (\<lambda>(_, _, t). t \<le> e) ws" and "now' \<le> e"
  shows "fst (guard_witness jti e' now' (guard_run ws (snd (guard_witness jti e now g)))) = Inl CredentialReplayed"
  using guard_refuses [OF guard_run_keeps [OF guard_records [OF assms(1)] assms(2)] assms(3)] .

theorem single_use_until_expiry_witness:
  "fst (guard_witness ''tok'' 40 30 (guard_run [(''other'', 60, 20)] (snd (guard_witness ''tok'' 40 10 guard_new))))
     = Inl CredentialReplayed"
  by (rule single_use_until_expiry)
    (simp_all add: guard_witness_def guard_new_def MAX_REPLAY_ENTRIES_def fmretain_def Let_def)

end
