(* ===== verification/Token_Auth.thy ===== *)
theory Token_Auth
  imports Base64url Revocation
begin

section \<open>Identity tokens (crates/ccos-enterprise-auth, TokenAuthenticator)\<close>

text \<open>
  Issuing and verifying \<open>ccosid1\<close> tokens. The signature scheme of the crate \<open>ed25519_dalek\<close> is the
  pair of parameters \<open>sign\<close> and \<open>verify\<close> over a type of keys, the JSON of the claims the
  parameter \<open>cjson\<close>, and the Debug rendering of a string inside an error text the parameter
  \<open>dbg\<close>. The deny-list is passed as an argument, being shared with other verifiers; the
  single-use guard is the only state verification changes.

  The locale \<open>authenticator\<close> is the contract of the trait every mechanism implements.
\<close>

definition IDENTITY_TOKEN_PREFIX :: str where
  "IDENTITY_TOKEN_PREFIX = ''ccosid1''"

definition IDENTITY_TOKEN_ALGORITHM :: str where
  "IDENTITY_TOKEN_ALGORITHM = ''ed25519''"

definition IDENTITY_TOKEN_VERSION :: u32 where
  "IDENTITY_TOKEN_VERSION = 1"

definition MAX_TOKEN_BYTES :: nat where
  "MAX_TOKEN_BYTES = 4096"

definition MAX_TOKEN_LIFETIME_SECS :: u64 where
  "MAX_TOKEN_LIFETIME_SECS = 43200"

record identity_claims =
  ic_version :: u32
  ic_jti :: str
  ic_org :: str
  ic_actor :: str
  ic_audience :: str
  ic_issued_at :: u64
  ic_expires_at :: u64
  ic_not_before :: "u64 option"

record 'k token_authenticator =
  ta_issuers :: "(str, 'k) fmap"
  ta_audience :: str
  ta_attests :: auth_strength
  ta_leeway_secs :: u64
  ta_single_use :: "replay_guard option"

definition token_authenticator_new :: "str \<Rightarrow> auth_strength \<Rightarrow> 'k token_authenticator" where
  "token_authenticator_new audience attests =
     \<lparr>ta_issuers = fmempty, ta_audience = audience, ta_attests = attests, ta_leeway_secs = 60,
      ta_single_use = None\<rparr>"

definition single_use :: "'k token_authenticator \<Rightarrow> 'k token_authenticator" where
  "single_use a = a\<lparr>ta_single_use := Some guard_new\<rparr>"

definition token_with_leeway :: "u64 \<Rightarrow> 'k token_authenticator \<Rightarrow> 'k token_authenticator" where
  "token_with_leeway secs a = a\<lparr>ta_leeway_secs := secs\<rparr>"

definition add_issuer :: "str \<Rightarrow> 'k \<Rightarrow> 'k token_authenticator \<Rightarrow> bool \<times> 'k token_authenticator" where
  "add_issuer kid key a =
     (if \<not> is_canonical_identity kid then (False, a)
      else (True, a\<lparr>ta_issuers := fmupd kid key (ta_issuers a)\<rparr>))"

definition remove_issuer :: "str \<Rightarrow> 'k token_authenticator \<Rightarrow> bool \<times> 'k token_authenticator" where
  "remove_issuer kid a =
     (fmcontains (ta_issuers a) kid, a\<lparr>ta_issuers := fmdrop kid (ta_issuers a)\<rparr>)"

definition issuer_count :: "'k token_authenticator \<Rightarrow> nat" where
  "issuer_count a = fmlen (ta_issuers a)"

subsection \<open>Verification\<close>

definition token_envelope :: "str \<Rightarrow> auth_error + str \<times> str \<times> str" where
  "token_envelope presented =
     (if MAX_TOKEN_BYTES < length presented then Inl (Malformed ''over the size bound'')
      else case split_on (CHR ''.'') presented of
          [tag, alg, kid, payload, sig] \<Rightarrow>
            if tag \<noteq> IDENTITY_TOKEN_PREFIX then Inl (Malformed ''not an identity token'')
            else if alg \<noteq> IDENTITY_TOKEN_ALGORITHM then Inl (Malformed ''unsupported algorithm'')
            else Inr (kid, payload, sig)
        | parts \<Rightarrow>
            Inl (Malformed (''expected 5 dot-separated parts, found '' @ show_nat (length parts))))"

definition signing_input :: "str \<Rightarrow> str \<Rightarrow> str" where
  "signing_input kid payload_b64 =
     IDENTITY_TOKEN_PREFIX @ ''.'' @ IDENTITY_TOKEN_ALGORITHM @ ''.'' @ kid @ ''.'' @ payload_b64"

definition token_claims ::
  "('k \<Rightarrow> str \<Rightarrow> str \<Rightarrow> bool) \<Rightarrow> identity_claims json_codec \<Rightarrow> 'k token_authenticator \<Rightarrow> str
     \<Rightarrow> auth_error + identity_claims" where
  "token_claims verify cjson a presented =
     res_bind (token_envelope presented) (\<lambda>(kid, payload_b64, sig_b64).
     case fmlookup (ta_issuers a) kid of
       None \<Rightarrow> Inl UnknownIssuer
     | Some key \<Rightarrow>
     (case b64_decode sig_b64 of
       None \<Rightarrow> Inl (Malformed ''signature is not canonical base64url'')
     | Some sig \<Rightarrow>
     if length sig \<noteq> 64 then Inl (Malformed ''signature is not 64 bytes'')
     else if \<not> verify key (signing_input kid payload_b64) sig then Inl BadSignature
     else
     (case b64_decode payload_b64 of
       None \<Rightarrow> Inl (Malformed ''payload is not canonical base64url'')
     | Some payload \<Rightarrow>
     (case from_slice cjson payload of
       Inl e \<Rightarrow> Inl (MalformedClaims e)
     | Inr claims \<Rightarrow> Inr claims))))"

definition check_claims ::
  "(str \<Rightarrow> str) \<Rightarrow> 'k token_authenticator \<Rightarrow> u64 \<Rightarrow> identity_claims \<Rightarrow> auth_error + unit" where
  "check_claims dbg a now c =
     (if ic_version c \<noteq> IDENTITY_TOKEN_VERSION then
        Inl (MalformedClaims (''unsupported claims version '' @ show_nat (unat (ic_version c))))
      else if ic_audience c \<noteq> ta_audience a then Inl WrongAudience
      else if \<not> is_canonical_identity (ic_org c) then Inl (MalformedIdentity (''org '' @ dbg (ic_org c)))
      else if \<not> is_canonical_identity (ic_actor c) then
        Inl (MalformedIdentity (''actor '' @ dbg (ic_actor c)))
      else if ic_expires_at c \<le> ic_issued_at c then
        Inl (MalformedClaims ''expires_at is not after issued_at'')
      else if MAX_TOKEN_LIFETIME_SECS < ic_expires_at c - ic_issued_at c then Inl LifetimeTooLong
      else if sat_add (ic_expires_at c) (ta_leeway_secs a) < now then Inl CredentialExpired
      else if (case ic_not_before c of None \<Rightarrow> False | Some nbf \<Rightarrow> sat_add now (ta_leeway_secs a) < nbf) then
        Inl NotYetValid
      else if \<not> is_canonical_identity (ic_jti c) then Inl (MalformedIdentity (''jti '' @ dbg (ic_jti c)))
      else Inr ())"

definition token_authenticate ::
  "('k \<Rightarrow> str \<Rightarrow> str \<Rightarrow> bool) \<Rightarrow> identity_claims json_codec \<Rightarrow> (str \<Rightarrow> str) \<Rightarrow> 'k token_authenticator
     \<Rightarrow> revocations \<Rightarrow> str \<Rightarrow> u64 \<Rightarrow> (auth_error + authenticated_actor) \<times> 'k token_authenticator" where
  "token_authenticate verify cjson dbg a r presented now =
     (case res_bind (token_claims verify cjson a presented) (\<lambda>c.
             res_bind (check_claims dbg a now c) (\<lambda>_. Inr c)) of
        Inl e \<Rightarrow> (Inl e, a)
      | Inr c \<Rightarrow>
          let org = OrgId (ic_org c); actor = ActorId (ic_actor c) in
          if credential_revoked r (Some (ic_jti c)) org actor (ic_issued_at c) then
            (Inl CredentialRevoked, a)
          else case ta_single_use a of
              None \<Rightarrow> (Inr (proved org actor (ta_attests a)), a)
            | Some g \<Rightarrow>
                (case guard_witness (ic_jti c) (ic_expires_at c) now g of
                   (Inl e, g) \<Rightarrow> (Inl e, a\<lparr>ta_single_use := Some g\<rparr>)
                 | (Inr _, g) \<Rightarrow>
                     (Inr (proved org actor (ta_attests a)), a\<lparr>ta_single_use := Some g\<rparr>)))"

subsection \<open>Issuing\<close>

definition issue_identity_token ::
  "(str \<Rightarrow> str \<Rightarrow> str) \<Rightarrow> identity_claims json_codec \<Rightarrow> (str \<Rightarrow> str) \<Rightarrow> str \<Rightarrow> str \<Rightarrow> identity_claims
     \<Rightarrow> auth_error + str" where
  "issue_identity_token sign cjson dbg seed kid c =
     (if \<not> is_canonical_identity kid then Inl (MalformedIdentity (''key id '' @ dbg kid))
      else if \<not> is_canonical_identity (ic_org c) \<or> \<not> is_canonical_identity (ic_actor c)
              \<or> \<not> is_canonical_identity (ic_jti c) then
        Inl (MalformedIdentity ''org, actor and jti must be canonical'')
      else if ic_expires_at c \<le> ic_issued_at c then
        Inl (MalformedClaims ''expires_at is not after issued_at'')
      else if MAX_TOKEN_LIFETIME_SECS < ic_expires_at c - ic_issued_at c then Inl LifetimeTooLong
      else case to_vec cjson c of
          Inl e \<Rightarrow> Inl (MalformedClaims (''claims JSON: '' @ e))
        | Inr json \<Rightarrow>
            let input = signing_input kid (b64_encode json) in
            Inr (input @ ''.'' @ b64_encode (sign seed input)))"

subsection \<open>The contract of a verifier\<close>

text \<open>
  What admission relies on, whatever the mechanism: an accepted credential names canonical
  identities, is attested at most at the mechanism's ceiling, and belongs to no actor the
  deny-list withdraws for good.
\<close>

locale authenticator =
  fixes authenticate :: "'s \<Rightarrow> revocations \<Rightarrow> 'c \<Rightarrow> u64 \<Rightarrow> (auth_error + authenticated_actor) \<times> 's"
    and ceiling :: "'s \<Rightarrow> auth_strength"
  assumes canonical: "fst (authenticate s r c now) = Inr a \<Longrightarrow>
      is_canonical_identity (org_name (aa_org a)) \<and> is_canonical_identity (actor_name (aa_actor a))"
    and attested: "fst (authenticate s r c now) = Inr a \<Longrightarrow> aa_strength a \<le> ceiling s"
    and denied: "fst (authenticate s r c now) = Inr a \<Longrightarrow>
      \<not> actor_listed r (org_name (aa_org a)) (actor_name (aa_actor a)) (-1)"
begin

text \<open>An actor withdrawn for every issue time stays out until it is restored.\<close>

lemma banned_actor:
  assumes "fst (revoke_actor org actor (-1) r)"
    and "list_all (keeps_actor (org_name org) (actor_name actor)) es"
    and "fst (authenticate s (run_events es (snd (revoke_actor org actor (-1) r))) c now) = Inr a"
  shows "(aa_org a, aa_actor a) \<noteq> (org, actor)"
  using denied [OF assms(3)] actor_listed_run [OF revoke_actor_lists [OF assms(1)] assms(2)] by auto

lemma below_ceiling: "ceiling s < strength \<Longrightarrow> fst (authenticate s r c now) = Inr a \<Longrightarrow> aa_strength a < strength"
  using attested by (meson le_less_trans)

end

subsection \<open>Lemmas\<close>

lemma envelope_iff:
  "token_envelope presented = Inr (kid, payload, sig) \<longleftrightarrow>
     length presented \<le> MAX_TOKEN_BYTES
     \<and> split_on (CHR ''.'') presented = [IDENTITY_TOKEN_PREFIX, IDENTITY_TOKEN_ALGORITHM, kid, payload, sig]"
  by (auto simp: token_envelope_def split: list.splits)

lemma envelope_input:
  assumes "token_envelope presented = Inr (kid, payload, sig)"
  shows "presented = signing_input kid payload @ ''.'' @ sig"
  using assms unfolding envelope_iff signing_input_def
  by (auto dest!: split_on_ConsD split_on_singleD)

lemma token_claims_iff:
  "token_claims verify cjson a presented = Inr c \<longleftrightarrow>
     (\<exists>kid payload_b64 sig_b64 key sig payload.
        token_envelope presented = Inr (kid, payload_b64, sig_b64) \<and> fmlookup (ta_issuers a) kid = Some key
        \<and> b64_decode sig_b64 = Some sig \<and> length sig = 64 \<and> verify key (signing_input kid payload_b64) sig
        \<and> b64_decode payload_b64 = Some payload \<and> from_slice cjson payload = Inr c)"
  by (auto simp: token_claims_def ok_simps)

lemma check_claims_iff:
  "check_claims dbg a now c = Inr () \<longleftrightarrow>
     ic_version c = IDENTITY_TOKEN_VERSION \<and> ic_audience c = ta_audience a
     \<and> is_canonical_identity (ic_org c) \<and> is_canonical_identity (ic_actor c) \<and> is_canonical_identity (ic_jti c)
     \<and> ic_issued_at c < ic_expires_at c \<and> ic_expires_at c - ic_issued_at c \<le> MAX_TOKEN_LIFETIME_SECS
     \<and> now \<le> sat_add (ic_expires_at c) (ta_leeway_secs a)
     \<and> (\<forall>nbf. ic_not_before c = Some nbf \<longrightarrow> nbf \<le> sat_add now (ta_leeway_secs a))"
  by (auto simp: check_claims_def ok_simps not_le not_less split: option.splits)

lemma token_accepted_iff:
  "fst (token_authenticate verify cjson dbg a r presented now) = Inr actor \<longleftrightarrow>
     (\<exists>c. token_claims verify cjson a presented = Inr c \<and> check_claims dbg a now c = Inr ()
        \<and> \<not> credential_revoked r (Some (ic_jti c)) (OrgId (ic_org c)) (ActorId (ic_actor c)) (ic_issued_at c)
        \<and> (\<forall>g. ta_single_use a = Some g \<longrightarrow> fst (guard_witness (ic_jti c) (ic_expires_at c) now g) = Inr ())
        \<and> actor = proved (OrgId (ic_org c)) (ActorId (ic_actor c)) (ta_attests a))"
  by (cases "token_claims verify cjson a presented"; cases "check_claims dbg a now (projr (token_claims verify cjson a presented))")
    (auto simp: token_authenticate_def Let_def split: option.splits prod.splits sum.splits)

lemma token_authenticate_state:
  assumes "fst (token_authenticate verify cjson dbg a r presented now) = Inr actor"
    and "token_claims verify cjson a presented = Inr c"
  shows "snd (token_authenticate verify cjson dbg a r presented now) =
    a\<lparr>ta_single_use := map_option (\<lambda>g. snd (guard_witness (ic_jti c) (ic_expires_at c) now g)) (ta_single_use a)\<rparr>"
  using assms
  by (auto simp: token_accepted_iff) (auto simp: token_authenticate_def Let_def split: option.splits prod.splits sum.splits)

lemma signed_envelope:
  assumes "is_canonical_identity kid" and "length (signing_input kid (b64_encode p) @ ''.'' @ b64_encode s) \<le> MAX_TOKEN_BYTES"
  shows "token_envelope (signing_input kid (b64_encode p) @ ''.'' @ b64_encode s) =
    Inr (kid, b64_encode p, b64_encode s)"
proof -
  have "split_on (CHR ''.'') (signing_input kid (b64_encode p) @ ''.'' @ b64_encode s) =
      [IDENTITY_TOKEN_PREFIX, IDENTITY_TOKEN_ALGORITHM, kid, b64_encode p, b64_encode s]"
    using canonical_identity_no_dot [OF assms(1)]
    by (simp add: signing_input_def IDENTITY_TOKEN_PREFIX_def IDENTITY_TOKEN_ALGORITHM_def split_on_line
        split_on_none b64_encode_no_dot)
  with assms(2) show ?thesis unfolding envelope_iff by blast
qed

text \<open>An entry a later call prunes is no entry: past its own expiry an identifier is never refused.\<close>

lemma expired_not_witnessed:
  assumes "e < now" and "fst (guard_witness jti e now g) = Inr ()"
  shows "fst (guard_witness jti e now (snd (guard_witness jti e now g))) = Inr ()"
proof -
  let ?seen = "fmretain (\<lambda>x. now \<le> x) (gd_seen g)"
  have fresh: "\<not> fmcontains ?seen jti" "fmlen ?seen < gd_capacity g"
    using assms(2) by (auto simp: guard_witness_def Let_def split: if_splits)
  have "fmretain (\<lambda>x. now \<le> x) (fmupd jti e ?seen) = ?seen"
    using fresh(1) assms(1) by (intro fmap_ext) (auto simp: fmlookup_dom_iff split: option.splits)
  with fresh show ?thesis by (simp add: guard_witness_def Let_def)
qed

lemma not_revoked_not_listed:
  "\<not> credential_revoked r jti org actor t \<Longrightarrow> \<not> actor_listed r (org_name org) (actor_name actor) (-1)"
  using order_trans [OF word_n1_ge [of t]] by (auto simp: credential_revoked_def actor_listed_def split: option.splits)

interpretation token: authenticator "token_authenticate verify cjson dbg" ta_attests
  for verify :: "'k \<Rightarrow> str \<Rightarrow> str \<Rightarrow> bool" and cjson :: "identity_claims json_codec" and dbg :: "str \<Rightarrow> str"
proof (unfold_locales, goal_cases)
  case (1 s r c now a)
  then show ?case by (auto simp: token_accepted_iff check_claims_iff proved_def)
next
  case (2 s r c now a)
  then show ?case by (auto simp: token_accepted_iff proved_def)
next
  case (3 s r c now a)
  then obtain cl :: identity_claims where "\<not> credential_revoked r (Some (ic_jti cl)) (OrgId (ic_org cl)) (ActorId (ic_actor cl)) (ic_issued_at cl)"
    and "a = proved (OrgId (ic_org cl)) (ActorId (ic_actor cl)) (ta_attests s)"
    unfolding token_accepted_iff by blast
  then show ?case by (auto simp: proved_def dest: not_revoked_not_listed)
qed

end
