(* ===== verification/Peer_Auth.thy ===== *)
theory Peer_Auth
  imports Token_Auth
begin

section \<open>Transport peers and OIDC tokens (crates/ccos-enterprise-auth, mtls.rs and oidc.rs)\<close>

text \<open>
  The two other verifiers. \<open>MtlsAuthenticator\<close> turns a peer whose certificate chain the transport has
  verified into a strong identity; \<open>OidcAuthenticator\<close> verifies a signed JWT of a configured provider.
  Both read the shared deny-list, which is an argument here. What the source uses of JSON values is the
  parameter \<open>jv\<close> and the Debug rendering of a string the parameter
  \<open>dbg\<close>. Both are instances of the contract \<open>authenticator\<close> and keep no state of their own.
\<close>

subsection \<open>Verified transport peers\<close>

record verified_peer =
  vp_issuer_spki_sha256 :: str
  vp_org :: str
  vp_actor :: str
  vp_not_after :: u64
  vp_not_before :: "u64 option"

definition attested_with_anchor :: "str \<Rightarrow> str \<Rightarrow> str \<Rightarrow> u64 \<Rightarrow> u64 option \<Rightarrow> verified_peer" where
  "attested_with_anchor spki org actor not_after not_before =
     \<lparr>vp_issuer_spki_sha256 = spki, vp_org = org, vp_actor = actor, vp_not_after = not_after,
      vp_not_before = not_before\<rparr>"

record mtls_authenticator =
  mt_anchors :: "str fset"
  mt_leeway_secs :: u64

definition mtls_new :: mtls_authenticator where
  "mtls_new = \<lparr>mt_anchors = {||}, mt_leeway_secs = 60\<rparr>"

definition mtls_with_leeway :: "u64 \<Rightarrow> mtls_authenticator \<Rightarrow> mtls_authenticator" where
  "mtls_with_leeway secs m = m\<lparr>mt_leeway_secs := secs\<rparr>"

definition trust_anchor :: "str \<Rightarrow> mtls_authenticator \<Rightarrow> bool \<times> mtls_authenticator" where
  "trust_anchor spki m = (spki |\<notin>| mt_anchors m, m\<lparr>mt_anchors := finsert spki (mt_anchors m)\<rparr>)"

definition distrust_anchor :: "str \<Rightarrow> mtls_authenticator \<Rightarrow> bool \<times> mtls_authenticator" where
  "distrust_anchor spki m = (spki |\<in>| mt_anchors m, m\<lparr>mt_anchors := mt_anchors m |-| {|spki|}\<rparr>)"

definition anchor_count :: "mtls_authenticator \<Rightarrow> nat" where
  "anchor_count m = fcard (mt_anchors m)"

definition authenticate_peer ::
  "(str \<Rightarrow> str) \<Rightarrow> mtls_authenticator \<Rightarrow> revocations \<Rightarrow> verified_peer \<Rightarrow> u64
     \<Rightarrow> auth_error + authenticated_actor" where
  "authenticate_peer dbg m r peer now =
     (if vp_issuer_spki_sha256 peer |\<notin>| mt_anchors m then Inl UntrustedIssuer
      else if credential_revoked r None (OrgId (vp_org peer)) (ActorId (vp_actor peer)) now then
        Inl CredentialRevoked
      else if sat_add (vp_not_after peer) (mt_leeway_secs m) < now then Inl PeerExpired
      else if (case vp_not_before peer of None \<Rightarrow> False
               | Some not_before \<Rightarrow> sat_add now (mt_leeway_secs m) < not_before) then Inl NotYetValid
      else if \<not> is_canonical_identity (vp_org peer) then
        Inl (MalformedIdentity (''org '' @ dbg (vp_org peer)))
      else if \<not> is_canonical_identity (vp_actor peer) then
        Inl (MalformedIdentity (''actor '' @ dbg (vp_actor peer)))
      else Inr (proved (OrgId (vp_org peer)) (ActorId (vp_actor peer)) Strong))"

lemma peer_accepted_iff:
  "authenticate_peer dbg m r peer now = Inr a \<longleftrightarrow>
     vp_issuer_spki_sha256 peer |\<in>| mt_anchors m
     \<and> \<not> credential_revoked r None (OrgId (vp_org peer)) (ActorId (vp_actor peer)) now
     \<and> now \<le> sat_add (vp_not_after peer) (mt_leeway_secs m)
     \<and> (\<forall>t. vp_not_before peer = Some t \<longrightarrow> t \<le> sat_add now (mt_leeway_secs m))
     \<and> is_canonical_identity (vp_org peer) \<and> is_canonical_identity (vp_actor peer)
     \<and> a = proved (OrgId (vp_org peer)) (ActorId (vp_actor peer)) Strong"
  by (auto simp: authenticate_peer_def ok_simps not_less split: option.splits)

interpretation mtls: authenticator "\<lambda>m r peer now. (authenticate_peer dbg m r peer now, m)" "\<lambda>_. Strong"
  for dbg :: "str \<Rightarrow> str"
proof (unfold_locales, goal_cases)
  case (3 s r c now a)
  then show ?case
    using not_revoked_not_listed [of r None "OrgId (vp_org c)" "ActorId (vp_actor c)" now]
    by (auto simp: peer_accepted_iff proved_def)
qed (auto simp: peer_accepted_iff proved_def)

subsection \<open>OIDC tokens\<close>

text \<open>What the source uses of \<open>serde_json::Value\<close>: \<open>from_slice\<close>, \<open>get\<close> of an object's member,
  \<open>as_str\<close> and \<open>as_u64\<close>, and the elements of a value that is an array. A parameter of the verifier.\<close>

record 'v json_view =
  jv_parse :: "str \<Rightarrow> str + 'v"
  jv_get :: "'v \<Rightarrow> str \<Rightarrow> 'v option"
  jv_as_str :: "'v \<Rightarrow> str option"
  jv_as_u64 :: "'v \<Rightarrow> u64 option"
  jv_as_array :: "'v \<Rightarrow> 'v list option"

definition OIDC_ALGORITHM :: str where
  "OIDC_ALGORITHM = ''EdDSA''"

record 'k oidc_authenticator =
  oi_keys :: "(str, 'k) fmap"
  oi_issuer :: str
  oi_audience :: str
  oi_org_claim :: str
  oi_leeway_secs :: u64

definition oidc_new :: "str \<Rightarrow> str \<Rightarrow> str \<Rightarrow> 'k oidc_authenticator" where
  "oidc_new issuer audience org_claim =
     \<lparr>oi_keys = fmempty, oi_issuer = issuer, oi_audience = audience, oi_org_claim = org_claim,
      oi_leeway_secs = 60\<rparr>"

definition oidc_with_leeway :: "u64 \<Rightarrow> 'k oidc_authenticator \<Rightarrow> 'k oidc_authenticator" where
  "oidc_with_leeway secs a = a\<lparr>oi_leeway_secs := secs\<rparr>"

definition add_key :: "str \<Rightarrow> 'k \<Rightarrow> 'k oidc_authenticator \<Rightarrow> bool \<times> 'k oidc_authenticator" where
  "add_key kid key a =
     (if \<not> is_canonical_identity kid then (False, a)
      else (True, a\<lparr>oi_keys := fmupd kid key (oi_keys a)\<rparr>))"

definition remove_key :: "str \<Rightarrow> 'k oidc_authenticator \<Rightarrow> bool \<times> 'k oidc_authenticator" where
  "remove_key kid a = (fmcontains (oi_keys a) kid, a\<lparr>oi_keys := fmdrop kid (oi_keys a)\<rparr>)"

definition key_count :: "'k oidc_authenticator \<Rightarrow> nat" where
  "key_count a = fmlen (oi_keys a)"

definition string_claim :: "'v json_view \<Rightarrow> 'v \<Rightarrow> str \<Rightarrow> str option" where
  "string_claim jv v name = Option.bind (jv_get jv v name) (jv_as_str jv)"

definition u64_claim :: "'v json_view \<Rightarrow> 'v \<Rightarrow> str \<Rightarrow> u64 option" where
  "u64_claim jv v name = Option.bind (jv_get jv v name) (jv_as_u64 jv)"

definition audience_matches :: "'v json_view \<Rightarrow> 'v \<Rightarrow> str \<Rightarrow> bool" where
  "audience_matches jv claims want =
     (case jv_get jv claims ''aud'' of
        None \<Rightarrow> False
      | Some aud \<Rightarrow>
          (case jv_as_str jv aud of
             Some s \<Rightarrow> s = want
           | None \<Rightarrow>
               (case jv_as_array jv aud of
                  Some items \<Rightarrow> list_ex (\<lambda>i. jv_as_str jv i = Some want) items
                | None \<Rightarrow> False)))"

definition audience_is_multiple :: "'v json_view \<Rightarrow> 'v \<Rightarrow> bool" where
  "audience_is_multiple jv claims =
     (case Option.bind (jv_get jv claims ''aud'') (jv_as_array jv) of
        Some items \<Rightarrow> 1 < length items
      | None \<Rightarrow> False)"

text \<open>\<open>authenticate\<close> in three stretches: the envelope up to the verified payload, the claims, and the
  identity with the deny-list.\<close>

definition oidc_claims ::
  "('k \<Rightarrow> str \<Rightarrow> str \<Rightarrow> bool) \<Rightarrow> 'v json_view \<Rightarrow> 'k oidc_authenticator \<Rightarrow> str
     \<Rightarrow> auth_error + 'v" where
  "oidc_claims verify jv a presented =
     (if MAX_TOKEN_BYTES < length presented then Inl (Malformed ''over the size bound'')
      else case split_on (CHR ''.'') presented of
        [header_b64, payload_b64, sig_b64] \<Rightarrow>
          (case b64_decode header_b64 of
             None \<Rightarrow> Inl (Malformed ''header is not canonical base64url'')
           | Some header_bytes \<Rightarrow>
          (case jv_parse jv header_bytes of
             Inl e \<Rightarrow> Inl (Malformed (''header JSON: '' @ e))
           | Inr header \<Rightarrow>
          if string_claim jv header ''alg'' \<noteq> Some OIDC_ALGORITHM then Inl (Malformed ''unsupported algorithm'')
          else
          (case string_claim jv header ''kid'' of
             None \<Rightarrow> Inl (Malformed ''header names no key id'')
           | Some kid \<Rightarrow>
          (case fmlookup (oi_keys a) kid of
             None \<Rightarrow> Inl UnknownIssuer
           | Some key \<Rightarrow>
          (case b64_decode sig_b64 of
             None \<Rightarrow> Inl (Malformed ''signature is not canonical base64url'')
           | Some sig \<Rightarrow>
          if length sig \<noteq> 64 then Inl (Malformed ''signature is not 64 bytes'')
          else if \<not> verify key (header_b64 @ ''.'' @ payload_b64) sig then Inl BadSignature
          else
          (case b64_decode payload_b64 of
             None \<Rightarrow> Inl (Malformed ''payload is not canonical base64url'')
           | Some payload \<Rightarrow>
          (case jv_parse jv payload of
             Inl e \<Rightarrow> Inl (MalformedClaims (''payload JSON: '' @ e))
           | Inr claims \<Rightarrow> Inr claims)))))))
      | parts \<Rightarrow>
          Inl (Malformed (''expected 3 dot-separated parts, found '' @ show_nat (length parts))))"

definition oidc_check_claims ::
  "'v json_view \<Rightarrow> 'k oidc_authenticator \<Rightarrow> u64 \<Rightarrow> 'v \<Rightarrow> auth_error + u64" where
  "oidc_check_claims jv a now claims =
     (if string_claim jv claims ''iss'' \<noteq> Some (oi_issuer a) then Inl UnknownIssuer
      else if \<not> audience_matches jv claims (oi_audience a) then Inl WrongAudience
      else if audience_is_multiple jv claims \<and> string_claim jv claims ''azp'' \<noteq> Some (oi_audience a) then
        Inl WrongAudience
      else case u64_claim jv claims ''exp'' of
          None \<Rightarrow> Inl (MalformedClaims ''no exp claim'')
        | Some exp \<Rightarrow>
      (case u64_claim jv claims ''iat'' of
          None \<Rightarrow> Inl (MalformedClaims ''no iat claim'')
        | Some iat \<Rightarrow>
      if exp \<le> iat then Inl (MalformedClaims ''exp is not after iat'')
      else if MAX_TOKEN_LIFETIME_SECS < exp - iat then Inl LifetimeTooLong
      else if sat_add exp (oi_leeway_secs a) < now then Inl CredentialExpired
      else if (case u64_claim jv claims ''nbf'' of None \<Rightarrow> False
               | Some nbf \<Rightarrow> sat_add now (oi_leeway_secs a) < nbf) then Inl NotYetValid
      else Inr iat))"

definition oidc_identity ::
  "'v json_view \<Rightarrow> (str \<Rightarrow> str) \<Rightarrow> 'k oidc_authenticator \<Rightarrow> revocations \<Rightarrow> 'v \<Rightarrow> u64
     \<Rightarrow> auth_error + authenticated_actor" where
  "oidc_identity jv dbg a r claims iat =
     (case string_claim jv claims ''sub'' of
        None \<Rightarrow> Inl (MalformedClaims ''no sub claim'')
      | Some sub \<Rightarrow>
      (case string_claim jv claims (oi_org_claim a) of
        None \<Rightarrow> Inl (MalformedClaims (''no '' @ dbg (oi_org_claim a) @ '' claim''))
      | Some org \<Rightarrow>
      if \<not> is_canonical_identity org then Inl (MalformedIdentity (''org '' @ dbg org))
      else if \<not> is_canonical_identity sub then Inl (MalformedIdentity (''sub '' @ dbg sub))
      else if credential_revoked r (string_claim jv claims ''jti'') (OrgId org) (ActorId sub) iat then
        Inl CredentialRevoked
      else Inr (proved (OrgId org) (ActorId sub) Token)))"

definition oidc_authenticate ::
  "('k \<Rightarrow> str \<Rightarrow> str \<Rightarrow> bool) \<Rightarrow> 'v json_view \<Rightarrow> (str \<Rightarrow> str) \<Rightarrow> 'k oidc_authenticator
     \<Rightarrow> revocations \<Rightarrow> str \<Rightarrow> u64 \<Rightarrow> auth_error + authenticated_actor" where
  "oidc_authenticate verify jv dbg a r presented now =
     res_bind (oidc_claims verify jv a presented) (\<lambda>claims.
     res_bind (oidc_check_claims jv a now claims) (oidc_identity jv dbg a r claims))"

lemma oidc_claims_signed:
  assumes "oidc_claims verify jv a presented = Inr claims"
  shows "\<exists>header_b64 payload_b64 sig_b64 header_bytes header kid key sig payload.
    presented = header_b64 @ ''.'' @ payload_b64 @ ''.'' @ sig_b64
    \<and> b64_decode header_b64 = Some header_bytes \<and> jv_parse jv header_bytes = Inr header
    \<and> string_claim jv header ''alg'' = Some OIDC_ALGORITHM \<and> string_claim jv header ''kid'' = Some kid
    \<and> fmlookup (oi_keys a) kid = Some key
    \<and> b64_decode sig_b64 = Some sig \<and> length sig = 64 \<and> verify key (header_b64 @ ''.'' @ payload_b64) sig
    \<and> b64_decode payload_b64 = Some payload \<and> jv_parse jv payload = Inr claims"
proof -
  obtain h p s where parts: "split_on (CHR ''.'') presented = [h, p, s]"
    using assms by (auto simp: oidc_claims_def ok_simps split: list.splits)
  then have "presented = h @ ''.'' @ p @ ''.'' @ s"
    by (auto dest!: split_on_ConsD split_on_singleD)
  then show ?thesis
    using assms parts 
    by - (rule exI [of _ h], rule exI [of _ p], rule exI [of _ s], auto simp: oidc_claims_def ok_simps)
qed

lemma oidc_identity_iff:
  "oidc_identity jv dbg a r claims iat = Inr actor \<longleftrightarrow>
     (\<exists>sub org. string_claim jv claims ''sub'' = Some sub \<and> string_claim jv claims (oi_org_claim a) = Some org
        \<and> is_canonical_identity org \<and> is_canonical_identity sub
        \<and> \<not> credential_revoked r (string_claim jv claims ''jti'') (OrgId org) (ActorId sub) iat
        \<and> actor = proved (OrgId org) (ActorId sub) Token)"
  by (auto simp: oidc_identity_def ok_simps)

lemma oidc_check_claims_iff:
  "oidc_check_claims jv a now claims = Inr iat \<longleftrightarrow>
     string_claim jv claims ''iss'' = Some (oi_issuer a) \<and> audience_matches jv claims (oi_audience a)
     \<and> (audience_is_multiple jv claims \<longrightarrow> string_claim jv claims ''azp'' = Some (oi_audience a))
     \<and> u64_claim jv claims ''iat'' = Some iat
     \<and> (\<exists>exp. u64_claim jv claims ''exp'' = Some exp \<and> iat < exp \<and> exp - iat \<le> MAX_TOKEN_LIFETIME_SECS
          \<and> now \<le> sat_add exp (oi_leeway_secs a))
     \<and> (\<forall>nbf. u64_claim jv claims ''nbf'' = Some nbf \<longrightarrow> nbf \<le> sat_add now (oi_leeway_secs a))"
  by (auto simp: oidc_check_claims_def ok_simps not_le not_less split: option.splits)

interpretation oidc: authenticator
    "\<lambda>a r presented now. (oidc_authenticate verify jv dbg a r presented now, a)" "\<lambda>_. Token"
  for verify :: "'k \<Rightarrow> str \<Rightarrow> str \<Rightarrow> bool" and jv :: "'v json_view" and dbg :: "str \<Rightarrow> str"
proof (unfold_locales, goal_cases)
  case (3 s r c now a)
  then show ?case
    using not_revoked_not_listed by (fastforce simp: oidc_authenticate_def oidc_identity_iff proved_def)
qed (auto simp: oidc_authenticate_def oidc_identity_iff proved_def)

end
