(* ===== verification/Auth_Properties.thy ===== *)
theory Auth_Properties
  imports Peer_Auth
begin

section \<open>What the verifiers guarantee\<close>

text \<open>
  The properties of the three verifiers and of their deny-list, each with its instance on a sample
  deployment: a signature scheme over string keys whose 64-byte signatures start with the key, and
  a codec of claims that carries the identifier only.
\<close>

subsection \<open>A sample deployment\<close>

definition sample_sign :: "str \<Rightarrow> str \<Rightarrow> str" where
  "sample_sign seed msg = take 64 (seed @ rev msg @ replicate 64 (CHR ''x''))"

definition sample_verify :: "str \<Rightarrow> str \<Rightarrow> str \<Rightarrow> bool" where
  "sample_verify key msg sig \<longleftrightarrow> sig = sample_sign key msg"

definition sample_claims :: identity_claims where
  "sample_claims =
     \<lparr>ic_version = 1, ic_jti = ''t1'', ic_org = ''acme'', ic_actor = ''bob'', ic_audience = ''prod'',
      ic_issued_at = 1000, ic_expires_at = 2000, ic_not_before = None\<rparr>"

definition sample_codec :: "identity_claims json_codec" where
  "sample_codec = \<lparr>from_slice = (\<lambda>b. Inr (sample_claims\<lparr>ic_jti := b\<rparr>)), to_vec = (\<lambda>c. Inr (ic_jti c))\<rparr>"

definition sample_verifier :: "str token_authenticator" where
  "sample_verifier = snd (add_issuer ''k1'' ''seed'' (token_authenticator_new ''prod'' Token))"

definition sample_token :: str where
  "sample_token = projr (issue_identity_token sample_sign sample_codec id ''seed'' ''k1'' sample_claims)"

lemma sample_canonical [simp]:
  "is_canonical_identity ''t1''" "is_canonical_identity ''acme''" "is_canonical_identity ''bob''"
  "is_canonical_identity ''k1''"
  by (simp_all add: is_canonical_identity_def MAX_IDENTITY_BYTES_def is_ascii_lowercase_def is_ascii_digit_def)

lemma sample_issued:
  "issue_identity_token sample_sign sample_codec id ''seed'' ''k1'' sample_claims = Inr sample_token"
  by (simp add: sample_token_def issue_identity_token_def sample_claims_def sample_codec_def
      MAX_TOKEN_LIFETIME_SECS_def Let_def)

lemma length_sample_sign [simp]: "length (sample_sign seed msg) = 64"
  by (simp add: sample_sign_def)

lemma length_b64_encode: "length (b64_encode bs) \<le> 2 * length bs + 2"
  by (induction bs rule: b64_encode.induct) (auto simp: Let_def)

lemma sample_token_eq:
  "sample_token = (let input = signing_input ''k1'' (b64_encode ''t1'')
     in input @ ''.'' @ b64_encode (sample_sign ''seed'' input))"
  using sample_issued
  by (auto simp: issue_identity_token_def sample_claims_def sample_codec_def Let_def ok_simps)

lemma sample_token_short: "length sample_token \<le> MAX_TOKEN_BYTES"
  using length_b64_encode [of "sample_sign ''seed'' (signing_input ''k1'' (b64_encode ''t1''))"]
    length_b64_encode [of "''t1''"]
  by (simp add: sample_token_eq Let_def signing_input_def IDENTITY_TOKEN_PREFIX_def IDENTITY_TOKEN_ALGORITHM_def
      MAX_TOKEN_BYTES_def)

subsection \<open>Identity tokens\<close>

lemma issued_tokenE:
  assumes "issue_identity_token sign cjson dbg seed kid c = Inr tok"
  obtains json where "to_vec cjson c = Inr json"
    and "tok = signing_input kid (b64_encode json) @ ''.'' @ b64_encode (sign seed (signing_input kid (b64_encode json)))"
    and "is_canonical_identity kid" "is_canonical_identity (ic_org c)" "is_canonical_identity (ic_actor c)"
      "is_canonical_identity (ic_jti c)" "ic_issued_at c < ic_expires_at c"
      "ic_expires_at c - ic_issued_at c \<le> MAX_TOKEN_LIFETIME_SECS"
  using assms by (auto simp: issue_identity_token_def ok_simps Let_def not_le not_less)

lemma issued_token_claims:
  assumes "issue_identity_token sign cjson dbg seed kid c = Inr tok" and "length tok \<le> MAX_TOKEN_BYTES"
    and "\<And>msg. verify key msg (sign seed msg) \<and> length (sign seed msg) = 64"
    and "\<And>json. to_vec cjson c = Inr json \<Longrightarrow> from_slice cjson json = Inr c"
    and "fmlookup (ta_issuers a) kid = Some key"
  shows "token_claims verify cjson a tok = Inr c"
proof -
  obtain json where json: "to_vec cjson c = Inr json" and kid: "is_canonical_identity kid"
    and tok: "tok = signing_input kid (b64_encode json) @ ''.'' @ b64_encode (sign seed (signing_input kid (b64_encode json)))"
    using assms(1) by (rule issued_tokenE)
  show ?thesis
    unfolding token_claims_iff tok
    using signed_envelope [OF kid] assms(2,3,5) assms(4) [OF json] b64_roundtrip
    by (metis tok)
qed

text \<open>A saturating addition decides a window as the exact sum does.\<close>

lemma past_window: "sat_add x y < (z :: u64) \<longleftrightarrow> unat x + unat y < unat z"
  using unat_u64_le [of z] by (auto simp: word_less_nat_alt u64_simps min_def simp del: unat_u64_le)

lemma issued_token_outcome:
  assumes "issue_identity_token sign cjson dbg seed kid c = Inr tok" and "token_claims verify cjson a tok = Inr c"
  shows "fst (token_authenticate verify cjson dbg a r tok now) =
    (if ic_version c \<noteq> IDENTITY_TOKEN_VERSION
     then Inl (MalformedClaims (''unsupported claims version '' @ show_nat (unat (ic_version c))))
     else if ic_audience c \<noteq> ta_audience a then Inl WrongAudience
     else if unat (ic_expires_at c) + unat (ta_leeway_secs a) < unat now then Inl CredentialExpired
     else if \<exists>nbf. ic_not_before c = Some nbf \<and> unat now + unat (ta_leeway_secs a) < unat nbf then Inl NotYetValid
     else if credential_revoked r (Some (ic_jti c)) (OrgId (ic_org c)) (ActorId (ic_actor c)) (ic_issued_at c)
       then Inl CredentialRevoked
     else case ta_single_use a of
         None \<Rightarrow> Inr (proved (OrgId (ic_org c)) (ActorId (ic_actor c)) (ta_attests a))
       | Some g \<Rightarrow>
           (case fst (guard_witness (ic_jti c) (ic_expires_at c) now g) of
              Inl e \<Rightarrow> Inl e
            | Inr _ \<Rightarrow> Inr (proved (OrgId (ic_org c)) (ActorId (ic_actor c)) (ta_attests a))))"
  using assms(1)
proof (rule issued_tokenE)
qed (use assms(2) in \<open>auto simp: token_authenticate_def check_claims_def ok_simps Let_def past_window split: option.splits sum.splits prod.splits\<close>)

lemma sample_trusts: "fmlookup (ta_issuers sample_verifier) ''k1'' = Some ''seed''"
  "ta_single_use sample_verifier = None" "ta_audience sample_verifier = ''prod''"
  "ta_leeway_secs sample_verifier = 60" "ta_attests sample_verifier = Token"
  by (simp_all add: sample_verifier_def add_issuer_def token_authenticator_new_def)

lemma none_revoked: "\<not> credential_revoked revocations_new jti org actor t"
  by (simp add: credential_revoked_def split: option.splits)

lemma sample_token_claims:
  "ta_issuers a = ta_issuers sample_verifier \<Longrightarrow> token_claims sample_verify sample_codec a sample_token = Inr sample_claims"
  by (rule issued_token_claims [OF sample_issued sample_token_short])
    (simp_all add: sample_verify_def sample_codec_def sample_claims_def sample_trusts)

lemma sample_outcome:
  assumes "ta_single_use a = None" and "ta_issuers a = ta_issuers sample_verifier" and "ta_audience a = ''prod''"
    and "\<not> credential_revoked r (Some ''t1'') (OrgId ''acme'') (ActorId ''bob'') 1000"
  shows "fst (token_authenticate sample_verify sample_codec id a r sample_token now) =
     (if now \<le> sat_add 2000 (ta_leeway_secs a) then Inr (asserted ''acme'' ''bob'' (ta_attests a)) else Inl CredentialExpired)"
  using issued_token_outcome [OF sample_issued sample_token_claims [OF assms(2)], of r now] assms
  by (simp add: sample_claims_def IDENTITY_TOKEN_VERSION_def proved_def asserted_def past_window flip: not_less)

lemma sample_accepted:
  "now \<le> 2060 \<Longrightarrow> fst (token_authenticate sample_verify sample_codec id sample_verifier revocations_new sample_token now) =
    Inr (asserted ''acme'' ''bob'' Token)"
  by (simp add: sample_outcome sample_trusts none_revoked sat_add_def)

text \<open>
  C35: Nobody is authenticated without a signature. An accepted identity token is exactly a signing
  input followed by a signature of it that verifies under the key of a trusted issuer named in that
  input; the identity and its strength are those of the signed claims and of the verifier, the
  claims name this deployment as audience, are of the version this verifier reads, expire after
  they were issued and at most twelve hours later, now is at most the leeway past their expiry and at most
  the leeway before the start they name, if they name one, and neither the token nor the actor is withdrawn.
\<close>

theorem token_authenticity:
  assumes "fst (token_authenticate verify cjson dbg a r presented now) = Inr actor"
  shows "\<exists>kid key payload_b64 sig payload c.
    presented = signing_input kid payload_b64 @ ''.'' @ b64_encode sig
    \<and> fmlookup (ta_issuers a) kid = Some key \<and> verify key (signing_input kid payload_b64) sig
    \<and> b64_decode payload_b64 = Some payload \<and> from_slice cjson payload = Inr c
    \<and> ic_version c = 1 \<and> ic_audience c = ta_audience a
    \<and> ic_issued_at c < ic_expires_at c \<and> unat (ic_expires_at c) \<le> unat (ic_issued_at c) + 43200
    \<and> unat now \<le> unat (ic_expires_at c) + unat (ta_leeway_secs a)
    \<and> (\<forall>nbf. ic_not_before c = Some nbf \<longrightarrow> unat nbf \<le> unat now + unat (ta_leeway_secs a))
    \<and> \<not> credential_revoked r (Some (ic_jti c)) (aa_org actor) (aa_actor actor) (ic_issued_at c)
    \<and> actor = proved (OrgId (ic_org c)) (ActorId (ic_actor c)) (ta_attests a)"
proof -
  obtain c where c: "token_claims verify cjson a presented = Inr c" "check_claims dbg a now c = Inr ()"
    "\<not> credential_revoked r (Some (ic_jti c)) (OrgId (ic_org c)) (ActorId (ic_actor c)) (ic_issued_at c)"
    "actor = proved (OrgId (ic_org c)) (ActorId (ic_actor c)) (ta_attests a)"
    using assms unfolding token_accepted_iff by blast
  obtain kid payload_b64 sig_b64 key sig payload where k:
    "token_envelope presented = Inr (kid, payload_b64, sig_b64)" "fmlookup (ta_issuers a) kid = Some key"
    "b64_decode sig_b64 = Some sig" "verify key (signing_input kid payload_b64) sig"
    "b64_decode payload_b64 = Some payload" "from_slice cjson payload = Inr c"
    using c(1) unfolding token_claims_iff by blast
  have "presented = signing_input kid payload_b64 @ ''.'' @ b64_encode sig"
    using envelope_input [OF k(1)] b64_canonical [OF k(3)] by simp
  moreover have "ic_audience c = ta_audience a" and order: "ic_issued_at c < ic_expires_at c"
      "ic_expires_at c - ic_issued_at c \<le> MAX_TOKEN_LIFETIME_SECS" "now \<le> sat_add (ic_expires_at c) (ta_leeway_secs a)"
    using c(2) by (simp_all add: check_claims_iff)
  moreover have "ic_version c = 1" using c(2) by (simp add: check_claims_iff IDENTITY_TOKEN_VERSION_def)
  moreover have "\<forall>nbf. ic_not_before c = Some nbf \<longrightarrow> unat nbf \<le> unat now + unat (ta_leeway_secs a)"
    using c(2) by (auto simp: check_claims_iff word_le_nat_alt u64_simps)
  moreover have "unat (ic_expires_at c) \<le> unat (ic_issued_at c) + 43200"
    using order(1,2) by (simp add: MAX_TOKEN_LIFETIME_SECS_def word_le_nat_alt word_less_nat_alt unat_sub)
  moreover have "unat now \<le> unat (ic_expires_at c) + unat (ta_leeway_secs a)"
    using order(3) by (simp add: word_le_nat_alt u64_simps)
  moreover have "aa_org actor = OrgId (ic_org c)" "aa_actor actor = ActorId (ic_actor c)"
    by (simp_all add: c(4) proved_def)
  ultimately show ?thesis using k(2,4-6) c(3,4) by metis
qed

theorem token_authenticity_witness:
  "\<exists>kid payload_b64 sig. sample_token = signing_input kid payload_b64 @ ''.'' @ b64_encode sig
     \<and> sample_verify ''seed'' (signing_input kid payload_b64) sig"
proof -
  show ?thesis
    using token_authenticity [OF sample_accepted [of 1500]]
    by (force simp: sample_verifier_def add_issuer_def token_authenticator_new_def split: if_splits)
qed

text \<open>
  C38: What a trusted issuer mints, a verifier decides by the claims alone. Let signatures of the issuer's seed
  verify under the key the verifier holds for its key id, and let the JSON of the claims read back. Then a minted
  token of at most \<open>MAX_TOKEN_BYTES\<close> bytes is refused for an unsupported claims version, another audience, an
  expiry more than the leeway ago, a start more than the leeway ahead, or a withdrawal, in this order, each with
  its own error; otherwise a verifier without a single-use guard accepts it, as the actor the claims name, and one
  with a guard accepts it exactly when the guard does.
\<close>

theorem issued_token_authenticates:
  assumes "issue_identity_token sign cjson dbg seed kid c = Inr tok"
    and "length tok \<le> MAX_TOKEN_BYTES"
    and "\<And>msg. verify key msg (sign seed msg) \<and> length (sign seed msg) = 64"
    and "\<And>json. to_vec cjson c = Inr json \<Longrightarrow> from_slice cjson json = Inr c"
    and "fmlookup (ta_issuers a) kid = Some key"
  shows "fst (token_authenticate verify cjson dbg a r tok now) =
    (if ic_version c \<noteq> IDENTITY_TOKEN_VERSION
     then Inl (MalformedClaims (''unsupported claims version '' @ show_nat (unat (ic_version c))))
     else if ic_audience c \<noteq> ta_audience a then Inl WrongAudience
     else if unat (ic_expires_at c) + unat (ta_leeway_secs a) < unat now then Inl CredentialExpired
     else if \<exists>nbf. ic_not_before c = Some nbf \<and> unat now + unat (ta_leeway_secs a) < unat nbf then Inl NotYetValid
     else if credential_revoked r (Some (ic_jti c)) (OrgId (ic_org c)) (ActorId (ic_actor c)) (ic_issued_at c)
       then Inl CredentialRevoked
     else case ta_single_use a of
         None \<Rightarrow> Inr (proved (OrgId (ic_org c)) (ActorId (ic_actor c)) (ta_attests a))
       | Some g \<Rightarrow>
           (case fst (guard_witness (ic_jti c) (ic_expires_at c) now g) of
              Inl e \<Rightarrow> Inl e
            | Inr _ \<Rightarrow> Inr (proved (OrgId (ic_org c)) (ActorId (ic_actor c)) (ta_attests a))))"
proof (rule issued_token_outcome [OF assms(1)])
  show "token_claims verify cjson a tok = Inr c"
    using assms(1,2) by (rule issued_token_claims) (use assms(3-5) in blast)+
qed

theorem issued_token_authenticates_witness:
  "fst (token_authenticate sample_verify sample_codec id sample_verifier revocations_new sample_token 2060) =
     Inr (asserted ''acme'' ''bob'' Token)
   \<and> fst (token_authenticate sample_verify sample_codec id sample_verifier revocations_new sample_token 2061) =
     Inl CredentialExpired"
proof -
  note applied = issued_token_authenticates [OF sample_issued sample_token_short, of sample_verify "''seed''" sample_verifier revocations_new]
  have "fst (token_authenticate sample_verify sample_codec id sample_verifier revocations_new sample_token 2060) =
     Inr (asserted ''acme'' ''bob'' Token)"
    by (subst applied) (simp_all add: sample_verify_def sample_codec_def sample_claims_def sample_trusts none_revoked
        IDENTITY_TOKEN_VERSION_def proved_def asserted_def)
  moreover have "fst (token_authenticate sample_verify sample_codec id sample_verifier revocations_new sample_token 2061) =
     Inl CredentialExpired"
    by (subst applied) (simp_all add: sample_verify_def sample_codec_def sample_claims_def sample_trusts none_revoked
        IDENTITY_TOKEN_VERSION_def)
  ultimately show ?thesis ..
qed

subsection \<open>Single use and withdrawal in the leeway window\<close>

lemma token_claims_guard [simp]:
  "token_claims verify cjson (a\<lparr>ta_single_use := g\<rparr>) tok = token_claims verify cjson a tok"
  by (simp add: token_claims_def)

lemma check_claims_guard [simp]: "check_claims dbg (a\<lparr>ta_single_use := g\<rparr>) now c = check_claims dbg a now c"
  by (cases "ic_not_before c") (simp_all add: check_claims_def)

text \<open>
  A single-use token is not single-use in the leeway window. The guard forgets an identifier once
  the token's own expiry has passed, while the verifier accepts the token until the leeway has
  passed too: a token admitted after its expiry is admitted again at once, and so any number of
  times.
\<close>

theorem single_use_reopens_in_leeway:
  assumes "ta_single_use a = Some g" and "token_claims verify cjson a tok = Inr c"
    and "ic_expires_at c < now"
    and "fst (token_authenticate verify cjson dbg a r tok now) = Inr actor"
  shows "fst (token_authenticate verify cjson dbg
      (snd (token_authenticate verify cjson dbg a r tok now)) r tok now) = Inr actor"
proof -
  let ?a = "snd (token_authenticate verify cjson dbg a r tok now)"
  let ?g = "snd (guard_witness (ic_jti c) (ic_expires_at c) now g)"
  have after: "?a = a\<lparr>ta_single_use := Some ?g\<rparr>"
    using token_authenticate_state [OF assms(4,2)] assms(1) by simp
  have "fst (guard_witness (ic_jti c) (ic_expires_at c) now ?g) = Inr ()"
    using assms(1,2,4) by (intro expired_not_witnessed [OF assms(3)]) (auto simp: token_accepted_iff)
  moreover have "token_claims verify cjson ?a tok = token_claims verify cjson a tok"
    "check_claims dbg ?a now c = check_claims dbg a now c" "ta_attests ?a = ta_attests a"
    by (simp_all add: after)
  ultimately show ?thesis using assms(2,4) by (auto simp: token_accepted_iff after)
qed

theorem single_use_reopens_in_leeway_witness:
  "let a = single_use sample_verifier; a' = snd (token_authenticate sample_verify sample_codec id a revocations_new sample_token 2030)
   in fst (token_authenticate sample_verify sample_codec id a' revocations_new sample_token 2030) =
     Inr (asserted ''acme'' ''bob'' Token)"
proof -
  let ?a = "single_use sample_verifier"
  have use: "ta_single_use ?a = Some guard_new" by (simp add: single_use_def)
  have claims: "token_claims sample_verify sample_codec ?a sample_token = Inr sample_claims"
    by (simp add: single_use_def sample_token_claims)
  have "check_claims id ?a 2030 sample_claims = Inr ()"
    by (simp add: check_claims_def sample_claims_def single_use_def sample_trusts IDENTITY_TOKEN_VERSION_def
        MAX_TOKEN_LIFETIME_SECS_def sat_add_def)
  moreover have "fst (guard_witness ''t1'' 2000 2030 guard_new) = Inr ()"
    by (simp add: guard_witness_def guard_new_def MAX_REPLAY_ENTRIES_def fmretain_def)
  ultimately have first: "fst (token_authenticate sample_verify sample_codec id ?a revocations_new sample_token 2030) =
      Inr (asserted ''acme'' ''bob'' Token)"
    using claims use none_revoked
    by (auto simp: token_accepted_iff sample_claims_def single_use_def sample_trusts proved_def asserted_def)
  show ?thesis
    using single_use_reopens_in_leeway [OF use claims _ first] by (simp add: sample_claims_def Let_def)
qed

text \<open>
  A withdrawn token comes back in the leeway window. Revoking one token drops from the deny-list
  every token past its own expiry, while the verifier accepts such a token until the leeway has
  passed too: after a token is revoked, revoking any other one in that window makes the verifier
  accept the first again, if it would accept it without the revocation.
\<close>

theorem revoked_token_readmitted_in_leeway:
  assumes "token_claims verify cjson a tok = Inr c" and "ic_expires_at c < now"
    and "fst (token_authenticate verify cjson dbg a r tok now) = Inr actor"
    and "jti \<noteq> ic_jti c"
  shows "fst (token_authenticate verify cjson dbg a
    (snd (revoke_token jti e now (snd (revoke_token (ic_jti c) (ic_expires_at c) t r)))) tok now) = Inr actor"
proof -
  let ?r = "snd (revoke_token jti e now (snd (revoke_token (ic_jti c) (ic_expires_at c) t r)))"
  have "dl_actors ?r = dl_actors r" by (auto simp: revoke_token_def prune_def Let_def)
  moreover have "fmlookup (dl_tokens ?r) (ic_jti c) = None"
    using assms(2-4) assms(1)
    by (auto simp: revoke_token_def prune_def Let_def token_accepted_iff credential_revoked_def fmlookup_dom_iff
        split: option.splits)
  ultimately show ?thesis
    using assms(1,3) by (auto simp: token_accepted_iff credential_revoked_def fmlookup_dom_iff split: option.splits)
qed

theorem revoked_token_readmitted_in_leeway_witness:
  "fst (token_authenticate sample_verify sample_codec id sample_verifier
     (snd (revoke_token ''t2'' 9000 2030 (snd (revoke_token ''t1'' 2000 1500 revocations_new)))) sample_token 2030) =
     Inr (asserted ''acme'' ''bob'' Token)"
  using revoked_token_readmitted_in_leeway [OF sample_token_claims [OF refl] _ sample_accepted [of 2030]]
  by (simp add: sample_claims_def)

subsection \<open>All mechanisms\<close>

text \<open>
  C36: One withdrawal reaches every mechanism. After an actor is revoked for every issue time, and
  whatever else is revoked or restored afterwards short of restoring that actor, no identity token,
  no transport peer and no OIDC token authenticates it, at any time and at any strength.
\<close>

theorem banned_actor_refused_everywhere:
  assumes "fst (revoke_actor org actor (-1) r)"
    and "list_all (keeps_actor (org_name org) (actor_name actor)) es"
  shows "let r' = run_events es (snd (revoke_actor org actor (-1) r)) in
    fst (token_authenticate verify cjson dbg a r' presented now) \<noteq> Inr (proved org actor strength)
    \<and> authenticate_peer dbg m r' peer now \<noteq> Inr (proved org actor strength)
    \<and> oidc_authenticate verify jv dbg o' r' presented now \<noteq> Inr (proved org actor strength)"
  using token.banned_actor [OF assms, of verify cjson dbg a presented now "proved org actor strength"]
    mtls.banned_actor [OF assms, of dbg m peer now "proved org actor strength"]
    oidc.banned_actor [OF assms, of verify jv dbg o' presented now "proved org actor strength"]
  by (auto simp: Let_def proved_def)

theorem banned_actor_refused_everywhere_witness:
  "fst (token_authenticate sample_verify sample_codec id sample_verifier
      (run_events [(RevokeActor ''acme'' ''bob'' 5, 20), (RestoreActor ''acme'' ''alice'', 30)]
        (snd (revoke_actor (OrgId ''acme'') (ActorId ''bob'') (-1) revocations_new))) sample_token 1500)
   \<noteq> Inr (proved (OrgId ''acme'') (ActorId ''bob'') Token)"
proof -
  have "fst (revoke_actor (OrgId ''acme'') (ActorId ''bob'') (-1) revocations_new)"
    by (simp add: revoke_actor_def revocations_new_def MAX_REVOKED_ACTORS_def)
  moreover have "list_all (keeps_actor (org_name (OrgId ''acme'')) (actor_name (ActorId ''bob'')))
      [(RevokeActor ''acme'' ''bob'' 5, 20), (RestoreActor ''acme'' ''alice'', 30)]"
    by (simp add: keeps_actor_def)
  ultimately show ?thesis
    using banned_actor_refused_everywhere unfolding Let_def by blast
qed

text \<open>
  An actor revocation does not outlast its instant on the transport path. A certificate has no
  issue time, so the deny-list is asked about the present: a peer that would be accepted now is
  still accepted after its actor was revoked up to any earlier instant, the present one excluded.
\<close>

theorem peer_revocation_lapses:
  assumes "authenticate_peer dbg m r peer now = Inr a" and "issued_through < now"
  shows "authenticate_peer dbg m
    (snd (revoke_actor (OrgId (vp_org peer)) (ActorId (vp_actor peer)) issued_through r)) peer now = Inr a"
  using assms
  by (auto simp: peer_accepted_iff revoke_actor_def credential_revoked_def Let_def not_le split: option.splits)

definition sample_peer :: verified_peer where
  "sample_peer = attested_with_anchor ''ca'' ''acme'' ''bob'' 5000 None"

theorem peer_revocation_lapses_witness:
  "authenticate_peer id (snd (trust_anchor ''ca'' mtls_new))
     (snd (revoke_actor (OrgId ''acme'') (ActorId ''bob'') 1999 revocations_new)) sample_peer 2000
   = Inr (asserted ''acme'' ''bob'' Strong)"
proof -
  have "authenticate_peer id (snd (trust_anchor ''ca'' mtls_new)) revocations_new sample_peer 2000 =
      Inr (asserted ''acme'' ''bob'' Strong)"
    by (simp add: peer_accepted_iff sample_peer_def attested_with_anchor_def trust_anchor_def mtls_new_def
        none_revoked proved_def asserted_def sat_add_def)
  from peer_revocation_lapses [OF this, of 1999] show ?thesis
    by (simp add: sample_peer_def attested_with_anchor_def)
qed

text \<open>
  An OIDC token proves possession of a string and no more: an accepted one is two encoded
  segments and a signature over exactly these that verifies under a configured key selected by the
  signed header, whose algorithm is the one this build verifies; issuer and audience are the
  configured ones, and the identity is the signed subject and organisation at token strength,
  never strong.
\<close>

theorem oidc_authenticity:
  assumes "oidc_authenticate verify jv dbg a r presented now = Inr actor"
  shows "\<exists>header_b64 payload_b64 sig header_bytes header kid key payload claims sub org.
    presented = header_b64 @ ''.'' @ payload_b64 @ ''.'' @ b64_encode sig
    \<and> b64_decode header_b64 = Some header_bytes \<and> jv_parse jv header_bytes = Inr header
    \<and> string_claim jv header ''alg'' = Some OIDC_ALGORITHM \<and> string_claim jv header ''kid'' = Some kid
    \<and> fmlookup (oi_keys a) kid = Some key \<and> verify key (header_b64 @ ''.'' @ payload_b64) sig
    \<and> b64_decode payload_b64 = Some payload \<and> jv_parse jv payload = Inr claims
    \<and> string_claim jv claims ''iss'' = Some (oi_issuer a) \<and> audience_matches jv claims (oi_audience a)
    \<and> string_claim jv claims ''sub'' = Some sub \<and> string_claim jv claims (oi_org_claim a) = Some org
    \<and> actor = proved (OrgId org) (ActorId sub) Token"
proof -
  obtain claims iat where c: "oidc_claims verify jv a presented = Inr claims"
    "oidc_check_claims jv a now claims = Inr iat" "oidc_identity jv dbg a r claims iat = Inr actor"
    using assms by (auto simp: oidc_authenticate_def)
  have i: "string_claim jv claims ''iss'' = Some (oi_issuer a)" "audience_matches jv claims (oi_audience a)"
    using c(2) by (simp_all add: oidc_check_claims_iff)
  from c(3) obtain sub org where "string_claim jv claims ''sub'' = Some sub" "string_claim jv claims (oi_org_claim a) = Some org"
    "actor = proved (OrgId org) (ActorId sub) Token"
    unfolding oidc_identity_iff by blast
  with oidc_claims_signed [OF c(1)] i show ?thesis by (metis b64_canonical)
qed

text \<open>A JSON-like value and its view: a string, a number, a list or a table of members.\<close>

datatype sample_value = Text str | Count u64 | Items "sample_value list" | Table "(str \<times> sample_value) list"

fun sample_get :: "sample_value \<Rightarrow> str \<Rightarrow> sample_value option" where
  "sample_get (Table rows) name = map_of rows name"
| "sample_get _ name = None"

definition sample_parse :: "str \<Rightarrow> str + sample_value" where
  "sample_parse b =
     (if b = ''h'' then Inr (Table [(''alg'', Text ''EdDSA''), (''kid'', Text ''k1'')])
      else Inr (Table [(''iss'', Text ''idp''), (''aud'', Text ''prod''), (''sub'', Text ''bob''),
        (''org'', Text ''acme''), (''iat'', Count 1000), (''exp'', Count 2000)]))"

definition sample_json :: "sample_value json_view" where
  "sample_json =
     \<lparr>jv_parse = sample_parse, jv_get = sample_get,
      jv_as_str = (\<lambda>v. case v of Text s \<Rightarrow> Some s | _ \<Rightarrow> None),
      jv_as_u64 = (\<lambda>v. case v of Count n \<Rightarrow> Some n | _ \<Rightarrow> None),
      jv_as_array = (\<lambda>v. case v of Items vs \<Rightarrow> Some vs | _ \<Rightarrow> None)\<rparr>"

definition sample_oidc :: "str oidc_authenticator" where
  "sample_oidc = snd (add_key ''k1'' ''seed'' (oidc_new ''idp'' ''prod'' ''org''))"

definition sample_jwt :: str where
  "sample_jwt = (let input = b64_encode ''h'' @ ''.'' @ b64_encode ''p''
     in input @ ''.'' @ b64_encode (sample_sign ''seed'' input))"

lemma sample_jwt_parts:
  "split_on (CHR ''.'') sample_jwt = [b64_encode ''h'', b64_encode ''p'',
     b64_encode (sample_sign ''seed'' (b64_encode ''h'' @ ''.'' @ b64_encode ''p''))]"
  by (simp add: sample_jwt_def split_on_line split_on_none b64_encode_no_dot Let_def del: b64_encode.simps)

lemma sample_jwt_short: "length sample_jwt \<le> MAX_TOKEN_BYTES"
  using length_b64_encode [of "sample_sign ''seed'' (b64_encode ''h'' @ ''.'' @ b64_encode ''p'')"]
    length_b64_encode [of "''h''"] length_b64_encode [of "''p''"]
  by (simp add: sample_jwt_def Let_def MAX_TOKEN_BYTES_def del: b64_encode.simps)

lemma sample_oidc_config:
  "oi_keys sample_oidc = fmupd ''k1'' ''seed'' fmempty" "oi_issuer sample_oidc = ''idp''"
  "oi_audience sample_oidc = ''prod''" "oi_org_claim sample_oidc = ''org''" "oi_leeway_secs sample_oidc = 60"
  by (simp_all add: sample_oidc_def add_key_def oidc_new_def)

lemma sample_jwt_claims:
  "oidc_claims sample_verify sample_json sample_oidc sample_jwt = Inr (projr (sample_parse ''p''))"
  using sample_jwt_short
  by (simp add: oidc_claims_def sample_jwt_parts b64_roundtrip sample_json_def sample_parse_def string_claim_def OIDC_ALGORITHM_def
      sample_oidc_config sample_verify_def del: b64_encode.simps)

lemma sample_jwt_checked:
  "oidc_check_claims sample_json sample_oidc 1500 (projr (sample_parse ''p'')) = Inr 1000"
  "oidc_identity sample_json id sample_oidc revocations_new (projr (sample_parse ''p'')) 1000 = Inr (asserted ''acme'' ''bob'' Token)"
  by (simp_all add: oidc_check_claims_iff oidc_identity_iff sample_json_def sample_parse_def string_claim_def u64_claim_def
      audience_matches_def audience_is_multiple_def sample_oidc_config MAX_TOKEN_LIFETIME_SECS_def sat_add_def
      none_revoked proved_def asserted_def)

lemma sample_jwt_accepted:
  "oidc_authenticate sample_verify sample_json id sample_oidc revocations_new sample_jwt 1500 =
     Inr (asserted ''acme'' ''bob'' Token)"
  by (simp add: oidc_authenticate_def sample_jwt_claims sample_jwt_checked)

theorem oidc_authenticity_witness:
  "\<exists>header_b64 payload_b64 sig. sample_jwt = header_b64 @ ''.'' @ payload_b64 @ ''.'' @ b64_encode sig
     \<and> sample_verify ''seed'' (header_b64 @ ''.'' @ payload_b64) sig"
  using oidc_authenticity [OF sample_jwt_accepted]
  by (force simp: sample_oidc_config split: if_splits)

end
