(* ===== verification/Disk.thy ===== *)
theory Disk
  imports Framing
begin

section \<open>A directory and its system calls (core/src/util.rs)\<close>

text \<open>
  The directory a store owns, as a map from file names to bytes, and the durable replacement of a
  file, \<open>write_durable\<close>. Every system call the code can see fail is a constructor of \<open>disk_step\<close>;
  a \<open>disk_faults\<close> argument says which of them fail in a run, with what message, and, for a write, how
  many bytes reach the file first. A crash leaves the directory as some failing run does, so what
  holds under every fault holds after every crash. All files are regular files; the refusal of a
  symbolic link or special file is a fault of \<open>StatFile\<close>.
\<close>

record disk =
  dk_files :: "(str, str) fmap"
  dk_locked :: bool
  dk_attempt :: u64
  dk_pid :: str
  dk_name_taken :: str

datatype disk_step =
    MakeRoot | LockFileOpen | LockTry | ListRoot | ReadFile str | StatFile str | OpenFile str
  | CreateFile str | WriteFile str | SyncFile str | CutFile str | FlushFile str
  | TempCreate str | TempMode str | TempWrite str | TempSync str | TempRemove str
  | Publish str | RootSync | DirectoryOpen | DirectorySync

type_synonym disk_faults = "disk_step \<Rightarrow> (nat \<times> str) option"

abbreviation disk_works :: disk_faults where
  "disk_works \<equiv> \<lambda>_. None"

definition put_file :: "str \<Rightarrow> str \<Rightarrow> disk \<Rightarrow> disk" where
  "put_file f bytes dk = dk\<lparr>dk_files := fmupd f bytes (dk_files dk)\<rparr>"

definition drop_file :: "str \<Rightarrow> disk \<Rightarrow> disk" where
  "drop_file f dk = dk\<lparr>dk_files := fmdrop f (dk_files dk)\<rparr>"

definition file_bytes :: "disk \<Rightarrow> str \<Rightarrow> str" where
  "file_bytes dk f = (case fmlookup (dk_files dk) f of None \<Rightarrow> [] | Some b \<Rightarrow> b)"

definition disk_guard :: "disk_faults \<Rightarrow> disk_step \<Rightarrow> disk \<Rightarrow> (str + 'a) \<times> disk \<Rightarrow> (str + 'a) \<times> disk" where
  "disk_guard fl stp dk k = (case fl stp of Some (_, e) \<Rightarrow> (Inl e, dk) | None \<Rightarrow> k)"

subsection \<open>Durable replacement\<close>

text \<open>\<open>create_temp_sibling\<close>: at most sixteen attempts, each with a fresh number of the process-wide
  counter; \<open>dk_name_taken\<close> is the text of the error a taken name gives.\<close>

fun create_temp_sibling :: "disk_faults \<Rightarrow> str \<Rightarrow> nat \<Rightarrow> str option \<Rightarrow> disk \<Rightarrow> (str + str) \<times> disk" where
  "create_temp_sibling fl f 0 latest dk =
     (Inl (case latest of Some e \<Rightarrow> e | None \<Rightarrow> ''no free temporary name next to the target''), dk)"
| "create_temp_sibling fl f (Suc k) latest dk =
     (let n = dk_attempt dk;
          dk = dk\<lparr>dk_attempt := n + 1\<rparr>;
          candidate = f @ ''.tmp.'' @ dk_pid dk @ ''.'' @ show_nat (unat n)
      in if fmcontains (dk_files dk) candidate then
           create_temp_sibling fl f k (Some (dk_name_taken dk)) dk
         else case fl (TempCreate f) of
             Some (_, e) \<Rightarrow> (Inl e, dk)
           | None \<Rightarrow> (Inr candidate, put_file candidate [] dk))"

text \<open>The guard that unlinks a temporary file on every early return, best effort.\<close>

definition temp_dropped :: "disk_faults \<Rightarrow> str \<Rightarrow> str \<Rightarrow> disk \<Rightarrow> disk" where
  "temp_dropped fl f tmp dk =
     (case fl (TempRemove f) of None \<Rightarrow> drop_file tmp dk | Some _ \<Rightarrow> dk)"

definition write_durable :: "disk_faults \<Rightarrow> str \<Rightarrow> str \<Rightarrow> disk \<Rightarrow> (str + unit) \<times> disk" where
  "write_durable fl f bytes dk =
     disk_guard fl MakeRoot dk
       (disk_guard fl (StatFile f) dk
         (case create_temp_sibling fl f 16 None dk of
            (Inl e, dk) \<Rightarrow> (Inl e, dk)
          | (Inr tmp, dk) \<Rightarrow>
              disk_guard fl (TempMode f) (temp_dropped fl f tmp dk)
                (case fl (TempWrite f) of
                   Some (n, e) \<Rightarrow> (Inl e, temp_dropped fl f tmp (put_file tmp (take n bytes) dk))
                 | None \<Rightarrow>
                     let written = put_file tmp bytes dk;
                         published = put_file f bytes (drop_file tmp written)
                     in disk_guard fl (TempSync f) (temp_dropped fl f tmp written)
                          (disk_guard fl (Publish f) (temp_dropped fl f tmp written)
                            (disk_guard fl RootSync published (Inr (), published))))))"

subsection \<open>Numbers in file names\<close>

text \<open>\<open>str::parse::<u64>\<close>: an optional plus sign and at least one decimal digit, without overflow.\<close>

fun decimal_value :: "nat \<Rightarrow> str \<Rightarrow> nat option" where
  "decimal_value acc [] = Some acc"
| "decimal_value acc (c # s) =
     (if is_ascii_digit c then decimal_value (acc * 10 + (of_char c - 48)) s else None)"

definition parse_u64 :: "str \<Rightarrow> u64 option" where
  "parse_u64 s =
     (let digits = (case s of c # rest \<Rightarrow> if c = CHR ''+'' then rest else s | [] \<Rightarrow> [])
      in if digits = [] then None
         else case decimal_value 0 digits of
             None \<Rightarrow> None
           | Some n \<Rightarrow> if n < 2 ^ 64 then Some (of_nat n) else None)"

lemma decimal_value_append:
  "decimal_value acc (s @ t) = Option.bind (decimal_value acc s) (\<lambda>n. decimal_value n t)"
  by (induction s arbitrary: acc) auto

lemma digit_char: "d < 10 \<Longrightarrow> is_ascii_digit (char_of (48 + d)) \<and> (of_char (char_of (48 + d) :: char) :: nat) = 48 + d"
  by (simp add: is_ascii_digit_def of_char_of)

lemma decimal_show: "decimal_value 0 (show_nat n) = Some n"
proof (induction n rule: show_nat.induct)
  case (1 n)
  then show ?case
    using digit_char [of n] digit_char [of "n mod 10"]
    by (subst show_nat.simps) (auto simp: decimal_value_append)
qed

lemma show_nat_digits: "c \<in> set (show_nat n) \<Longrightarrow> is_ascii_digit c"
proof (induction n rule: show_nat.induct)
  case (1 n)
  then show ?case
    using digit_char [of n] digit_char [of "n mod 10"]
    by (subst (asm) (2) show_nat.simps) (auto split: if_splits)
qed

lemma show_nat_not_Nil: "show_nat n \<noteq> []"
  by (subst show_nat.simps) simp

lemma parse_show:
  assumes "n < 2 ^ 64"
  shows "parse_u64 (show_nat n) = Some (of_nat n)"
proof -
  have "hd (show_nat n) \<noteq> CHR ''+''"
    using show_nat_digits [OF hd_in_set [OF show_nat_not_Nil [of n]]] by (auto simp: is_ascii_digit_def)
  then have "(case show_nat n of c # rest \<Rightarrow> if c = CHR ''+'' then rest else show_nat n | [] \<Rightarrow> []) = show_nat n"
    using show_nat_not_Nil [of n] by (cases "show_nat n") auto
  then show ?thesis
    unfolding parse_u64_def Let_def using show_nat_not_Nil [of n] decimal_show [of n] assms by simp
qed

lemma show_nat_inj: "show_nat m = show_nat n \<Longrightarrow> m = n"
  by (metis decimal_show option.inject)

subsection \<open>Durable replacement is atomic\<close>

lemma put_file_simps [simp]:
  "dk_files (put_file f b dk) = fmupd f b (dk_files dk)" "dk_files (drop_file f dk) = fmdrop f (dk_files dk)"
  "dk_locked (put_file f b dk) = dk_locked dk" "dk_locked (drop_file f dk) = dk_locked dk"
  by (simp_all add: put_file_def drop_file_def)

text \<open>A temporary name of a file: its name with a suffix, so never the file itself.\<close>

definition is_temp_of :: "str \<Rightarrow> str \<Rightarrow> bool" where
  "is_temp_of f g \<longleftrightarrow> (\<exists>s. g = f @ ''.tmp.'' @ s)"

lemma temp_sibling:
  assumes "create_temp_sibling fl f k latest dk = (r, dk')"
  shows "case r of Inl _ \<Rightarrow> dk_files dk' = dk_files dk
    | Inr tmp \<Rightarrow> is_temp_of f tmp \<and> fmlookup (dk_files dk) tmp = None \<and> dk_files dk' = fmupd tmp [] (dk_files dk)"
  using assms
proof (induction k arbitrary: latest dk)
  case 0
  then show ?case by auto
next
  case (Suc k)
  show ?case
  proof (cases "fmcontains (dk_files dk) (f @ ''.tmp.'' @ dk_pid dk @ ''.'' @ show_nat (unat (dk_attempt dk)))")
    case True
    with Suc.IH [of "Some (dk_name_taken dk)" "dk\<lparr>dk_attempt := dk_attempt dk + 1\<rparr>"] Suc.prems show ?thesis
      by (cases r) (simp_all add: Let_def)
  next
    case False
    with Suc.prems show ?thesis
      by (auto simp: Let_def is_temp_of_def fmlookup_dom_iff split: option.splits)
  qed
qed

text \<open>
  Whatever fails, every file that is not a temporary of the target keeps its bytes, and the target
  holds either its old bytes or all of the new ones; when the call succeeds, the new ones.
\<close>

lemma write_durable_atomic:
  assumes "write_durable fl f bytes dk = (r, dk')"
  shows "(\<forall>g. g \<noteq> f \<and> \<not> is_temp_of f g \<longrightarrow> fmlookup (dk_files dk') g = fmlookup (dk_files dk) g)
    \<and> (fmlookup (dk_files dk') f = fmlookup (dk_files dk) f \<or> fmlookup (dk_files dk') f = Some bytes)
    \<and> (r = Inr () \<longrightarrow> fmlookup (dk_files dk') f = Some bytes)"
proof -
  obtain t dkt where t: "create_temp_sibling fl f 16 None dk = (t, dkt)" by fastforce
  have self: "\<not> is_temp_of f f" by (simp add: is_temp_of_def)
  show ?thesis
    using assms temp_sibling [OF t] self
    by (cases t)
      (auto simp: write_durable_def t disk_guard_def temp_dropped_def Let_def split: option.splits)
qed

end
