(* ===== verification/Durable_Store.thy ===== *)
theory Durable_Store
  imports Disk Restore Revocation
begin

section \<open>The durable store (crates/ccos-enterprise-store)\<close>

text \<open>
  \<open>Store\<close>: the snapshot of a deployment, its two journals, the sealed segments of the decision
  journal and the deny-list with its own journal, all in one directory. The record \<open>store\<close> is the
  open handle: the counters it caches, whether an earlier append failed, the file behind the
  descriptor of the decision journal (a rename takes the descriptor along), and what a failed write
  left in a \<open>BufWriter\<close>, which is written when the handle is dropped. \<open>read_dir\<close> lists names in
  an order the source does not rely on; here it is the ascending one. The JSON codecs and the
  Debug rendering of a file name are parameters.
\<close>

definition SNAPSHOT_FILE :: str where
  "SNAPSHOT_FILE = ''deployment.json''"

definition JOURNAL_FILE :: str where
  "JOURNAL_FILE = ''audit.jsonl''"

definition SEGMENT_PREFIX :: str where
  "SEGMENT_PREFIX = ''audit.through-''"

definition SEGMENT_SUFFIX :: str where
  "SEGMENT_SUFFIX = ''.jsonl''"

definition GOVERNANCE_FILE :: str where
  "GOVERNANCE_FILE = ''governance.jsonl''"

definition REVOCATION_SNAPSHOT_FILE :: str where
  "REVOCATION_SNAPSHOT_FILE = ''revocations.json''"

definition REVOCATION_JOURNAL_FILE :: str where
  "REVOCATION_JOURNAL_FILE = ''revocations.jsonl''"

definition STORE_LOCK_FILE :: str where
  "STORE_LOCK_FILE = ''store.lock''"

datatype store_error =
    StoreIo str str
  | SnapshotCorrupt str str
  | JournalCorrupt str nat str
  | JournalDiscontinuity str nat u64 u64
  | SnapshotMissing str
  | RevocationCorrupt str str
  | AlreadyOpen str
  | Poisoned str str
  | CompactRefused str str

record loaded =
  ld_snapshot :: deployment_snapshot
  ld_journal :: "audit_record list"
  ld_governance :: "governance_record list"
  ld_torn_tail :: nat
  ld_rotated_segments :: nat

record durable_revocation_snapshot =
  dr_sequence_watermark :: u64
  dr_state :: revocation_snapshot

record revocation_journal_record =
  rj_sequence :: u64
  rj_event :: revocation_event

record store =
  so_root :: str
  so_journal :: str
  so_next_revocation_sequence :: u64
  so_next_ordinal :: u64
  so_next_sequence :: u64
  so_poisoned :: "str option"
  so_unflushed :: "(str \<times> str) list"

record store_codecs =
  sc_snapshot :: "deployment_snapshot json_codec"
  sc_audit :: "audit_record json_codec"
  sc_governance :: "governance_record json_codec"
  sc_rev_snapshot :: "durable_revocation_snapshot json_codec"
  sc_rev_journal :: "revocation_journal_record json_codec"

subsection \<open>Reading journals\<close>

definition read_lines ::
  "disk_faults \<Rightarrow> str \<Rightarrow> str \<Rightarrow> disk \<Rightarrow> store_error + (str list \<times> nat) option" where
  "read_lines fl root f dk =
     (case fl (ReadFile f) of
        Some (_, e) \<Rightarrow> Inl (StoreIo (path_join root f) e)
      | None \<Rightarrow>
          (case fmlookup (dk_files dk) f of
             None \<Rightarrow> Inr None
           | Some bytes \<Rightarrow>
               let committed = take (committed_len bytes) bytes;
                   torn_tail = length bytes - committed_len bytes;
                   parts = butlast (split_on newline committed)
               in (case find (\<lambda>i. parts ! i = []) [0..<length parts] of
                     Some i \<Rightarrow>
                       Inl (JournalCorrupt (path_join root f) (i + 1)
                         ''blank line: an append never writes one, so the file has been edited or damaged'')
                   | None \<Rightarrow> Inr (Some (parts, torn_tail)))))"

text \<open>The loop all three journals share: parse every line, require dense numbers.\<close>

fun numbered_lines ::
  "('r \<Rightarrow> u64) \<Rightarrow> 'r json_codec \<Rightarrow> (nat \<Rightarrow> str \<Rightarrow> store_error) \<Rightarrow> str \<Rightarrow> nat \<Rightarrow> u64 \<Rightarrow> str list
     \<Rightarrow> store_error + 'r list" where
  "numbered_lines num json bad path index expected [] = Inr []"
| "numbered_lines num json bad path index expected (line # rest) =
     (case from_slice json line of
        Inl e \<Rightarrow> Inl (bad (index + 1) e)
      | Inr r \<Rightarrow>
          if num r \<noteq> expected then Inl (JournalDiscontinuity path (index + 1) expected (num r))
          else res_bind (numbered_lines num json bad path (index + 1) (num r + 1) rest)
                 (\<lambda>rs. Inr (r # rs)))"

text \<open>\<open>str::strip_prefix\<close> and \<open>str::strip_suffix\<close>.\<close>

definition strip_prefix :: "str \<Rightarrow> str \<Rightarrow> str option" where
  "strip_prefix p s = (if prefix p s then Some (drop (length p) s) else None)"

definition strip_suffix :: "str \<Rightarrow> str \<Rightarrow> str option" where
  "strip_suffix p s = (if suffix p s then Some (take (length s - length p) s) else None)"

text \<open>The watermark part of a segment's name, if it is one.\<close>

definition segment_number :: "str \<Rightarrow> str option" where
  "segment_number name = Option.bind (strip_prefix SEGMENT_PREFIX name) (strip_suffix SEGMENT_SUFFIX)"

fun parse_segments ::
  "(str \<Rightarrow> str) \<Rightarrow> str \<Rightarrow> str list \<Rightarrow> store_error + (u64 \<times> str) list" where
  "parse_segments dbg root [] = Inr []"
| "parse_segments dbg root (name # names) =
     (case segment_number name of
        None \<Rightarrow> parse_segments dbg root names
      | Some digits \<Rightarrow>
          (case parse_u64 digits of
             None \<Rightarrow>
               Inl (JournalCorrupt (path_join root name) 0
                 (''segment name '' @ dbg name @ '' does not carry a decimal watermark''))
           | Some n \<Rightarrow> res_bind (parse_segments dbg root names) (\<lambda>ss. Inr ((n, name) # ss))))"

definition segment_paths ::
  "disk_faults \<Rightarrow> (str \<Rightarrow> str) \<Rightarrow> str \<Rightarrow> disk \<Rightarrow> store_error + str list" where
  "segment_paths fl dbg root dk =
     (case fl ListRoot of
        Some (_, e) \<Rightarrow> Inl (StoreIo root e)
      | None \<Rightarrow>
          res_bind (parse_segments dbg root (sorted_list_of_fset (fmdom (dk_files dk))))
            (\<lambda>ss. Inr (map snd (sort_key fst ss))))"

definition append_audit_records ::
  "audit_record json_codec \<Rightarrow> str \<Rightarrow> str list \<Rightarrow> audit_record list \<times> u64
     \<Rightarrow> store_error + audit_record list \<times> u64" where
  "append_audit_records json path parts acc =
     (case acc of (records, expected) \<Rightarrow>
        res_bind (numbered_lines ar_sequence json (JournalCorrupt path) path 0 expected parts)
          (\<lambda>rs. Inr (records @ rs, if rs = [] then expected else ar_sequence (last rs) + 1)))"

definition read_segment ::
  "disk_faults \<Rightarrow> audit_record json_codec \<Rightarrow> str \<Rightarrow> disk \<Rightarrow> str
     \<Rightarrow> (audit_record list \<times> u64) \<times> bool \<Rightarrow> store_error + (audit_record list \<times> u64) \<times> bool" where
  "read_segment fl json root dk name acc =
     res_bind (read_lines fl root name dk) (\<lambda>found.
       case found of
         None \<Rightarrow> Inr acc
       | Some (parts, torn) \<Rightarrow>
           if torn \<noteq> 0 then
             Inl (JournalCorrupt (path_join root name) 0
               (''rotated segment ends with '' @ show_nat torn
                @ '' bytes that no newline commits '' @ [CHR 0xE2, CHR 0x80, CHR 0x94]
                @ '' a complete segment can only be damaged''))
           else res_bind (append_audit_records json (path_join root name) parts (fst acc))
                  (\<lambda>acc. Inr (acc, True)))"

definition read_audit_history ::
  "disk_faults \<Rightarrow> (str \<Rightarrow> str) \<Rightarrow> audit_record json_codec \<Rightarrow> str \<Rightarrow> disk
     \<Rightarrow> store_error + (audit_record list \<times> nat) option" where
  "read_audit_history fl dbg json root dk =
     res_bind (segment_paths fl dbg root dk) (\<lambda>segments.
     res_bind (res_fold (read_segment fl json root dk) segments (([], 0), False)) (\<lambda>(acc, seen_any).
     res_bind (read_lines fl root JOURNAL_FILE dk) (\<lambda>live.
       case live of
         None \<Rightarrow> Inr (if seen_any then Some (fst acc, 0) else None)
       | Some (parts, torn) \<Rightarrow>
           res_bind (append_audit_records json (path_join root JOURNAL_FILE) parts acc)
             (\<lambda>(records, _). Inr (Some (records, torn))))))"

definition read_governance ::
  "disk_faults \<Rightarrow> governance_record json_codec \<Rightarrow> str \<Rightarrow> disk
     \<Rightarrow> store_error + (governance_record list \<times> nat) option" where
  "read_governance fl json root dk =
     res_bind (read_lines fl root GOVERNANCE_FILE dk) (\<lambda>found.
       case found of
         None \<Rightarrow> Inr None
       | Some (parts, torn) \<Rightarrow>
           let path = path_join root GOVERNANCE_FILE in
           res_bind (numbered_lines go_ordinal json (JournalCorrupt path) path 0 0 parts)
             (\<lambda>rs. Inr (Some (rs, torn))))"

definition read_revocation_journal ::
  "disk_faults \<Rightarrow> revocation_journal_record json_codec \<Rightarrow> str \<Rightarrow> disk
     \<Rightarrow> store_error + (revocation_journal_record list \<times> nat) option" where
  "read_revocation_journal fl json root dk =
     res_bind (read_lines fl root REVOCATION_JOURNAL_FILE dk) (\<lambda>found.
       case found of
         None \<Rightarrow> Inr None
       | Some (parts, torn) \<Rightarrow>
           let path = path_join root REVOCATION_JOURNAL_FILE in
           res_bind (numbered_lines rj_sequence json
               (\<lambda>n e. RevocationCorrupt path (''line '' @ show_nat n @ '': '' @ e)) path 0 0 parts)
             (\<lambda>rs. Inr (Some (rs, torn))))"

subsection \<open>Opening, closing and loading\<close>

definition create_append :: "str \<Rightarrow> disk \<Rightarrow> disk" where
  "create_append f dk = put_file f (file_bytes dk f) dk"

text \<open>A step of the store that may fail before anything changed, \<open>.map_err(io(path))?\<close>.\<close>

definition store_guard ::
  "disk_faults \<Rightarrow> disk_step \<Rightarrow> str \<Rightarrow> 's \<Rightarrow> (store_error + 'a) \<times> 's \<Rightarrow> (store_error + 'a) \<times> 's" where
  "store_guard fl stp path s k =
     (case fl stp of Some (_, e) \<Rightarrow> (Inl (StoreIo path e), s) | None \<Rightarrow> k)"

definition sync_directory ::
  "disk_faults \<Rightarrow> str \<Rightarrow> 's \<Rightarrow> (store_error + 'a) \<times> 's \<Rightarrow> (store_error + 'a) \<times> 's" where
  "sync_directory fl root s k = store_guard fl DirectoryOpen root s (store_guard fl DirectorySync root s k)"

definition next_after :: "('r \<Rightarrow> u64) \<Rightarrow> ('r list \<times> nat) option \<Rightarrow> u64" where
  "next_after num found =
     (case found of None \<Rightarrow> 0 | Some (rs, _) \<Rightarrow> if rs = [] then 0 else num (last rs) + 1)"

definition store_open ::
  "disk_faults \<Rightarrow> (str \<Rightarrow> str) \<Rightarrow> store_codecs \<Rightarrow> str \<Rightarrow> disk \<Rightarrow> (store_error + store) \<times> disk" where
  "store_open fl dbg sc root dk =
     store_guard fl MakeRoot root dk
      (store_guard fl LockFileOpen (path_join root STORE_LOCK_FILE) dk
        (let dk = create_append STORE_LOCK_FILE dk in
         if dk_locked dk then (Inl (AlreadyOpen (path_join root STORE_LOCK_FILE)), dk)
         else store_guard fl LockTry (path_join root STORE_LOCK_FILE) dk
          (case read_audit_history fl dbg (sc_audit sc) root dk of
             Inl e \<Rightarrow> (Inl e, dk)
           | Inr history \<Rightarrow>
          store_guard fl (CreateFile JOURNAL_FILE) (path_join root JOURNAL_FILE) dk
          (let dk1 = create_append JOURNAL_FILE dk in
          case read_governance fl (sc_governance sc) root dk1 of
             Inl e \<Rightarrow> (Inl e, dk1)
           | Inr governance \<Rightarrow>
          store_guard fl (CreateFile GOVERNANCE_FILE) (path_join root GOVERNANCE_FILE) dk1
          (let dk2 = create_append GOVERNANCE_FILE dk1 in
          case read_revocation_journal fl (sc_rev_journal sc) root dk2 of
             Inl e \<Rightarrow> (Inl e, dk2)
           | Inr revocations \<Rightarrow>
          if (case revocations of None \<Rightarrow> False | Some (_, torn) \<Rightarrow> torn \<noteq> 0) then
            (Inl (RevocationCorrupt (path_join root REVOCATION_JOURNAL_FILE)
               ''revocation journal has a torn tail; refusing to guess whether a revoke committed''), dk2)
          else store_guard fl (CreateFile REVOCATION_JOURNAL_FILE) (path_join root REVOCATION_JOURNAL_FILE) dk2
          (let dk3 = create_append REVOCATION_JOURNAL_FILE dk2;
               opened = (Inr \<lparr>so_root = root, so_journal = JOURNAL_FILE,
                  so_next_revocation_sequence = next_after rj_sequence revocations,
                  so_next_ordinal = next_after go_ordinal governance,
                  so_next_sequence = next_after ar_sequence history,
                  so_poisoned = None, so_unflushed = []\<rparr>, dk3\<lparr>dk_locked := True\<rparr>)
           in if fmcontains (dk_files dk) JOURNAL_FILE \<and> fmcontains (dk_files dk1) GOVERNANCE_FILE
                 \<and> fmcontains (dk_files dk2) REVOCATION_JOURNAL_FILE
              then opened else sync_directory fl root dk3 opened))))))"

text \<open>\<open>Drop\<close>: each \<open>BufWriter\<close> writes what it still holds, as far as the disk takes it, and the lock is
  released.\<close>

definition flush_unflushed :: "disk_faults \<Rightarrow> str \<times> str \<Rightarrow> disk \<Rightarrow> disk" where
  "flush_unflushed fl buffered dk =
     (case buffered of (f, bytes) \<Rightarrow>
        let n = (case fl (FlushFile f) of None \<Rightarrow> length bytes | Some (n, _) \<Rightarrow> n)
        in put_file f (file_bytes dk f @ take n bytes) dk)"

definition store_drop :: "disk_faults \<Rightarrow> store \<Rightarrow> disk \<Rightarrow> disk" where
  "store_drop fl h dk = (fold (flush_unflushed fl) (so_unflushed h) dk)\<lparr>dk_locked := False\<rparr>"

definition store_load ::
  "disk_faults \<Rightarrow> (str \<Rightarrow> str) \<Rightarrow> store_codecs \<Rightarrow> store \<Rightarrow> disk \<Rightarrow> store_error + loaded option" where
  "store_load fl dbg sc h dk =
     (case fl (ReadFile SNAPSHOT_FILE) of
        Some (_, e) \<Rightarrow> Inl (StoreIo (path_join (so_root h) SNAPSHOT_FILE) e)
      | None \<Rightarrow>
      res_bind (read_audit_history fl dbg (sc_audit sc) (so_root h) dk) (\<lambda>journal.
      res_bind (read_governance fl (sc_governance sc) (so_root h) dk) (\<lambda>governance.
        case fmlookup (dk_files dk) SNAPSHOT_FILE of
          None \<Rightarrow>
            (case journal of
               None \<Rightarrow> Inr None
             | Some (records, _) \<Rightarrow>
                 if records = [] then Inr None
                 else Inl (SnapshotMissing (path_join (so_root h) SNAPSHOT_FILE)))
        | Some bytes \<Rightarrow>
            (case from_slice (sc_snapshot sc) bytes of
               Inl e \<Rightarrow> Inl (SnapshotCorrupt (path_join (so_root h) SNAPSHOT_FILE) e)
             | Inr snap \<Rightarrow>
                 let (records, torn) = (case journal of None \<Rightarrow> ([], 0) | Some j \<Rightarrow> j);
                     (rules, governance_torn) = (case governance of None \<Rightarrow> ([], 0) | Some g \<Rightarrow> g)
                 in res_bind (segment_paths fl dbg (so_root h) dk) (\<lambda>segments.
                      Inr (Some \<lparr>ld_snapshot = snap, ld_journal = records, ld_governance = rules,
                        ld_torn_tail = torn + governance_torn,
                        ld_rotated_segments = length segments\<rparr>))))))"

subsection \<open>Appending\<close>

definition BUF_WRITER_CAPACITY :: nat where
  "BUF_WRITER_CAPACITY = 8192"

fun batch_bytes ::
  "('r \<Rightarrow> u64) \<Rightarrow> 'r json_codec \<Rightarrow> str \<Rightarrow> u64 \<Rightarrow> 'r list \<Rightarrow> store_error + str \<times> u64" where
  "batch_bytes num json path expected [] = Inr ([], expected)"
| "batch_bytes num json path expected (r # rs) =
     (if num r \<noteq> expected then Inl (JournalDiscontinuity path 0 expected (num r))
      else case to_vec json r of
          Inl e \<Rightarrow> Inl (JournalCorrupt path 0 (''cannot be serialized: '' @ e))
        | Inr line \<Rightarrow>
            if newline \<in> set line then
              Inl (JournalCorrupt path 0
                ''a serialized record contains a raw newline, which would break the one-record-per-line framing'')
            else res_bind (batch_bytes num json path (expected + 1) rs)
                   (\<lambda>(bytes, n). Inr (line @ [newline] @ bytes, n)))"

text \<open>
  One write, one sync. On failure the file is cut back to its length before the write, as far as
  the disk allows, and the handle is poisoned. A buffer below the capacity of the \<open>BufWriter\<close> is
  copied and flushed, so a failed flush leaves what was not written in the writer; a larger one is
  written directly.
\<close>

definition append_batch ::
  "disk_faults \<Rightarrow> str \<Rightarrow> str \<Rightarrow> str \<Rightarrow> str \<Rightarrow> store \<Rightarrow> disk \<Rightarrow> (store_error + unit) \<times> store \<times> disk" where
  "append_batch fl label path f buffer h dk =
     (case fl (StatFile f) of
        Some (_, e) \<Rightarrow> (Inl (StoreIo path e), h, dk)
      | None \<Rightarrow>
          let old = file_bytes dk f;
              durable_length = length old;
              roll = (\<lambda>bytes. put_file f (if fl (CutFile f) = None then take durable_length bytes else bytes) dk);
              poison = Some (label @ '' append failed after '' @ show_nat durable_length @ '' durable bytes'')
          in (case fl (WriteFile f) of
                Some (n, e) \<Rightarrow>
                  (Inl (StoreIo path e),
                   h\<lparr>so_poisoned := poison,
                     so_unflushed := so_unflushed h @
                       (if length buffer < BUF_WRITER_CAPACITY then [(f, drop n buffer)] else [])\<rparr>,
                   roll (old @ take n buffer))
              | None \<Rightarrow>
                  (case fl (SyncFile f) of
                     Some (_, e) \<Rightarrow> (Inl (StoreIo path e), h\<lparr>so_poisoned := poison\<rparr>, roll (old @ buffer))
                   | None \<Rightarrow> (Inr (), h, put_file f (old @ buffer) dk))))"

definition store_append ::
  "disk_faults \<Rightarrow> store_codecs \<Rightarrow> audit_record list \<Rightarrow> store \<Rightarrow> disk \<Rightarrow> (store_error + unit) \<times> store \<times> disk" where
  "store_append fl sc records h dk =
     (let path = path_join (so_root h) JOURNAL_FILE in
      case so_poisoned h of
        Some reason \<Rightarrow> (Inl (Poisoned path reason), h, dk)
      | None \<Rightarrow>
          (case batch_bytes ar_sequence (sc_audit sc) path (so_next_sequence h) records of
             Inl e \<Rightarrow> (Inl e, h, dk)
           | Inr (buffer, expected) \<Rightarrow>
               (case append_batch fl ''journal'' path (so_journal h) buffer h dk of
                  (Inl e, h, dk) \<Rightarrow> (Inl e, h, dk)
                | (Inr _, h, dk) \<Rightarrow> (Inr (), h\<lparr>so_next_sequence := expected\<rparr>, dk))))"

definition append_governance_journal ::
  "disk_faults \<Rightarrow> store_codecs \<Rightarrow> governance_record list \<Rightarrow> store \<Rightarrow> disk \<Rightarrow> (store_error + unit) \<times> store \<times> disk" where
  "append_governance_journal fl sc records h dk =
     (let path = path_join (so_root h) GOVERNANCE_FILE in
      case so_poisoned h of
        Some reason \<Rightarrow> (Inl (Poisoned path reason), h, dk)
      | None \<Rightarrow>
          (case batch_bytes go_ordinal (sc_governance sc) path (so_next_ordinal h) records of
             Inl e \<Rightarrow> (Inl e, h, dk)
           | Inr (buffer, expected) \<Rightarrow>
               (case append_batch fl ''governance'' path GOVERNANCE_FILE buffer h dk of
                  (Inl e, h, dk) \<Rightarrow> (Inl e, h, dk)
                | (Inr _, h, dk) \<Rightarrow> (Inr (), h\<lparr>so_next_ordinal := expected\<rparr>, dk))))"

subsection \<open>Snapshots and compaction\<close>

definition save_snapshot ::
  "disk_faults \<Rightarrow> store_codecs \<Rightarrow> deployment_snapshot \<Rightarrow> store \<Rightarrow> disk \<Rightarrow> (store_error + unit) \<times> disk" where
  "save_snapshot fl sc snap h dk =
     (let path = path_join (so_root h) SNAPSHOT_FILE in
      case to_vec (sc_snapshot sc) snap of
        Inl e \<Rightarrow> (Inl (SnapshotCorrupt path (''cannot be serialized: '' @ e)), dk)
      | Inr bytes \<Rightarrow>
          (case write_durable fl SNAPSHOT_FILE bytes dk of
             (Inl e, dk) \<Rightarrow> (Inl (StoreIo path e), dk)
           | (Inr _, dk) \<Rightarrow> (Inr (), dk)))"

definition segment_name :: "nat \<Rightarrow> str" where
  "segment_name n = SEGMENT_PREFIX @ show_nat n @ SEGMENT_SUFFIX"

text \<open>The rotation of \<open>compact\<close>. The buffer of the journal is empty here (a handle with anything
  unflushed is poisoned), so flushing it and taking the file out of the writer cannot fail.\<close>

definition seal_journal ::
  "disk_faults \<Rightarrow> store \<Rightarrow> disk \<Rightarrow> (store_error + unit) \<times> store \<times> disk" where
  "seal_journal fl h dk =
     (let path = path_join (so_root h) JOURNAL_FILE in
      if so_next_sequence h = 0 then
        (Inl (CompactRefused path ''a non-empty journal must end at sequence >= 0''), h, dk)
      else
        let segment = segment_name (unat (so_next_sequence h - 1));
            segment_path = path_join (so_root h) segment in
        if fmcontains (dk_files dk) segment then
          (Inl (CompactRefused segment_path ''a segment with this name already exists''), h, dk)
        else case fl (OpenFile JOURNAL_FILE) of
            Some (_, e) \<Rightarrow> (Inl (StoreIo path e), h, dk)
          | None \<Rightarrow>
              let reopened = h\<lparr>so_journal := JOURNAL_FILE\<rparr>;
                  moved = h\<lparr>so_journal := segment\<rparr>;
                  renamed = put_file segment (file_bytes dk JOURNAL_FILE) (drop_file JOURNAL_FILE dk);
                  fresh = put_file JOURNAL_FILE [] renamed
              in (case fl (SyncFile (so_journal h)) of
                    Some (_, e) \<Rightarrow> (Inl (StoreIo path e), reopened, dk)
                  | None \<Rightarrow>
                      (case fl (Publish segment) of
                         Some (_, e) \<Rightarrow> (Inl (StoreIo segment_path e), reopened, dk)
                       | None \<Rightarrow>
                           (case fl (CreateFile JOURNAL_FILE) of
                              Some (_, e) \<Rightarrow> (Inl (StoreIo path e), moved, renamed)
                            | None \<Rightarrow> (Inr (), reopened, fresh)))))"

definition store_compact ::
  "disk_faults \<Rightarrow> store_codecs \<Rightarrow> deployment_snapshot \<Rightarrow> store \<Rightarrow> disk \<Rightarrow> (store_error + unit) \<times> store \<times> disk" where
  "store_compact fl sc snap h dk =
     (let path = path_join (so_root h) JOURNAL_FILE in
      case so_poisoned h of
        Some reason \<Rightarrow> (Inl (Poisoned path reason), h, dk)
      | None \<Rightarrow>
      if ds_sequence_watermark snap \<noteq> so_next_sequence h then
        (Inl (CompactRefused path (''snapshot watermark '' @ show_nat (unat (ds_sequence_watermark snap))
           @ '' does not match the durable journal end '' @ show_nat (unat (so_next_sequence h)))), h, dk)
      else case save_snapshot fl sc snap h dk of
          (Inl e, dk) \<Rightarrow> (Inl e, h, dk)
        | (Inr _, dk) \<Rightarrow>
            let live_len = (case fl (StatFile JOURNAL_FILE) of
                              Some _ \<Rightarrow> 0 | None \<Rightarrow> length (file_bytes dk JOURNAL_FILE));
                (r, h, dk) = (if 0 < live_len then seal_journal fl h dk else (Inr (), h, dk))
            in case r of
                Inl e \<Rightarrow> (Inl e, h, dk)
              | Inr _ \<Rightarrow> sync_directory fl (so_root h) (h, dk) (Inr (), h, dk))"

subsection \<open>The durable deny-list\<close>

fun state_error_text :: "revocation_state_error \<Rightarrow> str" where
  "state_error_text (UnsupportedVersion v) = ''unsupported revocation snapshot version '' @ show_nat (unat v)"
| "state_error_text (CapacityExceeded kind) = ''revocation '' @ kind @ '' capacity exceeded''"
| "state_error_text (InvalidIdentifier kind) = ''invalid revocation '' @ kind @ '' identifier''"
| "state_error_text (DuplicateEntry kind) = ''duplicate revocation '' @ kind @ '' entry''"

definition revocation_corrupt :: "str \<Rightarrow> revocation_state_error \<Rightarrow> store_error" where
  "revocation_corrupt path e = RevocationCorrupt path (state_error_text e)"

text \<open>One journal mutation replayed onto the checkpoint.\<close>

definition replay_mutation ::
  "str \<Rightarrow> u64 \<Rightarrow> revocation_journal_record \<Rightarrow> revocations \<Rightarrow> store_error + revocations" where
  "replay_mutation path now r state =
     (case apply_event (rj_event r) now state of
        (Inl e, _) \<Rightarrow> Inl (revocation_corrupt path e)
      | (Inr applied, state) \<Rightarrow>
          if \<not> applied then
            Inl (RevocationCorrupt path (''revocation mutation '' @ show_nat (unat (rj_sequence r))
              @ '' exceeds configured deny-list capacity''))
          else Inr state)"

definition revocation_checkpoint ::
  "disk_faults \<Rightarrow> store_codecs \<Rightarrow> str \<Rightarrow> u64 \<Rightarrow> disk \<Rightarrow> store_error + revocations \<times> u64" where
  "revocation_checkpoint fl sc root now dk =
     (let path = path_join root REVOCATION_SNAPSHOT_FILE in
      case fl (ReadFile REVOCATION_SNAPSHOT_FILE) of
        Some (_, e) \<Rightarrow> Inl (StoreIo path e)
      | None \<Rightarrow>
          (case fmlookup (dk_files dk) REVOCATION_SNAPSHOT_FILE of
             None \<Rightarrow> Inr (revocations_new, 0)
           | Some bytes \<Rightarrow>
               (case from_slice (sc_rev_snapshot sc) bytes of
                  Inl e \<Rightarrow> Inl (RevocationCorrupt path e)
                | Inr snap \<Rightarrow>
                    (case revocations_from_snapshot (dr_state snap) now of
                       Inl e \<Rightarrow> Inl (revocation_corrupt path e)
                     | Inr state \<Rightarrow> Inr (state, dr_sequence_watermark snap)))))"

definition load_revocations_from_root ::
  "disk_faults \<Rightarrow> store_codecs \<Rightarrow> str \<Rightarrow> u64 \<Rightarrow> disk \<Rightarrow> store_error + revocations" where
  "load_revocations_from_root fl sc root now dk =
     (let snapshot_path = path_join root REVOCATION_SNAPSHOT_FILE;
          journal_path = path_join root REVOCATION_JOURNAL_FILE in
      res_bind (revocation_checkpoint fl sc root now dk) (\<lambda>(state, watermark).
      res_bind (read_revocation_journal fl (sc_rev_journal sc) root dk) (\<lambda>found.
      res_bind
        (case found of
           Some (records, torn) \<Rightarrow>
             if torn \<noteq> 0 then
               Inl (RevocationCorrupt journal_path
                 (''revocation journal has '' @ show_nat torn @ '' torn tail bytes''))
             else if length records < unat watermark then
               Inl (RevocationCorrupt snapshot_path ''revocation snapshot watermark is ahead of its journal'')
             else res_fold (replay_mutation journal_path now)
                    (filter (\<lambda>r. watermark \<le> rj_sequence r) records) state
         | None \<Rightarrow>
             if watermark \<noteq> 0 then
               Inl (RevocationCorrupt snapshot_path
                 ''revocation snapshot names a journal watermark but no journal exists'')
             else Inr state)
        (\<lambda>state. Inr (prune now state)))))"

definition save_revocation_snapshot ::
  "disk_faults \<Rightarrow> store_codecs \<Rightarrow> revocations \<Rightarrow> store \<Rightarrow> disk \<Rightarrow> (store_error + unit) \<times> disk" where
  "save_revocation_snapshot fl sc r h dk =
     (let path = path_join (so_root h) REVOCATION_SNAPSHOT_FILE in
      case to_vec (sc_rev_snapshot sc)
             \<lparr>dr_sequence_watermark = so_next_revocation_sequence h, dr_state = revocations_snapshot r\<rparr> of
        Inl e \<Rightarrow> (Inl (RevocationCorrupt path (''cannot serialize revocation snapshot: '' @ e)), dk)
      | Inr bytes \<Rightarrow>
          (case write_durable fl REVOCATION_SNAPSHOT_FILE bytes dk of
             (Inl e, dk) \<Rightarrow> (Inl (StoreIo path e), dk)
           | (Inr _, dk) \<Rightarrow> (Inr (), dk)))"

definition append_revocation_event ::
  "disk_faults \<Rightarrow> store_codecs \<Rightarrow> revocation_event \<Rightarrow> store \<Rightarrow> disk \<Rightarrow> (store_error + unit) \<times> store \<times> disk" where
  "append_revocation_event fl sc ev h dk =
     (let path = path_join (so_root h) REVOCATION_JOURNAL_FILE in
      case so_poisoned h of
        Some reason \<Rightarrow> (Inl (Poisoned path reason), h, dk)
      | None \<Rightarrow>
          (case to_vec (sc_rev_journal sc) \<lparr>rj_sequence = so_next_revocation_sequence h, rj_event = ev\<rparr> of
             Inl e \<Rightarrow> (Inl (RevocationCorrupt path (''cannot serialize revocation mutation: '' @ e)), h, dk)
           | Inr line \<Rightarrow>
               if newline \<in> set line then
                 (Inl (RevocationCorrupt path ''serialized revocation mutation contains a raw newline''), h, dk)
               else (case append_batch fl ''revocation'' path REVOCATION_JOURNAL_FILE (line @ [newline]) h dk of
                       (Inl e, h, dk) \<Rightarrow> (Inl e, h, dk)
                     | (Inr _, h, dk) \<Rightarrow>
                         (Inr (), h\<lparr>so_next_revocation_sequence := so_next_revocation_sequence h + 1\<rparr>, dk))))"

text \<open>\<open>shared\<close> is the value behind the mutex: the deny-list the verifiers of the process read.\<close>

definition apply_revocation_event ::
  "disk_faults \<Rightarrow> store_codecs \<Rightarrow> revocation_event \<Rightarrow> u64 \<Rightarrow> revocations \<Rightarrow> store \<Rightarrow> disk
     \<Rightarrow> (store_error + bool) \<times> revocations \<times> store \<times> disk" where
  "apply_revocation_event fl sc ev now shared h dk =
     (case apply_event ev now shared of
        (Inl e, _) \<Rightarrow>
          (Inl (revocation_corrupt (path_join (so_root h) REVOCATION_JOURNAL_FILE) e), shared, h, dk)
      | (Inr changed, candidate) \<Rightarrow>
          if \<not> changed then (Inr False, shared, h, dk)
          else case append_revocation_event fl sc ev h dk of
              (Inl e, h, dk) \<Rightarrow> (Inl e, shared, h, dk)
            | (Inr _, h, dk) \<Rightarrow> (Inr True, candidate, h, dk))"

definition store_revoke_token ::
  "disk_faults \<Rightarrow> store_codecs \<Rightarrow> str \<Rightarrow> u64 \<Rightarrow> u64 \<Rightarrow> revocations \<Rightarrow> store \<Rightarrow> disk
     \<Rightarrow> (store_error + bool) \<times> revocations \<times> store \<times> disk" where
  "store_revoke_token fl sc jti expires_at now =
     apply_revocation_event fl sc (RevokeToken jti expires_at now) now"

definition store_revoke_actor ::
  "disk_faults \<Rightarrow> store_codecs \<Rightarrow> org_id \<Rightarrow> actor_id \<Rightarrow> u64 \<Rightarrow> u64 \<Rightarrow> revocations \<Rightarrow> store \<Rightarrow> disk
     \<Rightarrow> (store_error + bool) \<times> revocations \<times> store \<times> disk" where
  "store_revoke_actor fl sc org actor issued_through now =
     apply_revocation_event fl sc (RevokeActor (org_name org) (actor_name actor) issued_through) now"

definition store_restore_actor ::
  "disk_faults \<Rightarrow> store_codecs \<Rightarrow> org_id \<Rightarrow> actor_id \<Rightarrow> u64 \<Rightarrow> revocations \<Rightarrow> store \<Rightarrow> disk
     \<Rightarrow> (store_error + bool) \<times> revocations \<times> store \<times> disk" where
  "store_restore_actor fl sc org actor now =
     apply_revocation_event fl sc (RestoreActor (org_name org) (actor_name actor)) now"

definition refresh_shared_revocations ::
  "disk_faults \<Rightarrow> store_codecs \<Rightarrow> str \<Rightarrow> u64 \<Rightarrow> disk \<Rightarrow> revocations \<Rightarrow> (store_error + unit) \<times> revocations" where
  "refresh_shared_revocations fl sc root now dk shared =
     (case load_revocations_from_root fl sc root now dk of
        Inl e \<Rightarrow> (Inl e, shared)
      | Inr state \<Rightarrow> (Inr (), state))"

end
