(* ===== verification/Store_History.thy ===== *)
theory Store_History
  imports Durable_Store
begin

section \<open>What the files of a store hold\<close>

text \<open>
  The abstract content of the journal files, sealed segments and a live tail, and the lemmas that the
  readers of the store recover exactly it: from the framing of one file up to the whole decision
  history.
\<close>

subsection \<open>One file\<close>

lemma read_lines_raw:
  assumes "fmlookup (dk_files dk) f = Some (lines_bytes ls @ torn)"
    and "\<forall>l\<in>set ls. l \<noteq> [] \<and> newline \<notin> set l" and "newline \<notin> set torn"
  shows "read_lines disk_works root f dk = Inr (Some (ls, length torn))"
proof -
  have "find (\<lambda>i. ls ! i = []) [0..<length ls] = None"
    using assms(2) by (auto simp: find_None_iff)
  then show ?thesis
    using assms by (simp add: read_lines_def committed_lines split_lines Let_def)
qed

lemma read_lines_journal:
  assumes "fmlookup (dk_files dk) f = Some (journal_bytes json rs @ torn)"
    and "\<forall>x\<in>set rs. codec_keeps_line json x" and "newline \<notin> set torn"
  shows "read_lines disk_works root f dk = Inr (Some (map (json_text json) rs, length torn))"
  using assms by (intro read_lines_raw) (auto simp: journal_bytes_lines codec_keeps_lineD)

lemma numbered_lines_bad:
  assumes "\<forall>x\<in>set rs. codec_keeps_line json x" and "seq_from num n rs" and "from_slice json l = Inl e"
  shows "numbered_lines num json bad path index n (map (json_text json) rs @ l # ls) = Inl (bad (index + length rs + 1) e)"
  using assms by (induction rs arbitrary: index n) (auto simp: codec_keeps_lineD)

lemma numbered_lines_journal:
  assumes "\<forall>x\<in>set rs. codec_keeps_line json x" and "seq_from num n rs"
  shows "numbered_lines num json bad path index n (map (json_text json) rs) = Inr rs"
  using assms by (induction rs arbitrary: index n) (auto simp: codec_keeps_lineD)

lemma seq_from_last: "seq_from num n rs \<Longrightarrow> rs \<noteq> [] \<Longrightarrow> num (last rs) + 1 = n + of_nat (length rs)"
proof (induction rs arbitrary: n)
  case Nil
  then show ?case by simp
next
  case (Cons r rs)
  show ?case
  proof (cases "rs = []")
    case True
    then show ?thesis using Cons.prems by simp
  next
    case False
    then have "num (last rs) + 1 = n + 1 + of_nat (length rs)"
      using Cons.IH [of "n + 1"] Cons.prems(1) by simp
    then show ?thesis using False by simp
  qed
qed

lemma append_audit_records_journal:
  assumes "\<forall>x\<in>set rs. codec_keeps_line json x" and "dense_from n rs"
  shows "append_audit_records json path (map (json_text json) rs) (acc, n) = Inr (acc @ rs, n + of_nat (length rs))"
  using numbered_lines_journal [OF assms, of "JournalCorrupt path" path 0] seq_from_last [OF assms(2)]
  by (simp add: append_audit_records_def)

subsection \<open>Segment names\<close>

lemma segment_number_name [simp]: "segment_number (segment_name n) = Some (show_nat n)"
  by (simp add: segment_number_def segment_name_def strip_prefix_def strip_suffix_def suffix_def)

lemma segment_name_inj [simp]: "segment_name m = segment_name n \<longleftrightarrow> m = n"
  using show_nat_inj by (auto simp: segment_name_def)

definition is_segment :: "str \<Rightarrow> bool" where
  "is_segment name \<longleftrightarrow> segment_number name \<noteq> None"

lemma is_segment_prefix: "is_segment name \<Longrightarrow> prefix SEGMENT_PREFIX name"
  by (auto simp: is_segment_def segment_number_def strip_prefix_def split: if_splits)

lemma is_segment_name [simp]: "is_segment (segment_name n)"
  by (simp add: is_segment_def)

lemma other_files_no_segment [simp]:
  "\<not> is_segment JOURNAL_FILE" "\<not> is_segment GOVERNANCE_FILE" "\<not> is_segment SNAPSHOT_FILE"
  "\<not> is_segment REVOCATION_JOURNAL_FILE" "\<not> is_segment REVOCATION_SNAPSHOT_FILE" "\<not> is_segment STORE_LOCK_FILE"
  by (auto dest!: is_segment_prefix simp: SEGMENT_PREFIX_def JOURNAL_FILE_def GOVERNANCE_FILE_def SNAPSHOT_FILE_def
      REVOCATION_JOURNAL_FILE_def REVOCATION_SNAPSHOT_FILE_def STORE_LOCK_FILE_def)

lemma parse_segments_eq:
  assumes "\<forall>name\<in>set names. is_segment name \<longrightarrow> (\<exists>n < 2 ^ 64. name = segment_name n)"
  shows "\<exists>ss. parse_segments dbg root names = Inr ss \<and> map snd ss = filter is_segment names
    \<and> (\<forall>(m, name)\<in>set ss. \<exists>n < 2 ^ 64. name = segment_name n \<and> m = of_nat n)"
  using assms
proof (induction names)
  case Nil
  then show ?case by simp
next
  case (Cons name names)
  then obtain ss where ss: "parse_segments dbg root names = Inr ss" "map snd ss = filter is_segment names"
      "\<forall>(m, name)\<in>set ss. \<exists>n < 2 ^ 64. name = segment_name n \<and> m = of_nat n"
    by auto
  show ?case
  proof (cases "is_segment name")
    case True
    then obtain n where "n < 2 ^ 64" "name = segment_name n" using Cons.prems by auto
    with ss show ?thesis by (auto simp: parse_show)
  next
    case False
    then have "segment_number name = None" by (simp add: is_segment_def)
    with False ss show ?thesis by auto
  qed
qed

subsection \<open>The decision history\<close>

definition sealed_records :: "(nat \<times> audit_record list) list \<Rightarrow> audit_record list" where
  "sealed_records sealed = concat (map snd sealed)"

definition segments_hold ::
  "audit_record json_codec \<Rightarrow> disk \<Rightarrow> (nat \<times> audit_record list) list \<Rightarrow> bool" where
  "segments_hold json dk sealed \<longleftrightarrow>
     sorted_wrt (<) (map fst sealed)
     \<and> (\<forall>(n, rs)\<in>set sealed. n < length (sealed_records sealed))
     \<and> (\<forall>name. name |\<in>| fmdom (dk_files dk) \<and> is_segment name \<longleftrightarrow> name \<in> segment_name ` fst ` set sealed)
     \<and> (\<forall>(n, rs)\<in>set sealed. fmlookup (dk_files dk) (segment_name n) = Some (journal_bytes json rs))"

definition history_holds ::
  "audit_record json_codec \<Rightarrow> disk \<Rightarrow> (nat \<times> audit_record list) list \<Rightarrow> audit_record list \<Rightarrow> str \<Rightarrow> bool" where
  "history_holds json dk sealed live torn \<longleftrightarrow>
     segments_hold json dk sealed
     \<and> file_bytes dk JOURNAL_FILE = journal_bytes json live @ torn \<and> newline \<notin> set torn
     \<and> dense_from 0 (sealed_records sealed @ live) \<and> length (sealed_records sealed @ live) < 2 ^ 64
     \<and> (\<forall>x\<in>set (sealed_records sealed @ live). codec_keeps_line json x)"

lemma segments_hold_cong:
  assumes "\<And>g. is_segment g \<Longrightarrow> fmlookup (dk_files dk') g = fmlookup (dk_files dk) g"
  shows "segments_hold json dk' sealed \<longleftrightarrow> segments_hold json dk sealed"
proof -
  have dom: "name |\<in>| fmdom (dk_files dk') \<and> is_segment name \<longleftrightarrow> name |\<in>| fmdom (dk_files dk) \<and> is_segment name" for name
    using assms [of name] by (cases "is_segment name") (simp_all add: fmlookup_dom_iff)
  show ?thesis
    unfolding segments_hold_def dom using assms by simp
qed

lemma segments_hold_put: "\<not> is_segment f \<Longrightarrow> segments_hold json (put_file f b dk) sealed = segments_hold json dk sealed"
  by (rule segments_hold_cong) auto

lemma history_holds_cong:
  assumes "\<And>g. is_segment g \<or> g = JOURNAL_FILE \<Longrightarrow> fmlookup (dk_files dk') g = fmlookup (dk_files dk) g"
  shows "history_holds json dk' sealed live torn \<longleftrightarrow> history_holds json dk sealed live torn"
  using segments_hold_cong [of dk' dk json sealed] assms by (simp add: history_holds_def file_bytes_def)

lemma segment_paths_eq:
  assumes "segments_hold json dk sealed" and "length (sealed_records sealed) < 2 ^ 64"
  shows "segment_paths disk_works dbg root dk = Inr (map (segment_name \<circ> fst) sealed)"
proof -
  let ?names = "sorted_list_of_fset (fmdom (dk_files dk))"
  let ?key = "\<lambda>n. (of_nat n :: u64, segment_name n)"
  have small: "n < 2 ^ 64" if "n \<in> fst ` set sealed" for n
    using assms that by (fastforce simp: segments_hold_def)
  have dir: "name \<in> set ?names \<and> is_segment name \<longleftrightarrow> name \<in> segment_name ` fst ` set sealed" for name
    using assms(1) by (simp add: segments_hold_def)
  have "\<forall>name\<in>set ?names. is_segment name \<longrightarrow> (\<exists>n < 2 ^ 64. name = segment_name n)"
    using dir small by blast
  from parse_segments_eq [OF this, of dbg root] obtain ss where ss:
    "parse_segments dbg root ?names = Inr ss" "map snd ss = filter is_segment ?names"
    "\<forall>(m, name)\<in>set ss. \<exists>n < 2 ^ 64. name = segment_name n \<and> m = of_nat n" by blast
  have snds: "snd ` set ss = segment_name ` fst ` set sealed"
    using arg_cong [OF ss(2), of set] dir by auto
  have set_ss: "set ss = ?key ` fst ` set sealed"
  proof (intro equalityI subsetI)
    fix x assume x: "x \<in> set ss"
    then obtain n where n: "x = ?key n" using ss(3) by (cases x) auto
    then show "x \<in> ?key ` fst ` set sealed" using x snds by force
  next
    fix x assume "x \<in> ?key ` fst ` set sealed"
    then obtain n where n: "x = ?key n" "n \<in> fst ` set sealed" by blast
    then have "segment_name n \<in> snd ` set ss" using snds by blast
    then obtain y where y: "y \<in> set ss" "snd y = segment_name n" by force
    then have "y = ?key n" using ss(3) by (cases y) auto
    then show "x \<in> set ss" using y n by simp
  qed
  have "distinct ss" using ss(2) distinct_map [of snd ss] by simp
  have mono: "(of_nat m :: u64) < of_nat n \<longleftrightarrow> m < n" if "m \<in> fst ` set sealed" "n \<in> fst ` set sealed" for m n
    using small that by (simp add: word_less_nat_alt unat_of_nat_u64)
  have inj: "inj_on fst (?key ` fst ` set sealed)"
  proof -
    have "inj_on (of_nat :: nat \<Rightarrow> u64) (fst ` set sealed)"
    proof (rule inj_onI)
      fix m n assume "m \<in> fst ` set sealed" "n \<in> fst ` set sealed" "(of_nat m :: u64) = of_nat n"
      then show "m = n" using mono [of m n] mono [of n m] by (cases m n rule: linorder_cases) simp_all
    qed
    then show ?thesis by - (rule inj_on_imageI, simp add: comp_def)
  qed
  have ordered: "sorted_wrt (<) (map (of_nat :: nat \<Rightarrow> u64) (map fst sealed))"
    unfolding sorted_wrt_map [where xs = "map fst sealed"]
  proof (rule sorted_wrt_mono_rel)
    show "sorted_wrt (<) (map fst sealed)" using assms(1) by (simp add: segments_hold_def)
  qed (simp only: mono set_map)
  have "sort_key fst ss = map (?key \<circ> fst) sealed"
  proof (rule map_sorted_distinct_set_unique [where f = fst])
    show "inj_on fst (set (sort_key fst ss) \<union> set (map (?key \<circ> fst) sealed))"
      using inj by (simp add: set_ss image_image)
    show "sorted (map fst (map (?key \<circ> fst) sealed))" "distinct (map fst (map (?key \<circ> fst) sealed))"
      using ordered by (simp_all add: strict_sorted_iff comp_def)
    show "set (sort_key fst ss) = set (map (?key \<circ> fst) sealed)"
      by (auto simp: set_ss)
    show "distinct (map fst (sort_key fst ss))"
      using inj \<open>distinct ss\<close> by (simp add: distinct_map set_ss)
  qed simp
  then show ?thesis using ss(1) by (simp add: segment_paths_def)
qed

lemma read_segments_eq:
  assumes "\<forall>(n, rs)\<in>set segs. fmlookup (dk_files dk) (segment_name n) = Some (journal_bytes json rs)"
    and "\<forall>x\<in>set (sealed_records segs). codec_keeps_line json x" and "dense_from k (sealed_records segs)"
  shows "res_fold (read_segment disk_works json root dk) (map (segment_name \<circ> fst) segs) ((acc, k), seen) =
    Inr ((acc @ sealed_records segs, k + of_nat (length (sealed_records segs))), seen \<or> segs \<noteq> [])"
  using assms
proof (induction segs arbitrary: acc k seen)
  case Nil
  then show ?case by (simp add: sealed_records_def)
next
  case (Cons seg segs)
  obtain n rs where seg: "seg = (n, rs)" by (cases seg)
  have split: "sealed_records (seg # segs) = rs @ sealed_records segs"
    by (simp add: seg sealed_records_def)
  have keeps: "\<forall>x\<in>set rs. codec_keeps_line json x" "\<forall>x\<in>set (sealed_records segs). codec_keeps_line json x"
    and dense: "dense_from k rs" "dense_from (k + of_nat (length rs)) (sealed_records segs)"
    using Cons.prems(2,3) by (auto simp: split seq_from_append)
  have "read_lines disk_works root (segment_name n) dk = Inr (Some (map (json_text json) rs, 0))"
    using read_lines_journal [of dk "segment_name n" json rs "[]"] Cons.prems(1) keeps(1) by (simp add: seg)
  then have "read_segment disk_works json root dk (segment_name n) ((acc, k), seen) =
      Inr ((acc @ rs, k + of_nat (length rs)), True)"
    using append_audit_records_journal [OF keeps(1) dense(1)] by (simp add: read_segment_def)
  then show ?case
    using Cons.IH [OF _ keeps(2) dense(2), of "acc @ rs" True] Cons.prems(1)
    by (simp add: seg split [unfolded seg] ac_simps)
qed

text \<open>The readers recover exactly what the files hold; only a torn tail of the live file is left out.\<close>

lemma read_history:
  assumes "history_holds json dk sealed live torn"
  shows "\<exists>found. read_audit_history disk_works dbg json root dk = Inr found
    \<and> (case found of None \<Rightarrow> ([], 0) | Some j \<Rightarrow> j) = (sealed_records sealed @ live, length torn)"
proof -
  have segs: "segments_hold json dk sealed" and torn: "newline \<notin> set torn"
    and live: "file_bytes dk JOURNAL_FILE = journal_bytes json live @ torn"
    and len: "length (sealed_records sealed) < 2 ^ 64"
    and dense: "dense_from 0 (sealed_records sealed)" "dense_from (of_nat (length (sealed_records sealed))) live"
    and keeps: "\<forall>x\<in>set (sealed_records sealed). codec_keeps_line json x" "\<forall>x\<in>set live. codec_keeps_line json x"
    using assms by (auto simp: history_holds_def seq_from_append)
  have "res_fold (read_segment disk_works json root dk) (map (segment_name \<circ> fst) sealed) (([], 0), False) =
      Inr ((sealed_records sealed, of_nat (length (sealed_records sealed))), sealed \<noteq> [])"
    using read_segments_eq [OF _ keeps(1) dense(1), of dk root "[]" False] segs by (simp add: segments_hold_def)
  note read = this segment_paths_eq [OF segs len]
  show ?thesis
  proof (cases "fmlookup (dk_files dk) JOURNAL_FILE")
    case None
    then have "live = [] \<and> torn = []"
      using live keeps(2) by (cases live) (auto simp: file_bytes_def codec_keeps_lineD)
    then show ?thesis
      using None read by (auto simp: read_audit_history_def read_lines_def sealed_records_def)
  next
    case (Some bytes)
    then have "read_lines disk_works root JOURNAL_FILE dk = Inr (Some (map (json_text json) live, length torn))"
      using live keeps(2) torn by (intro read_lines_journal) (simp_all add: file_bytes_def)
    then show ?thesis
      using read append_audit_records_journal [OF keeps(2) dense(2)] by (simp add: read_audit_history_def)
  qed
qed

lemma read_history_next:
  assumes "history_holds json dk sealed live torn" and "read_audit_history disk_works dbg json root dk = Inr found"
  shows "next_after ar_sequence found = of_nat (length (sealed_records sealed @ live))"
proof -
  have "(case found of None \<Rightarrow> ([], 0) | Some j \<Rightarrow> j) = (sealed_records sealed @ live, length torn)"
    using read_history [OF assms(1), of dbg root] assms(2) by auto
  moreover have "dense_from 0 (sealed_records sealed @ live)" using assms(1) by (simp add: history_holds_def)
  ultimately show ?thesis
    using seq_from_last [of ar_sequence 0 "sealed_records sealed @ live"]
    by (auto simp: next_after_def split: option.splits)
qed

text \<open>A line of the live file that the codec refuses makes the whole history unreadable.\<close>

lemma read_history_bad_line:
  assumes "history_holds json dk sealed live torn"
    and "\<And>g. is_segment g \<Longrightarrow> fmlookup (dk_files dk') g = fmlookup (dk_files dk) g"
    and "fmlookup (dk_files dk') JOURNAL_FILE = Some (journal_bytes json live @ lines_bytes (bad # ls))"
    and "\<forall>l\<in>set (bad # ls). l \<noteq> [] \<and> newline \<notin> set l" and "from_slice json bad = Inl e"
  shows "read_audit_history disk_works dbg json root dk' =
    Inl (JournalCorrupt (path_join root JOURNAL_FILE) (length live + 1) e)"
proof -
  have segs: "segments_hold json dk' sealed"
    and len: "length (sealed_records sealed) < 2 ^ 64"
    and dense: "dense_from 0 (sealed_records sealed)" "dense_from (of_nat (length (sealed_records sealed))) live"
    and keeps: "\<forall>x\<in>set (sealed_records sealed). codec_keeps_line json x" "\<forall>x\<in>set live. codec_keeps_line json x"
    using assms(1) segments_hold_cong [OF assms(2)] by (auto simp: history_holds_def seq_from_append)
  have "res_fold (read_segment disk_works json root dk') (map (segment_name \<circ> fst) sealed) (([], 0), False) =
      Inr ((sealed_records sealed, of_nat (length (sealed_records sealed))), sealed \<noteq> [])"
    using read_segments_eq [OF _ keeps(1) dense(1), of dk' root "[]" False] segs by (simp add: segments_hold_def)
  moreover have "read_lines disk_works root JOURNAL_FILE dk' = Inr (Some (map (json_text json) live @ bad # ls, 0))"
  proof -
    have "\<forall>l\<in>set (map (json_text json) live @ bad # ls). l \<noteq> [] \<and> newline \<notin> set l"
      using keeps(2) assms(4) by (auto simp: codec_keeps_lineD)
    from read_lines_raw [OF _ this, of dk' JOURNAL_FILE "[]" root] show ?thesis
      using assms(3) keeps(2) by (simp add: journal_bytes_lines)
  qed
  ultimately show ?thesis
    using segment_paths_eq [OF segs len] numbered_lines_bad [OF keeps(2) dense(2) assms(5)]
    by (simp add: read_audit_history_def append_audit_records_def)
qed

end
