(* ===== verification/Store_Properties.thy ===== *)
theory Store_Properties
  imports Store_History
begin

section \<open>What the durable store guarantees\<close>

text \<open>
  Appends, compaction and the deny-list under every combination of faults, and the two ways a store
  becomes unreadable.
\<close>

subsection \<open>Appending\<close>

definition store_ready :: "store \<Rightarrow> nat \<Rightarrow> bool" where
  "store_ready h n \<longleftrightarrow>
     so_journal h = JOURNAL_FILE \<and> so_poisoned h = None \<and> so_unflushed h = [] \<and> so_next_sequence h = of_nat n"

lemma batch_bytes_eq:
  assumes "\<forall>r\<in>set rs. codec_keeps_line json r"
  shows "batch_bytes num json path n rs = Inr (b, m) \<longleftrightarrow>
    seq_from num n rs \<and> b = journal_bytes json rs \<and> m = n + of_nat (length rs)"
  using assms
  by (induction rs arbitrary: n b m) (auto simp: codec_keeps_lineD ok_simps add.assoc)

lemma file_bytes_put [simp]: "file_bytes (put_file f b dk) g = (if g = f then b else file_bytes dk g)"
  by (simp add: file_bytes_def put_file_def)

lemma append_batch_cases:
  assumes "append_batch fl label path f buffer h dk = (r, h', dk')"
  obtains (ok) "r = Inr ()" "h' = h" "dk' = put_file f (file_bytes dk f @ buffer) dk"
  | (refused) e where "r = Inl e" "h' = h" "dk' = dk"
  | (failed) e n where "r = Inl e" "so_poisoned h' \<noteq> None" "h' = h\<lparr>so_poisoned := so_poisoned h', so_unflushed := so_unflushed h'\<rparr>"
      "dk' = put_file f (if fl (CutFile f) = None then file_bytes dk f else file_bytes dk f @ take n buffer) dk"
proof -
  show thesis
  proof (cases "fl (StatFile f)")
    case (Some x)
    then show thesis using assms refused by (cases x) (auto simp: append_batch_def)
  next
    case stat: None
    show thesis
    proof (cases "fl (WriteFile f)")
      case (Some x)
      then show thesis
        using assms stat failed [of _ "fst x"] by (cases x) (auto simp: append_batch_def Let_def)
    next
      case None
      then show thesis
        using assms stat ok failed [of _ "length buffer"]
        by (cases "fl (SyncFile f)") (auto simp: append_batch_def Let_def)
    qed
  qed
qed

lemma history_holds_live:
  assumes "history_holds json dk sealed live torn" and "newline \<notin> set torn'"
    and "dense_from 0 (sealed_records sealed @ live')" and "length (sealed_records sealed @ live') < 2 ^ 64"
    and "\<forall>x\<in>set live'. codec_keeps_line json x"
  shows "history_holds json (put_file JOURNAL_FILE (journal_bytes json live' @ torn') dk) sealed live' torn'"
  using assms by (auto simp: history_holds_def segments_hold_put)

lemma history_extends:
  assumes "history_holds json dk sealed live []" and "dense_from (of_nat (length (sealed_records sealed @ live))) rs"
    and "length (sealed_records sealed @ live) + length rs < 2 ^ 64"
    and "\<forall>r\<in>set rs. codec_keeps_line json r" and "newline \<notin> set torn"
  shows "history_holds json (put_file JOURNAL_FILE (journal_bytes json (live @ take k rs) @ torn) dk)
    sealed (live @ take k rs) torn"
proof (rule history_holds_live [OF assms(1,5)])
  have "dense_from 0 ((sealed_records sealed @ live) @ take k rs @ drop k rs)"
    using assms(1,2) by (simp add: history_holds_def seq_from_append)
  then show "dense_from 0 (sealed_records sealed @ live @ take k rs)"
    by (simp only: seq_from_append append_assoc)
  show "\<forall>x\<in>set (live @ take k rs). codec_keeps_line json x"
    using assms(1,4) by (auto simp: history_holds_def dest: in_set_takeD)
qed (use assms(3) in simp)

text \<open>
  Only a failed write leaves bytes in the writer's buffer. A handle with an empty buffer changes no file when
  it is dropped.
\<close>

lemma append_batch_unflushed:
  "append_batch fl label path f buffer h dk = (r, h', dk') \<Longrightarrow> r = Inr () \<or> fl (WriteFile f) = None \<Longrightarrow>
    so_unflushed h' = so_unflushed h"
  by (auto simp: append_batch_def Let_def split: option.splits)

lemma store_append_unflushed:
  assumes "store_append fl sc records h dk = (r, h', dk')" and "r = Inr () \<or> fl (WriteFile (so_journal h)) = None"
  shows "so_unflushed h' = so_unflushed h"
  using assms append_batch_unflushed
  by (fastforce simp: store_append_def Let_def split: option.splits sum.splits prod.splits)

lemma store_drop_clean: "so_unflushed h = [] \<Longrightarrow> store_drop fl h dk = dk\<lparr>dk_locked := False\<rparr>"
  by (simp add: store_drop_def)

text \<open>The whole effect of an append on the history.\<close>

lemma append_history:
  assumes "history_holds (sc_audit sc) dk sealed live []" and "store_ready h (length (sealed_records sealed @ live))"
    and "\<forall>r\<in>set records. codec_keeps_line (sc_audit sc) r"
    and "length (sealed_records sealed @ live) + length records < 2 ^ 64"
    and "store_append fl sc records h dk = (r, h', dk')"
  shows "\<exists>k torn. history_holds (sc_audit sc) dk' sealed (live @ take k records) torn
    \<and> (r = Inr () \<longrightarrow> length records \<le> k \<and> torn = [] \<and> h' = h\<lparr>so_next_sequence := so_next_sequence h + of_nat (length records)\<rparr>)
    \<and> (r \<noteq> Inr () \<longrightarrow> h' = h \<and> dk' = dk \<or> so_poisoned h' \<noteq> None)
    \<and> (r \<noteq> Inr () \<and> fl (CutFile JOURNAL_FILE) = None \<longrightarrow> k = 0 \<and> torn = [])"
proof (cases "dense_from (so_next_sequence h) records")
  case False
  then have "r \<noteq> Inr () \<and> h' = h \<and> dk' = dk"
    using assms(2,5) batch_bytes_eq [OF assms(3), of ar_sequence]
    by (auto simp: store_append_def store_ready_def Let_def split: sum.splits prod.splits)
  then show ?thesis using assms(1) by (intro exI [of _ 0] exI [of _ "[]"]) simp
next
  case dense: True
  let ?path = "path_join (so_root h) JOURNAL_FILE"
  have ready: "so_journal h = JOURNAL_FILE" "so_poisoned h = None"
      "so_next_sequence h = of_nat (length (sealed_records sealed @ live))"
    using assms(2) by (simp_all add: store_ready_def)
  have holds: "history_holds (sc_audit sc) (put_file JOURNAL_FILE (journal_bytes (sc_audit sc) (live @ take k records) @ torn) dk)
      sealed (live @ take k records) torn" if "newline \<notin> set torn" for k torn
    using history_extends [OF assms(1) _ assms(4,3) that] dense ready(3) by simp
  have old: "file_bytes dk JOURNAL_FILE = journal_bytes (sc_audit sc) live" using assms(1) by (simp add: history_holds_def)
  have batch: "batch_bytes ar_sequence (sc_audit sc) ?path (so_next_sequence h) records =
      Inr (journal_bytes (sc_audit sc) records, so_next_sequence h + of_nat (length records))"
    using batch_bytes_eq [OF assms(3)] dense by blast
  obtain r1 h1 dk1 where run: "append_batch fl ''journal'' ?path JOURNAL_FILE (journal_bytes (sc_audit sc) records) h dk = (r1, h1, dk1)"
    by (metis prod_cases3)
  have out: "r = r1" "dk' = dk1" "h' = (if r1 = Inr () then h1\<lparr>so_next_sequence := so_next_sequence h + of_nat (length records)\<rparr> else h1)"
    using assms(5) run batch ready by (auto simp: store_append_def split: sum.splits)
  from run show ?thesis
  proof (cases rule: append_batch_cases)
    case ok
    then show ?thesis using out holds [of "[]" "length records"] old by (intro exI [of _ "length records"] exI [of _ "[]"]) simp
  next
    case (refused e)
    then show ?thesis using out assms(1) by (intro exI [of _ 0] exI [of _ "[]"]) simp
  next
    case (failed e n)
    obtain k torn where k: "take n (journal_bytes (sc_audit sc) records) = journal_bytes (sc_audit sc) (take k records) @ torn"
      "newline \<notin> set torn" using take_journal [OF assms(3)] by blast
    show ?thesis
    proof (cases "fl (CutFile JOURNAL_FILE) = None")
      case True
      then show ?thesis using failed out holds [of "[]" 0] old by (intro exI [of _ 0] exI [of _ "[]"]) simp
    next
      case False
      then show ?thesis using failed out holds [OF k(2)] k(1) old by (intro exI [of _ k] exI [of _ torn]) auto
    qed
  qed
qed

subsection \<open>Snapshots and compaction\<close>

lemma snapshot_temps:
  assumes "is_temp_of SNAPSHOT_FILE g \<or> g = SNAPSHOT_FILE"
  shows "\<not> is_segment g" "g \<noteq> JOURNAL_FILE" "g \<noteq> GOVERNANCE_FILE" "g \<noteq> REVOCATION_JOURNAL_FILE"
    "g \<noteq> REVOCATION_SNAPSHOT_FILE"
  using assms is_segment_prefix [of g]
  by (auto simp: is_temp_of_def SNAPSHOT_FILE_def JOURNAL_FILE_def GOVERNANCE_FILE_def REVOCATION_JOURNAL_FILE_def
      REVOCATION_SNAPSHOT_FILE_def SEGMENT_PREFIX_def)

lemma save_snapshot_effect:
  assumes "save_snapshot fl sc snap h dk = (r, dk')"
  shows "(\<forall>g. \<not> is_temp_of SNAPSHOT_FILE g \<and> g \<noteq> SNAPSHOT_FILE \<longrightarrow> fmlookup (dk_files dk') g = fmlookup (dk_files dk) g)
    \<and> (fmlookup (dk_files dk') SNAPSHOT_FILE = fmlookup (dk_files dk) SNAPSHOT_FILE
       \<or> (\<exists>bytes. to_vec (sc_snapshot sc) snap = Inr bytes \<and> fmlookup (dk_files dk') SNAPSHOT_FILE = Some bytes))
    \<and> (r = Inr () \<longrightarrow> (\<exists>bytes. to_vec (sc_snapshot sc) snap = Inr bytes \<and> fmlookup (dk_files dk') SNAPSHOT_FILE = Some bytes))"
proof (cases "to_vec (sc_snapshot sc) snap")
  case (Inl e)
  then show ?thesis using assms by (auto simp: save_snapshot_def Let_def)
next
  case (Inr bytes)
  obtain w dkw where w: "write_durable fl SNAPSHOT_FILE bytes dk = (w, dkw)" by fastforce
  then have "dk' = dkw" "r = Inr () \<longrightarrow> w = Inr ()"
    using assms Inr by (auto simp: save_snapshot_def Let_def split: sum.splits)
  then show ?thesis using write_durable_atomic [OF w] Inr by blast
qed

lemma save_snapshot_history:
  assumes "save_snapshot fl sc snap h dk = (r, dk')"
  shows "history_holds json dk' sealed live torn = history_holds json dk sealed live torn"
  using save_snapshot_effect [OF assms] snapshot_temps by (intro history_holds_cong) blast

lemma seal_segments:
  assumes "history_holds json dk sealed live []" and "live \<noteq> []"
    and "n = length (sealed_records sealed @ live) - 1"
  shows "segments_hold json (put_file (segment_name n) (journal_bytes json live) dk) (sealed @ [(n, live)])"
proof -
  have segs: "segments_hold json dk sealed" using assms(1) by (simp add: history_holds_def)
  have all: "sealed_records (sealed @ [(n, live)]) = sealed_records sealed @ live" by (simp add: sealed_records_def)
  have below: "m < length (sealed_records sealed)" if "(m, rs) \<in> set sealed" for m rs
    using segs that by (auto simp: segments_hold_def)
  have n: "length (sealed_records sealed) \<le> n" "n < length (sealed_records sealed @ live)"
    using assms(2,3) by (cases live; simp)+
  have "sorted_wrt (<) (map fst (sealed @ [(n, live)]))"
    using segs below n(1) by (fastforce simp: segments_hold_def sorted_wrt_append)
  moreover have "\<forall>(m, rs)\<in>set (sealed @ [(n, live)]). m < length (sealed_records (sealed @ [(n, live)]))"
    using below n(2) all by fastforce
  moreover have "name |\<in>| fmdom (dk_files (put_file (segment_name n) (journal_bytes json live) dk)) \<and> is_segment name \<longleftrightarrow>
      name \<in> segment_name ` fst ` set (sealed @ [(n, live)])" for name
    using segs by (auto simp: segments_hold_def)
  moreover have "\<forall>(m, rs)\<in>set (sealed @ [(n, live)]).
      fmlookup (dk_files (put_file (segment_name n) (journal_bytes json live) dk)) (segment_name m) = Some (journal_bytes json rs)"
    using segs below n(1) by (fastforce simp: segments_hold_def)
  ultimately show ?thesis unfolding segments_hold_def by blast
qed

lemma sealed_history:
  assumes "history_holds json dk sealed live []" and "live \<noteq> []"
    and "n = length (sealed_records sealed @ live) - 1"
    and "\<And>g. g \<noteq> JOURNAL_FILE \<Longrightarrow>
      fmlookup (dk_files dk') g = fmlookup (dk_files (put_file (segment_name n) (journal_bytes json live) dk)) g"
    and "file_bytes dk' JOURNAL_FILE = []"
  shows "history_holds json dk' (sealed @ [(n, live)]) [] []"
proof -
  have "segments_hold json dk' (sealed @ [(n, live)])"
    using seal_segments [OF assms(1-3)] segments_hold_cong [of dk' "put_file (segment_name n) (journal_bytes json live) dk"] assms(4)
    by (metis other_files_no_segment(1))
  moreover have "sealed_records (sealed @ [(n, live)]) = sealed_records sealed @ live" by (simp add: sealed_records_def)
  ultimately show ?thesis using assms(1,5) by (simp add: history_holds_def)
qed

lemma seal_journal_effect:
  assumes "history_holds json dk sealed live []" and "live \<noteq> []"
    and "store_ready h (length (sealed_records sealed @ live))"
    and "seal_journal fl h dk = (r, h', dk')"
  shows "(dk' = dk \<and> r \<noteq> Inr () \<and> history_holds json dk' sealed live []
      \<or> history_holds json dk' (sealed @ [(length (sealed_records sealed @ live) - 1, live)]) [] [])
    \<and> (r = Inr () \<longrightarrow> store_ready h' (length (sealed_records sealed @ live))
      \<and> history_holds json dk' (sealed @ [(length (sealed_records sealed @ live) - 1, live)]) [] [])
    \<and> (\<forall>g. g \<noteq> JOURNAL_FILE \<and> \<not> is_segment g \<longrightarrow> fmlookup (dk_files dk') g = fmlookup (dk_files dk) g)"
proof -
  let ?total = "length (sealed_records sealed @ live)"
  let ?seg = "segment_name (?total - 1)"
  have small: "?total < 2 ^ 64" "0 < ?total" using assms(1,2) by (auto simp: history_holds_def)
  have nx: "so_next_sequence h = of_nat ?total" "so_journal h = JOURNAL_FILE"
    using assms(3) by (simp_all add: store_ready_def)
  obtain t where t: "?total = Suc t" using gr0_implies_Suc [OF small(2)] by blast
  have "so_next_sequence h - 1 = of_nat (?total - 1)" unfolding nx(1) t by simp
  then have seg: "segment_name (unat (so_next_sequence h - 1)) = ?seg"
    using small(1) by (simp add: unat_of_nat_u64)
  have live: "file_bytes dk JOURNAL_FILE = journal_bytes json live" using assms(1) by (simp add: history_holds_def)
  let ?renamed = "put_file ?seg (journal_bytes json live) (drop_file JOURNAL_FILE dk)"
  have seg_other: "?seg \<noteq> JOURNAL_FILE" using is_segment_name other_files_no_segment(1) by metis
  have sealed: "history_holds json ?renamed (sealed @ [(?total - 1, live)]) [] []"
    "history_holds json (put_file JOURNAL_FILE [] ?renamed) (sealed @ [(?total - 1, live)]) [] []"
    using seg_other by (auto intro!: sealed_history [OF assms(1,2)] simp: file_bytes_def)
  show ?thesis
  proof (cases "dk' = dk \<and> r \<noteq> Inr ()")
    case True
    then show ?thesis using assms(1) by simp
  next
    case False
    have "dk' = ?renamed \<and> r \<noteq> Inr () \<or> dk' = put_file JOURNAL_FILE [] ?renamed \<and> store_ready h' ?total"
      using assms(4) False nx assms(3)
      unfolding seal_journal_def seg Let_def live
      by (auto simp: store_ready_def split: if_splits option.splits)
    moreover have "fmlookup (dk_files ?renamed) g = fmlookup (dk_files dk) g" if "g \<noteq> JOURNAL_FILE \<and> \<not> is_segment g" for g
      using that by auto
    ultimately show ?thesis using sealed by auto
  qed
qed

lemma compact_history:
  assumes "history_holds (sc_audit sc) dk sealed live []" and "store_ready h (length (sealed_records sealed @ live))"
    and "store_compact fl sc snap h dk = (r, h', dk')"
  shows "(\<exists>sealed' live'. history_holds (sc_audit sc) dk' sealed' live' []
        \<and> sealed_records sealed' @ live' = sealed_records sealed @ live
        \<and> (r = Inr () \<and> fl (StatFile JOURNAL_FILE) = None \<longrightarrow> live' = []))
    \<and> (fmlookup (dk_files dk') SNAPSHOT_FILE \<in> {fmlookup (dk_files dk) SNAPSHOT_FILE} \<union>
        {Some b | b. to_vec (sc_snapshot sc) snap = Inr b})
    \<and> (r = Inr () \<longrightarrow> store_ready h' (length (sealed_records sealed @ live))
        \<and> Inr (the (fmlookup (dk_files dk') SNAPSHOT_FILE)) = to_vec (sc_snapshot sc) snap)
    \<and> (\<forall>g. g \<noteq> JOURNAL_FILE \<and> \<not> is_segment g \<and> \<not> is_temp_of SNAPSHOT_FILE g \<and> g \<noteq> SNAPSHOT_FILE \<longrightarrow>
        fmlookup (dk_files dk') g = fmlookup (dk_files dk) g)"
proof -
  let ?total = "length (sealed_records sealed @ live)"
  obtain r1 dk1 where save: "save_snapshot fl sc snap h dk = (r1, dk1)" by fastforce
  note eff = save_snapshot_effect [OF save]
  have holds1: "history_holds (sc_audit sc) dk1 sealed live []" using assms(1) save_snapshot_history [OF save] by blast
  have empty_live: "file_bytes dk1 JOURNAL_FILE = [] \<longleftrightarrow> live = []"
    using holds1 by (cases live) (auto simp: history_holds_def codec_keeps_lineD)
  have no_segment: "\<not> is_segment SNAPSHOT_FILE" "SNAPSHOT_FILE \<noteq> JOURNAL_FILE"
    using snapshot_temps [of SNAPSHOT_FILE] by auto
  consider (early) "dk' = dk \<or> dk' = dk1" "r \<noteq> Inr ()"
    | (kept) "dk' = dk1" "h' = h" "r1 = Inr ()" "live = [] \<or> fl (StatFile JOURNAL_FILE) \<noteq> None"
    | (sealing) r2 where "live \<noteq> []" "r1 = Inr ()" "seal_journal fl h dk1 = (r2, h', dk')" "r = Inr () \<longrightarrow> r2 = Inr ()"
    using assms(3) save empty_live
    by (cases "seal_journal fl h dk1")
      (auto simp: store_compact_def sync_directory_def store_guard_def Let_def split: option.splits sum.splits if_splits)
  then show ?thesis
  proof cases
    case early
    then show ?thesis using assms(1) holds1 eff by auto
  next
    case kept
    then show ?thesis using assms(2) holds1 eff by (auto intro!: exI [of _ sealed] exI [of _ live])
  next
    case sealing
    note seal = seal_journal_effect [OF holds1 sealing(1) assms(2) sealing(3)]
    have "sealed_records (sealed @ [(?total - 1, live)]) = sealed_records sealed @ live" by (simp add: sealed_records_def)
    moreover have "fmlookup (dk_files dk') SNAPSHOT_FILE = fmlookup (dk_files dk1) SNAPSHOT_FILE"
      using seal no_segment by blast
    ultimately show ?thesis
      using seal eff sealing(2,4) by (auto 4 4)
  qed
qed

text \<open>On a disk that works, a dense batch is appended, whatever the live file ends with.\<close>

lemma append_works:
  assumes "store_ready h n" and "\<forall>r\<in>set records. codec_keeps_line (sc_audit sc) r" and "dense_from (of_nat n) records"
  shows "store_append disk_works sc records h dk =
    (Inr (), h\<lparr>so_next_sequence := of_nat n + of_nat (length records)\<rparr>,
     put_file JOURNAL_FILE (file_bytes dk JOURNAL_FILE @ journal_bytes (sc_audit sc) records) dk)"
proof -
  have "batch_bytes ar_sequence (sc_audit sc) (path_join (so_root h) JOURNAL_FILE) (of_nat n) records =
      Inr (journal_bytes (sc_audit sc) records, of_nat n + of_nat (length records))"
    using batch_bytes_eq [OF assms(2)] assms(3) by blast
  then show ?thesis
    using assms(1) by (simp add: store_append_def store_ready_def append_batch_def Let_def)
qed

subsection \<open>A sample store\<close>

text \<open>A codec that writes a record as its number, and a directory whose decision journal holds the
  records zero and one.\<close>

definition sample_row :: "u64 \<Rightarrow> audit_record" where
  "sample_row n = \<lparr>ar_sequence = n, ar_request_id = ''q'', ar_tenant = ''acme'', ar_actor = ''alice'',
     ar_tool = ''memory.recall'', ar_cost = 0, ar_justification = None, ar_outcome = Forwarded\<rparr>"

definition row_codec :: "audit_record json_codec" where
  "row_codec = \<lparr>from_slice = (\<lambda>s. case s of c # digits \<Rightarrow>
        if c = CHR ''r'' then (case parse_u64 digits of Some n \<Rightarrow> Inr (sample_row n) | None \<Rightarrow> Inl ''no number'')
        else Inl ''no record'' | [] \<Rightarrow> Inl ''empty''),
     to_vec = (\<lambda>r. Inr (CHR ''r'' # show_nat (unat (ar_sequence r))))\<rparr>"

definition sample_codecs :: store_codecs where
  "sample_codecs = \<lparr>sc_snapshot = \<lparr>from_slice = \<lambda>_. Inl ''none'', to_vec = \<lambda>_. Inr ''{}''\<rparr>, sc_audit = row_codec,
     sc_governance = \<lparr>from_slice = \<lambda>_. Inl ''none'', to_vec = \<lambda>_. Inl ''none''\<rparr>,
     sc_rev_snapshot = \<lparr>from_slice = \<lambda>_. Inl ''none'', to_vec = \<lambda>_. Inl ''none''\<rparr>,
     sc_rev_journal = \<lparr>from_slice = \<lambda>_. Inl ''none'', to_vec = \<lambda>_. Inl ''none''\<rparr>\<rparr>"

definition sample_disk :: "str \<Rightarrow> disk" where
  "sample_disk torn = \<lparr>dk_files = fmupd JOURNAL_FILE (journal_bytes row_codec [sample_row 0, sample_row 1] @ torn) fmempty,
     dk_locked = True, dk_attempt = 0, dk_pid = ''1'', dk_name_taken = ''File exists''\<rparr>"

definition sample_store :: store where
  "sample_store = \<lparr>so_root = ''/var/ccos'', so_journal = JOURNAL_FILE, so_next_revocation_sequence = 0,
     so_next_ordinal = 0, so_next_sequence = 2, so_poisoned = None, so_unflushed = []\<rparr>"

lemma ar_sequence_sample [simp]: "ar_sequence (sample_row n) = n"
  by (simp add: sample_row_def)

lemma json_text_sample: "json_text row_codec (sample_row n) = CHR ''r'' # show_nat (unat n)"
  by (simp add: json_text_def row_codec_def)

lemma sample_codecs_simps [simp]: "sc_audit sample_codecs = row_codec" "to_vec (sc_snapshot sample_codecs) snap = Inr ''{}''"
  by (simp_all add: sample_codecs_def)

lemma row_codec_keeps: "codec_keeps_line row_codec (sample_row n)"
proof -
  have "newline \<notin> set (show_nat (unat n))"
    using show_nat_digits [of newline "unat n"] by (auto simp: is_ascii_digit_def)
  moreover have "unat n < 2 ^ 64" using unsigned_less [of n] by simp
  ultimately show ?thesis
    by (simp add: codec_keeps_line_def row_codec_def sample_row_def parse_show)
qed

lemma sample_history:
  "newline \<notin> set torn \<Longrightarrow> history_holds row_codec (sample_disk torn) [] [sample_row 0, sample_row 1] torn"
proof -
  have "segments_hold row_codec (sample_disk torn) []"
    by (auto simp: segments_hold_def sample_disk_def)
  then show "newline \<notin> set torn \<Longrightarrow> history_holds row_codec (sample_disk torn) [] [sample_row 0, sample_row 1] torn"
    by (simp add: history_holds_def sealed_records_def row_codec_keeps)
      (simp add: sample_disk_def file_bytes_def sample_row_def)
qed

lemma sample_ready: "store_ready sample_store (length (sealed_records [] @ [sample_row 0, sample_row 1]))"
  by (simp add: store_ready_def sample_store_def sealed_records_def)

lemma sample_append:
  "store_append disk_works sample_codecs [sample_row 2] sample_store (sample_disk torn) =
    (Inr (), sample_store\<lparr>so_next_sequence := 3\<rparr>,
     put_file JOURNAL_FILE (file_bytes (sample_disk torn) JOURNAL_FILE @ journal_bytes row_codec [sample_row 2]) (sample_disk torn))"
  using append_works [OF sample_ready, of "[sample_row 2]" sample_codecs "sample_disk torn"] row_codec_keeps
  by (simp add: sealed_records_def)

subsection \<open>Properties\<close>

text \<open>
  C6: An append of decisions is durable or harmless, on a history without a torn tail and with a handle ready
  to append to it. If it returns without error, the history on disk is the old one followed by the whole
  batch. Whatever write, sync or rollback fails, the history on disk as the append leaves it is the
  old one followed by a prefix of the batch and perhaps a torn line, the old one alone if the rollback
  worked, and the handle then refuses further appends unless nothing was touched. Dropping the handle
  changes no file if the append succeeded or its write did not fail; what a failed write left in
  the writer's buffer is written then, as \<open>failed_append_resurfaces_on_drop\<close> shows.
\<close>

theorem journal_append_durable:
  assumes "history_holds (sc_audit sc) dk sealed live []" and "store_ready h (length (sealed_records sealed @ live))"
    and "\<forall>r\<in>set records. codec_keeps_line (sc_audit sc) r"
    and "length (sealed_records sealed @ live) + length records < 2 ^ 64"
    and "store_append fl sc records h dk = (r, h', dk')"
  shows "(r = Inr () \<longrightarrow> read_audit_history disk_works dbg (sc_audit sc) root dk' =
        Inr (Some (sealed_records sealed @ live @ records, 0)) \<or> sealed_records sealed @ live @ records = [])
    \<and> (\<exists>found k torn. read_audit_history disk_works dbg (sc_audit sc) root dk' = Inr found
        \<and> (case found of None \<Rightarrow> ([], 0) | Some j \<Rightarrow> j) = (sealed_records sealed @ live @ take k records, torn)
        \<and> (r \<noteq> Inr () \<and> fl (CutFile JOURNAL_FILE) = None \<longrightarrow> k = 0 \<and> torn = 0))
    \<and> (r \<noteq> Inr () \<longrightarrow> h' = h \<and> dk' = dk \<or> so_poisoned h' \<noteq> None)
    \<and> (r = Inr () \<or> fl (WriteFile JOURNAL_FILE) = None \<longrightarrow> dk_files (store_drop fl' h' dk') = dk_files dk')"
proof -
  obtain k torn where k: "history_holds (sc_audit sc) dk' sealed (live @ take k records) torn"
    "r = Inr () \<longrightarrow> length records \<le> k \<and> torn = []"
    "r \<noteq> Inr () \<longrightarrow> h' = h \<and> dk' = dk \<or> so_poisoned h' \<noteq> None"
    "r \<noteq> Inr () \<and> fl (CutFile JOURNAL_FILE) = None \<longrightarrow> k = 0 \<and> torn = []"
    using append_history [OF assms] by blast
  obtain found where found: "read_audit_history disk_works dbg (sc_audit sc) root dk' = Inr found"
    "(case found of None \<Rightarrow> ([], 0) | Some j \<Rightarrow> j) = (sealed_records sealed @ live @ take k records, length torn)"
    using read_history [OF k(1), of dbg root] by auto
  have "dk_files (store_drop fl' h' dk') = dk_files dk'" if "r = Inr () \<or> fl (WriteFile JOURNAL_FILE) = None"
    using store_append_unflushed [OF assms(5)] assms(2) that by (simp add: store_ready_def store_drop_clean)
  then show ?thesis
    using found k(2-4) by (intro conjI exI [of _ found] exI [of _ k] exI [of _ "length torn"]) (auto split: option.splits)
qed

theorem journal_append_durable_witness:
  "read_audit_history disk_works id row_codec ''/var/ccos''
     (snd (snd (store_append disk_works sample_codecs [sample_row 2] sample_store (sample_disk [])))) =
     Inr (Some ([sample_row 0, sample_row 1, sample_row 2], 0))"
proof -
  obtain h' dk' where run: "store_append disk_works sample_codecs [sample_row 2] sample_store (sample_disk []) = (Inr (), h', dk')"
    using sample_append by blast
  show ?thesis
    using journal_append_durable [OF _ _ _ _ run, of "[]" "[sample_row 0, sample_row 1]" id "''/var/ccos''"]
      sample_history [of "[]"] sample_ready row_codec_keeps
    by (simp add: run sealed_records_def)
qed

text \<open>
  C25: Compaction never changes a history without a torn tail, under a handle ready to append to it. Whatever
  step fails, the decisions read back from disk are exactly those before, in the same order and without a
  torn line; the snapshot file holds the old bytes or all of the new ones. When compaction succeeds on a
  disk that answers, the live journal is empty, the new snapshot is in place and the handle goes on at the
  same sequence. A torn tail is excluded: compaction would seal it into a segment.
\<close>

theorem compaction_keeps_history:
  assumes "history_holds (sc_audit sc) dk sealed live []" and "store_ready h (length (sealed_records sealed @ live))"
    and "store_compact fl sc snap h dk = (r, h', dk')"
  shows "(\<exists>sealed' live'. history_holds (sc_audit sc) dk' sealed' live' []
        \<and> sealed_records sealed' @ live' = sealed_records sealed @ live
        \<and> (r = Inr () \<and> fl (StatFile JOURNAL_FILE) = None \<longrightarrow> live' = []))
    \<and> (fmlookup (dk_files dk') SNAPSHOT_FILE \<in> {fmlookup (dk_files dk) SNAPSHOT_FILE} \<union>
        {Some b | b. to_vec (sc_snapshot sc) snap = Inr b})
    \<and> (r = Inr () \<longrightarrow> store_ready h' (length (sealed_records sealed @ live))
        \<and> Inr (the (fmlookup (dk_files dk') SNAPSHOT_FILE)) = to_vec (sc_snapshot sc) snap)"
  using compact_history [OF assms] by blast

theorem compaction_keeps_history_witness:
  "\<exists>sealed live. history_holds row_codec (snd (snd (store_compact (disk_works(CreateFile JOURNAL_FILE := Some (0, ''EIO'')))
       sample_codecs ((snapshot deployment_new)\<lparr>ds_sequence_watermark := 2\<rparr>) sample_store (sample_disk [])))) sealed live []
     \<and> sealed_records sealed @ live = [sample_row 0, sample_row 1]"
proof -
  let ?fl = "disk_works(CreateFile JOURNAL_FILE := Some (0, ''EIO''))"
  obtain r h' dk' where run: "store_compact ?fl sample_codecs ((snapshot deployment_new)\<lparr>ds_sequence_watermark := 2\<rparr>)
      sample_store (sample_disk []) = (r, h', dk')"
    by (metis prod_cases3)
  show ?thesis
    using compaction_keeps_history [OF _ sample_ready run] sample_history [of "[]"]
    by (auto simp: run sealed_records_def)
qed

text \<open>
  C39: A torn tail is forgiven once and then destroys the journal. After a crash in the middle of an
  append the store opens and drops the torn bytes when it reads, but it never removes them from
  the file: the next append succeeds, its first record lands on the torn line, and from then on
  every read of the history, so every later start, is refused.
\<close>

theorem torn_tail_then_append_unreadable:
  assumes "history_holds (sc_audit sc) dk sealed live torn" and "torn \<noteq> []"
    and "store_ready h (length (sealed_records sealed @ live))"
    and "dense_from (of_nat (length (sealed_records sealed @ live))) (r # rs)"
    and "\<forall>x\<in>set (r # rs). codec_keeps_line (sc_audit sc) x"
    and "from_slice (sc_audit sc) (torn @ json_text (sc_audit sc) r) = Inl e"
  shows "\<exists>h' dk'. store_append disk_works sc (r # rs) h dk = (Inr (), h', dk')
    \<and> read_audit_history disk_works dbg (sc_audit sc) root dk' =
        Inl (JournalCorrupt (path_join root JOURNAL_FILE) (length live + 1) e)"
proof -
  let ?json = "sc_audit sc"
  let ?dk = "put_file JOURNAL_FILE (file_bytes dk JOURNAL_FILE @ journal_bytes ?json (r # rs)) dk"
  have r: "json_text ?json r \<noteq> []" "newline \<notin> set (json_text ?json r)" using assms(5) by (simp_all add: codec_keeps_lineD)
  have "newline \<notin> set torn" "file_bytes dk JOURNAL_FILE = journal_bytes ?json live @ torn"
    using assms(1) by (simp_all add: history_holds_def)
  with r have "read_audit_history disk_works dbg ?json root ?dk =
      Inl (JournalCorrupt (path_join root JOURNAL_FILE) (length live + 1) e)"
    using assms(2,5)
    by (intro read_history_bad_line [OF assms(1), of _ "torn @ json_text ?json r" "map (json_text ?json) rs"])
      (auto simp: assms(6) journal_bytes_lines codec_keeps_lineD)
  then show ?thesis using append_works [OF assms(3,5,4)] by blast
qed

theorem torn_tail_then_append_unreadable_witness:
  "read_audit_history disk_works id row_codec ''/var/ccos''
     (snd (snd (store_append disk_works sample_codecs [sample_row 2] sample_store (sample_disk ''r'')))) =
     Inl (JournalCorrupt (path_join ''/var/ccos'' JOURNAL_FILE) 3 ''no number'')"
proof -
  have "from_slice row_codec (''r'' @ json_text row_codec (sample_row 2)) = Inl ''no number''"
    by (simp add: json_text_sample) (simp add: row_codec_def parse_u64_def is_ascii_digit_def)
  then show ?thesis
    using torn_tail_then_append_unreadable [of sample_codecs "sample_disk ''r''" "[]" "[sample_row 0, sample_row 1]" "''r''"
        sample_store "sample_row 2" "[]" "''no number''" id "''/var/ccos''"] sample_history [of "''r''"] sample_ready row_codec_keeps
    by (auto simp: sealed_records_def numeral_3_eq_3)
qed

text \<open>
  A failed append can come back when the handle is dropped. The write stops in the middle of the
  first record, the file is cut back and the handle refuses further appends; but the unwritten
  rest of the batch is still in the writer's buffer and is written when the handle is dropped. The
  file then holds the rest of a record as a line of its own, and every later start is refused.
\<close>

theorem failed_append_resurfaces_on_drop:
  assumes "history_holds (sc_audit sc) dk sealed live []" and "store_ready h (length (sealed_records sealed @ live))"
    and "dense_from (of_nat (length (sealed_records sealed @ live))) (r # rs)"
    and "\<forall>x\<in>set (r # rs). codec_keeps_line (sc_audit sc) x"
    and "length (journal_bytes (sc_audit sc) (r # rs)) < BUF_WRITER_CAPACITY"
    and "fl (StatFile JOURNAL_FILE) = None" and "fl (WriteFile JOURNAL_FILE) = Some (n, e)" and "fl (CutFile JOURNAL_FILE) = None"
    and "n < length (json_text (sc_audit sc) r)"
    and "from_slice (sc_audit sc) (drop n (json_text (sc_audit sc) r)) = Inl e'"
  shows "\<exists>h' dk'. store_append fl sc (r # rs) h dk = (Inl (StoreIo (path_join (so_root h) JOURNAL_FILE) e), h', dk')
    \<and> history_holds (sc_audit sc) dk' sealed live [] \<and> so_poisoned h' \<noteq> None
    \<and> read_audit_history disk_works dbg (sc_audit sc) root (store_drop disk_works h' dk') =
        Inl (JournalCorrupt (path_join root JOURNAL_FILE) (length live + 1) e')"
proof -
  let ?json = "sc_audit sc"
  let ?buffer = "journal_bytes ?json (r # rs)"
  let ?h = "h\<lparr>so_poisoned := Some (''journal append failed after '' @ show_nat (length (journal_bytes ?json live)) @ '' durable bytes''),
    so_unflushed := [(JOURNAL_FILE, drop n ?buffer)]\<rparr>"
  let ?dk = "put_file JOURNAL_FILE (journal_bytes ?json live) dk"
  have live: "file_bytes dk JOURNAL_FILE = journal_bytes ?json live" using assms(1) by (simp add: history_holds_def)
  have ready: "so_journal h = JOURNAL_FILE" "so_poisoned h = None" "so_unflushed h = []"
      "so_next_sequence h = of_nat (length (sealed_records sealed @ live))"
    using assms(2) by (simp_all add: store_ready_def)
  have "batch_bytes ar_sequence ?json (path_join (so_root h) JOURNAL_FILE) (so_next_sequence h) (r # rs) =
      Inr (?buffer, so_next_sequence h + of_nat (length (r # rs)))"
    using batch_bytes_eq [OF assms(4)] assms(3) ready(4) by metis
  then have run: "store_append fl sc (r # rs) h dk = (Inl (StoreIo (path_join (so_root h) JOURNAL_FILE) e), ?h, ?dk)"
    using ready(1-3) assms(5-8)
    by (simp only: store_append_def append_batch_def Let_def option.case sum.case prod.case live) simp
  have keep: "history_holds ?json ?dk sealed live []"
    using history_holds_live [OF assms(1), of "[]" live] assms(1) by (simp add: history_holds_def)
  have tail: "drop n (json_text ?json r) \<noteq> []" "newline \<notin> set (drop n (json_text ?json r))"
    using assms(4,9) by (auto simp: codec_keeps_lineD dest: in_set_dropD)
  have "drop n ?buffer = lines_bytes (drop n (json_text ?json r) # map (json_text ?json) rs)"
    using assms(4,9) by (simp add: codec_keeps_lineD journal_bytes_lines)
  then have "read_audit_history disk_works dbg ?json root (store_drop disk_works ?h ?dk) =
      Inl (JournalCorrupt (path_join root JOURNAL_FILE) (length live + 1) e')"
    using assms(4) tail
    by (intro read_history_bad_line [OF keep, of _ "drop n (json_text ?json r)" "map (json_text ?json) rs"])
      (auto simp: assms(10) store_drop_def flush_unflushed_def file_bytes_def codec_keeps_lineD)
  with run keep show ?thesis by auto
qed

theorem failed_append_resurfaces_on_drop_witness:
  "read_audit_history disk_works id row_codec ''/var/ccos''
     (case store_append (disk_works(WriteFile JOURNAL_FILE := Some (1, ''ENOSPC''))) sample_codecs [sample_row 2]
             sample_store (sample_disk []) of (_, h', dk') \<Rightarrow> store_drop disk_works h' dk') =
     Inl (JournalCorrupt (path_join ''/var/ccos'' JOURNAL_FILE) 3 ''no record'')"
proof -
  have two: "show_nat 2 = ''2''" by code_simp
  have "from_slice row_codec (drop 1 (json_text row_codec (sample_row 2))) = Inl ''no record''"
    by (simp add: json_text_sample two) (simp add: row_codec_def)
  moreover have "journal_bytes row_codec [sample_row 2] = ''r2'' @ [newline]"
    by (simp add: codec_keeps_lineD [OF row_codec_keeps] json_text_sample two)
  ultimately have "\<exists>h' dk'. store_append (disk_works(WriteFile JOURNAL_FILE := Some (1, ''ENOSPC''))) sample_codecs [sample_row 2]
        sample_store (sample_disk []) = (Inl (StoreIo (path_join (so_root sample_store) JOURNAL_FILE) ''ENOSPC''), h', dk')
      \<and> read_audit_history disk_works id row_codec ''/var/ccos'' (store_drop disk_works h' dk') =
        Inl (JournalCorrupt (path_join ''/var/ccos'' JOURNAL_FILE) 3 ''no record'')"
    using failed_append_resurfaces_on_drop [of sample_codecs "sample_disk []" "[]" "[sample_row 0, sample_row 1]"
        sample_store "sample_row 2" "[]" "disk_works(WriteFile JOURNAL_FILE := Some (1, ''ENOSPC''))" 1 "''ENOSPC''"
        "''no record''" id "''/var/ccos''"] sample_history [of "[]"] sample_ready row_codec_keeps
    by (auto simp: sealed_records_def numeral_3_eq_3 json_text_sample two BUF_WRITER_CAPACITY_def)
  then obtain h' dk' where "store_append (disk_works(WriteFile JOURNAL_FILE := Some (1, ''ENOSPC''))) sample_codecs [sample_row 2]
        sample_store (sample_disk []) = (Inl (StoreIo (path_join (so_root sample_store) JOURNAL_FILE) ''ENOSPC''), h', dk')"
      "read_audit_history disk_works id row_codec ''/var/ccos'' (store_drop disk_works h' dk') =
        Inl (JournalCorrupt (path_join ''/var/ccos'' JOURNAL_FILE) 3 ''no record'')"
    by blast
  then show ?thesis by simp
qed

end
