(* ===== verification/Denylist_Store.thy ===== *)
theory Denylist_Store
  imports Store_Properties
begin

section \<open>The deny-list across a restart\<close>

text \<open>
  The deny-list the verifiers of a process share and its journal on disk move together: whatever is
  revoked or restored through the store, a later process reads back exactly the list the verifiers
  had, less what has expired in the meantime. The journal is replayed with the later clock.
\<close>

subsection \<open>Replaying mutations with a later clock\<close>

text \<open>An identifier has one expiry: \<open>jti\<close> is unique per issuance.\<close>

definition expiry_of :: "(str \<Rightarrow> u64) \<Rightarrow> revocation_event \<Rightarrow> bool" where
  "expiry_of ex ev = (case ev of RevokeToken jti e _ \<Rightarrow> e = ex jti | _ \<Rightarrow> True)"

definition tokens_expire :: "(str \<Rightarrow> u64) \<Rightarrow> revocations \<Rightarrow> bool" where
  "tokens_expire ex r \<longleftrightarrow> (\<forall>jti e. fmlookup (dl_tokens r) jti = Some e \<longrightarrow> e = ex jti)"

lemma fmretain_later: "t \<le> T \<Longrightarrow> fmretain (\<lambda>e. T \<le> e) (fmretain (\<lambda>e. t \<le> e) m) = fmretain (\<lambda>e. (T :: u64) \<le> e) m"
  by (rule fmap_ext) (auto split: option.splits)

lemma prune_later: "t \<le> T \<Longrightarrow> prune T (prune t r) = prune T r"
  by (simp add: prune_def fmretain_later)

lemma prune_simps [simp]:
  "dl_actors (prune now r) = dl_actors r" "dl_max_tokens (prune now r) = dl_max_tokens r"
  "dl_max_actors (prune now r) = dl_max_actors r" "dl_tokens (prune now r) = fmretain (\<lambda>e. now \<le> e) (dl_tokens r)"
  by (simp_all add: prune_def)

lemma tokens_expire_apply:
  assumes "tokens_expire ex r" and "expiry_of ex ev"
  shows "tokens_expire ex (snd (apply_event ev t r))"
  using assms
  by (cases ev) (auto simp: tokens_expire_def expiry_of_def revoke_token_def prune_def revoke_actor_def restore_actor_def
      Let_def case_prod_beta split: option.splits if_splits)

lemma revoke_token_ok:
  assumes "fst (revoke_token jti e t r)"
  shows "snd (revoke_token jti e t r) = r\<lparr>dl_tokens := fmupd jti e (fmretain (\<lambda>e. t \<le> e) (dl_tokens r))\<rparr>"
    and "fmlen (fmretain (\<lambda>e. t \<le> e) (dl_tokens r)) < dl_max_tokens r \<or> fmcontains (fmretain (\<lambda>e. t \<le> e) (dl_tokens r)) jti"
  using assms by (auto simp: revoke_token_def Let_def prune_def split: if_splits)

lemma revoke_token_lapsed:
  assumes "fst (revoke_token jti e t r)" and "t \<le> T" and "e < T"
    and "\<And>x. fmlookup (dl_tokens r) jti = Some x \<Longrightarrow> x = e"
  shows "prune T (snd (revoke_token jti e t r)) = prune T r"
proof -
  have "fmretain (\<lambda>e. T \<le> e) (fmupd jti e (fmretain (\<lambda>e. t \<le> e) (dl_tokens r))) = fmretain (\<lambda>e. T \<le> e) (dl_tokens r)"
    using assms by (intro fmap_ext) (auto split: option.splits)
  then show ?thesis by (simp add: revoke_token_ok [OF assms(1)] prune_def)
qed

lemma revoke_token_again:
  assumes "fst (revoke_token jti e t r)" and "t \<le> T" and "\<not> e < T"
    and "\<And>x. fmlookup (dl_tokens r) jti = Some x \<Longrightarrow> x = e"
  shows "revoke_token jti e T (prune T r) = (True, prune T (snd (revoke_token jti e t r)))"
proof -
  let ?m = "fmretain (\<lambda>e. t \<le> e) (dl_tokens r)" and ?n = "fmretain (\<lambda>e. T \<le> e) (dl_tokens r)"
  have eq: "fmretain (\<lambda>e. T \<le> e) (fmupd jti e ?m) = fmupd jti e ?n"
    using assms(2,3) by (intro fmap_ext) (auto split: option.splits)
  have "fmlen ?n \<le> fmlen ?m" using fmlen_retain [of "\<lambda>e. T \<le> e" ?m] assms(2) by (simp add: fmretain_later)
  moreover have "fmcontains ?n jti" if "fmcontains ?m jti"
    using that assms(3,4) by (auto simp: fmlookup_dom_iff split: option.splits if_splits)
  ultimately have "\<not> (dl_max_tokens r \<le> fmlen ?n \<and> \<not> fmcontains ?n jti)"
    using revoke_token_ok(2) [OF assms(1)] by linarith
  then show ?thesis
    unfolding revoke_token_ok(1) [OF assms(1)] using eq by (simp add: revoke_token_def Let_def prune_def)
qed

text \<open>Replaying a mutation on a list pruned at a later instant gives the list it gave, pruned there.\<close>

lemma replay_later:
  assumes "apply_event ev t r = (Inr True, r')" and "t \<le> T" and "tokens_expire ex r" and "expiry_of ex ev"
  shows "apply_event ev T (prune T r) = (Inr True, prune T r')"
proof (cases ev)
  case (RevokeToken jti e observed)
  then have can: "is_canonical_identity jti" and jti: "\<And>x. fmlookup (dl_tokens r) jti = Some x \<Longrightarrow> x = e"
    using assms(1,3,4) by (auto simp: expiry_of_def tokens_expire_def split: if_splits)
  show ?thesis
  proof (cases "e < t")
    case True
    then have "r' = prune t r" "e < T" using assms(1,2) can RevokeToken by auto
    then show ?thesis using can RevokeToken assms(2) by (simp add: prune_later)
  next
    case False
    then have run: "fst (revoke_token jti e t r)" "r' = snd (revoke_token jti e t r)"
      using assms(1) can RevokeToken by (auto simp: case_prod_beta)
    then show ?thesis
      using revoke_token_lapsed [OF run(1) assms(2) _ jti] revoke_token_again [OF run(1) assms(2) _ jti] can RevokeToken
      by (cases "e < T") (simp_all add: prune_later)
  qed
next
  case (RevokeActor org actor through)
  then show ?thesis
    using assms(1) by (auto simp: revoke_actor_def prune_def Let_def split: option.splits if_splits)
next
  case (RestoreActor org actor)
  then show ?thesis
    using assms(1) by (auto simp: restore_actor_def prune_def Let_def split: if_splits)
qed

subsection \<open>The journal and the shared list\<close>

definition numbered_events :: "revocation_event list \<Rightarrow> revocation_journal_record list" where
  "numbered_events evs = map (\<lambda>(i, ev). \<lparr>rj_sequence = of_nat i, rj_event = ev\<rparr>) (List.enumerate 0 evs)"

text \<open>The deny-list is the result of the mutations in the journal, each applied at its own time.\<close>

inductive denylist_trace :: "(str \<Rightarrow> u64) \<Rightarrow> u64 \<Rightarrow> revocation_event list \<Rightarrow> revocations \<Rightarrow> bool" where
  fresh: "denylist_trace ex T [] revocations_new"
| applied: "denylist_trace ex T evs r \<Longrightarrow> t \<le> T \<Longrightarrow> expiry_of ex ev \<Longrightarrow> apply_event ev t r = (Inr True, r') \<Longrightarrow>
     denylist_trace ex T (evs @ [ev]) r'"

definition denylist_synced ::
  "(str \<Rightarrow> u64) \<Rightarrow> u64 \<Rightarrow> store_codecs \<Rightarrow> revocation_event list \<Rightarrow> revocations \<Rightarrow> store \<Rightarrow> disk \<Rightarrow> bool" where
  "denylist_synced ex T sc evs shared h dk \<longleftrightarrow>
     denylist_trace ex T evs shared
     \<and> fmlookup (dk_files dk) REVOCATION_JOURNAL_FILE = Some (journal_bytes (sc_rev_journal sc) (numbered_events evs))
     \<and> fmlookup (dk_files dk) REVOCATION_SNAPSHOT_FILE = None
     \<and> (\<forall>r\<in>set (numbered_events evs). codec_keeps_line (sc_rev_journal sc) r)
     \<and> so_next_revocation_sequence h = of_nat (length evs)"

lemma numbered_events_snoc:
  "numbered_events (evs @ [ev]) = numbered_events evs @ [\<lparr>rj_sequence = of_nat (length evs), rj_event = ev\<rparr>]"
  by (simp add: numbered_events_def enumerate_append_eq)

lemma numbered_events_dense: "seq_from rj_sequence 0 (numbered_events evs)"
proof (induction evs rule: rev_induct)
  case (snoc ev evs)
  moreover have "length (numbered_events evs) = length evs" by (simp add: numbered_events_def)
  ultimately show ?case by (simp add: numbered_events_snoc seq_from_append)
qed (simp add: numbered_events_def)

lemma trace_expire: "denylist_trace ex T evs r \<Longrightarrow> tokens_expire ex r"
proof (induction rule: denylist_trace.induct)
  case fresh
  then show ?case by (simp add: tokens_expire_def)
next
  case (applied ex T evs r t ev r')
  then show ?case using tokens_expire_apply [of ex r ev t] by simp
qed

lemma replay_trace:
  "denylist_trace ex T evs r \<Longrightarrow>
     res_fold (replay_mutation path T) (numbered_events evs) revocations_new = Inr (prune T r)"
proof (induction rule: denylist_trace.induct)
  case (fresh ex T)
  show ?case by (simp add: numbered_events_def prune_def revocations_new_def fmretain_def)
next
  case (applied ex T evs r t ev r')
  then have "apply_event ev T (prune T r) = (Inr True, prune T r')"
    using replay_later trace_expire by blast
  then show ?case using applied by (simp add: numbered_events_snoc res_fold_append replay_mutation_def)
qed

lemma append_revocation_event_effect:
  assumes "append_revocation_event fl sc ev h dk = (r, h', dk')"
    and "codec_keeps_line (sc_rev_journal sc) \<lparr>rj_sequence = so_next_revocation_sequence h, rj_event = ev\<rparr>"
    and "fl (CutFile REVOCATION_JOURNAL_FILE) = None"
  shows "(\<forall>g. g \<noteq> REVOCATION_JOURNAL_FILE \<longrightarrow> fmlookup (dk_files dk') g = fmlookup (dk_files dk) g)
    \<and> file_bytes dk' REVOCATION_JOURNAL_FILE = file_bytes dk REVOCATION_JOURNAL_FILE @
        (if r = Inr () then json_line (sc_rev_journal sc) \<lparr>rj_sequence = so_next_revocation_sequence h, rj_event = ev\<rparr> else [])
    \<and> (fmlookup (dk_files dk) REVOCATION_JOURNAL_FILE \<noteq> None \<longrightarrow> fmlookup (dk_files dk') REVOCATION_JOURNAL_FILE \<noteq> None)
    \<and> so_next_revocation_sequence h' = so_next_revocation_sequence h + (if r = Inr () then 1 else 0)"
proof (cases "so_poisoned h")
  case (Some reason)
  then show ?thesis using assms(1) by (auto simp: append_revocation_event_def)
next
  case None
  let ?json = "sc_rev_journal sc" and ?row = "\<lparr>rj_sequence = so_next_revocation_sequence h, rj_event = ev\<rparr>"
  let ?path = "path_join (so_root h) REVOCATION_JOURNAL_FILE"
  obtain r1 h1 dk1 where run: "append_batch fl ''revocation'' ?path REVOCATION_JOURNAL_FILE (json_text ?json ?row @ [newline]) h dk
      = (r1, h1, dk1)"
    by (metis prod_cases3)
  then have out: "r = r1" "dk' = dk1"
      "h' = (if r1 = Inr () then h1\<lparr>so_next_revocation_sequence := so_next_revocation_sequence h1 + 1\<rparr> else h1)"
    using assms(1) None codec_keeps_lineD [OF assms(2)]
    by (auto simp: append_revocation_event_def split: sum.splits)
  from run show ?thesis
  proof (cases rule: append_batch_cases)
    case (failed e n)
    moreover from failed(3) have "so_next_revocation_sequence h1 = so_next_revocation_sequence h"
      by (metis store.select_convs(3) store.surjective store.update_convs(6,7))
    ultimately show ?thesis using out assms(3) by (simp add: file_bytes_def)
  qed (use out codec_keeps_lineD [OF assms(2)] in \<open>auto simp: file_bytes_def\<close>)
qed

lemma synced_step:
  assumes "denylist_synced ex T sc evs shared h dk" and "now \<le> T" and "expiry_of ex ev"
    and "\<And>n. codec_keeps_line (sc_rev_journal sc) \<lparr>rj_sequence = n, rj_event = ev\<rparr>"
    and "fl (CutFile REVOCATION_JOURNAL_FILE) = None"
    and "apply_revocation_event fl sc ev now shared h dk = (r, shared', h', dk')"
  shows "\<exists>evs'. denylist_synced ex T sc evs' shared' h' dk'"
proof (cases "\<exists>candidate. apply_event ev now shared = (Inr True, candidate)")
  case False
  then have "shared' = shared \<and> h' = h \<and> dk' = dk"
    using assms(6) by (auto simp: apply_revocation_event_def split: sum.splits prod.splits if_splits)
  then show ?thesis using assms(1) by auto
next
  case True
  then obtain candidate where cand: "apply_event ev now shared = (Inr True, candidate)" by blast
  obtain r1 h1 dk1 where run: "append_revocation_event fl sc ev h dk = (r1, h1, dk1)" by (metis prod_cases3)
  note eff = append_revocation_event_effect [OF run assms(4,5)]
  have out: "h' = h1" "dk' = dk1" "shared' = (if r1 = Inr () then candidate else shared)"
    using assms(6) cand run by (auto simp: apply_revocation_event_def split: sum.splits)
  have files: "fmlookup (dk_files dk1) REVOCATION_JOURNAL_FILE = Some (file_bytes dk1 REVOCATION_JOURNAL_FILE)"
    "file_bytes dk REVOCATION_JOURNAL_FILE = journal_bytes (sc_rev_journal sc) (numbered_events evs)"
    "fmlookup (dk_files dk1) REVOCATION_SNAPSHOT_FILE = None"
    using eff assms(1)
    by (auto simp: denylist_synced_def file_bytes_def REVOCATION_SNAPSHOT_FILE_def REVOCATION_JOURNAL_FILE_def)
  show ?thesis
  proof (cases "r1 = Inr ()")
    case True
    have "denylist_trace ex T (evs @ [ev]) candidate"
      using assms(1-3) cand by (auto simp: denylist_synced_def intro: denylist_trace.applied)
    then have "denylist_synced ex T sc (evs @ [ev]) shared' h' dk'"
      using assms(1,4) eff files out True by (simp add: denylist_synced_def numbered_events_snoc)
    then show ?thesis by blast
  next
    case False
    then show ?thesis using assms(1) eff files out by (intro exI [of _ evs]) (simp add: denylist_synced_def)
  qed
qed

definition denylist_run ::
  "store_codecs \<Rightarrow> (disk_faults \<times> revocation_event \<times> u64) list \<Rightarrow> revocations \<times> store \<times> disk \<Rightarrow> revocations \<times> store \<times> disk" where
  "denylist_run sc ops s =
     fold (\<lambda>(fl, ev, now) (shared, h, dk). snd (apply_revocation_event fl sc ev now shared h dk)) ops s"

lemma synced_run:
  assumes "denylist_synced ex T sc evs shared h dk"
    and "\<forall>(fl, ev, now)\<in>set ops. now \<le> T \<and> expiry_of ex ev \<and> fl (CutFile REVOCATION_JOURNAL_FILE) = None
      \<and> (\<forall>n. codec_keeps_line (sc_rev_journal sc) \<lparr>rj_sequence = n, rj_event = ev\<rparr>)"
    and "denylist_run sc ops (shared, h, dk) = (shared', h', dk')"
  shows "\<exists>evs'. denylist_synced ex T sc evs' shared' h' dk'"
  using assms
proof (induction ops arbitrary: evs shared h dk)
  case Nil
  then show ?case by (auto simp: denylist_run_def)
next
  case (Cons op ops)
  obtain fl ev now where op: "op = (fl, ev, now)" by (metis prod_cases3)
  obtain r s1 h1 dk1 where step: "apply_revocation_event fl sc ev now shared h dk = (r, s1, h1, dk1)"
    by (metis prod_cases4)
  obtain evs1 where evs1: "denylist_synced ex T sc evs1 s1 h1 dk1"
    using synced_step [OF Cons.prems(1) _ _ _ _ step] Cons.prems(2) by (auto simp: op)
  have "denylist_run sc ops (s1, h1, dk1) = (shared', h', dk')"
    using Cons.prems(3) step by (simp add: denylist_run_def op)
  from Cons.IH [OF evs1 _ this] Cons.prems(2) show ?case by simp
qed

lemma synced_load:
  assumes "denylist_synced ex T sc evs shared h dk"
  shows "load_revocations_from_root disk_works sc root T dk = Inr (prune T shared)"
proof -
  let ?rows = "numbered_events evs"
  have "read_lines disk_works root REVOCATION_JOURNAL_FILE dk = Inr (Some (map (json_text (sc_rev_journal sc)) ?rows, 0))"
    using assms(1) read_lines_journal [of dk REVOCATION_JOURNAL_FILE "sc_rev_journal sc" ?rows "[]"]
    by (simp add: denylist_synced_def)
  then have "read_revocation_journal disk_works (sc_rev_journal sc) root dk = Inr (Some (?rows, 0))"
    using numbered_lines_journal [OF _ numbered_events_dense] assms(1)
    by (simp add: read_revocation_journal_def denylist_synced_def Let_def)
  moreover have "revocation_checkpoint disk_works sc root T dk = Inr (revocations_new, 0)"
    using assms(1) by (simp add: revocation_checkpoint_def denylist_synced_def Let_def)
  moreover have "res_fold (replay_mutation path T) ?rows revocations_new = Inr (prune T shared)" for path
    using assms replay_trace [of ex T evs shared] by (simp add: denylist_synced_def)
  ultimately show ?thesis by (simp add: load_revocations_from_root_def Let_def)
qed

lemma synced_files:
  "dk_files dk' = dk_files dk \<Longrightarrow> denylist_synced ex T sc evs shared h dk' = denylist_synced ex T sc evs shared h dk"
  by (simp add: denylist_synced_def)

lemma apply_event_unflushed:
  assumes "apply_revocation_event fl sc ev now shared h dk = (r, shared', h', dk')"
    and "fl (WriteFile REVOCATION_JOURNAL_FILE) = None"
  shows "so_unflushed h' = so_unflushed h"
  using assms append_batch_unflushed
  by (fastforce simp: apply_revocation_event_def append_revocation_event_def Let_def
      split: option.splits sum.splits prod.splits if_splits)

lemma run_unflushed:
  assumes "list_all (\<lambda>(fl, ev, now). fl (WriteFile REVOCATION_JOURNAL_FILE) = None) ops"
    and "denylist_run sc ops (shared, h, dk) = (shared', h', dk')"
  shows "so_unflushed h' = so_unflushed h"
  using assms
proof (induction ops arbitrary: shared h dk)
  case Nil
  then show ?case by (simp add: denylist_run_def)
next
  case (Cons op ops)
  obtain fl ev now where op: "op = (fl, ev, now)" by (metis prod_cases3)
  obtain r s1 h1 dk1 where step: "apply_revocation_event fl sc ev now shared h dk = (r, s1, h1, dk1)"
    by (metis prod_cases4)
  have "denylist_run sc ops (s1, h1, dk1) = (shared', h', dk')" using Cons.prems(2) step by (simp add: denylist_run_def op)
  from Cons.IH [OF _ this] show ?case using Cons.prems(1) apply_event_unflushed [OF step] by (simp add: op)
qed

subsection \<open>Property\<close>

text \<open>
  C7: Revocations are on disk when they are acknowledged. Start from a new store: an empty revocation journal, no
  checkpoint, nothing unflushed. Let any mutations of the deny-list go through it, each token id always with one and
  the same expiry and every mutation one whose line the codec reads back, under any faults of the disk except that
  cutting back a failed append works. Loading the deny-list from the disk, at any time not before the last
  mutation, gives exactly the list the verifiers were using at the end, less the tokens expired by then. If no
  write of the journal failed, the same holds after the handle is dropped, so for the next process; after
  a failed write the drop writes what was left in the buffer.
\<close>

theorem denylist_survives_restart:
  assumes "fmlookup (dk_files dk) REVOCATION_JOURNAL_FILE = Some []"
    and "fmlookup (dk_files dk) REVOCATION_SNAPSHOT_FILE = None"
    and "so_next_revocation_sequence h = 0" and "so_unflushed h = []"
    and "\<forall>(fl, ev, now)\<in>set ops. now \<le> T \<and> expiry_of ex ev \<and> fl (CutFile REVOCATION_JOURNAL_FILE) = None
      \<and> (\<forall>n. codec_keeps_line (sc_rev_journal sc) \<lparr>rj_sequence = n, rj_event = ev\<rparr>)"
    and "denylist_run sc ops (revocations_new, h, dk) = (shared', h', dk')"
  shows "load_revocations_from_root disk_works sc root T dk' = Inr (prune T shared')
    \<and> (list_all (\<lambda>(fl, ev, now). fl (WriteFile REVOCATION_JOURNAL_FILE) = None) ops \<longrightarrow>
        load_revocations_from_root disk_works sc root T (store_drop fl' h' dk') = Inr (prune T shared'))"
proof -
  have "denylist_synced ex T sc [] revocations_new h dk"
    using assms(1-3) by (simp add: denylist_synced_def denylist_trace.fresh numbered_events_def)
  then obtain evs where evs: "denylist_synced ex T sc evs shared' h' dk'" using synced_run assms(5,6) by blast
  moreover have "denylist_synced ex T sc evs shared' h' (store_drop fl' h' dk')"
    if "list_all (\<lambda>(fl, ev, now). fl (WriteFile REVOCATION_JOURNAL_FILE) = None) ops"
    using run_unflushed [OF that assms(6)] assms(4) evs synced_files [of "store_drop fl' h' dk'" dk'] by (simp add: store_drop_clean)
  ultimately show ?thesis using synced_load by blast
qed

text \<open>A codec of the two mutations the instance below journals.\<close>

definition event_codec :: "revocation_journal_record json_codec" where
  "event_codec = \<lparr>from_slice = (\<lambda>s. case s of c # digits \<Rightarrow>
        (case parse_u64 digits of None \<Rightarrow> Inl ''no number''
         | Some n \<Rightarrow> Inr \<lparr>rj_sequence = n, rj_event =
             (if c = CHR ''t'' then RevokeToken ''t1'' 2000 10 else RevokeActor ''acme'' ''bob'' 7)\<rparr>) | [] \<Rightarrow> Inl ''empty''),
     to_vec = (\<lambda>r. Inr ((case rj_event r of RevokeToken _ _ _ \<Rightarrow> CHR ''t'' | _ \<Rightarrow> CHR ''a'') # show_nat (unat (rj_sequence r))))\<rparr>"

lemma event_codec_keeps:
  "codec_keeps_line event_codec \<lparr>rj_sequence = n, rj_event = RevokeToken ''t1'' 2000 10\<rparr>"
  "codec_keeps_line event_codec \<lparr>rj_sequence = n, rj_event = RevokeActor ''acme'' ''bob'' 7\<rparr>"
proof -
  have "newline \<notin> set (show_nat (unat n))"
    using show_nat_digits [of newline "unat n"] by (auto simp: is_ascii_digit_def)
  then show "codec_keeps_line event_codec \<lparr>rj_sequence = n, rj_event = RevokeToken ''t1'' 2000 10\<rparr>"
    "codec_keeps_line event_codec \<lparr>rj_sequence = n, rj_event = RevokeActor ''acme'' ''bob'' 7\<rparr>"
    using parse_show [of "unat n"] by (simp_all add: codec_keeps_line_def event_codec_def)
qed

theorem denylist_survives_restart_witness:
  "let sc = sample_codecs\<lparr>sc_rev_journal := event_codec\<rparr>;
       ops = [(disk_works, RevokeToken ''t1'' 2000 10, 10),
              (disk_works(SyncFile REVOCATION_JOURNAL_FILE := Some (0, ''EIO'')), RevokeActor ''acme'' ''bob'' 7, 20)];
       (shared, h, dk) = denylist_run sc ops (revocations_new, sample_store, put_file REVOCATION_JOURNAL_FILE [] (sample_disk []))
   in load_revocations_from_root disk_works sc ''/var/ccos'' 1500 (store_drop disk_works h dk) = Inr (prune 1500 shared)"
proof -
  let ?sc = "sample_codecs\<lparr>sc_rev_journal := event_codec\<rparr>"
  let ?ops = "[(disk_works, RevokeToken ''t1'' 2000 10, 10),
    (disk_works(SyncFile REVOCATION_JOURNAL_FILE := Some (0, ''EIO'')), RevokeActor ''acme'' ''bob'' 7, 20)]"
  let ?dk = "put_file REVOCATION_JOURNAL_FILE [] (sample_disk [])"
  obtain shared h dk where run: "denylist_run ?sc ?ops (revocations_new, sample_store, ?dk) = (shared, h, dk)" by (metis prod_cases3)
  have new: "fmlookup (dk_files ?dk) REVOCATION_JOURNAL_FILE = Some []" "fmlookup (dk_files ?dk) REVOCATION_SNAPSHOT_FILE = None"
    "so_next_revocation_sequence sample_store = 0" "so_unflushed sample_store = []"
    by (simp_all add: sample_store_def sample_disk_def REVOCATION_SNAPSHOT_FILE_def REVOCATION_JOURNAL_FILE_def JOURNAL_FILE_def)
  have ops: "\<forall>(fl, ev, now)\<in>set ?ops. now \<le> (1500 :: u64) \<and> expiry_of (\<lambda>_. 2000) ev \<and> fl (CutFile REVOCATION_JOURNAL_FILE) = None
      \<and> (\<forall>n. codec_keeps_line (sc_rev_journal ?sc) \<lparr>rj_sequence = n, rj_event = ev\<rparr>)"
    by (simp add: expiry_of_def event_codec_keeps)
  from denylist_survives_restart [OF new ops run, of "''/var/ccos''" disk_works]
  have "load_revocations_from_root disk_works ?sc ''/var/ccos'' 1500 (store_drop disk_works h dk) = Inr (prune 1500 shared)"
    by simp
  then show ?thesis unfolding Let_def run by simp
qed

end
