(* ===== verification/Persistence.thy ===== *)
theory Persistence
  imports Store_Properties
begin

section \<open>Persisting a deployment (crates/ccos-enterprise-mcp, persist\_deployment)\<close>

text \<open>
  The durability boundary of the server: journal first, snapshot second, compaction when the live
  journal has grown. The theorem at the end composes the runtime, the store and the directory: what
  was persisted is what a later process restores.
\<close>

fun store_error_text :: "store_error \<Rightarrow> str" where
  "store_error_text (StoreIo path e) = path @ '': '' @ e"
| "store_error_text (SnapshotCorrupt path detail) = path @ '': snapshot is unreadable: '' @ detail"
| "store_error_text (JournalCorrupt path line detail) =
     path @ '':'' @ show_nat line @ '': journal line is unreadable: '' @ detail"
| "store_error_text (JournalDiscontinuity path line expected found) =
     path @ '':'' @ show_nat line @ '': journal jumps to sequence '' @ show_nat (unat found)
       @ '', expected '' @ show_nat (unat expected)"
| "store_error_text (SnapshotMissing path) =
     path @ '': a journal with no snapshot '' @ [CHR 0xE2, CHR 0x80, CHR 0x94] @ '' there is no ledger to replay onto''"
| "store_error_text (RevocationCorrupt path detail) = path @ '': revocation state is unreadable: '' @ detail"
| "store_error_text (AlreadyOpen path) =
     path @ '': another process or handle already has this store open; the store is single-writer''"
| "store_error_text (Poisoned path detail) =
     path @ '': store is poisoned after an earlier append failure ('' @ detail @ ''); reopen to recover from disk''"
| "store_error_text (CompactRefused path detail) =
     path @ '': compaction refused ('' @ detail @ ''); nothing was moved''"

definition COMPACTION_THRESHOLD_BYTES :: nat where
  "COMPACTION_THRESHOLD_BYTES = 134217728"

text \<open>The four stretches of \<open>persist_deployment\<close>.\<close>

definition persist_decisions ::
  "disk_faults \<Rightarrow> store_codecs \<Rightarrow> deployment \<Rightarrow> store \<Rightarrow> disk \<Rightarrow> (str + unit) \<times> store \<times> disk" where
  "persist_decisions fl sc d h dk =
     (let watermark = ds_sequence_watermark (snapshot d);
          decisions = filter (\<lambda>r. so_next_sequence h \<le> ar_sequence r) (d_audit d) in
      if watermark < so_next_sequence h then
        (Inl (''durable audit is ahead of runtime: store='' @ show_nat (unat (so_next_sequence h))
           @ '', runtime='' @ show_nat (unat watermark)), h, dk)
      else
        let (r, h, dk) = (if decisions = [] then (Inr (), h, dk) else store_append fl sc decisions h dk) in
        case r of
          Inl e \<Rightarrow> (Inl (''cannot persist Enterprise audit: '' @ store_error_text e), h, dk)
        | Inr _ \<Rightarrow>
            if so_next_sequence h \<noteq> watermark then
              (Inl (''runtime audit window cannot fill durable gap: store='' @ show_nat (unat (so_next_sequence h))
                 @ '', runtime='' @ show_nat (unat watermark)), h, dk)
            else (Inr (), h, dk))"

definition persist_rules ::
  "disk_faults \<Rightarrow> store_codecs \<Rightarrow> deployment \<Rightarrow> store \<Rightarrow> disk \<Rightarrow> (str + unit) \<times> store \<times> disk" where
  "persist_rules fl sc d h dk =
     (let changes = filter (\<lambda>r. so_next_ordinal h \<le> go_ordinal r) (d_governance d);
          (r, h, dk) = (if changes = [] then (Inr (), h, dk) else append_governance_journal fl sc changes h dk)
      in case r of
           Inl e \<Rightarrow> (Inl (''cannot persist Enterprise governance journal: '' @ store_error_text e), h, dk)
         | Inr _ \<Rightarrow> (Inr (), h, dk))"

definition persist_compaction ::
  "disk_faults \<Rightarrow> store_codecs \<Rightarrow> deployment \<Rightarrow> store \<Rightarrow> disk \<Rightarrow> (str + unit) \<times> store \<times> disk" where
  "persist_compaction fl sc d h dk =
     (let live_len = (case fl (StatFile JOURNAL_FILE) of
                        Some _ \<Rightarrow> 0 | None \<Rightarrow> length (file_bytes dk JOURNAL_FILE)) in
      if COMPACTION_THRESHOLD_BYTES \<le> live_len then
        (case store_compact fl sc (snapshot d) h dk of
           (Inl e, h, dk) \<Rightarrow> (Inl (''cannot compact Enterprise journal: '' @ store_error_text e), h, dk)
         | (Inr _, h, dk) \<Rightarrow> (Inr (), h, dk))
      else (Inr (), h, dk))"

definition persist_deployment ::
  "disk_faults \<Rightarrow> store_codecs \<Rightarrow> deployment \<Rightarrow> store \<Rightarrow> disk \<Rightarrow> (str + unit) \<times> store \<times> disk" where
  "persist_deployment fl sc d h dk =
     (case persist_decisions fl sc d h dk of
        (Inl e, h, dk) \<Rightarrow> (Inl e, h, dk)
      | (Inr _, h, dk) \<Rightarrow>
     (case persist_rules fl sc d h dk of
        (Inl e, h, dk) \<Rightarrow> (Inl e, h, dk)
      | (Inr _, h, dk) \<Rightarrow>
     (case save_snapshot fl sc (snapshot d) h dk of
        (Inl e, dk) \<Rightarrow> (Inl (''cannot persist Enterprise snapshot: '' @ store_error_text e), h, dk)
      | (Inr _, dk) \<Rightarrow> persist_compaction fl sc d h dk)))"

subsection \<open>The governance journal\<close>

definition rules_hold :: "governance_record json_codec \<Rightarrow> disk \<Rightarrow> governance_record list \<Rightarrow> bool" where
  "rules_hold json dk rules \<longleftrightarrow>
     file_bytes dk GOVERNANCE_FILE = journal_bytes json rules \<and> seq_from go_ordinal 0 rules
     \<and> (\<forall>x\<in>set rules. codec_keeps_line json x)"

lemma rules_hold_cong:
  "fmlookup (dk_files dk') GOVERNANCE_FILE = fmlookup (dk_files dk) GOVERNANCE_FILE \<Longrightarrow>
     rules_hold json dk' rules = rules_hold json dk rules"
  by (simp add: rules_hold_def file_bytes_def)

lemma read_rules:
  assumes "rules_hold json dk rules"
  shows "\<exists>found. read_governance disk_works json root dk = Inr found
    \<and> (case found of None \<Rightarrow> ([], 0) | Some g \<Rightarrow> g) = (rules, 0)"
proof (cases "fmlookup (dk_files dk) GOVERNANCE_FILE")
  case None
  then have "rules = []" using assms by (cases rules) (auto simp: rules_hold_def file_bytes_def codec_keeps_lineD)
  then show ?thesis using None by (simp add: read_governance_def read_lines_def)
next
  case (Some bytes)
  then have "read_lines disk_works root GOVERNANCE_FILE dk = Inr (Some (map (json_text json) rules, 0))"
    using assms read_lines_journal [of dk GOVERNANCE_FILE json rules "[]"] by (simp add: rules_hold_def file_bytes_def)
  then show ?thesis
    using assms numbered_lines_journal [of rules json go_ordinal 0]
    by (simp add: read_governance_def rules_hold_def Let_def)
qed

lemma seq_from_bounds:
  assumes "seq_from num n xs" and "unat n + length xs < 2 ^ 64" and "x \<in> set xs"
  shows "unat n \<le> unat (num x) \<and> unat (num x) < unat n + length xs"
  using assms
proof (induction xs arbitrary: n)
  case (Cons y ys)
  have "unat (n + 1) = Suc (unat n)" using Cons.prems(2) by (simp add: unat_word_ariths)
  then show ?case using Cons.IH [of "n + 1"] Cons.prems by auto
qed simp

text \<open>Filtering by the next expected number leaves exactly the rows the file does not have.\<close>

lemma unsaved_rows:
  assumes "seq_from num 0 (old @ rest)" and "length (old @ rest) < 2 ^ 64"
  shows "filter (\<lambda>r. of_nat (length old) \<le> num r) (old @ rest) = rest"
proof -
  have len: "unat (of_nat (length old) :: u64) = length old" using assms(2) by (simp add: unat_of_nat_u64)
  have "filter (\<lambda>r. of_nat (length old) \<le> num r) old = []"
    using seq_from_bounds [of num 0 old] assms by (fastforce simp: seq_from_append word_le_nat_alt len filter_empty_conv)
  moreover have "filter (\<lambda>r. of_nat (length old) \<le> num r) rest = rest"
    using seq_from_bounds [of num "of_nat (length old)" rest] assms
    by (auto simp: seq_from_append word_le_nat_alt len filter_id_conv)
  ultimately show ?thesis by simp
qed

subsection \<open>What each stretch of persisting leaves on disk\<close>

lemma append_batch_ok:
  assumes "append_batch fl label path f buffer h dk = (Inr u, h', dk')"
  shows "h' = h \<and> dk' = put_file f (file_bytes dk f @ buffer) dk"
  using append_batch_cases [OF assms] by auto

lemma store_append_files:
  assumes "store_append fl sc records h dk = (Inr u, h', dk')" and "g \<noteq> so_journal h"
  shows "fmlookup (dk_files dk') g = fmlookup (dk_files dk) g"
proof -
  obtain b h1 where "append_batch fl ''journal'' (path_join (so_root h) JOURNAL_FILE) (so_journal h) b h dk = (Inr (), h1, dk')"
    using assms(1) by (auto simp: store_append_def Let_def split: option.splits sum.splits prod.splits)
  then show ?thesis using append_batch_ok assms(2) by fastforce
qed

lemma append_rules:
  assumes "append_governance_journal fl sc records h dk = (Inr u, h', dk')"
    and "rules_hold (sc_governance sc) dk rules" and "so_next_ordinal h = of_nat (length rules)"
    and "\<forall>r\<in>set records. codec_keeps_line (sc_governance sc) r"
  shows "rules_hold (sc_governance sc) dk' (rules @ records)
    \<and> h' = h\<lparr>so_next_ordinal := of_nat (length (rules @ records))\<rparr>
    \<and> (\<forall>g. g \<noteq> GOVERNANCE_FILE \<longrightarrow> fmlookup (dk_files dk') g = fmlookup (dk_files dk) g)"
proof -
  let ?path = "path_join (so_root h) GOVERNANCE_FILE"
  obtain b n h1 where b: "batch_bytes go_ordinal (sc_governance sc) ?path (so_next_ordinal h) records = Inr (b, n)"
    "append_batch fl ''governance'' ?path GOVERNANCE_FILE b h dk = (Inr (), h1, dk')" "h' = h1\<lparr>so_next_ordinal := n\<rparr>"
    using assms(1) by (auto simp: append_governance_journal_def Let_def split: option.splits sum.splits prod.splits)
  have "seq_from go_ordinal (of_nat (length rules)) records" "b = journal_bytes (sc_governance sc) records"
      "n = of_nat (length rules) + of_nat (length records)"
    using batch_bytes_eq [OF assms(4), of go_ordinal ?path "so_next_ordinal h" b n] b(1) assms(3) by simp_all
  then show ?thesis
    using append_batch_ok [OF b(2)] b(3) assms(2,4) by (auto simp: rules_hold_def seq_from_append)
qed

lemma persist_decisions_effect:
  assumes "persist_decisions fl sc d h dk = (Inr u, h', dk')"
    and "history_holds (sc_audit sc) dk sealed live []" and "store_ready h (length (sealed_records sealed @ live))"
    and "journal_complete d" and "d_audit d = sealed_records sealed @ live @ rest"
    and "\<forall>r\<in>set (d_audit d). codec_keeps_line (sc_audit sc) r"
  shows "history_holds (sc_audit sc) dk' sealed (live @ rest) [] \<and> store_ready h' (length (d_audit d))
    \<and> h' = h\<lparr>so_next_sequence := so_next_sequence h'\<rparr>
    \<and> (\<forall>g. g \<noteq> JOURNAL_FILE \<longrightarrow> fmlookup (dk_files dk') g = fmlookup (dk_files dk) g)"
proof -
  let ?old = "sealed_records sealed @ live"
  have all: "dense_from 0 (?old @ rest)" "length (?old @ rest) < 2 ^ 64"
    using assms(4,5) by (auto simp: journal_complete_def journal_ok_def DEFAULT_AUDIT_CAPACITY_def)
  have nx: "so_next_sequence h = of_nat (length ?old)" "so_journal h = JOURNAL_FILE" using assms(3) by (simp_all add: store_ready_def)
  have unsaved: "filter (\<lambda>r. so_next_sequence h \<le> ar_sequence r) (d_audit d) = rest"
    using unsaved_rows [OF all] assms(5) by (simp add: nx(1))
  show ?thesis
  proof (cases "rest = []")
    case True
    then have "h' = h \<and> dk' = dk"
      using assms(1) unsaved by (auto simp: persist_decisions_def Let_def split: if_splits)
    then show ?thesis using True assms(2,3,5) by simp
  next
    case False
    then have run: "store_append fl sc rest h dk = (Inr (), h', dk')"
      using assms(1) unsaved by (auto simp: persist_decisions_def Let_def split: if_splits sum.splits prod.splits)
    have "\<forall>r\<in>set rest. codec_keeps_line (sc_audit sc) r" "length ?old + length rest < 2 ^ 64"
      using assms(5,6) all(2) by auto
    then obtain k where k: "history_holds (sc_audit sc) dk' sealed (live @ take k rest) []" "length rest \<le> k"
      "h' = h\<lparr>so_next_sequence := so_next_sequence h + of_nat (length rest)\<rparr>"
      using append_history [OF assms(2,3) _ _ run] by auto
    moreover have "so_next_sequence h + of_nat (length rest) = of_nat (length (d_audit d))"
      by (simp add: nx(1) assms(5))
    ultimately show ?thesis
      using assms(3) store_append_files [OF run] nx(2) by (auto simp: store_ready_def)
  qed
qed

lemma persist_rules_effect:
  assumes "persist_rules fl sc d h dk = (Inr u, h', dk')"
    and "rules_hold (sc_governance sc) dk rules" and "so_next_ordinal h = of_nat (length rules)"
    and "journal_complete d" and "d_governance d = rules @ rest"
    and "\<forall>r\<in>set (d_governance d). codec_keeps_line (sc_governance sc) r"
  shows "rules_hold (sc_governance sc) dk' (d_governance d)
    \<and> h' = h\<lparr>so_next_ordinal := of_nat (length (d_governance d))\<rparr>
    \<and> (\<forall>g. g \<noteq> GOVERNANCE_FILE \<longrightarrow> fmlookup (dk_files dk') g = fmlookup (dk_files dk) g)"
proof -
  have "seq_from go_ordinal 0 (rules @ rest)" "length (rules @ rest) < 2 ^ 64"
    using assms(4,5) by (auto simp: journal_complete_def governance_ok_def DEFAULT_AUDIT_CAPACITY_def)
  then have unsaved: "filter (\<lambda>r. so_next_ordinal h \<le> go_ordinal r) (d_governance d) = rest"
    using unsaved_rows assms(3,5) by fastforce
  show ?thesis
  proof (cases "rest = []")
    case True
    then have "h' = h \<and> dk' = dk"
      using assms(1) unsaved by (auto simp: persist_rules_def Let_def)
    then show ?thesis using True assms(2,3,5) by simp
  next
    case False
    then have run: "append_governance_journal fl sc rest h dk = (Inr (), h', dk')"
      using assms(1) unsaved by (auto simp: persist_rules_def Let_def split: sum.splits prod.splits)
    then show ?thesis using append_rules [OF run assms(2,3)] assms(5,6) by auto
  qed
qed

subsection \<open>Persisting, stopping and starting again\<close>

text \<open>The directory and the handle hold a prefix of both journals of the deployment.\<close>

definition persisted_prefix :: "store_codecs \<Rightarrow> deployment \<Rightarrow> store \<Rightarrow> disk \<Rightarrow> bool" where
  "persisted_prefix sc d h dk \<longleftrightarrow>
     (\<exists>sealed live rest rules changes.
        history_holds (sc_audit sc) dk sealed live [] \<and> store_ready h (length (sealed_records sealed @ live))
        \<and> d_audit d = sealed_records sealed @ live @ rest
        \<and> rules_hold (sc_governance sc) dk rules \<and> so_next_ordinal h = of_nat (length rules)
        \<and> d_governance d = rules @ changes)"

text \<open>The directory holds the deployment: its journals complete, and its snapshot.\<close>

definition persisted :: "store_codecs \<Rightarrow> deployment \<Rightarrow> disk \<Rightarrow> bool" where
  "persisted sc d dk \<longleftrightarrow>
     (\<exists>sealed live. history_holds (sc_audit sc) dk sealed live [] \<and> sealed_records sealed @ live = d_audit d)
     \<and> rules_hold (sc_governance sc) dk (d_governance d)
     \<and> (\<exists>bytes. to_vec (sc_snapshot sc) (snapshot d) = Inr bytes \<and> fmlookup (dk_files dk) SNAPSHOT_FILE = Some bytes)"

lemma history_holds_bytes:
  assumes "\<And>g. is_segment g \<Longrightarrow> fmlookup (dk_files dk') g = fmlookup (dk_files dk) g"
    and "file_bytes dk' JOURNAL_FILE = file_bytes dk JOURNAL_FILE"
  shows "history_holds json dk' sealed live torn \<longleftrightarrow> history_holds json dk sealed live torn"
  using segments_hold_cong [OF assms(1)] assms(2) by (simp add: history_holds_def)

lemma other_files:
  "GOVERNANCE_FILE \<noteq> JOURNAL_FILE" "REVOCATION_JOURNAL_FILE \<noteq> JOURNAL_FILE" "REVOCATION_JOURNAL_FILE \<noteq> GOVERNANCE_FILE"
  "SNAPSHOT_FILE \<noteq> JOURNAL_FILE" "SNAPSHOT_FILE \<noteq> GOVERNANCE_FILE" "SNAPSHOT_FILE \<noteq> REVOCATION_JOURNAL_FILE"
  "STORE_LOCK_FILE \<noteq> JOURNAL_FILE" "STORE_LOCK_FILE \<noteq> GOVERNANCE_FILE" "STORE_LOCK_FILE \<noteq> REVOCATION_JOURNAL_FILE"
  "STORE_LOCK_FILE \<noteq> SNAPSHOT_FILE"
  by (simp_all add: GOVERNANCE_FILE_def JOURNAL_FILE_def REVOCATION_JOURNAL_FILE_def SNAPSHOT_FILE_def STORE_LOCK_FILE_def)

lemma persist_compaction_effect:
  assumes "persist_compaction fl sc d h dk = (Inr u, h', dk')" and "persisted sc d dk"
    and "store_ready h (length (d_audit d))"
  shows "persisted sc d dk' \<and> store_ready h' (length (d_audit d))
    \<and> fmlookup (dk_files dk') REVOCATION_JOURNAL_FILE = fmlookup (dk_files dk) REVOCATION_JOURNAL_FILE"
proof (cases "h' = h \<and> dk' = dk")
  case True
  then show ?thesis using assms(2,3) by simp
next
  case False
  then have run: "store_compact fl sc (snapshot d) h dk = (Inr (), h', dk')"
    using assms(1) by (auto simp: persist_compaction_def Let_def split: if_splits sum.splits prod.splits)
  obtain sealed live where hist: "history_holds (sc_audit sc) dk sealed live []" "sealed_records sealed @ live = d_audit d"
    using assms(2) by (auto simp: persisted_def)
  note effect = compact_history [OF hist(1) _ run, unfolded hist(2), OF assms(3)]
  have same: "fmlookup (dk_files dk') g = fmlookup (dk_files dk) g"
    if "g = GOVERNANCE_FILE \<or> g = REVOCATION_JOURNAL_FILE" for g
  proof -
    have "g \<noteq> JOURNAL_FILE" "\<not> is_segment g"
      using that other_files by auto
    then show ?thesis using effect that snapshot_temps [of g] by blast
  qed
  have "\<exists>bytes. to_vec (sc_snapshot sc) (snapshot d) = Inr bytes \<and> fmlookup (dk_files dk') SNAPSHOT_FILE = Some bytes"
    using effect assms(2) by (auto simp: persisted_def)
  then show ?thesis
    using effect same assms(2) rules_hold_cong [OF same] by (auto simp: persisted_def)
qed

lemma persist_effect:
  assumes "persist_deployment fl sc d h dk = (Inr u, h', dk')" and "persisted_prefix sc d h dk" and "journal_complete d"
    and "\<forall>r\<in>set (d_audit d). codec_keeps_line (sc_audit sc) r"
    and "\<forall>r\<in>set (d_governance d). codec_keeps_line (sc_governance sc) r"
  shows "persisted sc d dk' \<and> store_ready h' (length (d_audit d))
    \<and> fmlookup (dk_files dk') REVOCATION_JOURNAL_FILE = fmlookup (dk_files dk) REVOCATION_JOURNAL_FILE"
proof -
  obtain sealed live rest rules changes where pre:
    "history_holds (sc_audit sc) dk sealed live []" "store_ready h (length (sealed_records sealed @ live))"
    "d_audit d = sealed_records sealed @ live @ rest" "rules_hold (sc_governance sc) dk rules"
    "so_next_ordinal h = of_nat (length rules)" "d_governance d = rules @ changes"
    using assms(2) unfolding persisted_prefix_def by blast
  obtain h1 dk1 h2 dk2 dk3 where run: "persist_decisions fl sc d h dk = (Inr (), h1, dk1)"
    "persist_rules fl sc d h1 dk1 = (Inr (), h2, dk2)" "save_snapshot fl sc (snapshot d) h2 dk2 = (Inr (), dk3)"
    "persist_compaction fl sc d h2 dk3 = (Inr u, h', dk')"
    using assms(1) by (auto simp: persist_deployment_def split: sum.splits prod.splits)
  note one = persist_decisions_effect [OF run(1) pre(1,2) assms(3) pre(3) assms(4)]
  have ordinal: "so_next_ordinal h1 = so_next_ordinal h"
  proof -
    have "so_next_ordinal h1 = so_next_ordinal (h\<lparr>so_next_sequence := so_next_sequence h1\<rparr>)" using one by argo
    then show ?thesis by simp
  qed
  have "fmlookup (dk_files dk1) GOVERNANCE_FILE = fmlookup (dk_files dk) GOVERNANCE_FILE" using one other_files(1) by blast
  then have "rules_hold (sc_governance sc) dk1 rules" using rules_hold_cong pre(4) by blast
  note two = persist_rules_effect [OF run(2) this ordinal [unfolded pre(5)] assms(3) pre(6) assms(5)]
  note three = save_snapshot_effect [OF run(3)]
  have "history_holds (sc_audit sc) dk2 sealed (live @ rest) []"
  proof -
    have "fmlookup (dk_files dk2) g = fmlookup (dk_files dk1) g" if "is_segment g \<or> g = JOURNAL_FILE" for g
      using two that other_files(1) other_files_no_segment(2) by metis
    then show ?thesis using one history_holds_cong [of dk2 dk1] by blast
  qed
  then have "history_holds (sc_audit sc) dk3 sealed (live @ rest) []" using save_snapshot_history [OF run(3)] by blast
  moreover have "rules_hold (sc_governance sc) dk3 (d_governance d)"
    using two three snapshot_temps [of GOVERNANCE_FILE] rules_hold_cong by blast
  ultimately have "persisted sc d dk3" using three pre(3) by (auto simp: persisted_def)
  moreover have "store_ready h2 (length (d_audit d))" using one two by (simp add: store_ready_def)
  moreover have "fmlookup (dk_files dk3) REVOCATION_JOURNAL_FILE = fmlookup (dk_files dk) REVOCATION_JOURNAL_FILE"
  proof -
    have "fmlookup (dk_files dk3) REVOCATION_JOURNAL_FILE = fmlookup (dk_files dk2) REVOCATION_JOURNAL_FILE"
      using three snapshot_temps(4) [of REVOCATION_JOURNAL_FILE] by blast
    also have "\<dots> = fmlookup (dk_files dk1) REVOCATION_JOURNAL_FILE" using two other_files(3) by blast
    also have "\<dots> = fmlookup (dk_files dk) REVOCATION_JOURNAL_FILE" using one other_files(2) by blast
    finally show ?thesis .
  qed
  ultimately show ?thesis using persist_compaction_effect [OF run(4)] by simp
qed

text \<open>A later process: the journals are read back, whatever files have to be created.\<close>

lemma file_bytes_create [simp]: "file_bytes (create_append f dk) g = file_bytes dk g"
  by (simp add: create_append_def)

lemma lookup_create: "fmlookup (dk_files (create_append f dk)) g = (if g = f then Some (file_bytes dk f) else fmlookup (dk_files dk) g)"
  by (simp add: create_append_def)

lemma history_holds_create:
  "\<not> is_segment f \<Longrightarrow> history_holds json (create_append f dk) sealed live torn = history_holds json dk sealed live torn"
  by (rule history_holds_bytes) (auto simp: lookup_create)

lemma rules_hold_bytes: "file_bytes dk' GOVERNANCE_FILE = file_bytes dk GOVERNANCE_FILE \<Longrightarrow> rules_hold json dk' rules = rules_hold json dk rules"
  by (simp add: rules_hold_def)

lemma read_rules_next:
  assumes "rules_hold json dk rules" and "read_governance disk_works json root dk = Inr found"
  shows "next_after go_ordinal found = of_nat (length rules)"
  using read_rules [OF assms(1), of root] assms seq_from_last [of go_ordinal 0 rules]
  by (auto simp: next_after_def rules_hold_def split: option.splits)

lemma read_revocations_cong:
  assumes "fmlookup (dk_files dk') REVOCATION_JOURNAL_FILE = fmlookup (dk_files dk) REVOCATION_JOURNAL_FILE"
  shows "read_revocation_journal fl json root dk' = read_revocation_journal fl json root dk"
  unfolding read_revocation_journal_def read_lines_def assms ..

lemma open_works:
  assumes "history_holds (sc_audit sc) dk sealed live torn" and "rules_hold (sc_governance sc) dk rules"
    and "read_revocation_journal disk_works (sc_rev_journal sc) root dk = Inr revs"
    and "case revs of None \<Rightarrow> True | Some (_, t) \<Rightarrow> t = 0" and "\<not> dk_locked dk"
  shows "\<exists>h dk'. store_open disk_works dbg sc root dk = (Inr h, dk') \<and> so_root h = root
    \<and> store_ready h (length (sealed_records sealed @ live)) \<and> so_next_ordinal h = of_nat (length rules)
    \<and> so_next_revocation_sequence h = next_after rj_sequence revs
    \<and> history_holds (sc_audit sc) dk' sealed live torn \<and> rules_hold (sc_governance sc) dk' rules
    \<and> fmlookup (dk_files dk') SNAPSHOT_FILE = fmlookup (dk_files dk) SNAPSHOT_FILE"
proof -
  let ?dk = "create_append STORE_LOCK_FILE dk"
  let ?dk1 = "create_append JOURNAL_FILE ?dk"
  let ?dk2 = "create_append GOVERNANCE_FILE ?dk1"
  let ?dk3 = "create_append REVOCATION_JOURNAL_FILE ?dk2"
  have hist: "history_holds (sc_audit sc) ?dk sealed live torn" "history_holds (sc_audit sc) ?dk3 sealed live torn"
    using assms(1) by (simp_all add: history_holds_create)
  have rules: "rules_hold (sc_governance sc) ?dk1 rules" "rules_hold (sc_governance sc) ?dk3 rules"
    using assms(2) by (simp_all add: rules_hold_bytes [of ?dk1 dk] rules_hold_bytes [of ?dk3 dk])
  obtain found gov where read: "read_audit_history disk_works dbg (sc_audit sc) root ?dk = Inr found"
      "read_governance disk_works (sc_governance sc) root ?dk1 = Inr gov"
    using read_history [OF hist(1), of dbg root] read_rules [OF rules(1), of root] by auto
  note counters = read_history_next [OF hist(1) read(1)] read_rules_next [OF rules(1) read(2)]
  have revs: "read_revocation_journal disk_works (sc_rev_journal sc) root ?dk2 = Inr revs"
    using assms(3) other_files read_revocations_cong [of ?dk2 dk] by (simp add: lookup_create)
  let ?h = "\<lparr>so_root = root, so_journal = JOURNAL_FILE, so_next_revocation_sequence = next_after rj_sequence revs,
    so_next_ordinal = of_nat (length rules), so_next_sequence = of_nat (length (sealed_records sealed @ live)),
    so_poisoned = None, so_unflushed = []\<rparr>"
  have free: "\<not> dk_locked ?dk" using assms(5) by (simp add: create_append_def)
  have tail: "\<not> (case revs of None \<Rightarrow> False | Some (_, t) \<Rightarrow> t \<noteq> 0)" using assms(4) by (auto split: option.splits)
  have run: "store_open disk_works dbg sc root dk = (Inr ?h, ?dk3\<lparr>dk_locked := True\<rparr>)"
    using free tail unfolding store_open_def store_guard_def sync_directory_def
    by (simp only: option.case Let_def read counters revs sum.case if_False if_cancel)
  have "history_holds (sc_audit sc) (?dk3\<lparr>dk_locked := True\<rparr>) sealed live torn"
      "rules_hold (sc_governance sc) (?dk3\<lparr>dk_locked := True\<rparr>) rules"
    using hist(2) rules(2) history_holds_cong [of "?dk3\<lparr>dk_locked := True\<rparr>" ?dk3] rules_hold_cong [of "?dk3\<lparr>dk_locked := True\<rparr>" ?dk3]
    by simp_all
  then show ?thesis using run other_files by (simp add: store_ready_def lookup_create)
qed

lemma load_works:
  assumes "history_holds (sc_audit sc) dk sealed live torn" and "rules_hold (sc_governance sc) dk rules"
    and "fmlookup (dk_files dk) SNAPSHOT_FILE = Some bytes" and "from_slice (sc_snapshot sc) bytes = Inr snap"
  shows "store_load disk_works dbg sc h dk =
    Inr (Some \<lparr>ld_snapshot = snap, ld_journal = sealed_records sealed @ live, ld_governance = rules,
      ld_torn_tail = length torn, ld_rotated_segments = length sealed\<rparr>)"
proof -
  have "segments_hold (sc_audit sc) dk sealed" "length (sealed_records sealed) < 2 ^ 64"
    using assms(1) by (auto simp: history_holds_def)
  note segs = segment_paths_eq [OF this, of dbg "so_root h"]
  obtain found gov where "read_audit_history disk_works dbg (sc_audit sc) (so_root h) dk = Inr found"
      "(case found of None \<Rightarrow> ([], 0) | Some j \<Rightarrow> j) = (sealed_records sealed @ live, length torn)"
      "read_governance disk_works (sc_governance sc) (so_root h) dk = Inr gov"
      "(case gov of None \<Rightarrow> ([], 0) | Some g \<Rightarrow> g) = (rules, 0)"
    using read_history [OF assms(1), of dbg "so_root h"] read_rules [OF assms(2), of "so_root h"] by auto
  then show ?thesis using segs assms(3,4) by (simp add: store_load_def Let_def)
qed

subsection \<open>Property\<close>

definition sample_deployment :: deployment where
  "sample_deployment = deployment_new\<lparr>d_audit := map sample_row [0, 1, 2], d_next_sequence := 3\<rparr>"

definition deployment_codecs :: store_codecs where
  "deployment_codecs = sample_codecs\<lparr>sc_snapshot := \<lparr>from_slice = \<lambda>_. Inr (snapshot sample_deployment), to_vec = \<lambda>_. Inr ''{}''\<rparr>\<rparr>"

text \<open>
  C5: What the server persists is what a later process restores. If \<open>persist_deployment\<close> returns
  without error for a restorable deployment whose journals are complete and extend those on disk, then
  after the handle is dropped and whatever the size of the live journal was, the store opens again,
  loads, and restore rebuilds the deployment: the same rules, cells, tenants with their ledgers, both
  journals and the next sequence number; and the new handle stands where the next persist expects it.
\<close>

theorem persisted_deployment_recovers:
  assumes "persist_deployment fl sc d h dk = (Inr (), h', dk')" and "persisted_prefix sc d h dk"
    and "restorable sha d" and "journal_complete d"
    and "\<forall>r\<in>set (d_audit d). codec_keeps_line (sc_audit sc) r"
    and "\<forall>r\<in>set (d_governance d). codec_keeps_line (sc_governance sc) r"
    and "\<forall>bytes. to_vec (sc_snapshot sc) (snapshot d) = Inr bytes \<longrightarrow> from_slice (sc_snapshot sc) bytes = Inr (snapshot d)"
    and "read_revocation_journal disk_works (sc_rev_journal sc) root dk = Inr revs"
    and "case revs of None \<Rightarrow> True | Some (_, t) \<Rightarrow> t = 0"
  shows "\<exists>h2 dk2 ld d2. store_open disk_works dbg sc root (store_drop fl h' dk') = (Inr h2, dk2)
    \<and> store_load disk_works dbg sc h2 dk2 = Inr (Some ld)
    \<and> restore sha (ld_snapshot ld) (ld_journal ld) (ld_governance ld) = Inr d2 \<and> same_rules d d2
    \<and> d_tenants d2 = d_tenants d \<and> d_audit d2 = d_audit d \<and> d_governance d2 = d_governance d
    \<and> d_next_sequence d2 = d_next_sequence d \<and> persisted_prefix sc d2 h2 dk2"
proof -
  note effect = persist_effect [OF assms(1,2,4,5,6)]
  let ?dk = "store_drop fl h' dk'"
  have files: "dk_files ?dk = dk_files dk'" "\<not> dk_locked ?dk"
    using effect by (simp_all add: store_drop_def store_ready_def)
  obtain sealed live bytes where hist: "history_holds (sc_audit sc) dk' sealed live []" "sealed_records sealed @ live = d_audit d"
    and rules: "rules_hold (sc_governance sc) dk' (d_governance d)"
    and snap: "to_vec (sc_snapshot sc) (snapshot d) = Inr bytes" "fmlookup (dk_files dk') SNAPSHOT_FILE = Some bytes"
    using effect by (auto simp: persisted_def)
  have "history_holds (sc_audit sc) ?dk sealed live []" "rules_hold (sc_governance sc) ?dk (d_governance d)"
      "read_revocation_journal disk_works (sc_rev_journal sc) root ?dk = Inr revs"
    using hist(1) rules assms(8) effect files(1)
      history_holds_cong [of ?dk dk'] rules_hold_cong [of ?dk dk'] read_revocations_cong [of ?dk dk] by simp_all
  from open_works [OF this assms(9) files(2), of dbg] obtain h2 dk2 where run: "store_open disk_works dbg sc root ?dk = (Inr h2, dk2)"
    "store_ready h2 (length (d_audit d))" "so_next_ordinal h2 = of_nat (length (d_governance d))"
    "history_holds (sc_audit sc) dk2 sealed live []" "rules_hold (sc_governance sc) dk2 (d_governance d)"
    "fmlookup (dk_files dk2) SNAPSHOT_FILE = Some bytes"
    using hist(2) files(1) snap(2) by auto
  have "from_slice (sc_snapshot sc) bytes = Inr (snapshot d)" using assms(7) snap(1) by blast
  note load = load_works [OF run(4-6) this, of dbg h2]
  have "res_fold (charge_row (d_next_sequence d)) (d_audit d) (d_tenants d) = Inr (d_tenants d)"
    by (rule charge_rows_below [OF complete_rows_below [OF assms(4)]])
  then obtain d2 where d2: "restore sha (snapshot d) (d_audit d) (d_governance d) = Inr d2" "same_rules d d2"
      "d_tenants d2 = d_tenants d" "d_audit d2 = d_audit d" "d_governance d2 = d_governance d" "d_next_sequence d2 = d_next_sequence d"
    using restore_from_snapshot [OF assms(3), of "d_audit d" "d_governance d" "d_tenants d"] assms(4)
    by (auto simp: journal_complete_def)
  have "persisted_prefix sc d2 h2 dk2"
    unfolding persisted_prefix_def
    by (rule exI [of _ sealed], rule exI [of _ live], rule exI [of _ "[]"], rule exI [of _ "d_governance d"], rule exI [of _ "[]"])
      (use run hist(2) d2 in simp)
  then show ?thesis using run(1) load d2 hist(2) by auto
qed

lemma deployment_codecs_simps [simp]:
  "sc_audit deployment_codecs = row_codec" "sc_governance deployment_codecs = sc_governance sample_codecs"
  "sc_rev_journal deployment_codecs = sc_rev_journal sample_codecs"
  "to_vec (sc_snapshot deployment_codecs) s = Inr ''{}''" "from_slice (sc_snapshot deployment_codecs) t = Inr (snapshot sample_deployment)"
  by (simp_all add: deployment_codecs_def)

lemma sample_bytes:
  "file_bytes (sample_disk []) JOURNAL_FILE @ journal_bytes row_codec [sample_row 2] =
     ''r0'' @ [newline] @ ''r1'' @ [newline] @ ''r2'' @ [newline]"
proof -
  have "show_nat 0 = ''0''" "show_nat 1 = ''1''" "show_nat 2 = ''2''" by code_simp+
  then show ?thesis
    by (simp add: sample_disk_def file_bytes_def codec_keeps_lineD [OF row_codec_keeps] json_text_sample)
qed

lemma sample_snapshot:
  assumes "dk_files dk = fmupd JOURNAL_FILE b fmempty"
  shows "\<exists>dk'. save_snapshot disk_works deployment_codecs snap h dk = (Inr (), dk') \<and> file_bytes dk' JOURNAL_FILE = b"
  using assms
  by (simp add: save_snapshot_def write_durable_def disk_guard_def numeral_eq_Suc SNAPSHOT_FILE_def JOURNAL_FILE_def Let_def file_bytes_def)

lemma sample_persist:
  "\<exists>h' dk'. persist_deployment disk_works deployment_codecs sample_deployment sample_store (sample_disk []) = (Inr (), h', dk')"
proof -
  let ?bytes = "file_bytes (sample_disk []) JOURNAL_FILE @ journal_bytes row_codec [sample_row 2]"
  let ?dk = "put_file JOURNAL_FILE ?bytes (sample_disk [])"
  have files: "dk_files ?dk = fmupd JOURNAL_FILE ?bytes fmempty" by (simp add: sample_disk_def)
  have wm: "ds_sequence_watermark (snapshot sample_deployment) = 3" by (simp add: snapshot_def sample_deployment_def)
  have new: "filter (\<lambda>r. so_next_sequence sample_store \<le> ar_sequence r) (d_audit sample_deployment) = [sample_row 2]"
    by (simp add: sample_deployment_def sample_store_def word_le_nat_alt)
  have "store_append disk_works deployment_codecs [sample_row 2] sample_store (sample_disk []) =
      (Inr (), sample_store\<lparr>so_next_sequence := 3\<rparr>, ?dk)"
    using sample_append [of "[]"] unfolding store_append_def deployment_codecs_simps sample_codecs_simps .
  then have "persist_decisions disk_works deployment_codecs sample_deployment sample_store (sample_disk []) =
      (Inr (), sample_store\<lparr>so_next_sequence := 3\<rparr>, ?dk)"
    unfolding persist_decisions_def new wm Let_def by (simp add: sample_store_def word_less_nat_alt)
  moreover have "persist_rules disk_works deployment_codecs sample_deployment h dk = (Inr (), h, dk)" for h dk
    by (simp add: persist_rules_def sample_deployment_def deployment_new_def)
  moreover obtain dk' where "save_snapshot disk_works deployment_codecs (snapshot sample_deployment) (sample_store\<lparr>so_next_sequence := 3\<rparr>) ?dk = (Inr (), dk')"
      "file_bytes dk' JOURNAL_FILE = ?bytes"
    using sample_snapshot [OF files] by blast
  moreover have "persist_compaction disk_works deployment_codecs sample_deployment h dk' = (Inr (), h, dk')"
    if "file_bytes dk' JOURNAL_FILE = ?bytes" for h dk'
    unfolding persist_compaction_def that sample_bytes by (simp add: COMPACTION_THRESHOLD_BYTES_def)
  ultimately show ?thesis by (simp add: persist_deployment_def)
qed

theorem persisted_deployment_recovers_witness:
  "\<exists>h' dk' h2 dk2 ld d2.
     persist_deployment disk_works deployment_codecs sample_deployment sample_store (sample_disk []) = (Inr (), h', dk')
     \<and> store_open disk_works id deployment_codecs ''/var/ccos'' (store_drop disk_works h' dk') = (Inr h2, dk2)
     \<and> store_load disk_works id deployment_codecs h2 dk2 = Inr (Some ld)
     \<and> restore id (ld_snapshot ld) (ld_journal ld) (ld_governance ld) = Inr d2 \<and> d_audit d2 = map sample_row [0, 1, 2]"
proof -
  obtain h' dk' where run: "persist_deployment disk_works deployment_codecs sample_deployment sample_store (sample_disk []) = (Inr (), h', dk')"
    using sample_persist by blast
  have "rules_hold (sc_governance deployment_codecs) (sample_disk []) []"
    by (simp add: rules_hold_def sample_disk_def file_bytes_def GOVERNANCE_FILE_def JOURNAL_FILE_def)
  then have pre: "persisted_prefix deployment_codecs sample_deployment sample_store (sample_disk [])"
    using sample_history [of "[]"] sample_ready unfolding persisted_prefix_def
    by - (rule exI [of _ "[]"], rule exI [of _ "[sample_row 0, sample_row 1]"], rule exI [of _ "[sample_row 2]"],
        rule exI [of _ "[]"], rule exI [of _ "[]"], simp add: sealed_records_def sample_deployment_def sample_store_def deployment_new_def)
  have "restorable id sample_deployment"
    by (simp add: sample_deployment_def restorable_def owners_ok_def tenants_ok_def store_ok_def deployment_new_def store_size_def)
  moreover have "journal_complete sample_deployment"
    by (simp add: journal_complete_def journal_ok_def governance_ok_def sample_deployment_def deployment_new_def
        sample_row_def DEFAULT_AUDIT_CAPACITY_def is_canonical_identifier_def is_identifier_byte_def
        is_ascii_lowercase_def is_ascii_digit_def MAX_IDENTIFIER_BYTES_def)
  moreover have "read_revocation_journal disk_works (sc_rev_journal deployment_codecs) ''/var/ccos'' (sample_disk []) = Inr None"
    by (simp add: read_revocation_journal_def read_lines_def sample_disk_def REVOCATION_JOURNAL_FILE_def JOURNAL_FILE_def)
  ultimately show ?thesis
    using persisted_deployment_recovers [OF run pre, of id "''/var/ccos''" None id] run row_codec_keeps
    by (auto simp: codec_keeps_line_def sample_deployment_def deployment_new_def)
qed

end
