(* ===== verification/Sha256.thy ===== *)
theory Sha256
  imports Prelude
begin

section \<open>SHA-256 (crates/ccos-enterprise-retention, sha256)\<close>

text \<open>
  The hash function the retention crate carries itself: padding, message schedule, compression and
  output on 32-bit words that wrap around. The array \<open>w\<close> is a list of 64 words updated in place, the
  eight working variables a tuple. \<open>Sha256_Conformance\<close> compares it with the standard.
\<close>

unbundle bit_operations_syntax

definition SHA256_H0 :: "u32 list" where
  "SHA256_H0 = [0x6a09e667, 0xbb67ae85, 0x3c6ef372, 0xa54ff53a, 0x510e527f, 0x9b05688c, 0x1f83d9ab, 0x5be0cd19]"

definition SHA256_K :: "u32 list" where
  "SHA256_K = concat [
     [0x428a2f98, 0x71374491, 0xb5c0fbcf, 0xe9b5dba5, 0x3956c25b, 0x59f111f1, 0x923f82a4],
     [0xab1c5ed5, 0xd807aa98, 0x12835b01, 0x243185be, 0x550c7dc3, 0x72be5d74, 0x80deb1fe],
     [0x9bdc06a7, 0xc19bf174, 0xe49b69c1, 0xefbe4786, 0x0fc19dc6, 0x240ca1cc, 0x2de92c6f],
     [0x4a7484aa, 0x5cb0a9dc, 0x76f988da, 0x983e5152, 0xa831c66d, 0xb00327c8, 0xbf597fc7],
     [0xc6e00bf3, 0xd5a79147, 0x06ca6351, 0x14292967, 0x27b70a85, 0x2e1b2138, 0x4d2c6dfc],
     [0x53380d13, 0x650a7354, 0x766a0abb, 0x81c2c92e, 0x92722c85, 0xa2bfe8a1, 0xa81a664b],
     [0xc24b8b70, 0xc76c51a3, 0xd192e819, 0xd6990624, 0xf40e3585, 0x106aa070, 0x19a4c116],
     [0x1e376c08, 0x2748774c, 0x34b0bcb5, 0x391c0cb3, 0x4ed8aa4a, 0x5b9cca4f, 0x682e6ff3],
     [0x748f82ee, 0x78a5636f, 0x84c87814, 0x8cc70208, 0x90befffa, 0xa4506ceb, 0xbef9a3f7],
     [0xc67178f2]]"

text \<open>How many zero bytes bring a length to 56 modulo 64.\<close>

definition pad_count :: "nat \<Rightarrow> nat" where
  "pad_count n = (if n mod 64 \<le> 56 then 56 - n mod 64 else 120 - n mod 64)"

lemma pad_count_step: "n mod 64 \<noteq> 56 \<Longrightarrow> pad_count n = Suc (pad_count (Suc n))"
  using mod_less_divisor [of 64 n] by (auto simp: pad_count_def mod_Suc)

text \<open>The loop \<open>while padded.len() % 64 != 56\<close>.\<close>

function pad_zeros :: "str \<Rightarrow> str" where
  "pad_zeros padded = (if length padded mod 64 \<noteq> 56 then pad_zeros (padded @ [CHR 0x00]) else padded)"
  by auto
termination by (relation "measure (pad_count \<circ> length)") (simp_all add: pad_count_step)

declare pad_zeros.simps [simp del]

text \<open>\<open>slice::chunks_exact\<close>: the remainder is left out.\<close>

function chunks_exact :: "nat \<Rightarrow> 'a list \<Rightarrow> 'a list list" where
  "chunks_exact n xs = (if n = 0 \<or> length xs < n then [] else take n xs # chunks_exact n (drop n xs))"
  by auto
termination by (relation "measure (length \<circ> snd)") auto

declare chunks_exact.simps [simp del]

definition be32 :: "u32 \<Rightarrow> str" where
  "be32 w = map (\<lambda>i. char_of (uint (drop_bit i w))) [24, 16, 8, 0]"

definition from_be32 :: "str \<Rightarrow> u32" where
  "from_be32 bytes = foldl (\<lambda>acc c. acc * 256 + of_char c) 0 bytes"

definition sha256_pad :: "str \<Rightarrow> str" where
  "sha256_pad bytes =
     (let bit_len = (of_nat (length bytes) :: u64) * 8
      in pad_zeros (bytes @ [CHR 0x80]) @ be64 (unat bit_len))"

definition small_sigma0 :: "u32 \<Rightarrow> u32" where
  "small_sigma0 x = word_rotr 7 x XOR word_rotr 18 x XOR drop_bit 3 x"

definition small_sigma1 :: "u32 \<Rightarrow> u32" where
  "small_sigma1 x = word_rotr 17 x XOR word_rotr 19 x XOR drop_bit 10 x"

definition sha256_schedule :: "str \<Rightarrow> u32 list" where
  "sha256_schedule chunk =
     (let ws = map from_be32 (chunks_exact 4 chunk);
          w = ws @ replicate (64 - length ws) 0
      in fold (\<lambda>i w. w[i := w ! (i - 16) + small_sigma0 (w ! (i - 15)) + w ! (i - 7) + small_sigma1 (w ! (i - 2))])
           [16..<64] w)"

type_synonym sha_vars = "u32 \<times> u32 \<times> u32 \<times> u32 \<times> u32 \<times> u32 \<times> u32 \<times> u32"

definition sha256_round :: "u32 list \<Rightarrow> nat \<Rightarrow> sha_vars \<Rightarrow> sha_vars" where
  "sha256_round w i v =
     (case v of (a, b, c, d, e, f, g, hh) \<Rightarrow>
        let s1 = word_rotr 6 e XOR word_rotr 11 e XOR word_rotr 25 e;
            ch = (e AND f) XOR (NOT e AND g);
            t1 = hh + s1 + ch + SHA256_K ! i + w ! i;
            s0 = word_rotr 2 a XOR word_rotr 13 a XOR word_rotr 22 a;
            maj = (a AND b) XOR (a AND c) XOR (b AND c);
            t2 = s0 + maj
        in (t1 + t2, a, b, c, d + t1, e, f, g))"

definition sha256_block :: "str \<Rightarrow> u32 list \<Rightarrow> u32 list" where
  "sha256_block chunk h =
     (let w = sha256_schedule chunk;
          (a, b, c, d, e, f, g, hh) =
            fold (sha256_round w) [0..<64] (h ! 0, h ! 1, h ! 2, h ! 3, h ! 4, h ! 5, h ! 6, h ! 7)
      in [h ! 0 + a, h ! 1 + b, h ! 2 + c, h ! 3 + d, h ! 4 + e, h ! 5 + f, h ! 6 + g, h ! 7 + hh])"

definition sha256 :: "str \<Rightarrow> str" where
  "sha256 bytes = concat (map be32 (fold sha256_block (chunks_exact 64 (sha256_pad bytes)) SHA256_H0))"

subsection \<open>Padding\<close>

lemma pad_zeros_eq: "pad_zeros p = p @ replicate (pad_count (length p)) (CHR 0x00)"
proof (induction p rule: pad_zeros.induct)
  case (1 p)
  show ?case
  proof (cases "length p mod 64 = 56")
    case True
    then show ?thesis by (simp add: pad_zeros.simps pad_count_def)
  next
    case False
    then show ?thesis using 1 [OF False] pad_count_step [OF False] by (simp add: pad_zeros.simps [of p])
  qed
qed

lemma length_sha256_pad: "length (sha256_pad bytes) = 64 * ((length bytes + 8) div 64 + 1)"
proof -
  obtain q r where n: "length bytes + 1 = 64 * q + r" "r < 64"
    by (metis mod_less_divisor mult_div_mod_eq zero_less_numeral)
  then have m: "Suc (length bytes) mod 64 = r" by simp
  have "length bytes + 8 = r + 7 + 64 * q" using n(1) by simp
  then have "(length bytes + 8) div 64 = q + (r + 7) div 64" by simp
  moreover have "(r + 7) div 64 = (if r \<le> 56 then 0 else 1)" using n(2) by auto
  ultimately show ?thesis
    using n by (auto simp: sha256_pad_def pad_zeros_eq pad_count_def m)
qed

subsection \<open>The length of a digest\<close>

lemma length_be32 [simp]: "length (be32 w) = 4"
  by (simp add: be32_def)

lemma length_sha256 [simp]: "length (sha256 bytes) = 32"
proof -
  have "length (fold sha256_block chunks h) = 8" if "length h = 8" for chunks h
    using that by (induction chunks arbitrary: h) (auto simp: sha256_block_def Let_def split: prod.splits)
  then show ?thesis by (simp add: sha256_def length_concat comp_def SHA256_H0_def sum_list_triv)
qed

end
