(* ===== verification/Retention.thy ===== *)
theory Retention
  imports Sha256 Tenancy Disk
begin

section \<open>Retention policy (crates/ccos-enterprise-retention)\<close>

text \<open>
  Classes, policies and the pure engine \<open>run_once\<close>, then the store: the policy file, written only
  after an approval of its hash, and the append-only ledger of enforcement records. \<open>approve\<close> is the
  callback the caller supplies; the JSON codecs (compact for the hash and the ledger, pretty for the
  policy file) and the Debug rendering of a string are parameters.
\<close>

definition RETENTION_SCHEMA :: u32 where
  "RETENTION_SCHEMA = 1"

definition MAX_BATCH_LIMIT :: nat where
  "MAX_BATCH_LIMIT = 4096"

definition MAX_INPUT_ITEMS :: nat where
  "MAX_INPUT_ITEMS = 65536"

definition MAX_ITEM_ID_BYTES :: nat where
  "MAX_ITEM_ID_BYTES = 128"

definition RETENTION_POLICY_TOOL :: str where
  "RETENTION_POLICY_TOOL = ''retention.policy.set''"

definition POLICY_FILE :: str where
  "POLICY_FILE = ''retention-policy.json''"

definition LEDGER_FILE :: str where
  "LEDGER_FILE = ''retention-ledger.jsonl''"

definition RETENTION_LOCK_FILE :: str where
  "RETENTION_LOCK_FILE = ''retention.lock''"

definition RETENTION_TEMP_FILE :: str where
  "RETENTION_TEMP_FILE = ''retention-policy.json.tmp''"

definition canonical_id :: "str \<Rightarrow> nat \<Rightarrow> bool" where
  "canonical_id s cap =
     (case s of
        [] \<Rightarrow> False
      | first # bytes \<Rightarrow>
          length s \<le> cap \<and> (is_ascii_lowercase first \<or> is_ascii_digit first)
          \<and> list_all (\<lambda>b. is_ascii_lowercase b \<or> is_ascii_digit b \<or> b = CHR ''_'' \<or> b = CHR ''-'') bytes)"

subsection \<open>Classes and policies\<close>

datatype retention_class = EphemeralContext | EpisodicJournal | SealedSnapshots | ComplianceArchives

fun class_rank :: "retention_class \<Rightarrow> nat" where
  "class_rank EphemeralContext = 0"
| "class_rank EpisodicJournal = 1"
| "class_rank SealedSnapshots = 2"
| "class_rank ComplianceArchives = 3"

lemma class_rank_inj: "class_rank x = class_rank y \<Longrightarrow> x = y"
  by (cases x; cases y) simp_all

instantiation retention_class :: linorder
begin

definition less_eq_retention_class :: "retention_class \<Rightarrow> retention_class \<Rightarrow> bool" where
  "less_eq_retention_class x y \<longleftrightarrow> class_rank x \<le> class_rank y"

definition less_retention_class :: "retention_class \<Rightarrow> retention_class \<Rightarrow> bool" where
  "less_retention_class x y \<longleftrightarrow> class_rank x < class_rank y"

instance
  by standard (auto simp: less_eq_retention_class_def less_retention_class_def dest: class_rank_inj)

end

record class_policy =
  cp_retention_seconds :: "u64 option"
  cp_invalidate :: bool

definition class_expired_at :: "class_policy \<Rightarrow> u64 \<Rightarrow> u64 \<Rightarrow> bool" where
  "class_expired_at cp created_at now =
     (case cp_retention_seconds cp of None \<Rightarrow> False | Some seconds \<Rightarrow> sat_add created_at seconds \<le> now)"

record retention_policy =
  rtp_schema_version :: u32
  rtp_tenant :: str
  rtp_classes :: "(retention_class, class_policy) fmap"

record retained_item =
  ri_tenant :: str
  ri_item_id :: str
  ri_class :: retention_class
  ri_created_at :: u64
  ri_sealed :: bool

datatype enforcement_action = Retain | Invalidate | ReportOnly

record enforcement_record =
  er_tenant :: str
  er_item_id :: str
  er_class :: retention_class
  er_item_created_at :: u64
  er_action :: enforcement_action
  er_at_unix :: u64

datatype retention_error =
    RetentionIo str str
  | RetentionCorrupt str str
  | RetentionUnsupportedSchema u32
  | RetentionUnknownTenant str
  | InvalidPolicy str
  | InvalidItem str
  | LimitOutOfRange nat nat
  | RetentionApprovalRequired str

definition policy_validate :: "retention_policy \<Rightarrow> retention_error + unit" where
  "policy_validate p =
     (if rtp_schema_version p \<noteq> RETENTION_SCHEMA then Inl (RetentionUnsupportedSchema (rtp_schema_version p))
      else if \<not> canonical_id (rtp_tenant p) 128 then Inl (InvalidPolicy ''tenant is not a canonical identifier'')
      else Inr ())"

definition policy_class :: "retention_policy \<Rightarrow> retention_class \<Rightarrow> class_policy option" where
  "policy_class p c = fmlookup (rtp_classes p) c"

definition policy_expired :: "retention_policy \<Rightarrow> retention_class \<Rightarrow> u64 \<Rightarrow> u64 \<Rightarrow> bool" where
  "policy_expired p c created_at now =
     (case policy_class p c of None \<Rightarrow> False | Some cp \<Rightarrow> class_expired_at cp created_at now)"

definition governed_classes :: "retention_policy \<Rightarrow> retention_class list" where
  "governed_classes p = sorted_list_of_fset (fmdom (rtp_classes p))"

definition item_validate :: "retained_item \<Rightarrow> retention_error + unit" where
  "item_validate i =
     (if \<not> canonical_id (ri_tenant i) 128 then Inl (RetentionUnknownTenant (ri_tenant i))
      else if \<not> canonical_id (ri_item_id i) MAX_ITEM_ID_BYTES then Inl (InvalidItem (ri_item_id i))
      else Inr ())"

definition record_validate :: "enforcement_record \<Rightarrow> retention_error + unit" where
  "record_validate r =
     (if \<not> canonical_id (er_tenant r) 128 then Inl (RetentionUnknownTenant (er_tenant r))
      else if \<not> canonical_id (er_item_id r) MAX_ITEM_ID_BYTES then Inl (InvalidItem (er_item_id r))
      else Inr ())"

record enforcement_ledger =
  el_schema_version :: u32
  el_records :: "enforcement_record list"

definition ledger_validate :: "enforcement_ledger \<Rightarrow> retention_error + unit" where
  "ledger_validate l =
     (if el_schema_version l \<noteq> RETENTION_SCHEMA then Inl (RetentionUnsupportedSchema (el_schema_version l))
      else res_check record_validate (el_records l))"

subsection \<open>The engine\<close>

record run_outcome =
  ro_examined :: nat
  ro_retained :: nat
  ro_invalidated :: nat
  ro_reported :: nat
  ro_deferred :: nat

definition check_item :: "tenant_id \<Rightarrow> retained_item \<Rightarrow> retention_error + unit" where
  "check_item tenant i =
     res_bind (item_validate i) (\<lambda>_.
       if ri_tenant i \<noteq> as_str tenant then Inl (RetentionUnknownTenant (ri_tenant i)) else Inr ())"

definition eligible_items :: "retention_policy \<Rightarrow> retained_item list \<Rightarrow> u64 \<Rightarrow> retained_item list" where
  "eligible_items p items now =
     sort_key (\<lambda>i. (ri_class i, ri_created_at i, ri_item_id i))
       (filter (\<lambda>i. case policy_class p (ri_class i) of None \<Rightarrow> False | Some cp \<Rightarrow> class_expired_at cp (ri_created_at i) now) items)"

text \<open>The body of the loop over the eligible items; their class has a policy (\<open>expect\<close>).\<close>

definition enforce_item ::
  "tenant_id \<Rightarrow> retention_policy \<Rightarrow> u64 \<Rightarrow> retained_item \<Rightarrow> run_outcome \<times> enforcement_record list
     \<Rightarrow> run_outcome \<times> enforcement_record list" where
  "enforce_item tenant p now i acc =
     (case acc of (outcome, records) \<Rightarrow>
        let (outcome, action) =
              (if ri_sealed i \<or> \<not> cp_invalidate (the (policy_class p (ri_class i)))
               then (outcome\<lparr>ro_reported := ro_reported outcome + 1\<rparr>, ReportOnly)
               else (outcome\<lparr>ro_invalidated := ro_invalidated outcome + 1\<rparr>, Invalidate))
        in (outcome, records @ [\<lparr>er_tenant = as_str tenant, er_item_id = ri_item_id i, er_class = ri_class i,
              er_item_created_at = ri_created_at i, er_action = action, er_at_unix = now\<rparr>]))"

definition run_once ::
  "tenant_id \<Rightarrow> retention_policy \<Rightarrow> retained_item list \<Rightarrow> u64 \<Rightarrow> nat
     \<Rightarrow> retention_error + run_outcome \<times> enforcement_record list" where
  "run_once tenant p items now batch_limit =
     res_bind (policy_validate p) (\<lambda>_.
       if rtp_tenant p \<noteq> as_str tenant then Inl (RetentionUnknownTenant (rtp_tenant p))
       else if batch_limit = 0 \<or> MAX_BATCH_LIMIT < batch_limit then Inl (LimitOutOfRange batch_limit MAX_BATCH_LIMIT)
       else if MAX_INPUT_ITEMS < length items then Inl (LimitOutOfRange (length items) MAX_INPUT_ITEMS)
       else res_bind (res_check (check_item tenant) items) (\<lambda>_.
         let eligible = eligible_items p items now;
             processed = min (length eligible) batch_limit;
             outcome = \<lparr>ro_examined = length items, ro_retained = length items - length eligible,
               ro_invalidated = 0, ro_reported = 0, ro_deferred = length eligible - processed\<rparr>
         in Inr (fold (enforce_item tenant p now) (take batch_limit eligible) (outcome, []))))"

subsection \<open>The policy file\<close>

record retention_codecs =
  rc_policy :: "retention_policy json_codec"
  rc_policy_pretty :: "retention_policy json_codec"
  rc_record :: "enforcement_record json_codec"

definition policy_artifact_hash :: "retention_policy json_codec \<Rightarrow> retention_policy \<Rightarrow> retention_error + str" where
  "policy_artifact_hash json p =
     res_bind (policy_validate p) (\<lambda>_.
       case to_vec json p of
         Inl e \<Rightarrow> Inl (InvalidPolicy (''cannot serialize retention policy: '' @ e))
       | Inr bytes \<Rightarrow> Inr (hex (sha256 bytes)))"

text \<open>A step that may fail before anything changed, \<open>.map_err(io(path))?\<close>.\<close>

definition retention_guard ::
  "disk_faults \<Rightarrow> disk_step \<Rightarrow> str \<Rightarrow> disk \<Rightarrow> (retention_error + 'a) \<times> disk \<Rightarrow> (retention_error + 'a) \<times> disk" where
  "retention_guard fl stp path dk k =
     (case fl stp of Some (_, e) \<Rightarrow> (Inl (RetentionIo path e), dk) | None \<Rightarrow> k)"

text \<open>The handle of an open store is its root; the other two paths are joined from it. A lock that
  another handle holds is reported as the I/O error it becomes.\<close>

definition retention_open :: "disk_faults \<Rightarrow> str \<Rightarrow> disk \<Rightarrow> (retention_error + str) \<times> disk" where
  "retention_open fl root dk =
     retention_guard fl MakeRoot root dk
       (retention_guard fl LockFileOpen (path_join root RETENTION_LOCK_FILE) dk
         (let dk = put_file RETENTION_LOCK_FILE (file_bytes dk RETENTION_LOCK_FILE) dk in
          if dk_locked dk then (Inl (RetentionIo (path_join root RETENTION_LOCK_FILE) ''operation would block''), dk)
          else retention_guard fl LockTry (path_join root RETENTION_LOCK_FILE) dk (Inr root, dk\<lparr>dk_locked := True\<rparr>)))"

definition load_policy ::
  "disk_faults \<Rightarrow> retention_codecs \<Rightarrow> str \<Rightarrow> disk \<Rightarrow> retention_error + retention_policy option" where
  "load_policy fl rc root dk =
     (let path = path_join root POLICY_FILE in
      case fl (ReadFile POLICY_FILE) of
        Some (_, e) \<Rightarrow> Inl (RetentionIo path e)
      | None \<Rightarrow>
          (case fmlookup (dk_files dk) POLICY_FILE of
             None \<Rightarrow> Inr None
           | Some bytes \<Rightarrow>
               (case from_slice (rc_policy_pretty rc) bytes of
                  Inl e \<Rightarrow> Inl (RetentionCorrupt path e)
                | Inr p \<Rightarrow> res_bind (policy_validate p) (\<lambda>_. Inr (Some p)))))"

text \<open>Both writes to the temporary file, of the JSON and of the newline, as one.\<close>

definition persist_policy ::
  "disk_faults \<Rightarrow> retention_codecs \<Rightarrow> str \<Rightarrow> retention_policy \<Rightarrow> disk \<Rightarrow> (retention_error + unit) \<times> disk" where
  "persist_policy fl rc root p dk =
     (case to_vec (rc_policy_pretty rc) p of
        Inl e \<Rightarrow> (Inl (InvalidPolicy (''cannot serialize retention policy: '' @ e)), dk)
      | Inr bytes \<Rightarrow>
          let tmp = path_join root RETENTION_TEMP_FILE;
              written = put_file RETENTION_TEMP_FILE (bytes @ [newline]) dk;
              published = put_file POLICY_FILE (bytes @ [newline]) (drop_file RETENTION_TEMP_FILE written)
          in retention_guard fl (CreateFile RETENTION_TEMP_FILE) tmp dk
               (case fl (WriteFile RETENTION_TEMP_FILE) of
                  Some (n, e) \<Rightarrow> (Inl (RetentionIo tmp e), put_file RETENTION_TEMP_FILE (take n (bytes @ [newline])) dk)
                | None \<Rightarrow>
                    retention_guard fl (SyncFile RETENTION_TEMP_FILE) tmp written
                      (retention_guard fl (Publish POLICY_FILE) (path_join root POLICY_FILE) written
                        (retention_guard fl DirectoryOpen root published
                          (retention_guard fl DirectorySync root published (Inr (), published))))))"

definition save_policy_with_approval ::
  "disk_faults \<Rightarrow> retention_codecs \<Rightarrow> (str \<Rightarrow> str \<Rightarrow> str \<Rightarrow> str + unit) \<Rightarrow> str \<Rightarrow> retention_policy \<Rightarrow> disk
     \<Rightarrow> (retention_error + unit) \<times> disk" where
  "save_policy_with_approval fl rc approve root p dk =
     (case policy_validate p of
        Inl e \<Rightarrow> (Inl e, dk)
      | Inr _ \<Rightarrow>
     (case load_policy fl rc root dk of
        Inl e \<Rightarrow> (Inl e, dk)
      | Inr existing \<Rightarrow>
          if (case existing of None \<Rightarrow> False | Some old \<Rightarrow> rtp_tenant old \<noteq> rtp_tenant p) then
            (Inl (RetentionUnknownTenant (rtp_tenant p)), dk)
          else
     (case policy_artifact_hash (rc_policy rc) p of
        Inl e \<Rightarrow> (Inl e, dk)
      | Inr artifact_hash \<Rightarrow>
     (case approve (rtp_tenant p) RETENTION_POLICY_TOOL artifact_hash of
        Inl detail \<Rightarrow> (Inl (RetentionApprovalRequired detail), dk)
      | Inr _ \<Rightarrow> persist_policy fl rc root p dk))))"

subsection \<open>The enforcement ledger\<close>

definition policy_tenant :: "disk_faults \<Rightarrow> retention_codecs \<Rightarrow> str \<Rightarrow> disk \<Rightarrow> retention_error + str" where
  "policy_tenant fl rc root dk =
     res_bind (load_policy fl rc root dk) (\<lambda>found.
       case found of
         None \<Rightarrow> Inl (InvalidPolicy ''a validated tenant policy must exist before ledger access'')
       | Some p \<Rightarrow> Inr (rtp_tenant p))"

fun ledger_lines ::
  "(str \<Rightarrow> str) \<Rightarrow> enforcement_record json_codec \<Rightarrow> str \<Rightarrow> str \<Rightarrow> nat \<Rightarrow> str list
     \<Rightarrow> retention_error + enforcement_record list" where
  "ledger_lines dbg json path tenant index [] = Inr []"
| "ledger_lines dbg json path tenant index (line # rest) =
     (if line = [] then ledger_lines dbg json path tenant (index + 1) rest
      else case from_slice json line of
          Inl e \<Rightarrow> Inl (RetentionCorrupt path (''enforcement line '' @ show_nat (index + 1) @ '': '' @ e))
        | Inr r \<Rightarrow>
            res_bind (record_validate r) (\<lambda>_.
              if er_tenant r \<noteq> tenant then
                Inl (RetentionCorrupt path (''ledger tenant '' @ dbg (er_tenant r) @ '' does not match policy tenant '' @ dbg tenant))
              else res_bind (ledger_lines dbg json path tenant (index + 1) rest) (\<lambda>rs. Inr (r # rs))))"

definition load_ledger ::
  "disk_faults \<Rightarrow> (str \<Rightarrow> str) \<Rightarrow> retention_codecs \<Rightarrow> str \<Rightarrow> disk \<Rightarrow> retention_error + enforcement_record list" where
  "load_ledger fl dbg rc root dk =
     (let path = path_join root LEDGER_FILE in
      res_bind (policy_tenant fl rc root dk) (\<lambda>tenant.
        case fl (ReadFile LEDGER_FILE) of
          Some (_, e) \<Rightarrow> Inl (RetentionIo path e)
        | None \<Rightarrow>
            (case fmlookup (dk_files dk) LEDGER_FILE of
               None \<Rightarrow> Inr []
             | Some bytes \<Rightarrow>
                 ledger_lines dbg (rc_record rc) path tenant 0 (split_on newline (take (committed_len bytes) bytes)))))"

text \<open>The lines of a batch: what is already committed or was seen earlier in the batch is skipped.\<close>

fun fresh_lines ::
  "enforcement_record json_codec \<Rightarrow> str \<Rightarrow> enforcement_record list \<Rightarrow> enforcement_record list
     \<Rightarrow> enforcement_record list \<Rightarrow> retention_error + str" where
  "fresh_lines json path committed incoming [] = Inr []"
| "fresh_lines json path committed incoming (r # rs) =
     (if r \<in> set committed \<or> r \<in> set incoming then fresh_lines json path committed incoming rs
      else case to_vec json r of
          Inl e \<Rightarrow> Inl (RetentionCorrupt path (''cannot serialize enforcement record: '' @ e))
        | Inr line \<Rightarrow>
            res_bind (fresh_lines json path committed (r # incoming) rs) (\<lambda>bytes. Inr (line @ [newline] @ bytes)))"

definition check_record :: "str \<Rightarrow> enforcement_record \<Rightarrow> retention_error + unit" where
  "check_record tenant r =
     res_bind (record_validate r) (\<lambda>_.
       if er_tenant r \<noteq> tenant then Inl (RetentionUnknownTenant (er_tenant r)) else Inr ())"

text \<open>Cutting a torn tail; \<open>FlushFile\<close> is the sync after the cut.\<close>

definition cut_torn_tail ::
  "disk_faults \<Rightarrow> str \<Rightarrow> disk \<Rightarrow> (retention_error + unit) \<times> disk" where
  "cut_torn_tail fl root dk =
     (let path = path_join root LEDGER_FILE;
          existing = file_bytes dk LEDGER_FILE;
          cut = put_file LEDGER_FILE (take (committed_len existing) existing) dk in
      if committed_len existing = length existing then (Inr (), dk)
      else retention_guard fl (OpenFile LEDGER_FILE) path dk
             (retention_guard fl (CutFile LEDGER_FILE) path dk
               (retention_guard fl (FlushFile LEDGER_FILE) path cut (Inr (), cut))))"

definition write_ledger ::
  "disk_faults \<Rightarrow> str \<Rightarrow> str \<Rightarrow> disk \<Rightarrow> (retention_error + unit) \<times> disk" where
  "write_ledger fl root buffer dk =
     (let path = path_join root LEDGER_FILE;
          old = file_bytes dk LEDGER_FILE;
          written = put_file LEDGER_FILE (old @ buffer) dk in
      retention_guard fl (CreateFile LEDGER_FILE) path dk
        (case fl (WriteFile LEDGER_FILE) of
           Some (n, e) \<Rightarrow> (Inl (RetentionIo path e), put_file LEDGER_FILE (old @ take n buffer) dk)
         | None \<Rightarrow>
             retention_guard fl (SyncFile LEDGER_FILE) path written
               (retention_guard fl DirectoryOpen root written
                 (retention_guard fl DirectorySync root written (Inr (), written)))))"

definition append_records ::
  "disk_faults \<Rightarrow> (str \<Rightarrow> str) \<Rightarrow> retention_codecs \<Rightarrow> str \<Rightarrow> enforcement_record list \<Rightarrow> disk
     \<Rightarrow> (retention_error + unit) \<times> disk" where
  "append_records fl dbg rc root records dk =
     (if records = [] then (Inr (), dk)
      else case policy_tenant fl rc root dk of
          Inl e \<Rightarrow> (Inl e, dk)
        | Inr expected_tenant \<Rightarrow>
     (case res_check (check_record expected_tenant) records of
        Inl e \<Rightarrow> (Inl e, dk)
      | Inr _ \<Rightarrow>
     (case fl (ReadFile LEDGER_FILE) of
        Some (_, e) \<Rightarrow> (Inl (RetentionIo (path_join root LEDGER_FILE) e), dk)
      | None \<Rightarrow>
     (case cut_torn_tail fl root dk of
        (Inl e, dk) \<Rightarrow> (Inl e, dk)
      | (Inr _, dk) \<Rightarrow>
     (case load_ledger fl dbg rc root dk of
        Inl e \<Rightarrow> (Inl e, dk)
      | Inr committed \<Rightarrow>
     (case fresh_lines (rc_record rc) (path_join root LEDGER_FILE) committed [] records of
        Inl e \<Rightarrow> (Inl e, dk)
      | Inr buffer \<Rightarrow> if buffer = [] then (Inr (), dk) else write_ledger fl root buffer dk))))))"

end
