(* ===== verification/Retention_Properties.thy ===== *)
theory Retention_Properties
  imports Retention "HOL-Library.Multiset"
begin

section \<open>What retention enforces\<close>

text \<open>
  The engine against its specification, the gate in front of the policy file, and the ledger under
  every combination of faults.
\<close>

subsection \<open>The engine\<close>

definition enforced :: "tenant_id \<Rightarrow> retention_policy \<Rightarrow> u64 \<Rightarrow> retained_item \<Rightarrow> enforcement_record \<Rightarrow> bool" where
  "enforced tenant p now i r \<longleftrightarrow>
     er_tenant r = as_str tenant \<and> er_item_id r = ri_item_id i \<and> er_class r = ri_class i
     \<and> er_item_created_at r = ri_created_at i \<and> er_at_unix r = now
     \<and> er_action r = (if \<not> ri_sealed i \<and> (\<exists>cp. policy_class p (ri_class i) = Some cp \<and> cp_invalidate cp) then Invalidate else ReportOnly)"

abbreviation action_count :: "enforcement_action \<Rightarrow> enforcement_record list \<Rightarrow> nat" where
  "action_count a rs \<equiv> length (filter (\<lambda>r. er_action r = a) rs)"

abbreviation item_key :: "retained_item \<Rightarrow> retention_class \<times> u64 \<times> str" where
  "item_key i \<equiv> (ri_class i, ri_created_at i, ri_item_id i)"

lemma eligible_expired: "i \<in> set (eligible_items p items now) \<longleftrightarrow> i \<in> set items \<and> policy_expired p (ri_class i) (ri_created_at i) now"
  by (auto simp: eligible_items_def policy_expired_def)

lemma enforce_fold:
  assumes "\<forall>i\<in>set is. policy_expired p (ri_class i) (ri_created_at i) now"
    and "fold (enforce_item tenant p now) is (out, rs) = (out', rs')"
  shows "\<exists>new. rs' = rs @ new \<and> list_all2 (enforced tenant p now) is new
    \<and> out' = out\<lparr>ro_invalidated := ro_invalidated out + action_count Invalidate new,
        ro_reported := ro_reported out + action_count ReportOnly new\<rparr>"
  using assms
proof (induction "is" arbitrary: out rs)
  case Nil
  then show ?case by (simp add: exI [of _ "[]"])
next
  case (Cons i "is")
  obtain cp where cp: "policy_class p (ri_class i) = Some cp"
    using Cons.prems(1) by (auto simp: policy_expired_def split: option.splits)
  let ?report = "ri_sealed i \<or> \<not> cp_invalidate cp"
  let ?r = "\<lparr>er_tenant = as_str tenant, er_item_id = ri_item_id i, er_class = ri_class i, er_item_created_at = ri_created_at i,
    er_action = if ?report then ReportOnly else Invalidate, er_at_unix = now\<rparr>"
  let ?out = "if ?report then out\<lparr>ro_reported := ro_reported out + 1\<rparr> else out\<lparr>ro_invalidated := ro_invalidated out + 1\<rparr>"
  have "enforce_item tenant p now i (out, rs) = (?out, rs @ [?r])" by (simp add: enforce_item_def cp)
  then have "fold (enforce_item tenant p now) is (?out, rs @ [?r]) = (out', rs')" using Cons.prems(2) by simp
  then obtain new where new: "rs' = (rs @ [?r]) @ new" "list_all2 (enforced tenant p now) is new"
    "out' = ?out\<lparr>ro_invalidated := ro_invalidated ?out + action_count Invalidate new,
        ro_reported := ro_reported ?out + action_count ReportOnly new\<rparr>"
    using Cons.IH [of ?out "rs @ [?r]"] Cons.prems(1) by auto
  moreover have "enforced tenant p now i ?r" by (simp add: enforced_def cp)
  ultimately show ?case by (intro exI [of _ "?r # new"]) simp
qed

lemma actions_all:
  "list_all2 (enforced tenant p now) is rs \<Longrightarrow> action_count Invalidate rs + action_count ReportOnly rs = length is"
  by (induction rule: list_all2_induct) (auto simp: enforced_def)

text \<open>
  C21: One run of the retention engine. The records are one for each of the first \<open>batch_limit\<close>
  expired items in the order of class, creation time and identity, each naming the item and
  invalidating it exactly when it is not sealed and its class policy permits that. Nothing that has
  not expired is named, no expired item is forgotten (the rest is deferred and comes later in that
  order), at most 4096 records are emitted, and the counts add up to the items examined.
\<close>

theorem run_once_enforces:
  assumes "run_once tenant p items now batch_limit = Inr (out, records)"
  shows "list_all2 (enforced tenant p now) (take batch_limit (eligible_items p items now)) records
    \<and> mset (eligible_items p items now) = {#i \<in># mset items. policy_expired p (ri_class i) (ri_created_at i) now#}
    \<and> (\<forall>i\<in>set (take batch_limit (eligible_items p items now)). \<forall>j\<in>set (drop batch_limit (eligible_items p items now)).
        item_key i \<le> item_key j)
    \<and> (\<forall>i\<in>set items. ri_tenant i = as_str tenant) \<and> rtp_tenant p = as_str tenant
    \<and> length records = min batch_limit (length (eligible_items p items now)) \<and> batch_limit \<le> 4096
    \<and> ro_examined out = length items
    \<and> ro_retained out + ro_invalidated out + ro_reported out + ro_deferred out = length items
    \<and> ro_invalidated out = action_count Invalidate records \<and> ro_reported out = action_count ReportOnly records"
proof -
  let ?el = "eligible_items p items now"
  have el: "mset ?el = {#i \<in># mset items. policy_expired p (ri_class i) (ri_created_at i) now#}"
    by (simp add: eligible_items_def policy_expired_def)
  have le: "length ?el \<le> length items" by (simp add: eligible_items_def)
  have ok: "rtp_tenant p = as_str tenant" "batch_limit \<le> 4096" "res_check (check_item tenant) items = Inr ()"
    and run: "fold (enforce_item tenant p now) (take batch_limit ?el)
      (\<lparr>ro_examined = length items, ro_retained = length items - length ?el, ro_invalidated = 0, ro_reported = 0,
        ro_deferred = length ?el - min (length ?el) batch_limit\<rparr>, []) = (out, records)"
    using assms by (auto simp: run_once_def Let_def MAX_BATCH_LIMIT_def split: if_splits)
  have tenants: "\<forall>i\<in>set items. ri_tenant i = as_str tenant"
    using ok(3) by (auto simp: res_check_ok_iff check_item_def split: if_splits)
  have "\<forall>i\<in>set (take batch_limit ?el). policy_expired p (ri_class i) (ri_created_at i) now"
    by (auto dest!: in_set_takeD simp: eligible_expired)
  from enforce_fold [OF this run] have recs: "list_all2 (enforced tenant p now) (take batch_limit ?el) records"
    and out: "out = \<lparr>ro_examined = length items, ro_retained = length items - length ?el,
      ro_invalidated = action_count Invalidate records, ro_reported = action_count ReportOnly records,
      ro_deferred = length ?el - min (length ?el) batch_limit\<rparr>"
    by auto
  have "sorted (map item_key (take batch_limit ?el @ drop batch_limit ?el))"
    unfolding append_take_drop_id by (simp add: eligible_items_def)
  then have order: "\<forall>i\<in>set (take batch_limit ?el). \<forall>j\<in>set (drop batch_limit ?el). item_key i \<le> item_key j"
    unfolding map_append sorted_append by simp
  have "action_count Invalidate records + action_count ReportOnly records = min (length ?el) batch_limit"
    using actions_all [OF recs] by simp
  then show ?thesis
    using recs el order tenants ok(1,2) le list_all2_lengthD [OF recs] by (simp add: out min.commute)
qed

subsection \<open>The policy file\<close>

lemma retention_names:
  "RETENTION_TEMP_FILE \<noteq> POLICY_FILE" "LEDGER_FILE \<noteq> POLICY_FILE" "LEDGER_FILE \<noteq> RETENTION_TEMP_FILE"
  by (simp_all add: RETENTION_TEMP_FILE_def POLICY_FILE_def LEDGER_FILE_def)

lemma persist_policy_effect:
  assumes "persist_policy fl rc root p dk = (r, dk')"
  shows "(\<forall>g. g \<noteq> RETENTION_TEMP_FILE \<and> g \<noteq> POLICY_FILE \<longrightarrow> fmlookup (dk_files dk') g = fmlookup (dk_files dk) g)
    \<and> (fmlookup (dk_files dk') POLICY_FILE = fmlookup (dk_files dk) POLICY_FILE \<or>
       (\<exists>bytes. to_vec (rc_policy_pretty rc) p = Inr bytes \<and> fmlookup (dk_files dk') POLICY_FILE = Some (bytes @ [newline])))
    \<and> (r = Inr () \<longrightarrow> (\<exists>bytes. to_vec (rc_policy_pretty rc) p = Inr bytes \<and> fmlookup (dk_files dk') POLICY_FILE = Some (bytes @ [newline])))"
  using assms retention_names
  by (auto simp: persist_policy_def retention_guard_def Let_def split: sum.splits option.splits)

lemma save_policy_shape:
  assumes "save_policy_with_approval fl rc approve root p dk = (r, dk')"
  shows "(dk' = dk \<and> r \<noteq> Inr ()) \<or>
    (\<exists>existing bytes. policy_validate p = Inr () \<and> load_policy fl rc root dk = Inr existing
      \<and> (\<forall>old. existing = Some old \<longrightarrow> rtp_tenant old = rtp_tenant p) \<and> to_vec (rc_policy rc) p = Inr bytes
      \<and> approve (rtp_tenant p) RETENTION_POLICY_TOOL (hex (sha256 bytes)) = Inr ()
      \<and> persist_policy fl rc root p dk = (r, dk'))"
  using assms
  by (auto simp: save_policy_with_approval_def policy_artifact_hash_def split: sum.splits option.splits if_splits)

text \<open>
  C23: No policy without its approval. Whatever fails, the policy file keeps its old bytes or holds
  all of the new policy, and it changes only if the callback approved the action
  \<open>retention.policy.set\<close> for the policy's tenant and for the SHA-256 of exactly this policy, the
  policy being valid and of the same tenant as the one it replaces. When the call returns without
  error, the policy is the one a later process loads. The ledger is never touched.
\<close>

theorem policy_change_needs_approval:
  assumes "save_policy_with_approval fl rc approve root p dk = (r, dk')"
    and "codec_keeps (rc_policy_pretty rc) p"
  shows "(fmlookup (dk_files dk') POLICY_FILE \<noteq> fmlookup (dk_files dk) POLICY_FILE \<longrightarrow>
        load_policy disk_works rc root dk' = Inr (Some p)
        \<and> (\<exists>bytes. to_vec (rc_policy rc) p = Inr bytes
            \<and> approve (rtp_tenant p) RETENTION_POLICY_TOOL (hex (sha256 bytes)) = Inr ())
        \<and> (\<forall>old. load_policy fl rc root dk = Inr (Some old) \<longrightarrow> rtp_tenant old = rtp_tenant p))
    \<and> (r = Inr () \<longrightarrow> load_policy disk_works rc root dk' = Inr (Some p))
    \<and> fmlookup (dk_files dk') LEDGER_FILE = fmlookup (dk_files dk) LEDGER_FILE"
proof (cases "dk' = dk \<and> r \<noteq> Inr ()")
  case True
  then show ?thesis by simp
next
  case False
  then obtain existing bytes where ok: "policy_validate p = Inr ()" "load_policy fl rc root dk = Inr existing"
      "\<forall>old. existing = Some old \<longrightarrow> rtp_tenant old = rtp_tenant p" "to_vec (rc_policy rc) p = Inr bytes"
      "approve (rtp_tenant p) RETENTION_POLICY_TOOL (hex (sha256 bytes)) = Inr ()" "persist_policy fl rc root p dk = (r, dk')"
    using save_policy_shape [OF assms(1)] by blast
  have "load_policy disk_works rc root dk' = Inr (Some p)"
    if "to_vec (rc_policy_pretty rc) p = Inr b" "fmlookup (dk_files dk') POLICY_FILE = Some (b @ [newline])" for b
    using that assms(2) ok(1) by (simp add: load_policy_def codec_keeps_def)
  then show ?thesis using persist_policy_effect [OF ok(6)] ok(2-5) retention_names(2,3) by auto
qed

subsection \<open>The ledger\<close>

text \<open>The ledger file holds these records, valid and of the policy's tenant, and perhaps a torn line.\<close>

definition ledger_holds :: "retention_codecs \<Rightarrow> str \<Rightarrow> disk \<Rightarrow> enforcement_record list \<Rightarrow> str \<Rightarrow> bool" where
  "ledger_holds rc root dk recs torn \<longleftrightarrow>
     file_bytes dk LEDGER_FILE = journal_bytes (rc_record rc) recs @ torn \<and> newline \<notin> set torn
     \<and> (\<exists>tenant. policy_tenant disk_works rc root dk = Inr tenant
         \<and> (\<forall>r\<in>set recs. codec_keeps_line (rc_record rc) r \<and> check_record tenant r = Inr ()))"

lemma ledger_lines_journal:
  assumes "\<forall>r\<in>set recs. codec_keeps_line json r \<and> check_record tenant r = Inr ()"
  shows "ledger_lines dbg json path tenant n (map (json_text json) recs @ [[]]) = Inr recs"
  using assms by (induction recs arbitrary: n) (auto simp: codec_keeps_lineD check_record_def split: if_splits)

lemma load_ledger_eq:
  assumes "ledger_holds rc root dk recs torn"
  shows "load_ledger disk_works dbg rc root dk = Inr recs"
proof -
  obtain tenant where t: "policy_tenant disk_works rc root dk = Inr tenant"
      "\<forall>r\<in>set recs. codec_keeps_line (rc_record rc) r \<and> check_record tenant r = Inr ()"
    and bytes: "file_bytes dk LEDGER_FILE = journal_bytes (rc_record rc) recs @ torn" "newline \<notin> set torn"
    using assms by (auto simp: ledger_holds_def)
  show ?thesis
  proof (cases "fmlookup (dk_files dk) LEDGER_FILE")
    case None
    then have "recs = []" using bytes(1) t(2) by (cases recs) (auto simp: file_bytes_def codec_keeps_lineD)
    then show ?thesis using None t(1) by (simp add: load_ledger_def)
  next
    case (Some b)
    then have "b = journal_bytes (rc_record rc) recs @ torn" using bytes(1) by (simp add: file_bytes_def)
    then show ?thesis
      using Some t bytes(2) ledger_lines_journal [OF t(2), of dbg "path_join root LEDGER_FILE" 0]
        committed_journal [of recs "rc_record rc" torn] split_journal [of recs "rc_record rc"]
      by (simp add: load_ledger_def)
  qed
qed

text \<open>What a batch adds: its records in order, without those committed and without repetitions.\<close>

fun fresh_records :: "enforcement_record list \<Rightarrow> enforcement_record list \<Rightarrow> enforcement_record list" where
  "fresh_records seen [] = []"
| "fresh_records seen (r # rs) = (if r \<in> set seen then fresh_records seen rs else r # fresh_records (r # seen) rs)"

lemma fresh_records_set: "set (fresh_records seen rs) = set rs - set seen"
  by (induction seen rs rule: fresh_records.induct) auto

lemma fresh_records_distinct: "distinct (fresh_records seen rs)"
  by (induction seen rs rule: fresh_records.induct) (auto simp: fresh_records_set)

lemma fresh_lines_eq:
  assumes "\<forall>r\<in>set rs. codec_keeps_line json r"
  shows "fresh_lines json path committed incoming rs = Inr (journal_bytes json (fresh_records (incoming @ committed) rs))"
  using assms
proof (induction rs arbitrary: incoming)
  case (Cons r rs)
  have "fresh_records (r # incoming @ committed) rs = fresh_records ((r # incoming) @ committed) rs" by simp
  then show ?case using Cons by (auto simp: codec_keeps_lineD)
qed simp

lemma policy_tenant_cong:
  "fmlookup (dk_files dk') POLICY_FILE = fmlookup (dk_files dk) POLICY_FILE \<Longrightarrow>
     policy_tenant disk_works rc root dk' = policy_tenant disk_works rc root dk"
  by (simp add: policy_tenant_def load_policy_def)

lemma ledger_holds_put:
  assumes "ledger_holds rc root dk recs torn" and "newline \<notin> set torn'"
    and "policy_tenant disk_works rc root dk = Inr tenant"
    and "\<forall>r\<in>set recs'. codec_keeps_line (rc_record rc) r \<and> check_record tenant r = Inr ()"
  shows "ledger_holds rc root (put_file LEDGER_FILE (journal_bytes (rc_record rc) recs' @ torn') dk) recs' torn'"
  using assms policy_tenant_cong [of "put_file LEDGER_FILE (journal_bytes (rc_record rc) recs' @ torn') dk" dk rc root] retention_names(2)
  by (auto simp: ledger_holds_def file_bytes_def)

text \<open>A fault that is not a failed read: reads under it are reads that work.\<close>

lemma load_policy_works: "load_policy fl rc root dk = Inr x \<Longrightarrow> load_policy disk_works rc root dk = Inr x"
  by (auto simp: load_policy_def Let_def split: option.splits)

lemma policy_tenant_works: "policy_tenant fl rc root dk = Inr t \<Longrightarrow> policy_tenant disk_works rc root dk = Inr t"
  using load_policy_works by (fastforce simp: policy_tenant_def)

lemma load_ledger_works: "load_ledger fl dbg rc root dk = Inr rs \<Longrightarrow> load_ledger disk_works dbg rc root dk = Inr rs"
  using policy_tenant_works by (fastforce simp: load_ledger_def Let_def split: option.splits)

lemma cut_tail_effect:
  assumes "cut_torn_tail fl root dk = (r, dk')" and "ledger_holds rc root dk recs torn"
  shows "(dk' = dk \<and> (r = Inr () \<longrightarrow> torn = [])) \<or> (dk' = put_file LEDGER_FILE (journal_bytes (rc_record rc) recs) dk)"
proof -
  have "file_bytes dk LEDGER_FILE = journal_bytes (rc_record rc) recs @ torn"
    "committed_len (journal_bytes (rc_record rc) recs @ torn) = length (journal_bytes (rc_record rc) recs)"
    using assms(2) committed_journal [of recs "rc_record rc" torn] by (auto simp: ledger_holds_def)
  then show ?thesis
    using assms(1) by (auto simp: cut_torn_tail_def retention_guard_def Let_def split: if_splits option.splits)
qed

lemma cut_nothing:
  assumes "ledger_holds rc root dk recs []"
  shows "cut_torn_tail fl root dk = (Inr (), dk)"
  using assms committed_journal [of recs "rc_record rc" "[]"] by (auto simp: ledger_holds_def cut_torn_tail_def)

lemma write_ledger_effect:
  assumes "write_ledger fl root buffer dk = (r, dk')"
  shows "dk' = dk \<and> r \<noteq> Inr () \<or> (\<exists>n. dk' = put_file LEDGER_FILE (file_bytes dk LEDGER_FILE @ take n buffer) dk \<and> (r = Inr () \<longrightarrow> length buffer \<le> n))"
proof -
  have "dk' = dk \<and> r \<noteq> Inr () \<or> dk' = put_file LEDGER_FILE (file_bytes dk LEDGER_FILE @ take (length buffer) buffer) dk
      \<or> (\<exists>n. dk' = put_file LEDGER_FILE (file_bytes dk LEDGER_FILE @ take n buffer) dk \<and> r \<noteq> Inr ())"
    using assms by (auto simp: write_ledger_def retention_guard_def Let_def split: option.splits)
  then show ?thesis by blast
qed

lemma append_records_shape:
  assumes "append_records fl dbg rc root records dk = (r, dk')"
  obtains (unchanged) "dk' = dk" "r \<noteq> Inr () \<or> records = []"
  | (cut) r1 where "cut_torn_tail fl root dk = (r1, dk')" "r \<noteq> Inr ()"
  | (written) tenant dk1 committed buffer where "policy_tenant fl rc root dk = Inr tenant" "res_check (check_record tenant) records = Inr ()"
      "cut_torn_tail fl root dk = (Inr (), dk1)" "load_ledger fl dbg rc root dk1 = Inr committed"
      "fresh_lines (rc_record rc) (path_join root LEDGER_FILE) committed [] records = Inr buffer"
      "(r, dk') = (if buffer = [] then (Inr (), dk1) else write_ledger fl root buffer dk1)"
proof -
  show thesis
  proof (cases "records = [] \<or> dk' = dk \<and> r \<noteq> Inr ()")
    case True
    then show thesis using assms unchanged by (auto simp: append_records_def)
  next
    case False
    obtain r1 dk1 where c: "cut_torn_tail fl root dk = (r1, dk1)" by fastforce
    have "\<exists>tenant. policy_tenant fl rc root dk = Inr tenant \<and> res_check (check_record tenant) records = Inr ()"
      using assms False by (auto simp: append_records_def split: sum.splits)
    then obtain tenant where t: "policy_tenant fl rc root dk = Inr tenant" "res_check (check_record tenant) records = Inr ()" by blast
    have rest: "(r, dk') = (case r1 of Inl e \<Rightarrow> (Inl e, dk1) | Inr _ \<Rightarrow>
        (case load_ledger fl dbg rc root dk1 of Inl e \<Rightarrow> (Inl e, dk1) | Inr committed \<Rightarrow>
        (case fresh_lines (rc_record rc) (path_join root LEDGER_FILE) committed [] records of Inl e \<Rightarrow> (Inl e, dk1)
         | Inr buffer \<Rightarrow> if buffer = [] then (Inr (), dk1) else write_ledger fl root buffer dk1)))"
      using assms False by (auto simp: append_records_def t c split: option.splits sum.splits)
    show thesis
      using rest c t written [of tenant dk1] cut [of r1] by (auto split: sum.splits)
  qed
qed

lemma fresh_records_again: "set records \<subseteq> set seen \<Longrightarrow> fresh_records seen records = []"
  using fresh_records_set [of seen records] by (metis Diff_eq_empty_iff set_empty)

text \<open>
  C22: The enforcement ledger is append-only and exact. Starting from a ledger with records and perhaps
  a torn line left by a crash, and whatever fails during the call, the records read back are the old
  ones followed by a prefix of the new ones, in order, without those already committed and without
  repetitions; when the call returns without error they are all there, and the same batch again
  changes nothing. Whatever a failed call leaves behind is again such a ledger.
\<close>

theorem ledger_append_exact:
  assumes "ledger_holds rc root dk recs torn" and "\<forall>r\<in>set records. codec_keeps_line (rc_record rc) r"
    and "append_records fl dbg rc root records dk = (r, dk')"
  shows "\<exists>k torn'. load_ledger disk_works dbg rc root dk' = Inr (recs @ take k (fresh_records recs records))
    \<and> ledger_holds rc root dk' (recs @ take k (fresh_records recs records)) torn'
    \<and> (r = Inr () \<longrightarrow> length (fresh_records recs records) \<le> k \<and> append_records disk_works dbg rc root records dk' = (Inr (), dk'))"
proof -
  let ?fresh = "fresh_records recs records"
  have goal: ?thesis if "ledger_holds rc root dk' (recs @ take k ?fresh) torn'"
    "r = Inr () \<Longrightarrow> length ?fresh \<le> k \<and> append_records disk_works dbg rc root records dk' = (Inr (), dk')" for k torn'
    using that load_ledger_eq [OF that(1)] by blast
  from assms(3) show ?thesis
  proof (cases rule: append_records_shape)
    case unchanged
    then show ?thesis using assms(1) goal [of 0 torn] by (auto simp: append_records_def)
  next
    case (cut r1)
    obtain tenant where t: "policy_tenant disk_works rc root dk = Inr tenant"
        "\<forall>r\<in>set recs. codec_keeps_line (rc_record rc) r \<and> check_record tenant r = Inr ()"
      using assms(1) by (auto simp: ledger_holds_def)
    show ?thesis
      using cut_tail_effect [OF cut(1) assms(1)] assms(1) cut(2) ledger_holds_put [OF assms(1) _ t, of "[]"]
        goal [of 0 torn] goal [of 0 "[]"] by auto
  next
    case (written tenant dk1 committed buffer)
    have t: "policy_tenant disk_works rc root dk = Inr tenant" by (rule policy_tenant_works [OF written(1)])
    then have recs: "\<forall>r\<in>set recs. codec_keeps_line (rc_record rc) r \<and> check_record tenant r = Inr ()"
      using assms(1) by (auto simp: ledger_holds_def)
    have valid: "\<forall>r\<in>set (recs @ take k ?fresh). codec_keeps_line (rc_record rc) r \<and> check_record tenant r = Inr ()" for k
      using recs assms(2) written(2) fresh_records_set [of recs records]
      by (auto simp: res_check_ok_iff dest!: in_set_takeD)
    have one: "ledger_holds rc root dk1 recs []"
      using cut_tail_effect [OF written(3) assms(1)] assms(1) ledger_holds_put [OF assms(1) _ t recs, of "[]"] by auto
    then have "committed = recs" using load_ledger_works [OF written(4)] load_ledger_eq by fastforce
    then have buffer: "buffer = journal_bytes (rc_record rc) ?fresh"
      using written(5) fresh_lines_eq [OF assms(2)] by simp
    have t1: "policy_tenant disk_works rc root dk1 = Inr tenant"
      using cut_tail_effect [OF written(3) assms(1)] t policy_tenant_cong [of dk1 dk rc root] retention_names(2) by auto
    have bytes: "file_bytes dk1 LEDGER_FILE = journal_bytes (rc_record rc) recs" using one by (simp add: ledger_holds_def)
    have again: "append_records disk_works dbg rc root records dk' = (Inr (), dk')"
      if "ledger_holds rc root dk' (recs @ ?fresh) []" "policy_tenant disk_works rc root dk' = Inr tenant"
    proof -
      have "fresh_lines (rc_record rc) (path_join root LEDGER_FILE) (recs @ ?fresh) [] records = Inr []"
        using fresh_lines_eq [OF assms(2)] fresh_records_again [of records "recs @ ?fresh"] fresh_records_set [of recs records] by auto
      then show ?thesis using load_ledger_eq [OF that(1)] cut_nothing [OF that(1)] that(2) written(2) by (simp add: append_records_def)
    qed
    show ?thesis
    proof (cases "buffer = []")
      case True
      then have "?fresh = []"
        using buffer valid [of "length ?fresh"] by (cases ?fresh) (auto simp: codec_keeps_lineD)
      then show ?thesis using written(6) True one t1 again goal [of 0 "[]"] by simp
    next
      case False
      then have "write_ledger fl root buffer dk1 = (r, dk')" using written(6) by simp
      from write_ledger_effect [OF this] show ?thesis
      proof (elim disjE exE)
        assume "dk' = dk1 \<and> r \<noteq> Inr ()"
        then show ?thesis using one goal [of 0 "[]"] by simp
      next
        fix n assume n: "dk' = put_file LEDGER_FILE (file_bytes dk1 LEDGER_FILE @ take n buffer) dk1 \<and> (r = Inr () \<longrightarrow> length buffer \<le> n)"
        obtain k torn' where k: "take n buffer = journal_bytes (rc_record rc) (take k ?fresh) @ torn'" "newline \<notin> set torn'"
            "length buffer \<le> n \<longrightarrow> k = length ?fresh \<and> torn' = []"
        proof (cases "length buffer \<le> n")
          case True
          then show ?thesis using that [of "length ?fresh" "[]"] buffer by simp
        next
          case False
          then show ?thesis using that take_journal [of ?fresh "rc_record rc" n] valid [of "length ?fresh"] buffer by auto
        qed
        have "ledger_holds rc root dk' (recs @ take k ?fresh) torn'"
          using ledger_holds_put [OF one k(2) t1 valid, of k] n k(1) bytes by simp
        moreover have "policy_tenant disk_works rc root dk' = Inr tenant"
          using n t1 policy_tenant_cong [of dk' dk1 rc root] retention_names(2) by simp
        ultimately show ?thesis using goal [of k torn'] again n k(3) by auto
      qed
    qed
  qed
qed

subsection \<open>Sample policy and ledger\<close>

definition sample_policy :: retention_policy where
  "sample_policy = \<lparr>rtp_schema_version = 1, rtp_tenant = ''acme'',
     rtp_classes = fmupd EphemeralContext \<lparr>cp_retention_seconds = Some 10, cp_invalidate = True\<rparr> fmempty\<rparr>"

definition sample_item :: "str \<Rightarrow> u64 \<Rightarrow> bool \<Rightarrow> retained_item" where
  "sample_item name created is_sealed = \<lparr>ri_tenant = ''acme'', ri_item_id = name, ri_class = EphemeralContext,
     ri_created_at = created, ri_sealed = is_sealed\<rparr>"

definition sample_record :: "u64 \<Rightarrow> enforcement_record" where
  "sample_record n = \<lparr>er_tenant = ''acme'', er_item_id = ''ctx'', er_class = EphemeralContext, er_item_created_at = n,
     er_action = Invalidate, er_at_unix = 100\<rparr>"

definition sample_retention_codecs :: retention_codecs where
  "sample_retention_codecs = \<lparr>rc_policy = \<lparr>from_slice = \<lambda>_. Inr sample_policy, to_vec = \<lambda>_. Inr ''p''\<rparr>,
     rc_policy_pretty = \<lparr>from_slice = \<lambda>_. Inr sample_policy, to_vec = \<lambda>_. Inr ''p''\<rparr>,
     rc_record = \<lparr>from_slice = (\<lambda>s. case parse_u64 s of Some n \<Rightarrow> Inr (sample_record n) | None \<Rightarrow> Inl ''no number''),
       to_vec = (\<lambda>r. Inr (show_nat (unat (er_item_created_at r))))\<rparr>\<rparr>"

definition sample_ledger_disk :: disk where
  "sample_ledger_disk = \<lparr>dk_files = fmupd LEDGER_FILE (journal_bytes (rc_record sample_retention_codecs) [sample_record 1] @ ''7'')
      (fmupd POLICY_FILE (''p'' @ [newline]) fmempty),
     dk_locked = True, dk_attempt = 0, dk_pid = ''1'', dk_name_taken = ''File exists''\<rparr>"

lemma acme_id [simp]: "canonical_id ''acme'' 128" "canonical_id ''ctx'' MAX_ITEM_ID_BYTES"
  by (simp_all add: canonical_id_def is_ascii_lowercase_def MAX_ITEM_ID_BYTES_def)

lemma sample_policy_valid [simp]: "policy_validate sample_policy = Inr ()" "rtp_tenant sample_policy = ''acme''"
  by (simp_all add: policy_validate_def sample_policy_def RETENTION_SCHEMA_def)

lemma sample_record_keeps: "codec_keeps_line (rc_record sample_retention_codecs) (sample_record n)"
proof -
  have "newline \<notin> set (show_nat (unat n))"
    using show_nat_digits [of newline "unat n"] by (auto simp: is_ascii_digit_def)
  moreover have "unat n < 2 ^ 64" using unsigned_less [of n] by simp
  ultimately show ?thesis
    by (simp add: codec_keeps_line_def sample_retention_codecs_def sample_record_def parse_show show_nat_not_Nil)
qed

lemma sample_ledger: "ledger_holds sample_retention_codecs root sample_ledger_disk [sample_record 1] ''7''"
proof -
  have "policy_tenant disk_works sample_retention_codecs root sample_ledger_disk = Inr ''acme''"
    by (simp add: policy_tenant_def load_policy_def sample_ledger_disk_def sample_retention_codecs_def retention_names)
  moreover have "check_record ''acme'' (sample_record 1) = Inr ()"
    by (simp add: check_record_def record_validate_def sample_record_def)
  ultimately show ?thesis
    using sample_record_keeps by (simp add: ledger_holds_def) (simp add: sample_ledger_disk_def file_bytes_def)
qed

theorem ledger_append_exact_witness:
  "\<exists>k. load_ledger disk_works id sample_retention_codecs ''/r''
     (snd (append_records (disk_works(WriteFile LEDGER_FILE := Some (0, ''EIO''))) id sample_retention_codecs ''/r''
        [sample_record 1, sample_record 2] sample_ledger_disk)) = Inr ([sample_record 1] @ take k [sample_record 2])"
proof -
  obtain r dk' where run: "append_records (disk_works(WriteFile LEDGER_FILE := Some (0, ''EIO''))) id sample_retention_codecs ''/r''
      [sample_record 1, sample_record 2] sample_ledger_disk = (r, dk')" by fastforce
  have "fresh_records [sample_record 1] [sample_record 1, sample_record 2] = [sample_record 2]" by (simp add: sample_record_def)
  then show ?thesis
    using ledger_append_exact [OF sample_ledger _ run] sample_record_keeps by (auto simp: run)
qed

theorem policy_change_needs_approval_witness:
  "fmlookup (dk_files (snd (save_policy_with_approval disk_works sample_retention_codecs (\<lambda>_ _ _. Inl ''denied'') ''/r''
      sample_policy sample_ledger_disk))) POLICY_FILE = fmlookup (dk_files sample_ledger_disk) POLICY_FILE"
proof -
  obtain r dk' where run: "save_policy_with_approval disk_works sample_retention_codecs (\<lambda>_ _ _. Inl ''denied'') ''/r''
      sample_policy sample_ledger_disk = (r, dk')" by fastforce
  have "codec_keeps (rc_policy_pretty sample_retention_codecs) sample_policy"
    by (simp add: codec_keeps_def sample_retention_codecs_def)
  from policy_change_needs_approval [OF run this] show ?thesis by (auto simp: run)
qed

theorem run_once_enforces_witness:
  "\<exists>out records. run_once (TenantId ''acme'') sample_policy [sample_item ''a'' 0 True, sample_item ''b'' 95 False] 100 10 = Inr (out, records)
     \<and> ro_retained out + ro_invalidated out + ro_reported out + ro_deferred out = 2"
proof -
  let ?items = "[sample_item ''a'' 0 True, sample_item ''b'' 95 False]"
  have "res_check (check_item (TenantId ''acme'')) ?items = Inr ()"
    by (simp add: res_check_ok_iff check_item_def item_validate_def sample_item_def)
      (simp add: canonical_id_def is_ascii_lowercase_def MAX_ITEM_ID_BYTES_def)
  then obtain out records where run: "run_once (TenantId ''acme'') sample_policy ?items 100 10 = Inr (out, records)"
    by (cases "fold (enforce_item (TenantId ''acme'') sample_policy 100) (take 10 (eligible_items sample_policy ?items 100))
      (\<lparr>ro_examined = 2, ro_retained = 2 - length (eligible_items sample_policy ?items 100), ro_invalidated = 0, ro_reported = 0,
        ro_deferred = length (eligible_items sample_policy ?items 100) - min (length (eligible_items sample_policy ?items 100)) 10\<rparr>, [])")
      (simp add: run_once_def Let_def MAX_BATCH_LIMIT_def MAX_INPUT_ITEMS_def numeral_2_eq_2)
  from run_once_enforces [OF run] run show ?thesis by auto
qed

end
