(* ===== verification/Execution.thy ===== *)
theory Execution
  imports Disk
begin

section \<open>The execution journal (crates/ccos-enterprise-execution)\<close>

text \<open>
  An append-only file of execution facts, each line chained to the one before by a hash, and the
  recovery of tool calls from it. \<open>execution_journal\<close> is the open handle; the file is one of the
  directory of theory \<open>Disk\<close>. SHA-256 (the crate \<open>sha2\<close>), the JSON codecs of records and events and
  the Debug rendering of a string are parameters.
\<close>

definition SCHEMA_VERSION :: "16 word" where
  "SCHEMA_VERSION = 1"

definition GENESIS_HASH :: str where
  "GENESIS_HASH = replicate 64 (CHR ''0'')"

datatype execution_event =
    TurnStarted str
  | StepStarted str str
  | UserMessage str str str
  | AssistantMessage str str str str
  | HostCallCorrelated str str str str str str str str str "str option" str
  | ToolRequested str str str str str
  | ToolStarted str
  | ToolFinished str bool str
  | ApprovalAsked str str
  | ApprovalDecided str bool
  | StepFinished str str bool
  | TurnFinished str bool

record execution_record =
  xr_schema_version :: "16 word"
  xr_stream_id :: str
  xr_sequence :: u64
  xr_previous_hash :: str
  xr_event :: execution_event
  xr_hash :: str

datatype tail_repair = RepairNone | CompletedMissingNewline | DiscardedPartialTail nat

datatype journal_error =
    JournalIo str
  | JournalJson str
  | InvalidStreamId str
  | JournalIntegrity str
  | JournalLifecycle str
  | JournalPoisoned str

record execution_journal =
  xj_file :: str
  xj_stream_id :: str
  xj_records :: "execution_record list"
  xj_poisoned :: bool

record execution_codecs =
  xc_record :: "execution_record json_codec"
  xc_event :: "execution_event json_codec"

subsection \<open>Hash chain\<close>

text \<open>\<open>u16::to_le_bytes\<close>, \<open>u64::to_le_bytes\<close>.\<close>

definition le16 :: "16 word \<Rightarrow> str" where
  "le16 w = [char_of (unat w mod 256), char_of (unat w div 256 mod 256)]"

definition le64 :: "nat \<Rightarrow> str" where
  "le64 n = rev (be64 n)"

definition append_len_prefixed :: "str \<Rightarrow> str \<Rightarrow> str" where
  "append_len_prefixed out bytes = out @ le64 (length bytes) @ bytes"

definition chain_payload :: "str \<Rightarrow> u64 \<Rightarrow> str \<Rightarrow> str \<Rightarrow> str" where
  "chain_payload stream_id sequence previous_hash event_bytes =
     append_len_prefixed
       (append_len_prefixed
         (append_len_prefixed (le16 SCHEMA_VERSION @ le64 (unat sequence)) stream_id)
         previous_hash)
       event_bytes"

definition record_hash ::
  "(str \<Rightarrow> str) \<Rightarrow> execution_event json_codec \<Rightarrow> str \<Rightarrow> u64 \<Rightarrow> str \<Rightarrow> execution_event \<Rightarrow> journal_error + str" where
  "record_hash sha json stream_id sequence previous_hash event =
     (case to_vec json event of
        Inl e \<Rightarrow> Inl (JournalJson e)
      | Inr event_bytes \<Rightarrow> Inr (hex (sha (chain_payload stream_id sequence previous_hash event_bytes))))"

definition validate_stream_id :: "str \<Rightarrow> journal_error + unit" where
  "validate_stream_id stream_id =
     (if stream_id = [] then Inl (InvalidStreamId ''must not be empty'')
      else if 256 < length stream_id then Inl (InvalidStreamId ''must not exceed 256 bytes'')
      else if list_ex is_control (utf8_chars stream_id) then Inl (InvalidStreamId ''must not contain control characters'')
      else Inr ())"

definition head_of :: "execution_record list \<Rightarrow> str" where
  "head_of records = (if records = [] then GENESIS_HASH else xr_hash (last records))"

definition validate_next ::
  "(str \<Rightarrow> str) \<Rightarrow> execution_event json_codec \<Rightarrow> execution_record list \<Rightarrow> execution_record \<Rightarrow> str
     \<Rightarrow> journal_error + unit" where
  "validate_next sha json prior r expected_stream_id =
     (if xr_schema_version r \<noteq> SCHEMA_VERSION then
        Inl (JournalIntegrity (''unsupported schema version '' @ show_nat (unat (xr_schema_version r))
          @ '' at sequence '' @ show_nat (unat (xr_sequence r))))
      else if xr_stream_id r \<noteq> expected_stream_id then
        Inl (JournalIntegrity (''stream mismatch at sequence '' @ show_nat (unat (xr_sequence r))))
      else if xr_sequence r \<noteq> of_nat (length prior) then
        Inl (JournalIntegrity (''expected sequence '' @ show_nat (unat (of_nat (length prior) :: u64))
          @ '', found '' @ show_nat (unat (xr_sequence r))))
      else if xr_previous_hash r \<noteq> head_of prior then
        Inl (JournalIntegrity (''broken previous-hash link at sequence '' @ show_nat (unat (xr_sequence r))))
      else res_bind (record_hash sha json (xr_stream_id r) (xr_sequence r) (xr_previous_hash r) (xr_event r))
        (\<lambda>expected_hash.
          if xr_hash r \<noteq> expected_hash then
            Inl (JournalIntegrity (''content hash mismatch at sequence '' @ show_nat (unat (xr_sequence r))))
          else Inr ()))"

subsection \<open>Opening and appending\<close>

text \<open>
  The \<open>while\<close> loop of \<open>open\<close> up to the last newline: the records of the terminated lines, the
  offset after them and the unterminated tail.
\<close>

function open_lines ::
  "(str \<Rightarrow> str) \<Rightarrow> execution_codecs \<Rightarrow> str \<Rightarrow> execution_record list \<Rightarrow> nat \<Rightarrow> str
     \<Rightarrow> journal_error + execution_record list \<times> nat \<times> str" where
  "open_lines sha xc stream_id records cursor bytes =
     (if newline \<notin> set bytes then Inr (records, cursor, bytes)
      else
        let line = takeWhile (\<lambda>b. b \<noteq> newline) bytes in
        if line = [] then
          Inl (JournalIntegrity (''empty durable line at byte offset '' @ show_nat cursor))
        else case from_slice (xc_record xc) line of
            Inl e \<Rightarrow> Inl (JournalJson e)
          | Inr r \<Rightarrow>
              (case validate_next sha (xc_event xc) records r stream_id of
                 Inl e \<Rightarrow> Inl e
               | Inr _ \<Rightarrow>
                   open_lines sha xc stream_id (records @ [r]) (cursor + length line + 1) (drop (length line + 1) bytes)))"
  by pat_completeness auto
termination
  by (relation "measure (\<lambda>(sha, xc, stream_id, records, cursor, bytes). length bytes)") (auto dest!: length_pos_if_in_set)

declare open_lines.simps [simp del]

definition journal_guard ::
  "disk_faults \<Rightarrow> disk_step \<Rightarrow> disk \<Rightarrow> (journal_error + 'a) \<times> disk \<Rightarrow> (journal_error + 'a) \<times> disk" where
  "journal_guard fl stp dk k = (case fl stp of Some (_, e) \<Rightarrow> (Inl (JournalIo e), dk) | None \<Rightarrow> k)"

text \<open>The tail: a complete record gets its newline, anything else is cut off.\<close>

definition repair_tail ::
  "disk_faults \<Rightarrow> (str \<Rightarrow> str) \<Rightarrow> execution_codecs \<Rightarrow> str \<Rightarrow> str \<Rightarrow> execution_record list \<Rightarrow> nat \<Rightarrow> str \<Rightarrow> disk
     \<Rightarrow> (journal_error + execution_record list \<times> tail_repair) \<times> disk" where
  "repair_tail fl sha xc f stream_id records cursor tail dk =
     (if tail = [] then (Inr (records, RepairNone), dk)
      else case from_slice (xc_record xc) tail of
          Inr r \<Rightarrow>
            (case validate_next sha (xc_event xc) records r stream_id of
               Inl e \<Rightarrow> (Inl e, dk)
             | Inr _ \<Rightarrow>
                 let completed = put_file f (file_bytes dk f @ [newline]) dk in
                 journal_guard fl (OpenFile f) dk
                   (journal_guard fl (WriteFile f) dk
                     (journal_guard fl (SyncFile f) completed (Inr (records @ [r], CompletedMissingNewline), completed))))
        | Inl _ \<Rightarrow>
            let cut = put_file f (take cursor (file_bytes dk f)) dk in
            journal_guard fl (OpenFile f) dk
              (journal_guard fl (CutFile f) dk
                (journal_guard fl (SyncFile f) cut (Inr (records, DiscardedPartialTail (length tail)), cut))))"

text \<open>\<open>FlushFile\<close> is the sync of a newly created empty file.\<close>

definition journal_open ::
  "disk_faults \<Rightarrow> (str \<Rightarrow> str) \<Rightarrow> execution_codecs \<Rightarrow> str \<Rightarrow> str \<Rightarrow> disk
     \<Rightarrow> (journal_error + execution_journal \<times> tail_repair) \<times> disk" where
  "journal_open fl sha xc f stream_id dk =
     (case validate_stream_id stream_id of
        Inl e \<Rightarrow> (Inl e, dk)
      | Inr _ \<Rightarrow>
          journal_guard fl MakeRoot dk
            (let read = (\<lambda>dk.
                   journal_guard fl (ReadFile f) dk
                     (case open_lines sha xc stream_id [] 0 (file_bytes dk f) of
                        Inl e \<Rightarrow> (Inl e, dk)
                      | Inr (records, cursor, tail) \<Rightarrow>
                          (case repair_tail fl sha xc f stream_id records cursor tail dk of
                             (Inl e, dk) \<Rightarrow> (Inl e, dk)
                           | (Inr (records, repair), dk) \<Rightarrow>
                               (Inr (\<lparr>xj_file = f, xj_stream_id = stream_id, xj_records = records, xj_poisoned = False\<rparr>,
                                     repair), dk))))
             in if fmcontains (dk_files dk) f then read dk
                else journal_guard fl (CreateFile f) dk
                       (journal_guard fl (FlushFile f) (put_file f [] dk) (read (put_file f [] dk)))))"

definition journal_append ::
  "disk_faults \<Rightarrow> (str \<Rightarrow> str) \<Rightarrow> execution_codecs \<Rightarrow> execution_event \<Rightarrow> execution_journal \<Rightarrow> disk
     \<Rightarrow> (journal_error + execution_record) \<times> execution_journal \<times> disk" where
  "journal_append fl sha xc event j dk =
     (if xj_poisoned j then
        (Inl (JournalPoisoned ''append refused after a previous durable write error; reopen the journal to repair the tail''), j, dk)
      else
        let sequence = of_nat (length (xj_records j));
            previous_hash = head_of (xj_records j);
            f = xj_file j in
        case record_hash sha (xc_event xc) (xj_stream_id j) sequence previous_hash event of
          Inl e \<Rightarrow> (Inl e, j, dk)
        | Inr h \<Rightarrow>
            let r = \<lparr>xr_schema_version = SCHEMA_VERSION, xr_stream_id = xj_stream_id j, xr_sequence = sequence,
                  xr_previous_hash = previous_hash, xr_event = event, xr_hash = h\<rparr> in
            (case to_vec (xc_record xc) r of
               Inl e \<Rightarrow> (Inl (JournalJson e), j, dk)
             | Inr text \<Rightarrow>
                 let encoded = text @ [newline];
                     poisoned = j\<lparr>xj_poisoned := True\<rparr>;
                     old = file_bytes dk f in
                 (case fl (CreateFile f) of
                    Some (_, e) \<Rightarrow> (Inl (JournalIo e), poisoned, dk)
                  | None \<Rightarrow>
                      (case fl (WriteFile f) of
                         Some (n, e) \<Rightarrow> (Inl (JournalIo e), poisoned, put_file f (old @ take n encoded) dk)
                       | None \<Rightarrow>
                           let written = put_file f (old @ encoded) dk in
                           (case fl (SyncFile f) of
                              Some (_, e) \<Rightarrow> (Inl (JournalIo e), poisoned, written)
                            | None \<Rightarrow> (Inr r, j\<lparr>xj_records := xj_records j @ [r]\<rparr>, written))))))"

subsection \<open>Recovery of tool calls\<close>

datatype tool_disposition = NotStarted | OutcomeUnknown | Completed bool str

record tool_recovery =
  tv_call_id :: str
  tv_tool :: str
  tv_disposition :: tool_disposition

definition recover_step ::
  "(str \<Rightarrow> str) \<Rightarrow> execution_record \<Rightarrow> (str, tool_recovery) fmap \<Rightarrow> journal_error + (str, tool_recovery) fmap" where
  "recover_step dbg r calls =
     (case xr_event r of
        ToolRequested _ _ call_id tool _ \<Rightarrow>
          if fmcontains calls call_id then
            Inl (JournalLifecycle (''duplicate tool request for call '' @ dbg call_id))
          else Inr (fmupd call_id \<lparr>tv_call_id = call_id, tv_tool = tool, tv_disposition = NotStarted\<rparr> calls)
      | ToolStarted call_id \<Rightarrow>
          (case fmlookup calls call_id of
             None \<Rightarrow> Inl (JournalLifecycle (''tool '' @ dbg call_id @ '' started before a durable request''))
           | Some c \<Rightarrow>
               if tv_disposition c \<noteq> NotStarted then
                 Inl (JournalLifecycle (''tool '' @ dbg call_id @ '' crossed the start boundary more than once''))
               else Inr (fmupd call_id (c\<lparr>tv_disposition := OutcomeUnknown\<rparr>) calls))
      | ToolFinished call_id success output \<Rightarrow>
          (case fmlookup calls call_id of
             None \<Rightarrow> Inl (JournalLifecycle (''tool '' @ dbg call_id @ '' finished before a durable request''))
           | Some c \<Rightarrow>
               if tv_disposition c \<noteq> OutcomeUnknown then
                 Inl (JournalLifecycle (''tool '' @ dbg call_id @ '' finished without exactly one durable start''))
               else Inr (fmupd call_id (c\<lparr>tv_disposition := Completed success output\<rparr>) calls))
      | _ \<Rightarrow> Inr calls)"

definition recover_tools ::
  "(str \<Rightarrow> str) \<Rightarrow> execution_record list \<Rightarrow> journal_error + tool_recovery list" where
  "recover_tools dbg records =
     res_bind (res_fold (recover_step dbg) records fmempty) (\<lambda>calls. Inr (map snd (sorted_list_of_fmap calls)))"

definition journal_recover_tools ::
  "(str \<Rightarrow> str) \<Rightarrow> execution_journal \<Rightarrow> journal_error + tool_recovery list" where
  "journal_recover_tools dbg j =
     (if xj_poisoned j then
        Inl (JournalPoisoned ''recovery refused after a previous durable write error; reopen the journal to repair the tail'')
      else recover_tools dbg (xj_records j))"

end
