(* ===== verification/Execution_Properties.thy ===== *)
theory Execution_Properties
  imports Execution
begin

section \<open>What the execution journal guarantees\<close>

text \<open>
  The chain as an inductive predicate, what reopening finds after an append that failed anywhere, the
  commitment of the head hash to the whole history, and the recovery of tool calls against the
  life cycle of a single call.
\<close>

subsection \<open>Chains\<close>

inductive chained :: "(str \<Rightarrow> str) \<Rightarrow> execution_event json_codec \<Rightarrow> str \<Rightarrow> execution_record list \<Rightarrow> bool"
  for sha json stream where
  genesis: "chained sha json stream []"
| link: "chained sha json stream rs \<Longrightarrow> validate_next sha json rs r stream = Inr () \<Longrightarrow> chained sha json stream (rs @ [r])"

inductive_simps chained_snoc: "chained sha json stream (rs @ [r])"

declare chained.genesis [simp]

lemma chained_snoc_iff [simp]:
  "chained sha json stream (rs @ [r]) \<longleftrightarrow> chained sha json stream rs \<and> validate_next sha json rs r stream = Inr ()"
  by (simp add: chained_snoc)

lemma chained_appendD: "chained sha json stream (xs @ ys) \<Longrightarrow> chained sha json stream xs"
proof (induction ys rule: rev_induct)
  case (snoc y ys)
  then show ?case by (metis append_assoc chained_snoc_iff)
qed simp

lemma validate_next_iff:
  "validate_next sha json prior r stream = Inr () \<longleftrightarrow>
     xr_schema_version r = SCHEMA_VERSION \<and> xr_stream_id r = stream \<and> xr_sequence r = of_nat (length prior)
     \<and> xr_previous_hash r = head_of prior
     \<and> (\<exists>b. to_vec json (xr_event r) = Inr b \<and> xr_hash r = hex (sha (chain_payload stream (of_nat (length prior)) (head_of prior) b)))"
  by (auto simp: validate_next_def record_hash_def split: sum.splits)

lemma open_lines_sound:
  assumes "open_lines sha xc stream rs cursor bytes = Inr (rs', cursor', tail)" and "chained sha (xc_event xc) stream rs"
  shows "chained sha (xc_event xc) stream rs'"
  using assms
proof (induction sha xc stream rs cursor bytes rule: open_lines.induct)
  case (1 sha xc stream rs cursor bytes)
  note run = "1.prems"(1) [unfolded open_lines.simps [of sha xc stream rs cursor bytes]]
  show ?case
  proof (cases "newline \<in> set bytes")
    case False
    then show ?thesis using run "1.prems"(2) by simp
  next
    case True
    let ?line = "takeWhile (\<lambda>b. b \<noteq> newline) bytes"
    obtain r where "?line \<noteq> []" "from_slice (xc_record xc) ?line = Inr r" "validate_next sha (xc_event xc) rs r stream = Inr ()"
        "open_lines sha xc stream (rs @ [r]) (cursor + length ?line + 1) (drop (length ?line + 1) bytes) = Inr (rs', cursor', tail)"
      using run True by (auto simp: Let_def split: if_splits sum.splits)
    then show ?thesis using "1.IH" [OF _ refl, of r "()"] True "1.prems"(2) by simp
  qed
qed

lemma open_lines_journal:
  assumes "\<forall>r\<in>set rs. codec_keeps_line (xc_record xc) r" and "chained sha (xc_event xc) stream (prior @ rs)"
    and "newline \<notin> set tail"
  shows "open_lines sha xc stream prior cursor (journal_bytes (xc_record xc) rs @ tail) =
    Inr (prior @ rs, cursor + length (journal_bytes (xc_record xc) rs), tail)"
  using assms(1,2)
proof (induction rs arbitrary: prior cursor)
  case Nil
  then show ?case using assms(3) by (simp add: open_lines.simps)
next
  case (Cons r rs)
  let ?text = "json_text (xc_record xc) r"
  let ?rest = "journal_bytes (xc_record xc) rs @ tail"
  have body: "json_line (xc_record xc) r = ?text @ [newline]" "newline \<notin> set ?text" "?text \<noteq> []" "from_slice (xc_record xc) ?text = Inr r"
    using Cons.prems(1) by (simp_all add: codec_keeps_lineD)
  have line: "takeWhile (\<lambda>b. b \<noteq> newline) (?text @ newline # ?rest) = ?text"
    using body(2) by (subst takeWhile_append2) auto
  have chain: "chained sha (xc_event xc) stream ((prior @ [r]) @ rs)" using Cons.prems(2) by simp
  then have "validate_next sha (xc_event xc) prior r stream = Inr ()" using chained_appendD chained_snoc_iff by blast
  then have "open_lines sha xc stream prior cursor (?text @ newline # ?rest) =
      open_lines sha xc stream (prior @ [r]) (cursor + length ?text + 1) ?rest"
    using body(3,4) line by (subst open_lines.simps) simp
  then show ?case using Cons.IH [OF _ chain] Cons.prems(1) by (simp add: body(1))
qed

text \<open>The file holds a chain and a tail; opening it validates the chain and repairs the tail.\<close>

definition journal_holds ::
  "(str \<Rightarrow> str) \<Rightarrow> execution_codecs \<Rightarrow> str \<Rightarrow> str \<Rightarrow> disk \<Rightarrow> execution_record list \<Rightarrow> str \<Rightarrow> bool" where
  "journal_holds sha xc f stream dk rs tail \<longleftrightarrow>
     file_bytes dk f = journal_bytes (xc_record xc) rs @ tail \<and> newline \<notin> set tail
     \<and> chained sha (xc_event xc) stream rs \<and> (\<forall>r\<in>set rs. codec_keeps_line (xc_record xc) r)"

definition journal_at :: "str \<Rightarrow> str \<Rightarrow> execution_record list \<Rightarrow> execution_journal" where
  "journal_at f stream rs = \<lparr>xj_file = f, xj_stream_id = stream, xj_records = rs, xj_poisoned = False\<rparr>"

lemma file_bytes_put_file [simp]: "file_bytes (put_file f b dk) g = (if g = f then b else file_bytes dk g)"
  by (simp add: file_bytes_def put_file_def)

lemma journal_open_eq:
  assumes "journal_holds sha xc f stream dk rs tail" and "validate_stream_id stream = Inr ()"
  shows "\<exists>dk1. dk1 = (if fmcontains (dk_files dk) f then dk else put_file f [] dk)
    \<and> journal_holds sha xc f stream dk1 rs tail
    \<and> journal_open disk_works sha xc f stream dk =
      (case repair_tail disk_works sha xc f stream rs (length (journal_bytes (xc_record xc) rs)) tail dk1 of
         (Inl e, dk) \<Rightarrow> (Inl e, dk) | (Inr (rs, repair), dk) \<Rightarrow> (Inr (journal_at f stream rs, repair), dk))"
proof -
  let ?dk = "if fmcontains (dk_files dk) f then dk else put_file f [] dk"
  have bytes: "file_bytes ?dk f = file_bytes dk f" by (simp add: file_bytes_def fmlookup_dom_iff)
  then have holds: "journal_holds sha xc f stream ?dk rs tail" using assms(1) by (simp add: journal_holds_def)
  then have "open_lines sha xc stream [] 0 (file_bytes ?dk f) = Inr (rs, length (journal_bytes (xc_record xc) rs), tail)"
    using open_lines_journal [of rs xc sha stream "[]" tail 0] by (simp add: journal_holds_def)
  then show ?thesis
    using holds assms(2) unfolding journal_at_def
    by (cases "fmcontains (dk_files dk) f") (simp_all add: journal_open_def journal_guard_def)
qed

subsection \<open>Appending and reopening\<close>

text \<open>
  What the repair of the tail relies on of \<open>serde_json\<close>: an encoded record is one line that reads
  back, and no proper prefix of it is a record.
\<close>

definition codec_exact :: "'a json_codec \<Rightarrow> 'a \<Rightarrow> bool" where
  "codec_exact json x \<longleftrightarrow>
     codec_keeps_line json x \<and> (\<forall>n < length (json_text json x). \<exists>e. from_slice json (take n (json_text json x)) = Inl e)"

text \<open>The record an append would write.\<close>

definition next_record ::
  "(str \<Rightarrow> str) \<Rightarrow> execution_codecs \<Rightarrow> execution_event \<Rightarrow> str \<Rightarrow> execution_record list \<Rightarrow> execution_record" where
  "next_record sha xc event stream rs =
     \<lparr>xr_schema_version = SCHEMA_VERSION, xr_stream_id = stream, xr_sequence = of_nat (length rs),
      xr_previous_hash = head_of rs, xr_event = event,
      xr_hash = hex (sha (chain_payload stream (of_nat (length rs)) (head_of rs) (projr (to_vec (xc_event xc) event))))\<rparr>"

lemma next_record_chained:
  assumes "chained sha (xc_event xc) stream rs" and "to_vec (xc_event xc) event = Inr b"
  shows "chained sha (xc_event xc) stream (rs @ [next_record sha xc event stream rs])"
  using assms by (simp add: validate_next_iff next_record_def)

lemma reopen_clean:
  assumes "journal_holds sha xc f stream dk rs []" and "validate_stream_id stream = Inr ()"
  shows "\<exists>dk'. journal_open disk_works sha xc f stream dk = (Inr (journal_at f stream rs, RepairNone), dk')
    \<and> journal_holds sha xc f stream dk' rs []"
  using journal_open_eq [OF assms] by (auto simp: repair_tail_def)

lemma reopen_partial:
  assumes "journal_holds sha xc f stream dk rs tail" and "validate_stream_id stream = Inr ()"
    and "tail \<noteq> []" and "from_slice (xc_record xc) tail = Inl e"
  shows "\<exists>dk'. journal_open disk_works sha xc f stream dk = (Inr (journal_at f stream rs, DiscardedPartialTail (length tail)), dk')
    \<and> journal_holds sha xc f stream dk' rs []"
  using journal_open_eq [OF assms(1,2)] assms(3,4)
  by (auto simp: repair_tail_def journal_guard_def journal_holds_def)

lemma reopen_unterminated:
  assumes "journal_holds sha xc f stream dk rs (json_text (xc_record xc) r)" and "validate_stream_id stream = Inr ()"
    and "codec_keeps_line (xc_record xc) r" and "validate_next sha (xc_event xc) rs r stream = Inr ()"
  shows "\<exists>dk'. journal_open disk_works sha xc f stream dk = (Inr (journal_at f stream (rs @ [r]), CompletedMissingNewline), dk')
    \<and> journal_holds sha xc f stream dk' (rs @ [r]) []"
  using journal_open_eq [OF assms(1,2)] assms(3,4)
  by (auto simp: repair_tail_def journal_guard_def journal_holds_def codec_keeps_lineD)

text \<open>Any number of bytes of the next line, then a reopen.\<close>

lemma reopen_after_write:
  assumes "journal_holds sha xc f stream dk rs []" and "validate_stream_id stream = Inr ()"
    and "codec_exact (xc_record xc) r" and "validate_next sha (xc_event xc) rs r stream = Inr ()"
  shows "\<exists>rs' repair dk'. journal_open disk_works sha xc f stream
      (put_file f (file_bytes dk f @ take n (json_text (xc_record xc) r @ [newline])) dk) = (Inr (journal_at f stream rs', repair), dk')
    \<and> journal_holds sha xc f stream dk' rs' [] \<and> (rs' = rs \<or> rs' = rs @ [r])
    \<and> (length (json_text (xc_record xc) r) < n \<longrightarrow> rs' = rs @ [r])"
proof -
  let ?text = "json_text (xc_record xc) r"
  let ?dk = "put_file f (file_bytes dk f @ take n (?text @ [newline])) dk"
  have keep: "codec_keeps_line (xc_record xc) r" using assms(3) by (simp add: codec_exact_def)
  have bytes: "file_bytes dk f = journal_bytes (xc_record xc) rs" using assms(1) by (simp add: journal_holds_def)
  consider "n = 0" | "0 < n" "n < length ?text" | "n = length ?text" | "length ?text < n" by linarith
  then show ?thesis
  proof cases
    case 1
    then have "journal_holds sha xc f stream ?dk rs []" using assms(1) by (simp add: journal_holds_def)
    from reopen_clean [OF this assms(2)] show ?thesis using 1 by auto
  next
    case 2
    have "newline \<notin> set (take n ?text)" using codec_keeps_lineD(3) [OF keep] by (auto dest: in_set_takeD)
    then have holds: "journal_holds sha xc f stream ?dk rs (take n ?text)" using assms(1) 2 by (simp add: journal_holds_def)
    obtain e where e: "from_slice (xc_record xc) (take n ?text) = Inl e" using assms(3) 2 by (auto simp: codec_exact_def)
    have "take n ?text \<noteq> []" using 2 by auto
    from reopen_partial [OF holds assms(2) this e] show ?thesis using 2 by auto
  next
    case 3
    then have "journal_holds sha xc f stream ?dk rs ?text" using assms(1) codec_keeps_lineD(3) [OF keep] by (simp add: journal_holds_def)
    from reopen_unterminated [OF this assms(2) keep assms(4)] show ?thesis using 3 by auto
  next
    case 4
    then have "take n (?text @ [newline]) = ?text @ [newline]" by simp
    then have "journal_holds sha xc f stream ?dk (rs @ [r]) []"
      using assms(1,4) keep by (simp add: journal_holds_def codec_keeps_lineD)
    from reopen_clean [OF this assms(2)] show ?thesis using 4 by auto
  qed
qed

lemma append_shape:
  assumes "journal_append fl sha xc event (journal_at f stream rs) dk = (r, j', dk')"
    and "codec_exact (xc_record xc) (next_record sha xc event stream rs)"
  obtains (refused) "j' = journal_at f stream rs \<or> xj_poisoned j'" "dk' = dk" "\<forall>x. r \<noteq> Inr x"
  | (failed) b n where "to_vec (xc_event xc) event = Inr b" "xj_poisoned j'" "\<forall>x. r \<noteq> Inr x"
      "dk' = put_file f (file_bytes dk f @ take n (json_text (xc_record xc) (next_record sha xc event stream rs) @ [newline])) dk"
  | (appended) b n where "to_vec (xc_event xc) event = Inr b" "r = Inr (next_record sha xc event stream rs)"
      "j' = journal_at f stream (rs @ [next_record sha xc event stream rs])"
      "dk' = put_file f (file_bytes dk f @ take n (json_text (xc_record xc) (next_record sha xc event stream rs) @ [newline])) dk"
      "length (json_text (xc_record xc) (next_record sha xc event stream rs)) < n"
proof -
  show thesis
  proof (cases "to_vec (xc_event xc) event")
    case (Inl e)
    then show thesis using assms(1) refused by (auto simp: journal_append_def journal_at_def record_hash_def Let_def)
  next
    case (Inr b)
    let ?r = "next_record sha xc event stream rs"
    let ?text = "json_text (xc_record xc) ?r"
    let ?poisoned = "(journal_at f stream rs)\<lparr>xj_poisoned := True\<rparr>"
    have made: "\<lparr>xr_schema_version = SCHEMA_VERSION, xr_stream_id = stream, xr_sequence = of_nat (length rs),
        xr_previous_hash = head_of rs, xr_event = event, xr_hash = hex (sha (chain_payload stream (of_nat (length rs)) (head_of rs) b))\<rparr> = ?r"
      using Inr by (simp add: next_record_def)
    have enc: "to_vec (xc_record xc) ?r = Inr ?text" using assms(2) by (simp add: codec_exact_def codec_keeps_lineD)
    have run: "(r, j', dk') = (case fl (CreateFile f) of
        Some (_, e) \<Rightarrow> (Inl (JournalIo e), ?poisoned, dk)
      | None \<Rightarrow> (case fl (WriteFile f) of
          Some (n, e) \<Rightarrow> (Inl (JournalIo e), ?poisoned, put_file f (file_bytes dk f @ take n (?text @ [newline])) dk)
        | None \<Rightarrow> (case fl (SyncFile f) of
            Some (_, e) \<Rightarrow> (Inl (JournalIo e), ?poisoned, put_file f (file_bytes dk f @ ?text @ [newline]) dk)
          | None \<Rightarrow> (Inr ?r, journal_at f stream (rs @ [?r]), put_file f (file_bytes dk f @ ?text @ [newline]) dk))))"
      unfolding assms(1) [symmetric] journal_append_def
      by (auto simp: journal_at_def record_hash_def Inr made enc Let_def split: option.split)
    have full: "take (Suc (length ?text)) (?text @ [newline]) = ?text @ [newline]" by simp
    from run show thesis
      using refused failed [OF Inr] appended [OF Inr, of "Suc (length ?text)"] failed [OF Inr, of "Suc (length ?text)"] full
      by (simp split: option.splits prod.splits)
  qed
qed

text \<open>
  C9: An append is durable or harmless, and reopening repairs what a crash left. Whatever call fails and
  however much of the line was written, a later process opens the journal and finds the old chain or
  the old chain with the new record, the file again ending at a newline; it finds the new record if
  the append returned it. A handle whose append failed on the disk refuses every further append.
\<close>

theorem execution_append_crash_safe:
  assumes "journal_holds sha xc f stream dk rs []" and "validate_stream_id stream = Inr ()"
    and "codec_exact (xc_record xc) (next_record sha xc event stream rs)"
    and "journal_append fl sha xc event (journal_at f stream rs) dk = (r, j', dk')"
  shows "\<exists>rs' repair dk2. journal_open disk_works sha xc f stream dk' = (Inr (journal_at f stream rs', repair), dk2)
    \<and> journal_holds sha xc f stream dk2 rs' [] \<and> (rs' = rs \<or> rs' = rs @ [next_record sha xc event stream rs])
    \<and> (\<forall>x. r = Inr x \<longrightarrow> x = next_record sha xc event stream rs \<and> rs' = rs @ [x] \<and> xj_records j' = rs')
    \<and> ((\<forall>x. r \<noteq> Inr x) \<longrightarrow> j' = journal_at f stream rs \<and> dk' = dk \<or> xj_poisoned j')"
proof -
  let ?r = "next_record sha xc event stream rs"
  have valid: "validate_next sha (xc_event xc) rs ?r stream = Inr ()" if "to_vec (xc_event xc) event = Inr b" for b
    using next_record_chained [OF _ that] assms(1) by (simp add: journal_holds_def)
  from assms(4,3) show ?thesis
  proof (cases rule: append_shape)
    case refused
    then show ?thesis using reopen_clean [OF assms(1,2)] by auto
  next
    case (failed b n)
    from reopen_after_write [OF assms(1-3) valid [OF failed(1)], of n] failed(2-4) show ?thesis by auto
  next
    case (appended b n)
    from reopen_after_write [OF assms(1-3) valid [OF appended(1)], of n] appended(2-5) show ?thesis
      by (auto simp: journal_at_def)
  qed
qed

subsection \<open>The head commits to the history\<close>

definition chain_payloads :: "execution_event json_codec \<Rightarrow> execution_record list \<Rightarrow> str set" where
  "chain_payloads json rs =
     {chain_payload (xr_stream_id r) (xr_sequence r) (xr_previous_hash r) b | r b. r \<in> set rs \<and> to_vec json (xr_event r) = Inr b}"

lemma chain_payload_inj:
  assumes "chain_payload s n p b = chain_payload s n p' b'" and "length p = length p'"
  shows "p = p' \<and> b = b'"
  using assms by (auto simp: chain_payload_def append_len_prefixed_def le64_def)

lemma head_length: "chained sha json s rs \<Longrightarrow> (\<And>x. length (sha x) = 32) \<Longrightarrow> length (head_of rs) = 64"
  by (induction rule: chained.induct) (auto simp: head_of_def GENESIS_HASH_def validate_next_iff)

lemma chain_payloads_append: "chain_payloads json (xs @ ys) = chain_payloads json xs \<union> chain_payloads json ys"
  by (auto simp: chain_payloads_def)

text \<open>
  C10: The head hash commits to the whole history. Two chains of the same stream and length with the
  same head are the same, record for record, as long as SHA-256 does not collide on the payloads of
  these two chains: no record can be changed, dropped, inserted or moved without the head changing.
\<close>

theorem head_commits_to_history:
  assumes "chained sha json s xs" and "chained sha json s ys" and "length xs = length ys" and "head_of xs = head_of ys"
    and "\<forall>x. length (sha x) = 32" and "inj_on sha (chain_payloads json xs \<union> chain_payloads json ys)"
    and "\<forall>r\<in>set xs \<union> set ys. codec_keeps_line json (xr_event r)"
  shows "xs = ys"
  using assms
proof (induction xs arbitrary: ys rule: rev_induct)
  case Nil
  then show ?case by simp
next
  case (snoc x xs)
  then obtain y ys' where ys: "ys = ys' @ [y]" "length ys' = length xs"
    by (cases ys rule: rev_cases) auto
  have chains: "chained sha json s xs" "chained sha json s ys'" using snoc.prems(1,2) ys(1) by simp_all
  obtain b c where b: "to_vec json (xr_event x) = Inr b" "xr_hash x = hex (sha (chain_payload s (of_nat (length xs)) (head_of xs) b))"
      "xr_stream_id x = s" "xr_sequence x = of_nat (length xs)" "xr_previous_hash x = head_of xs" "xr_schema_version x = SCHEMA_VERSION"
    and c: "to_vec json (xr_event y) = Inr c" "xr_hash y = hex (sha (chain_payload s (of_nat (length xs)) (head_of ys') c))"
      "xr_stream_id y = s" "xr_sequence y = of_nat (length xs)" "xr_previous_hash y = head_of ys'" "xr_schema_version y = SCHEMA_VERSION"
    using snoc.prems(1,2) ys by (auto simp: validate_next_iff)
  have "sha (chain_payload s (of_nat (length xs)) (head_of xs) b) = sha (chain_payload s (of_nat (length xs)) (head_of ys') c)"
    using snoc.prems(4) b(2) c(2) by (simp add: head_of_def ys(1) hex_inj)
  moreover have "chain_payload s (of_nat (length xs)) (head_of xs) b \<in> chain_payloads json (xs @ [x]) \<union> chain_payloads json ys"
      "chain_payload s (of_nat (length xs)) (head_of ys') c \<in> chain_payloads json (xs @ [x]) \<union> chain_payloads json ys"
    using b c by (force simp: chain_payloads_def ys(1))+
  ultimately have "chain_payload s (of_nat (length xs)) (head_of xs) b = chain_payload s (of_nat (length xs)) (head_of ys') c"
    using snoc.prems(6) by (auto dest: inj_onD)
  then have same: "head_of xs = head_of ys'" "b = c"
    using chain_payload_inj head_length [OF chains(1)] head_length [OF chains(2)] snoc.prems(5) by metis+
  have "xr_event x = xr_event y"
    using same(2) b(1) c(1) snoc.prems(7) by (auto simp: ys(1) codec_keeps_line_def)
  then have "x = y" using b c same by (intro execution_record.equality) simp_all
  moreover have "xs = ys'"
  proof (rule snoc.IH [OF chains])
    show "inj_on sha (chain_payloads json xs \<union> chain_payloads json ys')"
      using snoc.prems(6) by (rule inj_on_subset) (auto simp: chain_payloads_append ys(1))
  qed (use same(1) ys snoc.prems(5,7) in auto)
  ultimately show ?case by (simp add: ys(1))
qed

subsection \<open>Tool calls\<close>

text \<open>The life of one call, read off the events that name it: requested, started, finished, in this order.\<close>

fun call_of :: "execution_event \<Rightarrow> str option" where
  "call_of (ToolRequested _ _ call_id _ _) = Some call_id"
| "call_of (ToolStarted call_id) = Some call_id"
| "call_of (ToolFinished call_id _ _) = Some call_id"
| "call_of _ = None"

definition call_events :: "str \<Rightarrow> execution_record list \<Rightarrow> execution_event list" where
  "call_events call_id rs = filter (\<lambda>e. call_of e = Some call_id) (map xr_event rs)"

fun lifecycle :: "execution_event list \<Rightarrow> tool_recovery option option" where
  "lifecycle [] = Some None"
| "lifecycle [ToolRequested _ _ c tool _] = Some (Some \<lparr>tv_call_id = c, tv_tool = tool, tv_disposition = NotStarted\<rparr>)"
| "lifecycle [ToolRequested _ _ c tool _, ToolStarted _] = Some (Some \<lparr>tv_call_id = c, tv_tool = tool, tv_disposition = OutcomeUnknown\<rparr>)"
| "lifecycle [ToolRequested _ _ c tool _, ToolStarted _, ToolFinished _ ok out] =
     Some (Some \<lparr>tv_call_id = c, tv_tool = tool, tv_disposition = Completed ok out\<rparr>)"
| "lifecycle _ = None"

lemma call_events_snoc:
  "call_events c (rs @ [r]) = call_events c rs @ (if call_of (xr_event r) = Some c then [xr_event r] else [])"
  by (simp add: call_events_def)

definition advance :: "tool_recovery option \<Rightarrow> execution_event \<Rightarrow> tool_recovery option option" where
  "advance v e =
     (case (v, e) of
        (None, ToolRequested _ _ c tool _) \<Rightarrow> Some (Some \<lparr>tv_call_id = c, tv_tool = tool, tv_disposition = NotStarted\<rparr>)
      | (Some v, ToolStarted _) \<Rightarrow>
          if tv_disposition v = NotStarted then Some (Some (v\<lparr>tv_disposition := OutcomeUnknown\<rparr>)) else None
      | (Some v, ToolFinished _ ok out) \<Rightarrow>
          if tv_disposition v = OutcomeUnknown then Some (Some (v\<lparr>tv_disposition := Completed ok out\<rparr>)) else None
      | _ \<Rightarrow> None)"

lemma lifecycle_snoc:
  "lifecycle (es @ [e]) = Option.bind (lifecycle es) (\<lambda>v. advance v e)"
proof -
  consider "es = []" | a where "es = [a]" | a b where "es = [a, b]" | a b c where "es = [a, b, c]"
    | a b c d rest where "es = a # b # c # d # rest"
    by (metis list.exhaust)
  then show ?thesis
  proof cases
    case 1
    then show ?thesis by (cases e) (simp_all add: advance_def)
  next
    case (2 a)
    then show ?thesis by (cases a; cases e) (simp_all add: advance_def)
  next
    case (3 a b)
    then show ?thesis by (cases a; simp; cases b; simp; cases e) (simp_all add: advance_def)
  next
    case (4 a b c)
    then show ?thesis by (cases a; simp; cases b; simp; cases c; simp; cases e) (simp_all add: advance_def)
  next
    case (5 a b c d rest)
    then show ?thesis by (cases a; simp; cases b; simp; cases c; simp)
  qed
qed

lemma recover_step_advance:
  "call_of (xr_event r) = None \<Longrightarrow> recover_step dbg r m = Inr m"
  "call_of (xr_event r) = Some c \<Longrightarrow> advance (fmlookup m c) (xr_event r) = None \<Longrightarrow> \<exists>e. recover_step dbg r m = Inl e"
  "call_of (xr_event r) = Some c \<Longrightarrow> advance (fmlookup m c) (xr_event r) = Some v \<Longrightarrow> recover_step dbg r m = Inr (fmupd c (the v) m)"
  by (cases "xr_event r"; auto simp: recover_step_def advance_def fmlookup_dom_iff split: option.splits if_splits)+

lemma advance_Some: "advance v e = Some w \<Longrightarrow> w \<noteq> None"
  by (auto simp: advance_def split: option.splits execution_event.splits if_splits)

lemma recover_fold:
  "case res_fold (recover_step dbg) rs fmempty of
     Inl _ \<Rightarrow> \<exists>c. lifecycle (call_events c rs) = None
   | Inr m \<Rightarrow> \<forall>c. lifecycle (call_events c rs) = Some (fmlookup m c)"
proof (induction rs rule: rev_induct)
  case Nil
  then show ?case by (simp add: call_events_def)
next
  case (snoc r rs)
  show ?case
  proof (cases "res_fold (recover_step dbg) rs fmempty")
    case (Inl e)
    then obtain c where "lifecycle (call_events c rs) = None" using snoc by auto
    then have "lifecycle (call_events c (rs @ [r])) = None" by (simp add: call_events_snoc lifecycle_snoc)
    then show ?thesis using Inl by (auto simp: res_fold_append)
  next
    case (Inr m)
    then have IH: "lifecycle (call_events c rs) = Some (fmlookup m c)" for c using snoc by simp
    show ?thesis
    proof (cases "call_of (xr_event r)")
      case None
      then show ?thesis using Inr IH recover_step_advance(1) [OF None] by (simp add: res_fold_append call_events_snoc)
    next
      case (Some c)
      show ?thesis
      proof (cases "advance (fmlookup m c) (xr_event r)")
        case None
        then have "lifecycle (call_events c (rs @ [r])) = None" using Some IH by (simp add: call_events_snoc lifecycle_snoc)
        then show ?thesis using recover_step_advance(2) [OF Some None, of dbg] Inr by (auto simp: res_fold_append)
      next
        case adv: (Some v)
        then show ?thesis
          using recover_step_advance(3) [OF Some adv, of dbg] Inr Some IH advance_Some [OF adv]
          by (auto simp: res_fold_append call_events_snoc lifecycle_snoc)
      qed
    qed
  qed
qed

lemma lifecycle_call:
  "lifecycle (call_events c rs) = Some (Some t) \<Longrightarrow> tv_call_id t = c"
proof -
  have that: "list_all (\<lambda>e. call_of e = Some c) es \<Longrightarrow> lifecycle es = Some (Some t) \<Longrightarrow> tv_call_id t = c" for es
    by (cases es rule: lifecycle.cases) auto
  show "lifecycle (call_events c rs) = Some (Some t) \<Longrightarrow> tv_call_id t = c"
    using that [of "call_events c rs"] by (simp add: call_events_def list_all_iff)
qed

text \<open>
  C24: Recovery reads every tool call exactly. It succeeds if and only if the events of each call, taken by
  themselves, are a request, then at most one start, then at most one end, in this order; then it
  lists every requested call once, in the order of call identifiers, as not started, of unknown
  outcome or completed with its recorded result. No started call is ever reported as not started.
\<close>

theorem recover_tools_exact:
  "(is_ok (recover_tools dbg rs) \<longleftrightarrow> (\<forall>c. lifecycle (call_events c rs) \<noteq> None))
   \<and> (\<forall>ts. recover_tools dbg rs = Inr ts \<longrightarrow> sorted (map tv_call_id ts) \<and> distinct (map tv_call_id ts)
        \<and> (\<forall>t. t \<in> set ts \<longleftrightarrow> lifecycle (call_events (tv_call_id t) rs) = Some (Some t)))"
proof (cases "res_fold (recover_step dbg) rs fmempty")
  case (Inl e)
  then show ?thesis using recover_fold [of rs dbg] by (auto simp: recover_tools_def)
next
  case (Inr m)
  then have all: "lifecycle (call_events c rs) = Some (fmlookup m c)" for c using recover_fold [of rs dbg] by simp
  have own: "fmlookup m c = Some t \<Longrightarrow> tv_call_id t = c" for c t using lifecycle_call [of c rs t] all by simp
  let ?ts = "map snd (sorted_list_of_fmap m)"
  have mem: "t \<in> set ?ts \<longleftrightarrow> fmlookup m (tv_call_id t) = Some t" for t
    using own by (force simp: image_iff)
  have "map tv_call_id ?ts = map fst (sorted_list_of_fmap m)"
    unfolding map_map by (intro map_cong refl) (auto dest: own)
  then show ?thesis using Inr all mem by (simp add: recover_tools_def)
qed

subsection \<open>A sample journal\<close>

definition sample_event_codec :: "execution_event json_codec" where
  "sample_event_codec = \<lparr>from_slice = (\<lambda>s. Inr (ToolStarted s)), to_vec = (\<lambda>e. case e of ToolStarted c \<Rightarrow> Inr c | _ \<Rightarrow> Inl ''unsupported'')\<rparr>"

definition sample_execution_record :: execution_record where
  "sample_execution_record = \<lparr>xr_schema_version = 1, xr_stream_id = ''acme'', xr_sequence = 0, xr_previous_hash = GENESIS_HASH,
     xr_event = ToolStarted ''c1'', xr_hash = hex (replicate 32 (CHR ''h''))\<rparr>"

definition sample_execution_codecs :: execution_codecs where
  "sample_execution_codecs = \<lparr>xc_record = \<lparr>from_slice = (\<lambda>s. if s = ''{}'' then Inr sample_execution_record else Inl ''no record''),
     to_vec = (\<lambda>_. Inr ''{}'')\<rparr>, xc_event = sample_event_codec\<rparr>"

definition empty_disk :: disk where
  "empty_disk = \<lparr>dk_files = fmempty, dk_locked = False, dk_attempt = 0, dk_pid = ''1'', dk_name_taken = ''File exists''\<rparr>"

lemma sample_next_record:
  "next_record (\<lambda>_. replicate 32 (CHR ''h'')) sample_execution_codecs (ToolStarted ''c1'') ''acme'' [] = sample_execution_record"
  by (simp add: next_record_def sample_execution_record_def SCHEMA_VERSION_def head_of_def)

lemma sample_exact: "codec_exact (xc_record sample_execution_codecs) sample_execution_record"
  by (auto simp: codec_exact_def codec_keeps_line_def json_text_def sample_execution_codecs_def less_Suc_eq numeral_2_eq_2)

theorem execution_append_crash_safe_witness:
  "\<exists>rs' repair dk2. journal_open disk_works (\<lambda>_. replicate 32 (CHR ''h'')) sample_execution_codecs ''x.jsonl'' ''acme''
      (snd (snd (journal_append (disk_works(WriteFile ''x.jsonl'' := Some (1, ''ENOSPC''))) (\<lambda>_. replicate 32 (CHR ''h''))
        sample_execution_codecs (ToolStarted ''c1'') (journal_at ''x.jsonl'' ''acme'' []) empty_disk)))
      = (Inr (journal_at ''x.jsonl'' ''acme'' rs', repair), dk2) \<and> (rs' = [] \<or> rs' = [sample_execution_record])"
proof -
  let ?sha = "\<lambda>_. replicate 32 (CHR ''h'')"
  obtain r j' dk' where run: "journal_append (disk_works(WriteFile ''x.jsonl'' := Some (1, ''ENOSPC''))) ?sha
      sample_execution_codecs (ToolStarted ''c1'') (journal_at ''x.jsonl'' ''acme'' []) empty_disk = (r, j', dk')"
    by (metis prod_cases3)
  have "journal_holds ?sha sample_execution_codecs ''x.jsonl'' ''acme'' empty_disk [] []"
    by (simp add: journal_holds_def file_bytes_def empty_disk_def)
  moreover have "validate_stream_id ''acme'' = Inr ()"
    by (simp add: validate_stream_id_def str_simps is_ascii_str_def is_control_def)
  ultimately show ?thesis
    unfolding run snd_conv using execution_append_crash_safe [OF _ _ _ run] sample_exact by (auto simp: sample_next_record)
qed

theorem head_commits_to_history_witness:
  "[sample_execution_record] = [next_record (\<lambda>_. replicate 32 (CHR ''h'')) sample_execution_codecs (ToolStarted ''c1'') ''acme'' []]"
proof (rule head_commits_to_history)
  let ?sha = "\<lambda>_. replicate 32 (CHR ''h'')"
  have vec: "to_vec sample_event_codec (ToolStarted ''c1'') = Inr ''c1''" by (simp add: sample_event_codec_def)
  have "chained ?sha sample_event_codec ''acme'' ([] @ [sample_execution_record])"
    unfolding chained_snoc_iff
    by (simp add: validate_next_iff sample_execution_record_def SCHEMA_VERSION_def head_of_def vec)
  then show "chained ?sha sample_event_codec ''acme'' [sample_execution_record]"
    "chained ?sha sample_event_codec ''acme'' [next_record ?sha sample_execution_codecs (ToolStarted ''c1'') ''acme'' []]"
    by (simp_all add: sample_next_record)
  show "inj_on ?sha (chain_payloads sample_event_codec [sample_execution_record]
      \<union> chain_payloads sample_event_codec [next_record ?sha sample_execution_codecs (ToolStarted ''c1'') ''acme'' []])"
    by (auto simp: sample_next_record chain_payloads_def intro!: inj_onI)
  show "\<forall>r\<in>set [sample_execution_record] \<union> set [next_record ?sha sample_execution_codecs (ToolStarted ''c1'') ''acme'' []].
      codec_keeps_line sample_event_codec (xr_event r)"
    by (simp add: sample_next_record sample_execution_record_def codec_keeps_line_def sample_event_codec_def)
qed (simp_all add: sample_next_record)

definition sample_calls :: "execution_record list" where
  "sample_calls = map (\<lambda>e. sample_execution_record\<lparr>xr_event := e\<rparr>)
     [ToolRequested ''t'' ''s'' ''c1'' ''shell'' ''{}'', StepStarted ''t'' ''s'', ToolStarted ''c1'']"

text \<open>A call whose process died between start and end is reported as of unknown outcome.\<close>

theorem recover_tools_exact_witness:
  "\<exists>ts. recover_tools id sample_calls = Inr ts
    \<and> \<lparr>tv_call_id = ''c1'', tv_tool = ''shell'', tv_disposition = OutcomeUnknown\<rparr> \<in> set ts"
proof -
  have "\<exists>ts. recover_tools id sample_calls = Inr ts"
    by (simp add: recover_tools_def recover_step_def sample_calls_def)
  moreover have "lifecycle (call_events ''c1'' sample_calls)
      = Some (Some \<lparr>tv_call_id = ''c1'', tv_tool = ''shell'', tv_disposition = OutcomeUnknown\<rparr>)"
    by (simp add: call_events_def sample_calls_def)
  ultimately show ?thesis using recover_tools_exact [of id sample_calls] by auto
qed

end
