(* ===== verification/Front_Door.thy ===== *)
theory Front_Door
  imports Reachability
begin

section \<open>The governed front door (crates/ccos-enterprise-mcp, lib.rs and server.rs)\<close>

text \<open>
  The translation table between the tools of Core and the capabilities of Enterprise, and \<open>GovernedMcp\<close>,
  which dispatches to a backend exactly what admission forwarded. The locale \<open>tenant_backend\<close> is
  the contract of the trait \<open>Backend\<close>: a dispatch returns, keeps the backend usable and keeps what every
  other tenant has in it, up to the errors it reports. \<open>serve\<close> answers a sequence of calls. JSON values are a
  type variable.
\<close>

datatype core_disposition =
    Governed str str
  | OutsideBoundary str

record core_tool =
  ct_core :: str
  ct_disposition :: core_disposition

definition OCTA_FEEDBACK :: str where
  "OCTA_FEEDBACK = ''octa_feedback''"

definition governed :: "str \<Rightarrow> str \<Rightarrow> str \<Rightarrow> core_tool" where
  "governed core enterprise perm = \<lparr>ct_core = core, ct_disposition = Governed enterprise perm\<rparr>"

definition CATALOGUE :: "core_tool list" where
  "CATALOGUE = [
     governed ''recall'' ''memory.recall'' ''memory.read'',
     governed ''recall_what_if'' ''memory.recall_what_if'' ''memory.read'',
     governed ''get'' ''memory.get'' ''memory.read'',
     governed ''stats'' ''memory.stats'' ''memory.read'',
     governed ''timeline'' ''memory.timeline'' ''memory.read'',
     governed ''verify'' ''memory.verify'' ''memory.read'',
     governed ''ingest'' ''memory.ingest'' ''memory.write'',
     governed ''page_fault'' ''memory.page_fault'' ''memory.write'',
     governed ''sync'' ''memory.sync'' ''memory.write'',
     governed ''ccos_retrieve'' ''context.retrieve'' ''memory.read'',
     governed ''causal_blame'' ''ccos.causal_blame'' ''memory.read'',
     governed ''causal_flash'' ''ccos.causal_flash'' ''memory.read'',
     governed ''drift_cause'' ''ccos.drift_cause'' ''memory.read'',
     governed ''retrodict_belief'' ''ccos.retrodict_belief'' ''memory.read'',
     governed ''causal_intervene'' ''ccos.causal_intervene'' ''memory.write'',
     governed ''signal_failure'' ''ccos.signal_failure'' ''memory.write'',
     \<lparr>ct_core = OCTA_FEEDBACK, ct_disposition = OutsideBoundary
        (''stateful relevance feedback: it calibrates the gate future '' @
         ''recalls run through, with no tenant scoping, no permission '' @ ''and no audit shape'')\<rparr>]"

definition find_core :: "str \<Rightarrow> core_tool option" where
  "find_core core = find (\<lambda>t. ct_core t = core) CATALOGUE"

definition to_enterprise :: "str \<Rightarrow> str option" where
  "to_enterprise core =
     Option.bind (find_core core) (\<lambda>t. case ct_disposition t of Governed e _ \<Rightarrow> Some e | OutsideBoundary _ \<Rightarrow> None)"

definition to_core :: "str \<Rightarrow> str option" where
  "to_core enterprise =
     map_option ct_core (find (\<lambda>t. case ct_disposition t of Governed e _ \<Rightarrow> e = enterprise | OutsideBoundary _ \<Rightarrow> False) CATALOGUE)"

definition permission_for :: "str \<Rightarrow> str option" where
  "permission_for core =
     Option.bind (find_core core) (\<lambda>t. case ct_disposition t of Governed _ p \<Rightarrow> Some p | OutsideBoundary _ \<Rightarrow> None)"

definition excluded_because :: "str \<Rightarrow> str option" where
  "excluded_because core =
     Option.bind (find_core core) (\<lambda>t. case ct_disposition t of Governed _ _ \<Rightarrow> None | OutsideBoundary why \<Rightarrow> Some why)"

definition governed_pairs :: "(str \<times> str) list" where
  "governed_pairs = List.map_filter (\<lambda>t. case ct_disposition t of Governed e p \<Rightarrow> Some (e, p) | OutsideBoundary _ \<Rightarrow> None) CATALOGUE"

definition governed_names :: "str list" where
  "governed_names = sort (map fst governed_pairs)"

definition governance_map :: "(str, str) fmap" where
  "governance_map = fmap_of_list (rev governed_pairs)"

definition clears_the_boundary :: "str \<Rightarrow> bool" where
  "clears_the_boundary enterprise =
     (classify \<lparr>gr_tenant = ''t'', gr_actor = ''a'', gr_tool = enterprise, gr_request_id = ''r''\<rparr> = Forward)"

definition list_tools :: "(str \<times> str) list" where
  "list_tools = sort_key fst governed_pairs"

definition govern_catalogue :: "deployment \<Rightarrow> deployment" where
  "govern_catalogue d = fold (\<lambda>(tool, perm). govern_tool tool perm) (sorted_list_of_fmap governance_map) d"

subsection \<open>Calls\<close>

datatype 'v mcp_outcome =
    McpOk 'v
  | BackendError str
  | McpReplayed
  | McpRefused refusal
  | UnknownTool

fun reached_the_backend :: "'v mcp_outcome \<Rightarrow> bool" where
  "reached_the_backend (McpOk _) = True"
| "reached_the_backend (BackendError _) = True"
| "reached_the_backend _ = False"

text \<open>A dispatch that does not return is \<open>None\<close>, and then so is the call.\<close>

type_synonym ('b, 'v) backend_dispatch = "'b \<Rightarrow> str \<Rightarrow> str \<Rightarrow> 'v \<Rightarrow> ((str + 'v) \<times> 'b) option"

definition mcp_call ::
  "('b, 'v) backend_dispatch \<Rightarrow> (str \<Rightarrow> str) \<Rightarrow> u64 \<Rightarrow> call \<Rightarrow> 'v \<Rightarrow> deployment \<Rightarrow> 'b
     \<Rightarrow> ('v mcp_outcome \<times> deployment \<times> 'b) option" where
  "mcp_call dispatch sha now c args d b =
     (let tool = gr_tool (c_request c); tenant = gr_tenant (c_request c); (outcome, d) = admit sha now c d in
      case outcome of
        Refused r \<Rightarrow> Some (McpRefused r, d, b)
      | Replayed \<Rightarrow> Some (McpReplayed, d, b)
      | Forwarded \<Rightarrow>
          (case to_core tool of
             None \<Rightarrow> Some (UnknownTool, d, b)
           | Some core_tool \<Rightarrow>
               map_option (\<lambda>(r, b). (case r of Inr v \<Rightarrow> McpOk v | Inl e \<Rightarrow> BackendError e, d, b))
                 (dispatch b tenant core_tool args)))"

lemma backend_answer [simp]:
  "(case r of Inl e \<Rightarrow> BackendError e | Inr v \<Rightarrow> McpOk v) \<noteq> McpRefused x"
  "McpRefused x \<noteq> (case r of Inl e \<Rightarrow> BackendError e | Inr v \<Rightarrow> McpOk v)"
  by (cases r; simp)+

text \<open>A sequence of calls, and the errors of the backend that its outcomes report.\<close>

fun serve ::
  "('b, 'v) backend_dispatch \<Rightarrow> (str \<Rightarrow> str) \<Rightarrow> (u64 \<times> call \<times> 'v) list \<Rightarrow> deployment \<Rightarrow> 'b
     \<Rightarrow> ('v mcp_outcome list \<times> deployment \<times> 'b) option" where
  "serve dispatch sha [] d b = Some ([], d, b)"
| "serve dispatch sha ((now, c, args) # calls) d b =
     Option.bind (mcp_call dispatch sha now c args d b) (\<lambda>(out, d, b).
       map_option (\<lambda>(outs, db). (out # outs, db)) (serve dispatch sha calls d b))"

definition backend_errors :: "'v mcp_outcome list \<Rightarrow> str list" where
  "backend_errors outs = concat (map (\<lambda>out. case out of BackendError e \<Rightarrow> [e] | _ \<Rightarrow> []) outs)"

lemma backend_errors_simps [simp]:
  "backend_errors [] = []"
  "backend_errors (out # outs) = (case out of BackendError e \<Rightarrow> [e] | _ \<Rightarrow> []) @ backend_errors outs"
  by (simp_all add: backend_errors_def)

text \<open>The organization a forwarded call was made under owns its tenant.\<close>

lemma forwarded_owned:
  assumes "fst (admit sha now c d) = Forwarded" and "fmlookup (d_tenant_owner d) (TenantId u) \<noteq> Some (aa_org (c_actor c))"
  shows "u \<noteq> gr_tenant (c_request c)"
  using assms by (auto elim!: admit_forwarded_tenant simp: admissible_def credential_bound_def dest: tenant_new_SomeD)

subsection \<open>The contract of a backend\<close>

text \<open>
  \<open>kept u errors b b'\<close> says that what tenant \<open>u\<close> has in the backend came through from \<open>b\<close> to \<open>b'\<close>, but for
  what \<open>errors\<close> report.
\<close>

locale tenant_backend =
  fixes dispatch :: "('b, 'v) backend_dispatch" and kept :: "str \<Rightarrow> str list \<Rightarrow> 'b \<Rightarrow> 'b \<Rightarrow> bool" and usable :: "'b \<Rightarrow> bool"
  assumes returns: "usable b \<Longrightarrow> \<exists>r b'. dispatch b t tool args = Some (r, b') \<and> usable b'"
    and scoped: "usable b \<Longrightarrow> dispatch b t tool args = Some (r, b') \<Longrightarrow> u \<noteq> t \<Longrightarrow> is_canonical_identifier u \<Longrightarrow>
      kept u (case r of Inl e \<Rightarrow> [e] | Inr _ \<Rightarrow> []) b b'"
    and kept_refl: "kept u [] b b"
    and kept_trans: "kept u es b b1 \<Longrightarrow> kept u fs b1 b2 \<Longrightarrow> kept u (es @ fs) b b2"
begin

lemma call_returns:
  assumes "usable b"
  shows "\<exists>out d' b'. mcp_call dispatch sha now c args d b = Some (out, d', b') \<and> usable b' \<and> d' = snd (admit sha now c d)"
proof -
  obtain out d' where adm: "admit sha now c d = (out, d')" by fastforce
  show ?thesis
    using assms returns [OF assms, of "gr_tenant (c_request c)" _ args]
    by (cases out; cases "to_core (gr_tool (c_request c))")
      (fastforce simp: mcp_call_def adm)+
qed

lemma kept_by_others:
  assumes "usable b" and "mcp_call dispatch sha now c args d b = Some (out, d', b')" and "is_canonical_identifier u"
    and "fst (admit sha now c d) = Forwarded \<longrightarrow> u \<noteq> gr_tenant (c_request c)"
  shows "kept u (case out of BackendError e \<Rightarrow> [e] | _ \<Rightarrow> []) b b'"
proof (cases "fst (admit sha now c d) = Forwarded \<and> to_core (gr_tool (c_request c)) \<noteq> None")
  case True
  then obtain core where core: "to_core (gr_tool (c_request c)) = Some core" by blast
  obtain r b1 where run: "dispatch b (gr_tenant (c_request c)) core args = Some (r, b1)" using returns [OF assms(1)] by blast
  then have "out = (case r of Inr v \<Rightarrow> McpOk v | Inl e \<Rightarrow> BackendError e)" "b' = b1"
    using assms(2) True core by (auto simp: mcp_call_def case_prod_unfold Let_def)
  then show ?thesis using scoped [OF assms(1) run] assms(3,4) True by (cases r) auto
next
  case False
  then have "b' = b \<and> (\<forall>e. out \<noteq> BackendError e)"
    using assms(2) by (cases "fst (admit sha now c d)") (auto simp: mcp_call_def case_prod_unfold Let_def)
  then show ?thesis using kept_refl by (cases out) simp_all
qed

lemma serve_returns:
  "usable b \<Longrightarrow> \<exists>outs d' b'. serve dispatch sha calls d b = Some (outs, d', b') \<and> length outs = length calls \<and> usable b'"
proof (induction calls arbitrary: d b)
  case Nil
  then show ?case by simp
next
  case (Cons x calls)
  obtain now c args where x: "x = (now, c, args)" by (metis prod_cases3)
  obtain out d1 b1 where one: "mcp_call dispatch sha now c args d b = Some (out, d1, b1)" "usable b1"
    using call_returns [OF Cons.prems] by metis
  from Cons.IH [OF one(2), of d1] show ?case using one by (fastforce simp: x)
qed

lemma serve_keeps:
  assumes "usable b" and "is_canonical_identifier u" and "serve dispatch sha calls d b = Some (outs, d', b')"
    and "list_all (\<lambda>(now, c, args). fmlookup (d_tenant_owner d) (TenantId u) \<noteq> Some (aa_org (c_actor c))) calls"
  shows "kept u (backend_errors outs) b b' \<and> fmlookup (d_tenants d') (TenantId u) = fmlookup (d_tenants d) (TenantId u)"
  using assms(1,3,4)
proof (induction calls arbitrary: d b outs)
  case Nil
  then show ?case by (auto simp: kept_refl)
next
  case (Cons x calls)
  obtain now c args where x: "x = (now, c, args)" by (metis prod_cases3)
  obtain out d1 b1 where one: "mcp_call dispatch sha now c args d b = Some (out, d1, b1)" "usable b1" "d1 = snd (admit sha now c d)"
    using call_returns [OF Cons.prems(1)] by metis
  have foreign: "fmlookup (d_tenant_owner d) (TenantId u) \<noteq> Some (aa_org (c_actor c))" using Cons.prems(3) by (simp add: x)
  obtain outs1 where rest: "serve dispatch sha calls d1 b1 = Some (outs1, d', b')" "outs = out # outs1"
    using Cons.prems(2) one(1) by (auto simp: x)
  have "d_tenant_owner d1 = d_tenant_owner d" by (simp add: one(3))
  then have "kept u (backend_errors outs1) b1 b' \<and> fmlookup (d_tenants d') (TenantId u) = fmlookup (d_tenants d1) (TenantId u)"
    using Cons.IH [OF one(2) rest(1)] Cons.prems(3) by simp
  moreover have "kept u (case out of BackendError e \<Rightarrow> [e] | _ \<Rightarrow> []) b b1"
    using kept_by_others [OF Cons.prems(1) one(1) assms(2)] forwarded_owned [OF _ foreign] by blast
  moreover have "fmlookup (d_tenants d1) (TenantId u) = fmlookup (d_tenants d) (TenantId u)"
    using admit_foreign [OF foreign] one(3) by simp
  ultimately show ?case using kept_trans by (simp add: rest(2))
qed

end

end
