(* ===== verification/Sessions.thy ===== *)
theory Sessions
  imports Front_Door Framing
begin

section \<open>One Core session per tenant (crates/ccos-enterprise-sessions)\<close>

text \<open>
  \<open>TenantSessions\<close>: the bounded cache of open Core sessions, least recently used first, and its
  \<open>dispatch\<close>. What Core does is a record of functions on a session and on the file system they share:
  opening a workspace, checkpointing, answering a \<open>tools/call\<close> message. The loop that evicts until there
  is room may not end in general, so it is a partial function. Nothing is assumed of Core: \<open>opened\<close> says at
  which path a session was opened, \<open>elsewhere\<close> that a change of the file system is the work of Core operations
  on the workspaces of other tenants, and the cache is an instance of \<open>tenant_backend\<close> with them.
\<close>

definition DEFAULT_SESSION_CAPACITY :: nat where
  "DEFAULT_SESSION_CAPACITY = 64"

datatype session_error =
    UnsafeTenantId str
  | CoreError str str
  | ToolError str str

fun session_error_text :: "(str \<Rightarrow> str) \<Rightarrow> session_error \<Rightarrow> str" where
  "session_error_text dbg (UnsafeTenantId tenant) =
     ''tenant id '' @ dbg tenant @ '' is not a canonical identifier, so it will not be used as a directory name''"
| "session_error_text dbg (CoreError tenant detail) = ''tenant '' @ dbg tenant @ '': core session: '' @ detail"
| "session_error_text dbg (ToolError tool detail) = ''tool '' @ dbg tool @ '': '' @ detail"

record 'v rpc_response =
  rs_error :: "str option"
  rs_result :: "'v option"

record ('s, 'w, 'v) core_ops =
  co_mkdir :: "str \<Rightarrow> 'w \<Rightarrow> (str + unit) \<times> 'w"
  co_open :: "str \<Rightarrow> 'w \<Rightarrow> (str + 's) \<times> 'w"
  co_checkpoint :: "'s \<Rightarrow> 'w \<Rightarrow> (str + unit) \<times> 's \<times> 'w"
  co_handle :: "'s \<Rightarrow> str \<Rightarrow> 'v \<Rightarrow> 'w \<Rightarrow> 'v rpc_response option \<times> 's \<times> 'w"

record 's tenant_sessions =
  tn_root :: str
  tn_capacity :: nat
  tn_live :: "(str, 's) fmap"
  tn_lru :: "str list"
  tn_evictions :: u64
  tn_opens :: u64

definition sessions_with_capacity :: "str \<Rightarrow> nat \<Rightarrow> 's tenant_sessions" where
  "sessions_with_capacity root cap =
     \<lparr>tn_root = root, tn_capacity = max cap 1, tn_live = fmempty, tn_lru = [], tn_evictions = 0, tn_opens = 0\<rparr>"

definition sessions_new :: "str \<Rightarrow> 's tenant_sessions" where
  "sessions_new root = sessions_with_capacity root DEFAULT_SESSION_CAPACITY"

definition workspace_path :: "str \<Rightarrow> str \<Rightarrow> str" where
  "workspace_path root tenant = path_join (path_join root tenant) ''workspace.ccos''"

definition path_for :: "'s tenant_sessions \<Rightarrow> str \<Rightarrow> session_error + str" where
  "path_for s tenant =
     (if \<not> is_canonical_identifier tenant then Inl (UnsafeTenantId (utf8_string (take 64 (utf8_chars tenant))))
      else Inr (workspace_path (tn_root s) tenant))"

definition live_tenants :: "'s tenant_sessions \<Rightarrow> str list" where
  "live_tenants s = sorted_list_of_fset (fmdom (tn_live s))"

definition touch :: "str \<Rightarrow> 's tenant_sessions \<Rightarrow> 's tenant_sessions" where
  "touch tenant s = s\<lparr>tn_lru := remove1 tenant (tn_lru s) @ [tenant]\<rparr>"

definition checkpoint_session ::
  "('s, 'w, 'v) core_ops \<Rightarrow> str \<Rightarrow> 's \<Rightarrow> 'w \<Rightarrow> (session_error + unit) \<times> 's \<times> 'w" where
  "checkpoint_session ops tenant session w =
     (case co_checkpoint ops session w of
        (Inl e, session, w) \<Rightarrow> (Inl (CoreError tenant (''checkpoint: '' @ e)), session, w)
      | (Inr _, session, w) \<Rightarrow> (Inr (), session, w))"

definition evict_one ::
  "('s, 'w, 'v) core_ops \<Rightarrow> 's tenant_sessions \<Rightarrow> 'w \<Rightarrow> (session_error + unit) \<times> 's tenant_sessions \<times> 'w" where
  "evict_one ops s w =
     (case tn_lru s of
        [] \<Rightarrow> (Inr (), s, w)
      | victim # rest \<Rightarrow>
          let s = s\<lparr>tn_lru := rest\<rparr> in
          (case fmlookup (tn_live s) victim of
             None \<Rightarrow> (Inr (), s\<lparr>tn_evictions := tn_evictions s + 1\<rparr>, w)
           | Some session \<Rightarrow>
               let s = s\<lparr>tn_live := fmdrop victim (tn_live s)\<rparr> in
               (case checkpoint_session ops victim session w of
                  (Inl e, _, w) \<Rightarrow> (Inl e, s, w)
                | (Inr _, _, w) \<Rightarrow> (Inr (), s\<lparr>tn_evictions := tn_evictions s + 1\<rparr>, w))))"

text \<open>\<open>while self.live.len() >= self.capacity { self.evict_one()?; }\<close>\<close>

partial_function (option) evict_loop ::
  "('s, 'w, 'v) core_ops \<Rightarrow> 's tenant_sessions \<Rightarrow> 'w \<Rightarrow> ((session_error + unit) \<times> 's tenant_sessions \<times> 'w) option" where
  "evict_loop ops s w =
     (if fmlen (tn_live s) < tn_capacity s then Some (Inr (), s, w)
      else case evict_one ops s w of (r, s, w) \<Rightarrow>
        (case r of Inl e \<Rightarrow> Some (Inl e, s, w) | Inr _ \<Rightarrow> evict_loop ops s w))"

definition open_session ::
  "('s, 'w, 'v) core_ops \<Rightarrow> str \<Rightarrow> str \<Rightarrow> 's tenant_sessions \<Rightarrow> 'w \<Rightarrow> (session_error + unit) \<times> 's tenant_sessions \<times> 'w" where
  "open_session ops tenant path s w =
     (case co_mkdir ops (path_join (tn_root s) tenant) w of
        (Inl e, w) \<Rightarrow> (Inl (CoreError tenant e), s, w)
      | (Inr _, w) \<Rightarrow>
          (case co_open ops path w of
             (Inl e, w) \<Rightarrow> (Inl (CoreError tenant e), s, w)
           | (Inr session, w) \<Rightarrow>
               (Inr (), s\<lparr>tn_live := fmupd tenant session (tn_live s), tn_opens := tn_opens s + 1\<rparr>, w)))"

definition session_for ::
  "('s, 'w, 'v) core_ops \<Rightarrow> str \<Rightarrow> 's tenant_sessions \<Rightarrow> 'w \<Rightarrow> ((session_error + unit) \<times> 's tenant_sessions \<times> 'w) option" where
  "session_for ops tenant s w =
     (case path_for s tenant of
        Inl e \<Rightarrow> Some (Inl e, s, w)
      | Inr path \<Rightarrow>
          if fmcontains (tn_live s) tenant then Some (Inr (), touch tenant s, w)
          else Option.bind (evict_loop ops s w) (\<lambda>(r, s, w).
            case r of
              Inl e \<Rightarrow> Some (Inl e, s, w)
            | Inr _ \<Rightarrow>
                (case open_session ops tenant path s w of
                   (Inl e, s, w) \<Rightarrow> Some (Inl e, s, w)
                 | (Inr _, s, w) \<Rightarrow> Some (Inr (), touch tenant s, w))))"

text \<open>The loop of \<open>checkpoint_all\<close>, which stops at the first failure.\<close>

fun checkpoint_each ::
  "('s, 'w, 'v) core_ops \<Rightarrow> str list \<Rightarrow> 's tenant_sessions \<Rightarrow> 'w \<Rightarrow> (session_error + unit) \<times> 's tenant_sessions \<times> 'w" where
  "checkpoint_each ops [] s w = (Inr (), s, w)"
| "checkpoint_each ops (name # names) s w =
     (case fmlookup (tn_live s) name of
        None \<Rightarrow> checkpoint_each ops names s w
      | Some session \<Rightarrow>
          (case checkpoint_session ops name session w of
             (Inl e, session, w) \<Rightarrow> (Inl e, s\<lparr>tn_live := fmupd name session (tn_live s)\<rparr>, w)
           | (Inr _, session, w) \<Rightarrow> checkpoint_each ops names (s\<lparr>tn_live := fmupd name session (tn_live s)\<rparr>) w))"

definition checkpoint_all ::
  "('s, 'w, 'v) core_ops \<Rightarrow> 's tenant_sessions \<Rightarrow> 'w \<Rightarrow> (session_error + unit) \<times> 's tenant_sessions \<times> 'w" where
  "checkpoint_all ops s w = checkpoint_each ops (live_tenants s) s w"

text \<open>\<open>Backend for TenantSessions\<close>. A session that is live answers; its new state replaces the old one.\<close>

definition sessions_dispatch ::
  "(str \<Rightarrow> str) \<Rightarrow> ('s, 'w, 'v) core_ops \<Rightarrow> ('s tenant_sessions \<times> 'w, 'v) backend_dispatch" where
  "sessions_dispatch dbg ops b tenant core_tool args =
     map_option (\<lambda>(r, s, w).
       case r of
         Inl e \<Rightarrow> (Inl (session_error_text dbg e), (s, w))
       | Inr _ \<Rightarrow>
           let (response, session, w) = co_handle ops (the (fmlookup (tn_live s) tenant)) core_tool args w;
               s = s\<lparr>tn_live := fmupd tenant session (tn_live s)\<rparr>
           in (case response of
                 None \<Rightarrow> Inl (''core returned no response for '' @ dbg core_tool)
               | Some resp \<Rightarrow>
                   (case rs_error resp of
                      Some e \<Rightarrow> Inl (''core refused '' @ dbg core_tool @ '': '' @ e)
                    | None \<Rightarrow>
                        (case rs_result resp of
                           Some v \<Rightarrow> Inr v
                         | None \<Rightarrow> Inl (''core answered '' @ dbg core_tool @ '' with neither result nor error''))), (s, w)))
       (session_for ops tenant (fst b) (snd b))"

subsection \<open>Whose workspace an operation of Core is on\<close>

text \<open>
  A session was opened at a path when \<open>co_open\<close> returned it for that path, or when a checkpoint or a tool call
  left it in the place of such a session.
\<close>

inductive opened :: "('s, 'w, 'v) core_ops \<Rightarrow> str \<Rightarrow> 's \<Rightarrow> bool" for ops p where
  opened_open: "co_open ops p w = (Inr s, w') \<Longrightarrow> opened ops p s"
| opened_checkpoint: "opened ops p s \<Longrightarrow> co_checkpoint ops s w = (r, s', w') \<Longrightarrow> opened ops p s'"
| opened_handle: "opened ops p s \<Longrightarrow> co_handle ops s tool args w = (r, s', w') \<Longrightarrow> opened ops p s'"

text \<open>
  One operation of Core that is not on the workspace of tenant \<open>u\<close>: its directory or its path is another, or
  its session was opened at another path.
\<close>

inductive elsewhere_step :: "('s, 'w, 'v) core_ops \<Rightarrow> str \<Rightarrow> str \<Rightarrow> 'w \<Rightarrow> 'w \<Rightarrow> bool" for ops root u where
  else_mkdir: "p \<noteq> path_join root u \<Longrightarrow> co_mkdir ops p w = (r, w') \<Longrightarrow> elsewhere_step ops root u w w'"
| else_open: "p \<noteq> workspace_path root u \<Longrightarrow> co_open ops p w = (r, w') \<Longrightarrow> elsewhere_step ops root u w w'"
| else_checkpoint: "p \<noteq> workspace_path root u \<Longrightarrow> opened ops p s \<Longrightarrow> co_checkpoint ops s w = (r, s', w') \<Longrightarrow>
    elsewhere_step ops root u w w'"
| else_handle: "p \<noteq> workspace_path root u \<Longrightarrow> opened ops p s \<Longrightarrow> co_handle ops s tool args w = (r, s', w') \<Longrightarrow>
    elsewhere_step ops root u w w'"

definition elsewhere :: "('s, 'w, 'v) core_ops \<Rightarrow> str \<Rightarrow> str \<Rightarrow> 'w \<Rightarrow> 'w \<Rightarrow> bool" where
  "elsewhere ops root u = (elsewhere_step ops root u)\<^sup>*\<^sup>*"

lemma elsewhere_refl [simp]: "elsewhere ops root u w w"
  by (simp add: elsewhere_def)

lemma elsewhere_trans: "elsewhere ops root u w w1 \<Longrightarrow> elsewhere ops root u w1 w2 \<Longrightarrow> elsewhere ops root u w w2"
  unfolding elsewhere_def by (rule rtranclp_trans)

lemma elsewhere_one: "elsewhere_step ops root u w w' \<Longrightarrow> elsewhere ops root u w w'"
  unfolding elsewhere_def by (rule r_into_rtranclp)

text \<open>
  What tenant \<open>u\<close> has in the cache came through: its entry is what it was and Core worked elsewhere only; or its
  session was checkpointed, once, and closed, Core working elsewhere before and after, and a failure of that
  checkpoint is among the reported errors.
\<close>

definition workspace_kept ::
  "(str \<Rightarrow> str) \<Rightarrow> ('s, 'w, 'v) core_ops \<Rightarrow> str \<Rightarrow> str list \<Rightarrow> 's tenant_sessions \<times> 'w \<Rightarrow> 's tenant_sessions \<times> 'w \<Rightarrow> bool" where
  "workspace_kept dbg ops u errors b b' \<longleftrightarrow>
     tn_root (fst b') = tn_root (fst b) \<and>
     (fmlookup (tn_live (fst b')) u = fmlookup (tn_live (fst b)) u \<and> elsewhere ops (tn_root (fst b)) u (snd b) (snd b')
      \<or> (\<exists>session r session' w1 w2. fmlookup (tn_live (fst b)) u = Some session \<and> fmlookup (tn_live (fst b')) u = None
          \<and> elsewhere ops (tn_root (fst b)) u (snd b) w1 \<and> co_checkpoint ops session w1 = (r, session', w2)
          \<and> elsewhere ops (tn_root (fst b)) u w2 (snd b')
          \<and> (\<forall>e. r = Inl e \<longrightarrow> session_error_text dbg (CoreError u (''checkpoint: '' @ e)) \<in> set errors)))"

lemma workspace_kept_refl: "workspace_kept dbg ops u errors b b"
  by (simp add: workspace_kept_def)

lemma workspace_kept_elsewhere:
  "tn_root s' = tn_root s \<Longrightarrow> fmlookup (tn_live s') u = fmlookup (tn_live s) u \<Longrightarrow> elsewhere ops (tn_root s) u w w' \<Longrightarrow>
    workspace_kept dbg ops u errors (s, w) (s', w')"
  by (simp add: workspace_kept_def)

lemma workspace_kept_trans:
  assumes "workspace_kept dbg ops u es b b1" and "workspace_kept dbg ops u fs b1 b2"
  shows "workspace_kept dbg ops u (es @ fs) b b2"
  using assms unfolding workspace_kept_def set_append
  by (elim conjE disjE exE) (simp, blast intro: elsewhere_trans | simp)+

definition cache_ok :: "('s, 'w, 'v) core_ops \<Rightarrow> 's tenant_sessions \<Rightarrow> bool" where
  "cache_ok ops s \<longleftrightarrow>
     0 < tn_capacity s \<and> fmlen (tn_live s) \<le> tn_capacity s \<and> distinct (tn_lru s) \<and> set (tn_lru s) = fset (fmdom (tn_live s))
     \<and> (\<forall>t session. fmlookup (tn_live s) t = Some session \<longrightarrow>
          is_canonical_identifier t \<and> opened ops (workspace_path (tn_root s) t) session)"

text \<open>
  What a tenant's sessions show: what its session holds, or what its workspace has stored. How Core reads either
  is a parameter.
\<close>

definition tenant_memory ::
  "(str \<Rightarrow> 'w \<Rightarrow> 'm) \<Rightarrow> ('s \<Rightarrow> 'm) \<Rightarrow> 's tenant_sessions \<times> 'w \<Rightarrow> str \<Rightarrow> 'm" where
  "tenant_memory stored memory b t =
     (case fmlookup (tn_live (fst b)) t of
        Some session \<Rightarrow> memory session
      | None \<Rightarrow> stored (workspace_path (tn_root (fst b)) t) (snd b))"

subsection \<open>Paths\<close>

lemma canonical_last: "is_canonical_identifier t \<Longrightarrow> t \<noteq> [] \<and> last t \<noteq> CHR ''/''"
proof -
  assume c: "is_canonical_identifier t"
  then have "t \<noteq> []" by (auto simp: is_canonical_identifier_def)
  moreover have "\<forall>b\<in>set t. is_ascii_lowercase b \<or> is_ascii_digit b \<or> b = CHR ''_'' \<or> b = CHR ''-''"
    using c by (auto simp: is_canonical_identifier_def list_all_iff split: list.splits if_splits)
  ultimately have "is_ascii_lowercase (last t) \<or> is_ascii_digit (last t) \<or> last t = CHR ''_'' \<or> last t = CHR ''-''" by simp
  then show ?thesis using \<open>t \<noteq> []\<close> by (auto simp: ascii_defs)
qed

lemma workspace_path_inj:
  assumes "is_canonical_identifier t" and "is_canonical_identifier u"
  shows "workspace_path root t = workspace_path root u \<longleftrightarrow> t = u"
proof -
  have "workspace_path root v = path_join root v @ ''/workspace.ccos''" if "is_canonical_identifier v" for v
    using canonical_last [OF that] by (auto simp: workspace_path_def path_join_def)
  then show ?thesis using assms by (auto simp: path_join_def)
qed

subsection \<open>Eviction\<close>

lemma fmlen_fmdrop: "fmlookup m k = Some v \<Longrightarrow> fmlen (fmdrop k m) = fmlen m - 1"
  by (simp add: fcard_fminus_fsingleton fmdomI)

text \<open>The error a result reports, as the backend shows it.\<close>

definition reported :: "(str \<Rightarrow> str) \<Rightarrow> session_error + unit \<Rightarrow> str list" where
  "reported dbg r = (case r of Inl e \<Rightarrow> [session_error_text dbg e] | Inr _ \<Rightarrow> [])"

lemma reported_simps [simp]: "reported dbg (Inl e) = [session_error_text dbg e]" "reported dbg (Inr x) = []"
  by (simp_all add: reported_def)

lemma evict_one_effect:
  assumes "cache_ok ops s" and "tn_lru s = victim # rest" and "evict_one ops s w = (r, s', w')"
  shows "cache_ok ops s' \<and> tn_root s' = tn_root s \<and> tn_capacity s' = tn_capacity s \<and> tn_lru s' = rest
    \<and> tn_live s' = fmdrop victim (tn_live s)
    \<and> (\<forall>u. is_canonical_identifier u \<longrightarrow> workspace_kept dbg ops u (reported dbg r) (s, w) (s', w'))"
proof -
  have "victim \<in> set (tn_lru s)" using assms(2) by simp
  then have "victim |\<in>| fmdom (tn_live s)" using assms(1) by (simp add: cache_ok_def)
  then obtain session where live: "fmlookup (tn_live s) victim = Some session" by (auto simp: fmlookup_dom_iff)
  have own: "is_canonical_identifier victim" "opened ops (workspace_path (tn_root s) victim) session"
    using assms(1) live by (auto simp: cache_ok_def)
  obtain rc session' wc where cp: "co_checkpoint ops session w = (rc, session', wc)" by (metis prod_cases3)
  have s': "tn_root s' = tn_root s" "tn_capacity s' = tn_capacity s" "tn_lru s' = rest" "tn_live s' = fmdrop victim (tn_live s)"
    "w' = wc" "\<forall>e. rc = Inl e \<longrightarrow> r = Inl (CoreError victim (''checkpoint: '' @ e))"
    using assms(2,3) live cp by (auto simp: evict_one_def checkpoint_session_def Let_def split: sum.splits)
  have "cache_ok ops s'"
    using assms(1,2) fmlen_fmdrop [OF live] by (auto simp: cache_ok_def s')
  moreover have "workspace_kept dbg ops u (reported dbg r) (s, w) (s', w')" if "is_canonical_identifier u" for u
  proof (cases "u = victim")
    case True
    have "\<forall>e. rc = Inl e \<longrightarrow> session_error_text dbg (CoreError u (''checkpoint: '' @ e)) \<in> set (reported dbg r)"
      using True s'(6) by auto
    moreover have "co_checkpoint ops session w = (rc, session', w')" using cp s'(5) by simp
    ultimately show ?thesis
      using True live unfolding workspace_kept_def fst_conv snd_conv s'(1,4)
      by (intro conjI refl disjI2 exI [of _ session] exI [of _ rc] exI [of _ session'] exI [of _ w] exI [of _ w']) simp_all
  next
    case False
    then have "workspace_path (tn_root s) victim \<noteq> workspace_path (tn_root s) u" using own that workspace_path_inj by simp
    from elsewhere_one [OF else_checkpoint [OF this own(2) cp]] show ?thesis
      using False by (intro workspace_kept_elsewhere) (simp_all add: s')
  qed
  ultimately show ?thesis using s' by blast
qed

lemma evict_loop_works:
  assumes "cache_ok ops s"
  shows "\<exists>r s' w'. evict_loop ops s w = Some (r, s', w') \<and> cache_ok ops s' \<and> tn_root s' = tn_root s
    \<and> tn_capacity s' = tn_capacity s \<and> fmdom (tn_live s') |\<subseteq>| fmdom (tn_live s)
    \<and> (r = Inr () \<longrightarrow> fmlen (tn_live s') < tn_capacity s')
    \<and> (\<forall>u. is_canonical_identifier u \<longrightarrow> workspace_kept dbg ops u (reported dbg r) (s, w) (s', w'))"
  using assms
proof (induction "length (tn_lru s)" arbitrary: s w)
  case 0
  then have "fmlen (tn_live s) = 0" by (simp add: cache_ok_def fcard.rep_eq)
  then show ?case using 0 by (subst evict_loop.simps) (simp add: cache_ok_def workspace_kept_refl)
next
  case (Suc n)
  show ?case
  proof (cases "fmlen (tn_live s) < tn_capacity s")
    case True
    then show ?thesis using Suc.prems by (subst evict_loop.simps) (simp add: workspace_kept_refl)
  next
    case False
    obtain victim rest where lru: "tn_lru s = victim # rest" using Suc(2) by (cases "tn_lru s") auto
    obtain r s1 w1 where one: "evict_one ops s w = (r, s1, w1)" by (metis prod_cases3)
    note eff = evict_one_effect [OF Suc.prems lru one, of dbg]
    have sub: "fmdom (tn_live s1) |\<subseteq>| fmdom (tn_live s)" using eff by auto
    have step: "evict_loop ops s w = (case r of Inl e \<Rightarrow> Some (Inl e, s1, w1) | Inr _ \<Rightarrow> evict_loop ops s1 w1)"
      using False one by (subst evict_loop.simps) simp
    show ?thesis
    proof (cases r)
      case (Inl e)
      then show ?thesis using step eff sub by simp
    next
      case (Inr x)
      have "n = length (tn_lru s1)" using Suc(2) lru eff by simp
      from Suc(1) [OF this conjunct1 [OF eff], of w1] obtain r2 s2 w2 where rest:
        "evict_loop ops s1 w1 = Some (r2, s2, w2)" "cache_ok ops s2" "tn_root s2 = tn_root s1"
        "tn_capacity s2 = tn_capacity s1" "fmdom (tn_live s2) |\<subseteq>| fmdom (tn_live s1)"
        "r2 = Inr () \<longrightarrow> fmlen (tn_live s2) < tn_capacity s2"
        "\<And>u. is_canonical_identifier u \<Longrightarrow> workspace_kept dbg ops u (reported dbg r2) (s1, w1) (s2, w2)" by blast
      have "workspace_kept dbg ops u (reported dbg r2) (s, w) (s2, w2)" if "is_canonical_identifier u" for u
        using workspace_kept_trans [of dbg ops u "[]" "(s, w)" "(s1, w1)" "reported dbg r2"] eff that rest(7) Inr by auto
      then show ?thesis using step eff sub Inr rest(1-6) by auto
    qed
  qed
qed

subsection \<open>Serving a tenant\<close>

definition serves :: "str \<Rightarrow> 's tenant_sessions \<Rightarrow> bool" where
  "serves tenant s \<longleftrightarrow> is_canonical_identifier tenant \<and> (\<exists>session. fmlookup (tn_live s) tenant = Some session)"

lemma touch_simps [simp]:
  "tn_live (touch tenant s) = tn_live s" "tn_root (touch tenant s) = tn_root s" "tn_capacity (touch tenant s) = tn_capacity s"
  by (simp_all add: touch_def)

lemma cache_ok_touch: "cache_ok ops s \<Longrightarrow> fmcontains (tn_live s) tenant \<Longrightarrow> cache_ok ops (touch tenant s)"
  by (auto simp: cache_ok_def touch_def fmdomI)

lemma workspace_kept_touch [simp]:
  "workspace_kept dbg ops u errors b (touch tenant s, w) \<longleftrightarrow> workspace_kept dbg ops u errors b (s, w)"
  by (simp add: workspace_kept_def)

lemma path_join_inj: "is_canonical_identifier t \<Longrightarrow> is_canonical_identifier u \<Longrightarrow> path_join root t = path_join root u \<longleftrightarrow> t = u"
  by (auto simp: path_join_def)

lemma open_session_effect:
  assumes "cache_ok ops s" and "is_canonical_identifier tenant"
    and "\<not> fmcontains (tn_live s) tenant" and "fmlen (tn_live s) < tn_capacity s"
    and "open_session ops tenant (workspace_path (tn_root s) tenant) s w = (r, s', w')"
  shows "tn_capacity s' = tn_capacity s \<and> tn_root s' = tn_root s
    \<and> (\<forall>u. is_canonical_identifier u \<longrightarrow> u \<noteq> tenant \<longrightarrow> workspace_kept dbg ops u errors (s, w) (s', w'))
    \<and> (r \<noteq> Inr () \<longrightarrow> s' = s) \<and> (r = Inr () \<longrightarrow> fmcontains (tn_live s') tenant \<and> cache_ok ops (touch tenant s'))"
proof -
  obtain rm wm where mk: "co_mkdir ops (path_join (tn_root s) tenant) w = (rm, wm)" by fastforce
  obtain ro wo where op: "co_open ops (workspace_path (tn_root s) tenant) wm = (ro, wo)" by fastforce
  have away: "elsewhere ops (tn_root s) u w wm \<and> elsewhere ops (tn_root s) u w wo" if "is_canonical_identifier u" "u \<noteq> tenant" for u
  proof -
    have "path_join (tn_root s) tenant \<noteq> path_join (tn_root s) u" "workspace_path (tn_root s) tenant \<noteq> workspace_path (tn_root s) u"
      using that assms(2) path_join_inj workspace_path_inj by simp_all
    from elsewhere_one [OF else_mkdir [OF this(1) mk]] elsewhere_one [OF else_open [OF this(2) op]]
    show ?thesis using elsewhere_trans [of ops "tn_root s" u w wm wo] by simp
  qed
  show ?thesis
  proof (cases "\<exists>session. rm = Inr () \<and> ro = Inr session")
    case False
    then have "s' = s \<and> r \<noteq> Inr () \<and> (w' = wm \<or> w' = wo)"
      using assms(5) mk op by (auto simp: open_session_def split: sum.splits)
    then show ?thesis using away by (auto intro!: workspace_kept_elsewhere)
  next
    case True
    then obtain session where session: "rm = Inr ()" "ro = Inr session" by blast
    then have out: "r = Inr ()" "w' = wo" "s' = s\<lparr>tn_live := fmupd tenant session (tn_live s), tn_opens := tn_opens s + 1\<rparr>"
      using assms(5) mk op by (auto simp: open_session_def)
    have "opened ops (workspace_path (tn_root s) tenant) session" using op session(2) by (auto intro: opened_open)
    then have "cache_ok ops (touch tenant s')"
      using assms(1-4) by (auto simp: cache_ok_def touch_def out fcard_finsert_if)
    then show ?thesis using away by (auto simp: out intro!: workspace_kept_elsewhere)
  qed
qed

lemma session_for_works:
  assumes "cache_ok ops s"
  shows "\<exists>r s' w'. session_for ops tenant s w = Some (r, s', w') \<and> cache_ok ops s' \<and> tn_capacity s' = tn_capacity s
    \<and> tn_root s' = tn_root s \<and> (r = Inr () \<longrightarrow> serves tenant s')
    \<and> (\<forall>u. is_canonical_identifier u \<longrightarrow> u \<noteq> tenant \<longrightarrow> workspace_kept dbg ops u (reported dbg r) (s, w) (s', w'))"
proof (cases "is_canonical_identifier tenant")
  case False
  then show ?thesis using assms by (simp add: session_for_def path_for_def workspace_kept_refl)
next
  case canonical: True
  show ?thesis
  proof (cases "fmcontains (tn_live s) tenant")
    case True
    then show ?thesis
      using canonical cache_ok_touch [OF assms True]
      by (auto simp: session_for_def path_for_def serves_def fmlookup_dom_iff workspace_kept_refl)
  next
    case False
    obtain r1 s1 w1 where loop: "evict_loop ops s w = Some (r1, s1, w1)" "cache_ok ops s1" "tn_root s1 = tn_root s"
      "tn_capacity s1 = tn_capacity s" "fmdom (tn_live s1) |\<subseteq>| fmdom (tn_live s)"
      "r1 = Inr () \<longrightarrow> fmlen (tn_live s1) < tn_capacity s1"
      "\<And>u. is_canonical_identifier u \<Longrightarrow> workspace_kept dbg ops u (reported dbg r1) (s, w) (s1, w1)"
      using evict_loop_works [OF assms, of w dbg] by blast
    show ?thesis
    proof (cases r1)
      case (Inl e)
      then show ?thesis using loop canonical False by (simp add: session_for_def path_for_def)
    next
      case (Inr _)
      then have room: "fmlen (tn_live s1) < tn_capacity s1" using loop(6) by simp
      obtain r2 s2 w2 where op: "open_session ops tenant (workspace_path (tn_root s1) tenant) s1 w1 = (r2, s2, w2)"
        by (metis prod_cases3)
      have "\<not> fmcontains (tn_live s1) tenant" using False loop(5) by auto
      note eff = open_session_effect [OF loop(2) canonical this room op, of dbg "reported dbg r2"]
      have "session_for ops tenant s w = Some (case r2 of Inl e \<Rightarrow> (Inl e, s2, w2) | Inr _ \<Rightarrow> (Inr (), touch tenant s2, w2))"
        using loop(1,3) canonical False Inr op by (simp add: session_for_def path_for_def split: sum.split)
      moreover have "workspace_kept dbg ops u (reported dbg r2) (s, w) (s2, w2)" if "is_canonical_identifier u" "u \<noteq> tenant" for u
        using workspace_kept_trans [of dbg ops u "[]" "(s, w)" "(s1, w1)" "reported dbg r2" "(s2, w2)"] loop(7) that eff Inr by auto
      ultimately show ?thesis
        using eff loop(2-4) canonical by (cases r2) (auto simp: serves_def fmlookup_dom_iff)
    qed
  qed
qed

lemma cache_ok_reply:
  assumes "cache_ok ops s" and "fmlookup (tn_live s) tenant = Some session" and "opened ops (workspace_path (tn_root s) tenant) session'"
  shows "cache_ok ops (s\<lparr>tn_live := fmupd tenant session' (tn_live s)\<rparr>)"
  using assms by (auto simp: cache_ok_def finsert_absorb fmdomI)

lemma sessions_dispatch_works:
  assumes "cache_ok ops s"
  shows "\<exists>r s' w'. sessions_dispatch dbg ops (s, w) tenant tool args = Some (r, (s', w')) \<and> cache_ok ops s'
    \<and> tn_capacity s' = tn_capacity s \<and> tn_root s' = tn_root s
    \<and> (\<forall>u. is_canonical_identifier u \<longrightarrow> u \<noteq> tenant \<longrightarrow>
          workspace_kept dbg ops u (case r of Inl e \<Rightarrow> [e] | Inr _ \<Rightarrow> []) (s, w) (s', w'))"
proof -
  obtain r1 s1 w1 where get: "session_for ops tenant s w = Some (r1, s1, w1)" "cache_ok ops s1" "tn_capacity s1 = tn_capacity s"
    "r1 = Inr () \<longrightarrow> serves tenant s1"
    "\<And>u. is_canonical_identifier u \<Longrightarrow> u \<noteq> tenant \<Longrightarrow> workspace_kept dbg ops u (reported dbg r1) (s, w) (s1, w1)"
    and root: "tn_root s1 = tn_root s"
    using session_for_works [OF assms, of tenant w dbg] by blast
  show ?thesis
  proof (cases r1)
    case (Inl e)
    then show ?thesis using get root by (simp add: sessions_dispatch_def)
  next
    case (Inr _)
    then obtain session where live: "fmlookup (tn_live s1) tenant = Some session" using get(4) by (auto simp: serves_def)
    obtain resp session' w2 where run: "co_handle ops session tool args w1 = (resp, session', w2)" by (metis prod_cases3)
    let ?s2 = "s1\<lparr>tn_live := fmupd tenant session' (tn_live s1)\<rparr>"
    have own: "is_canonical_identifier tenant" "opened ops (workspace_path (tn_root s1) tenant) session"
      using get(2) live by (auto simp: cache_ok_def)
    have "cache_ok ops ?s2" using cache_ok_reply [OF get(2) live opened_handle [OF own(2) run]] .
    moreover have "workspace_kept dbg ops u errors (s, w) (?s2, w2)" if "is_canonical_identifier u" "u \<noteq> tenant" for u errors
    proof -
      have "workspace_path (tn_root s1) tenant \<noteq> workspace_path (tn_root s1) u" using own that workspace_path_inj by simp
      from elsewhere_one [OF else_handle [OF this own(2) run]] have "workspace_kept dbg ops u errors (s1, w1) (?s2, w2)"
        using that by (intro workspace_kept_elsewhere) simp_all
      then show ?thesis using workspace_kept_trans [of dbg ops u "[]" "(s, w)" "(s1, w1)" errors] get(5) [OF that] Inr by simp
    qed
    moreover have "\<exists>r. sessions_dispatch dbg ops (s, w) tenant tool args = Some (r, (?s2, w2))"
      using get(1) Inr live run by (simp add: sessions_dispatch_def)
    ultimately show ?thesis using get(3) root by auto
  qed
qed

interpretation sessions: tenant_backend "sessions_dispatch dbg ops" "workspace_kept dbg ops"
  "\<lambda>(s, w). cache_ok ops s \<and> tn_capacity s = cap \<and> tn_root s = root"
  for dbg and ops :: "('s, 'w, 'v) core_ops" and cap root
proof (unfold_locales, goal_cases)
  case (1 b t tool args)
  then show ?case using sessions_dispatch_works [of ops "fst b" dbg "snd b" t tool args] by (cases b) auto
next
  case (2 b t tool args r b' u)
  then show ?case using sessions_dispatch_works [of ops "fst b" dbg "snd b" t tool args] by (cases b; cases b') auto
qed (rule workspace_kept_refl, rule workspace_kept_trans)

end
