(* ===== verification/Session_Properties.thy ===== *)
theory Session_Properties
  imports Sessions
begin

section \<open>What the governed front door shows over tenant sessions\<close>

text \<open>
  The facts of the interpretation \<open>sessions\<close> over sequences of calls, with nothing assumed of Core: every call
  is answered, the cache stays within its capacity, and calls under other organizations' credentials leave
  a tenant's session and workspace alone but for one checkpoint. The last property is the one loss the
  cache admits: a failed checkpoint during eviction.
\<close>

lemma cache_ok_new: "cache_ok ops (sessions_with_capacity root cap)"
  by (simp add: cache_ok_def sessions_with_capacity_def)

lemma serve_fresh:
  "\<exists>outs d' s' w'. serve (sessions_dispatch dbg ops) sha calls d (sessions_with_capacity root cap, w) = Some (outs, d', (s', w'))
    \<and> length outs = length calls \<and> cache_ok ops s' \<and> tn_capacity s' = max cap 1 \<and> tn_root s' = root"
  using sessions.serve_returns [of ops "max cap 1" root "(sessions_with_capacity root cap, w)" dbg sha calls d]
  by (auto simp: cache_ok_new) (auto simp: sessions_with_capacity_def)

lemma set_backend_errors: "e \<in> set (backend_errors outs) \<longleftrightarrow> BackendError e \<in> set outs"
  by (auto simp: backend_errors_def split: mcp_outcome.splits)

subsection \<open>Properties\<close>

text \<open>
  C20: Every sequence of calls to a front door over a fresh session cache is answered, one outcome per call, for
  every Core: nothing is assumed of what its operations return or do. The loop that evicts until there is
  room always ends. Afterwards at most \<open>max capacity 1\<close> sessions are open, all under canonical tenant names, each
  a session that Core opened at the workspace path of that very tenant.
\<close>

theorem every_call_answered:
  "\<exists>outs d' s' w'. serve (sessions_dispatch dbg ops) sha calls d (sessions_with_capacity root cap, w) = Some (outs, d', (s', w'))
    \<and> length outs = length calls \<and> length (live_tenants s') \<le> max cap 1
    \<and> list_all (\<lambda>t. is_canonical_identifier t
        \<and> (\<exists>session. fmlookup (tn_live s') t = Some session \<and> opened ops (workspace_path root t) session)) (live_tenants s')"
proof -
  obtain outs d' s' w' where run: "serve (sessions_dispatch dbg ops) sha calls d (sessions_with_capacity root cap, w) = Some (outs, d', (s', w'))"
    "length outs = length calls" "cache_ok ops s'" "tn_capacity s' = max cap 1" "tn_root s' = root"
    using serve_fresh [of dbg ops sha calls d root cap w] by blast
  have "length (live_tenants s') \<le> max cap 1"
    using run(3,4) by (simp add: cache_ok_def live_tenants_def sorted_list_of_fset.rep_eq fcard.rep_eq)
  moreover have "list_all (\<lambda>t. is_canonical_identifier t
      \<and> (\<exists>session. fmlookup (tn_live s') t = Some session \<and> opened ops (workspace_path root t) session)) (live_tenants s')"
    using run(3,5) by (auto simp: cache_ok_def live_tenants_def list_all_iff fmlookup_dom_iff)
  ultimately show ?thesis using run(1,2) by blast
qed

text \<open>
  C8: Tenant isolation of the session layer, for every Core. After any calls to a front door over a fresh cache,
  take further calls, all under credentials whose organization does not own tenant \<open>u\<close>. The governed state of
  \<open>u\<close> does not change, and either the cache entry of \<open>u\<close> is what it was and every operation Core performed was
  on another tenant's directory, path or session; or the session of \<open>u\<close>, opened at the workspace path of
  \<open>u\<close>, was evicted: checkpointed once and closed, Core working elsewhere before and after, and if
  that checkpoint failed, one of the calls was answered with the backend error that says so.
\<close>

theorem foreign_memory_untouched:
  assumes "serve (sessions_dispatch dbg ops) sha earlier d0 (sessions_with_capacity root cap, w0) = Some (outs0, d, (s, w))"
    and "serve (sessions_dispatch dbg ops) sha calls d (s, w) = Some (outs, d', (s', w'))"
    and "is_canonical_identifier u"
    and "list_all (\<lambda>(now, c, args). fmlookup (d_tenant_owner d) (TenantId u) \<noteq> Some (aa_org (c_actor c))) calls"
  shows "fmlookup (d_tenants d') (TenantId u) = fmlookup (d_tenants d) (TenantId u)
    \<and> (fmlookup (tn_live s') u = fmlookup (tn_live s) u \<and> elsewhere ops root u w w'
       \<or> (\<exists>session r session' w1 w2. fmlookup (tn_live s) u = Some session \<and> opened ops (workspace_path root u) session
           \<and> fmlookup (tn_live s') u = None
           \<and> elsewhere ops root u w w1 \<and> co_checkpoint ops session w1 = (r, session', w2) \<and> elsewhere ops root u w2 w'
           \<and> (\<forall>e. r = Inl e \<longrightarrow>
                BackendError (session_error_text dbg (CoreError u (''checkpoint: '' @ e))) \<in> set outs)))"
proof -
  have ok: "cache_ok ops s" "tn_root s = root" "tn_capacity s = max cap 1"
    using serve_fresh [of dbg ops sha earlier d0 root cap w0] assms(1) by auto
  have "workspace_kept dbg ops u (backend_errors outs) (s, w) (s', w')"
    and tenants: "fmlookup (d_tenants d') (TenantId u) = fmlookup (d_tenants d) (TenantId u)"
    using sessions.serve_keeps [of ops "max cap 1" root "(s, w)" u dbg sha calls d outs d' "(s', w')"] ok assms(2-4) by simp_all
  moreover have "opened ops (workspace_path root u) session" if "fmlookup (tn_live s) u = Some session" for session
    using ok that by (auto simp: cache_ok_def)
  ultimately show ?thesis
    unfolding workspace_kept_def set_backend_errors fst_conv snd_conv ok(2) by blast
qed

text \<open>
  C40: A failed checkpoint during eviction loses memory. When the cache is full, a call for a tenant that is not
  open evicts the least recently used session; if its checkpoint fails, the call is refused, but the
  session has left the cache already: the victim's next call reopens what was last stored, and what its
  session held since then is gone.
\<close>

theorem failed_eviction_forgets:
  assumes "tn_capacity s \<le> fmlen (tn_live s)" and "tn_lru s = victim # rest" and "fmlookup (tn_live s) victim = Some session"
    and "is_canonical_identifier tenant" and "\<not> fmcontains (tn_live s) tenant"
    and "co_checkpoint ops session w = (Inl e, session', w')"
    and "stored (workspace_path (tn_root s) victim) w' = stored (workspace_path (tn_root s) victim) w"
  shows "\<exists>s'. sessions_dispatch dbg ops (s, w) tenant tool args
      = Some (Inl (session_error_text dbg (CoreError victim (''checkpoint: '' @ e))), (s', w'))
    \<and> tenant_memory stored memory (s, w) victim = memory session
    \<and> tenant_memory stored memory (s', w') victim = stored (workspace_path (tn_root s) victim) w"
proof -
  let ?s = "s\<lparr>tn_lru := rest, tn_live := fmdrop victim (tn_live s)\<rparr>"
  have "evict_one ops s w = (Inl (CoreError victim (''checkpoint: '' @ e)), ?s, w')"
    using assms(2,3,6) by (simp add: evict_one_def checkpoint_session_def Let_def)
  then have "evict_loop ops s w = Some (Inl (CoreError victim (''checkpoint: '' @ e)), ?s, w')"
    using assms(1) by (subst evict_loop.simps) simp
  then have "sessions_dispatch dbg ops (s, w) tenant tool args
      = Some (Inl (session_error_text dbg (CoreError victim (''checkpoint: '' @ e))), (?s, w'))"
    using assms(4,5) by (simp add: sessions_dispatch_def session_for_def path_for_def)
  then show ?thesis using assms(3,7) by (simp add: tenant_memory_def)
qed

subsection \<open>Witnesses\<close>

text \<open>
  A Core whose sessions are a path and a string: opening reads the file, a checkpoint writes it unless the disk
  is full, and every tool appends its argument and answers with what was held.
\<close>

definition string_core :: "bool \<Rightarrow> (str \<times> str, str \<Rightarrow> str, str) core_ops" where
  "string_core full =
     \<lparr>co_mkdir = \<lambda>p w. (Inr (), w),
      co_open = \<lambda>p w. (Inr (p, w p), w),
      co_checkpoint = \<lambda>s w. if full then (Inl ''full'', s, w) else (Inr (), s, w(fst s := snd s)),
      co_handle = \<lambda>s tool args w. (Some \<lparr>rs_error = None, rs_result = Some (snd s)\<rparr>, (fst s, snd s @ args), w)\<rparr>"

definition one_open :: "(str \<times> str) tenant_sessions" where
  "one_open = \<lparr>tn_root = ''data'', tn_capacity = 1, tn_live = fmupd ''initech'' (''data/initech/workspace.ccos'', ''kept'') fmempty,
     tn_lru = [''initech''], tn_evictions = 0, tn_opens = 1\<rparr>"

lemma tenant_names [simp]: "is_canonical_identifier ''acme''" "is_canonical_identifier ''initech''"
  by code_simp+

theorem foreign_memory_untouched_witness:
  "\<exists>outs0 d s w outs d' s' w'.
     serve (sessions_dispatch id (string_core False)) id [(0, alice_call ''memory.recall'' ''r1'' 1, ''x'')]
       two_tenant_deployment (sessions_with_capacity ''data'' 1, \<lambda>p. []) = Some (outs0, d, (s, w))
   \<and> serve (sessions_dispatch id (string_core False)) id
       [(0, alice_call ''memory.recall'' ''r2'' 1\<lparr>c_actor := asserted ''rival'' ''alice'' Token\<rparr>, ''y'')] d (s, w)
     = Some (outs, d', (s', w'))
   \<and> fmlookup (d_tenants d') (TenantId ''acme'') = fmlookup (d_tenants d) (TenantId ''acme'')"
proof -
  let ?dispatch = "sessions_dispatch id (string_core False)"
  let ?first = "alice_call ''memory.recall'' ''r1'' 1"
  let ?rival = "alice_call ''memory.recall'' ''r2'' 1\<lparr>c_actor := asserted ''rival'' ''alice'' Token\<rparr>"
  let ?fresh = "(sessions_with_capacity ''data'' 1, \<lambda>p. [])"
  have fresh: "cache_ok (string_core False) (sessions_with_capacity ''data'' 1)
      \<and> tn_capacity (sessions_with_capacity ''data'' 1) = 1 \<and> tn_root (sessions_with_capacity ''data'' 1) = ''data''"
    by (simp add: cache_ok_new) (simp add: sessions_with_capacity_def)
  then obtain out d s w where one: "mcp_call ?dispatch id 0 ?first ''x'' two_tenant_deployment ?fresh = Some (out, d, (s, w))"
    "d = snd (admit id 0 ?first two_tenant_deployment)" "cache_ok (string_core False) s \<and> tn_capacity s = 1 \<and> tn_root s = ''data''"
    using sessions.call_returns [of "string_core False" 1 "''data''" ?fresh id id 0 ?first "''x''" two_tenant_deployment] by auto
  have earlier: "serve ?dispatch id [(0, ?first, ''x'')] two_tenant_deployment ?fresh = Some ([out], d, (s, w))"
    using one(1) by simp
  obtain outs d' s' w' where run: "serve ?dispatch id [(0, ?rival, ''y'')] d (s, w) = Some (outs, d', (s', w'))"
    using one(3) sessions.serve_returns [of "string_core False" 1 "''data''" "(s, w)" id id "[(0, ?rival, ''y'')]" d] by auto
  have "list_all (\<lambda>(now, c, args). fmlookup (d_tenant_owner d) (TenantId ''acme'') \<noteq> Some (aa_org (c_actor c))) [(0 :: u64, ?rival, ''y'')]"
    using one(2) by (simp add: two_tenant_deployment_eq asserted_def)
  from foreign_memory_untouched [OF earlier run tenant_names(1) this] show ?thesis using earlier run by blast
qed

theorem failed_eviction_forgets_witness:
  "\<exists>err s'. sessions_dispatch id (string_core True) (one_open, \<lambda>p. []) ''acme'' ''recall'' [] = Some (Inl err, (s', \<lambda>p. []))
    \<and> tenant_memory (\<lambda>p w. w p) snd (one_open, \<lambda>p. []) ''initech'' = ''kept''
    \<and> tenant_memory (\<lambda>p w. w p) snd (s', \<lambda>p. []) ''initech'' = []"
proof -
  let ?session = "(''data/initech/workspace.ccos'', ''kept'')"
  have "tn_capacity one_open \<le> fmlen (tn_live one_open)" "tn_lru one_open = [''initech'']"
    "fmlookup (tn_live one_open) ''initech'' = Some ?session" "\<not> fmcontains (tn_live one_open) ''acme''"
    "co_checkpoint (string_core True) ?session (\<lambda>p. []) = (Inl ''full'', ?session, \<lambda>p. [])"
    by (simp_all add: one_open_def string_core_def fcard_finsert_if)
  from failed_eviction_forgets [OF this(1-3) tenant_names(1) this(4,5), of "\<lambda>p w. w p" id "''recall''" "[]" snd]
  show ?thesis by auto
qed

end
