(* ===== verification/Knowledge_Model.thy ===== *)
theory Knowledge_Model
  imports Tenancy
begin

section \<open>The data model of the Knowledge Plane (crates/ccos-enterprise-knowledge-model)\<close>

text \<open>
  Identifiers are newtypes of \<open>String\<close> ordered as strings and are kept as strings; instants are signed
  milliseconds that are only compared. A \<open>serde_json::Value\<close> is a datatype over a type of numbers; the
  text of a number, the escaping of a string and the JSON parser are parameters.
\<close>

type_synonym entity_id = str
type_synonym fact_id = str
type_synonym relation_id = str
type_synonym source_id = str
type_synonym evidence_id = str
type_synonym conflict_id = str
type_synonym unix_millis = int

subsection \<open>Valid time\<close>

record validity_interval =
  vi_from :: "unix_millis option"
  vi_until :: "unix_millis option"

datatype temporal_error = EmptyOrNegativeInterval unix_millis unix_millis

definition unbounded :: validity_interval where
  "unbounded = \<lparr>vi_from = None, vi_until = None\<rparr>"

definition interval_validate :: "validity_interval \<Rightarrow> temporal_error + unit" where
  "interval_validate v =
     (case (vi_from v, vi_until v) of
        (Some a, Some b) \<Rightarrow> if b \<le> a then Inl (EmptyOrNegativeInterval a b) else Inr ()
      | _ \<Rightarrow> Inr ())"

definition interval_contains :: "validity_interval \<Rightarrow> unix_millis \<Rightarrow> bool" where
  "interval_contains v at \<longleftrightarrow>
     (case vi_from v of None \<Rightarrow> True | Some a \<Rightarrow> a \<le> at) \<and> (case vi_until v of None \<Rightarrow> True | Some b \<Rightarrow> at < b)"

definition interval_overlaps :: "validity_interval \<Rightarrow> validity_interval \<Rightarrow> bool" where
  "interval_overlaps v w \<longleftrightarrow>
     \<not> (case (vi_until v, vi_from w) of (Some b, Some a) \<Rightarrow> b \<le> a | _ \<Rightarrow> False)
     \<and> \<not> (case (vi_until w, vi_from v) of (Some b, Some a) \<Rightarrow> b \<le> a | _ \<Rightarrow> False)"

subsection \<open>Records\<close>

datatype source_trust = TrustAuthoritative | TrustInternal | TrustExternal | Untrusted

datatype assertion_kind = Authoritative | Observation | Inference | LlmOutput

record source_record =
  src_id :: source_id
  src_tenant :: tenant_id
  src_locator :: str
  src_content_hash :: "str option"
  src_trust :: source_trust

record evidence_record =
  evd_id :: evidence_id
  evd_tenant :: tenant_id
  evd_source :: source_id
  evd_locator :: "str option"
  evd_content_hash :: "str option"

record entity_record =
  ent_id :: entity_id
  ent_tenant :: tenant_id
  ent_namespace :: "str option"
  ent_type :: str
  ent_label :: "str option"
  ent_evidence :: "evidence_id fset"
  ent_kind :: assertion_kind

datatype canonical_literal =
    LiteralNull
  | LiteralBool bool
  | LiteralNumber str
  | LiteralString str
  | LiteralJson str

datatype fact_object = ObjectEntity entity_id | ObjectLiteral str | ObjectTyped canonical_literal

record fact_assertion =
  fa_id :: fact_id
  fa_tenant :: tenant_id
  fa_subject :: entity_id
  fa_predicate :: str
  fa_object :: fact_object
  fa_validity :: validity_interval
  fa_evidence :: "evidence_id fset"
  fa_kind :: assertion_kind

record fact_record =
  fct_assertion :: fact_assertion
  fct_asserted_at :: u64
  fct_invalidated_at :: "u64 option"

definition visible_at_transaction :: "fact_record \<Rightarrow> u64 \<Rightarrow> bool" where
  "visible_at_transaction r sequence \<longleftrightarrow>
     fct_asserted_at r \<le> sequence \<and> (case fct_invalidated_at r of None \<Rightarrow> True | Some at \<Rightarrow> sequence < at)"

definition visible_at :: "fact_record \<Rightarrow> unix_millis \<Rightarrow> u64 \<Rightarrow> bool" where
  "visible_at r valid_time sequence \<longleftrightarrow>
     visible_at_transaction r sequence \<and> interval_contains (fa_validity (fct_assertion r)) valid_time"

record relation_assertion =
  ra_id :: relation_id
  ra_tenant :: tenant_id
  ra_from :: entity_id
  ra_relation :: str
  ra_to :: entity_id
  ra_validity :: validity_interval
  ra_evidence :: "evidence_id fset"
  ra_kind :: assertion_kind

record relation_record =
  rlr_assertion :: relation_assertion
  rlr_asserted_at :: u64
  rlr_invalidated_at :: "u64 option"

datatype conflict_reason = CompetingObjects entity_id str

datatype conflict_resolution = PreferFact fact_id | SupersededBy fact_id | Dismissed str

record conflict_record =
  cnf_id :: conflict_id
  cnf_tenant :: tenant_id
  cnf_facts :: "fact_id fset"
  cnf_reason :: conflict_reason
  cnf_detected_at :: u64
  cnf_resolution :: "conflict_resolution option"
  cnf_resolved_at :: "u64 option"

subsection \<open>Canonical literals\<close>

datatype 'n json_value =
    JNull
  | JBool bool
  | JNumber 'n
  | JString str
  | JArray "'n json_value list"
  | JObject "(str \<times> 'n json_value) list"

datatype literal_error = InvalidNumber str | InvalidJson str

text \<open>The separated, bracketed output of the array and object branches; the first error ends it.\<close>

fun comma_separated :: "('e + str) list \<Rightarrow> 'e + str" where
  "comma_separated [] = Inr []"
| "comma_separated [r] = r"
| "comma_separated (r # rs) = res_bind r (\<lambda>s. res_bind (comma_separated rs) (\<lambda>t. Inr (s @ '','' @ t)))"

text \<open>
  A member of an object is written with its key, and the members are put in the order of their keys
  before they are joined; writing has no other effect, so this is the loop over the sorted keys.
\<close>

primrec write_canonical_json ::
  "('n \<Rightarrow> str) \<Rightarrow> (str \<Rightarrow> literal_error + str) \<Rightarrow> 'n json_value \<Rightarrow> literal_error + str" where
  "write_canonical_json number escape JNull = Inr ''null''"
| "write_canonical_json number escape (JBool b) = Inr (if b then ''true'' else ''false'')"
| "write_canonical_json number escape (JNumber n) = Inr (number n)"
| "write_canonical_json number escape (JString s) = escape s"
| "write_canonical_json number escape (JArray vs) =
     res_bind (comma_separated (map (write_canonical_json number escape) vs)) (\<lambda>s. Inr (''['' @ s @ '']''))"
| "write_canonical_json number escape (JObject kvs) =
     res_bind (comma_separated (map (\<lambda>(key, r). res_bind (escape key) (\<lambda>k. res_bind r (\<lambda>v. Inr (k @ '':'' @ v))))
         (sort_key fst (map (map_prod id (write_canonical_json number escape)) kvs))))
       (\<lambda>s. Inr (''{'' @ s @ ''}''))"

definition canonical_json ::
  "(str \<Rightarrow> str + 'n json_value) \<Rightarrow> ('n \<Rightarrow> str) \<Rightarrow> (str \<Rightarrow> literal_error + str) \<Rightarrow> str \<Rightarrow> literal_error + str" where
  "canonical_json from_str number escape s =
     (case from_str s of Inl e \<Rightarrow> Inl (InvalidJson e) | Inr v \<Rightarrow> write_canonical_json number escape v)"

definition canonical_number :: "(str \<Rightarrow> str + 'n json_value) \<Rightarrow> ('n \<Rightarrow> str) \<Rightarrow> str \<Rightarrow> literal_error + str" where
  "canonical_number from_str number s =
     (case from_str s of Inr (JNumber n) \<Rightarrow> Inr (number n) | _ \<Rightarrow> Inl (InvalidNumber s))"

subsection \<open>Intervals\<close>

text \<open>On non-empty intervals, \<open>overlaps\<close> says exactly that some instant lies in both.\<close>

lemma interval_overlaps_iff:
  assumes "interval_validate v = Inr ()" and "interval_validate w = Inr ()"
  shows "interval_overlaps v w \<longleftrightarrow> (\<exists>at. interval_contains v at \<and> interval_contains w at)"
proof
  let ?at = "case (vi_from v, vi_from w) of
      (Some a, Some b) \<Rightarrow> max a b | (Some a, None) \<Rightarrow> a | (None, Some b) \<Rightarrow> b
    | (None, None) \<Rightarrow> (case (vi_until v, vi_until w) of
        (Some a, Some b) \<Rightarrow> min a b - 1 | (Some a, None) \<Rightarrow> a - 1 | (None, Some b) \<Rightarrow> b - 1 | _ \<Rightarrow> 0)"
  assume "interval_overlaps v w"
  then have "interval_contains v ?at \<and> interval_contains w ?at"
    using assms by (auto simp: interval_overlaps_def interval_contains_def interval_validate_def split: option.splits if_splits)
  then show "\<exists>at. interval_contains v at \<and> interval_contains w at" by blast
next
  assume "\<exists>at. interval_contains v at \<and> interval_contains w at"
  then show "interval_overlaps v w"
    by (auto simp: interval_overlaps_def interval_contains_def split: option.splits)
qed

subsection \<open>Canonical text\<close>

text \<open>The value with the members of every object in the order of their keys.\<close>

primrec sort_members :: "'n json_value \<Rightarrow> 'n json_value" where
  "sort_members JNull = JNull"
| "sort_members (JBool b) = JBool b"
| "sort_members (JNumber n) = JNumber n"
| "sort_members (JString s) = JString s"
| "sort_members (JArray vs) = JArray (map sort_members vs)"
| "sort_members (JObject kvs) = JObject (sort_key fst (map (map_prod id sort_members) kvs))"

text \<open>Equality of JSON values up to the order of object members.\<close>

definition same_json :: "'n json_value \<Rightarrow> 'n json_value \<Rightarrow> bool" where
  "same_json v w \<longleftrightarrow> sort_members v = sort_members w"

lemma insort_members: "insort_key fst (map_prod id f x) (map (map_prod id f) ys) = map (map_prod id f) (insort_key fst x ys)"
  by (induction ys) auto

lemma sort_members_map: "sort_key fst (map (map_prod id f) kvs) = map (map_prod id f) (sort_key fst kvs)"
proof (induction kvs)
  case (Cons kv kvs)
  then show ?case by (simp only: list.map sort_key_simps insort_members)
qed simp

lemma sort_members_twice:
  assumes "\<And>k v. (k, v) \<in> set kvs \<Longrightarrow> f (g v) = f v"
  shows "sort_key fst (map (map_prod id f) (sort_key fst (map (map_prod id g) kvs))) = sort_key fst (map (map_prod id f) kvs)"
proof -
  have "sort_key fst (map (map_prod id f) (sort_key fst (map (map_prod id g) kvs)))
      = map (map_prod id f) (map (map_prod id g) (sort_key fst kvs))"
    by (simp only: sort_members_map) (simp add: sort_key_id_if_sorted)
  also have "\<dots> = map (map_prod id f) (sort_key fst kvs)" using assms by auto
  finally show ?thesis by (simp only: sort_members_map)
qed

text \<open>The text depends on a value only up to the order of the members of its objects.\<close>

lemma write_sort_members [simp]: "write_canonical_json number escape (sort_members v) = write_canonical_json number escape v"
proof (induction v)
  case (JArray vs)
  then have "map (write_canonical_json number escape) (map sort_members vs) = map (write_canonical_json number escape) vs" by simp
  then show ?case by (simp only: sort_members.simps write_canonical_json.simps)
next
  case (JObject kvs)
  then have "sort_key fst (map (map_prod id (write_canonical_json number escape)) (sort_key fst (map (map_prod id sort_members) kvs)))
      = sort_key fst (map (map_prod id (write_canonical_json number escape)) kvs)"
    by (intro sort_members_twice) auto
  then show ?case by (simp only: sort_members.simps write_canonical_json.simps)
qed simp_all

lemma sort_members_idem [simp]: "sort_members (sort_members v) = sort_members v"
proof (induction v)
  case (JObject kvs)
  then have "sort_key fst (map (map_prod id sort_members) (sort_key fst (map (map_prod id sort_members) kvs)))
      = sort_key fst (map (map_prod id sort_members) kvs)"
    by (intro sort_members_twice) auto
  then show ?case by (simp only: sort_members.simps)
qed simp_all

lemma write_same_json:
  "same_json v w \<Longrightarrow> write_canonical_json number escape v = write_canonical_json number escape w"
  by (metis same_json_def write_sort_members)

text \<open>
  Where the parser reads a canonical text back as the value with its members in order, canonical text is a
  fixed point of \<open>CanonicalJson::new\<close>: deserializing a journal gives the same literals.
\<close>

lemma canonical_json_fixed:
  assumes "\<And>v t. write_canonical_json number escape v = Inr t \<Longrightarrow> from_str t = Inr (sort_members v)"
    and "canonical_json from_str number escape s = Inr t"
  shows "canonical_json from_str number escape t = Inr t"
  using assms(2) assms(1) by (auto simp: canonical_json_def split: sum.splits)

end
