(* ===== verification/Knowledge.thy ===== *)
theory Knowledge
  imports Knowledge_Model
begin

section \<open>The canonical state of the Knowledge Plane (crates/ccos-enterprise-knowledge)\<close>

text \<open>
  The event-sourced state: one partition per tenant, changed only by \<open>apply\<close>, which takes the entries of a
  dense journal. A method on \<open>&mut self\<close> returns its result and the state it leaves behind, also when it
  fails. The crate \<open>sha2\<close> and the JSON rendering of a state are parameters.
\<close>

datatype knowledge_op =
    RegisterSource source_record
  | AddEvidence evidence_record
  | AddEntity entity_record
  | AssertFact fact_assertion
  | InvalidateFact tenant_id fact_id
  | AssertRelation relation_assertion
  | InvalidateRelation tenant_id relation_id
  | ResolveConflict tenant_id conflict_id conflict_resolution

record knowledge_entry =
  ke_sequence :: u64
  ke_op :: knowledge_op

record tenant_knowledge =
  tk_sources :: "(source_id, source_record) fmap"
  tk_evidence :: "(evidence_id, evidence_record) fmap"
  tk_entities :: "(entity_id, entity_record) fmap"
  tk_facts :: "(fact_id, fact_record) fmap"
  tk_relations :: "(relation_id, relation_record) fmap"
  tk_conflicts :: "(conflict_id, conflict_record) fmap"

definition tenant_knowledge_default :: tenant_knowledge where
  "tenant_knowledge_default = \<lparr>tk_sources = fmempty, tk_evidence = fmempty, tk_entities = fmempty,
     tk_facts = fmempty, tk_relations = fmempty, tk_conflicts = fmempty\<rparr>"

record knowledge_state =
  ks_next_sequence :: u64
  ks_tenants :: "(tenant_id, tenant_knowledge) fmap"

datatype knowledge_error =
    JournalDiscontinuity u64 u64
  | InvalidIdentifier str
  | InvalidPredicate
  | MissingEvidence
  | KnowledgeDuplicate str str
  | KnowledgeUnknownTenant
  | UnknownSource source_id
  | UnknownEvidence evidence_id
  | UnknownEntity entity_id
  | UnknownFact fact_id
  | UnknownRelation relation_id
  | UnknownConflict conflict_id
  | AlreadyInvalidated str str
  | InvalidTemporalRange
  | ResolutionFactNotInConflict fact_id
  | ResolutionFactNotCurrent fact_id
  | KnowledgeSerialization str

fun knowledge_error_text :: "knowledge_error \<Rightarrow> str" where
  "knowledge_error_text (JournalDiscontinuity expected found) =
     ''journal sequence '' @ show_nat (unat found) @ '' does not continue '' @ show_nat (unat expected)"
| "knowledge_error_text (InvalidIdentifier kind) = kind @ '' identifier is empty''"
| "knowledge_error_text InvalidPredicate = ''predicate/relation name is empty''"
| "knowledge_error_text MissingEvidence = ''knowledge assertion has no evidence''"
| "knowledge_error_text (KnowledgeDuplicate kind i) = ''duplicate '' @ kind @ '' id '' @ i"
| "knowledge_error_text KnowledgeUnknownTenant = ''tenant knowledge partition does not exist''"
| "knowledge_error_text (UnknownSource i) = ''unknown source '' @ i"
| "knowledge_error_text (UnknownEvidence i) = ''unknown evidence '' @ i"
| "knowledge_error_text (UnknownEntity i) = ''unknown entity '' @ i"
| "knowledge_error_text (UnknownFact i) = ''unknown fact '' @ i"
| "knowledge_error_text (UnknownRelation i) = ''unknown relation '' @ i"
| "knowledge_error_text (UnknownConflict i) = ''unknown conflict '' @ i"
| "knowledge_error_text (AlreadyInvalidated kind i) = kind @ '' '' @ i @ '' is already invalidated''"
| "knowledge_error_text InvalidTemporalRange = ''invalid valid-time interval''"
| "knowledge_error_text (ResolutionFactNotInConflict i) = ''resolution fact '' @ i @ '' is not a member of the conflict''"
| "knowledge_error_text (ResolutionFactNotCurrent i) = ''resolution fact '' @ i @ '' is not current''"
| "knowledge_error_text (KnowledgeSerialization detail) = ''canonical serialization failed: '' @ detail"

type_synonym knowledge_change = "(knowledge_error + unit) \<times> knowledge_state"

definition knowledge_new :: knowledge_state where
  "knowledge_new = \<lparr>ks_next_sequence = 0, ks_tenants = fmempty\<rparr>"

subsection \<open>Checks\<close>

definition require_id :: "str \<Rightarrow> str \<Rightarrow> knowledge_error + unit" where
  "require_id kind v = (if trim v = [] then Inl (InvalidIdentifier kind) else Inr ())"

definition require_predicate :: "str \<Rightarrow> knowledge_error + unit" where
  "require_predicate v = (if trim v = [] then Inl InvalidPredicate else Inr ())"

definition require_evidence :: "evidence_id fset \<Rightarrow> knowledge_error + unit" where
  "require_evidence evidence = (if evidence = {||} then Inl MissingEvidence else Inr ())"

definition validate_evidence :: "tenant_knowledge \<Rightarrow> evidence_id fset \<Rightarrow> knowledge_error + unit" where
  "validate_evidence p evidence =
     res_check (\<lambda>i. if fmcontains (tk_evidence p) i then Inr () else Inl (UnknownEvidence i)) (sorted_list_of_fset evidence)"

definition validate_entity :: "tenant_knowledge \<Rightarrow> entity_id \<Rightarrow> knowledge_error + unit" where
  "validate_entity p i = (if fmcontains (tk_entities p) i then Inr () else Inl (UnknownEntity i))"

definition validate_interval :: "validity_interval \<Rightarrow> knowledge_error + unit" where
  "validate_interval v = (case interval_validate v of Inl _ \<Rightarrow> Inl InvalidTemporalRange | Inr _ \<Rightarrow> Inr ())"

definition conflict_id_of :: "(str \<Rightarrow> str) \<Rightarrow> tenant_id \<Rightarrow> entity_id \<Rightarrow> str \<Rightarrow> conflict_id" where
  "conflict_id_of sha tenant subject predicate =
     ''conflict:'' @ hex (sha (as_str tenant @ [CHR 0x00] @ subject @ [CHR 0x00] @ predicate))"

text \<open>The operator \<open>?\<close>: an error is returned and the state stays as it is.\<close>

definition or_return :: "knowledge_error + 'a \<Rightarrow> knowledge_state \<Rightarrow> ('a \<Rightarrow> knowledge_change) \<Rightarrow> knowledge_change" where
  "or_return r s k = (case r of Inl e \<Rightarrow> (Inl e, s) | Inr x \<Rightarrow> k x)"

definition put_partition :: "tenant_id \<Rightarrow> tenant_knowledge \<Rightarrow> knowledge_state \<Rightarrow> knowledge_state" where
  "put_partition t p s = s\<lparr>ks_tenants := fmupd t p (ks_tenants s)\<rparr>"

definition partition_mut :: "tenant_id \<Rightarrow> knowledge_state \<Rightarrow> knowledge_error + tenant_knowledge" where
  "partition_mut t s = (case fmlookup (ks_tenants s) t of None \<Rightarrow> Inl KnowledgeUnknownTenant | Some p \<Rightarrow> Inr p)"

subsection \<open>Operations\<close>

definition register_source :: "source_record \<Rightarrow> knowledge_state \<Rightarrow> knowledge_change" where
  "register_source src s =
     or_return (require_id ''source'' (src_id src)) s (\<lambda>_.
     or_return (require_id ''tenant'' (as_str (src_tenant src))) s (\<lambda>_.
       if trim (src_locator src) = [] then (Inl (InvalidIdentifier ''source locator''), s)
       else
         let p = fmget_or (ks_tenants s) (src_tenant src) tenant_knowledge_default;
             s = put_partition (src_tenant src) p s in
         if fmcontains (tk_sources p) (src_id src) then (Inl (KnowledgeDuplicate ''source'' (src_id src)), s)
         else (Inr (), put_partition (src_tenant src) (p\<lparr>tk_sources := fmupd (src_id src) src (tk_sources p)\<rparr>) s)))"

definition add_evidence :: "evidence_record \<Rightarrow> knowledge_state \<Rightarrow> knowledge_change" where
  "add_evidence ev s =
     or_return (require_id ''evidence'' (evd_id ev)) s (\<lambda>_.
     or_return (partition_mut (evd_tenant ev) s) s (\<lambda>p.
       if \<not> fmcontains (tk_sources p) (evd_source ev) then (Inl (UnknownSource (evd_source ev)), s)
       else if fmcontains (tk_evidence p) (evd_id ev) then (Inl (KnowledgeDuplicate ''evidence'' (evd_id ev)), s)
       else (Inr (), put_partition (evd_tenant ev) (p\<lparr>tk_evidence := fmupd (evd_id ev) ev (tk_evidence p)\<rparr>) s)))"

definition add_entity :: "entity_record \<Rightarrow> knowledge_state \<Rightarrow> knowledge_change" where
  "add_entity en s =
     or_return (require_id ''entity'' (ent_id en)) s (\<lambda>_.
       if trim (ent_type en) = [] then (Inl (InvalidIdentifier ''entity type''), s)
       else
         or_return (require_evidence (ent_evidence en)) s (\<lambda>_.
         or_return (partition_mut (ent_tenant en) s) s (\<lambda>p.
         or_return (validate_evidence p (ent_evidence en)) s (\<lambda>_.
           if fmcontains (tk_entities p) (ent_id en) then (Inl (KnowledgeDuplicate ''entity'' (ent_id en)), s)
           else (Inr (), put_partition (ent_tenant en) (p\<lparr>tk_entities := fmupd (ent_id en) en (tk_entities p)\<rparr>) s)))))"

definition competes :: "fact_assertion \<Rightarrow> fact_record \<Rightarrow> bool" where
  "competes a existing \<longleftrightarrow>
     fct_invalidated_at existing = None
     \<and> fa_subject (fct_assertion existing) = fa_subject a
     \<and> fa_predicate (fct_assertion existing) = fa_predicate a
     \<and> fa_object (fct_assertion existing) \<noteq> fa_object a
     \<and> interval_overlaps (fa_validity (fct_assertion existing)) (fa_validity a)"

definition competing_facts :: "tenant_knowledge \<Rightarrow> fact_assertion \<Rightarrow> fact_id list" where
  "competing_facts p a = map (\<lambda>r. fa_id (fct_assertion r)) (filter (competes a) (map snd (sorted_list_of_fmap (tk_facts p))))"

definition note_conflict ::
  "(str \<Rightarrow> str) \<Rightarrow> fact_assertion \<Rightarrow> u64 \<Rightarrow> fact_id list \<Rightarrow> tenant_knowledge \<Rightarrow> tenant_knowledge" where
  "note_conflict sha a sequence competing p =
     (let cid = conflict_id_of sha (fa_tenant a) (fa_subject a) (fa_predicate a);
          c = fmget_or (tk_conflicts p) cid
                \<lparr>cnf_id = cid, cnf_tenant = fa_tenant a, cnf_facts = {||},
                 cnf_reason = CompetingObjects (fa_subject a) (fa_predicate a), cnf_detected_at = sequence,
                 cnf_resolution = None, cnf_resolved_at = None\<rparr>;
          c = c\<lparr>cnf_facts := finsert (fa_id a) (cnf_facts c |\<union>| fset_of_list competing),
                cnf_resolution := None, cnf_resolved_at := None\<rparr>
      in p\<lparr>tk_conflicts := fmupd cid c (tk_conflicts p)\<rparr>)"

definition assert_fact :: "(str \<Rightarrow> str) \<Rightarrow> fact_assertion \<Rightarrow> u64 \<Rightarrow> knowledge_state \<Rightarrow> knowledge_change" where
  "assert_fact sha a sequence s =
     or_return (require_id ''fact'' (fa_id a)) s (\<lambda>_.
     or_return (require_predicate (fa_predicate a)) s (\<lambda>_.
     or_return (require_evidence (fa_evidence a)) s (\<lambda>_.
     or_return (validate_interval (fa_validity a)) s (\<lambda>_.
     or_return (partition_mut (fa_tenant a) s) s (\<lambda>p.
     or_return (validate_evidence p (fa_evidence a)) s (\<lambda>_.
     or_return (validate_entity p (fa_subject a)) s (\<lambda>_.
     or_return (case fa_object a of ObjectEntity target \<Rightarrow> validate_entity p target | _ \<Rightarrow> Inr ()) s (\<lambda>_.
       if fmcontains (tk_facts p) (fa_id a) then (Inl (KnowledgeDuplicate ''fact'' (fa_id a)), s)
       else
         let competing = competing_facts p a;
             p = p\<lparr>tk_facts := fmupd (fa_id a) \<lparr>fct_assertion = a, fct_asserted_at = sequence, fct_invalidated_at = None\<rparr>
                   (tk_facts p)\<rparr>;
             p = (if competing = [] then p else note_conflict sha a sequence competing p)
         in (Inr (), put_partition (fa_tenant a) p s)))))))))"

definition invalidate_fact :: "tenant_id \<Rightarrow> fact_id \<Rightarrow> u64 \<Rightarrow> knowledge_state \<Rightarrow> knowledge_change" where
  "invalidate_fact tenant fid sequence s =
     or_return (partition_mut tenant s) s (\<lambda>p.
       case fmlookup (tk_facts p) fid of
         None \<Rightarrow> (Inl (UnknownFact fid), s)
       | Some r \<Rightarrow>
           if fct_invalidated_at r \<noteq> None then (Inl (AlreadyInvalidated ''fact'' fid), s)
           else (Inr (), put_partition tenant
                  (p\<lparr>tk_facts := fmupd fid (r\<lparr>fct_invalidated_at := Some sequence\<rparr>) (tk_facts p)\<rparr>) s))"

definition assert_relation :: "relation_assertion \<Rightarrow> u64 \<Rightarrow> knowledge_state \<Rightarrow> knowledge_change" where
  "assert_relation a sequence s =
     or_return (require_id ''relation'' (ra_id a)) s (\<lambda>_.
     or_return (require_predicate (ra_relation a)) s (\<lambda>_.
     or_return (require_evidence (ra_evidence a)) s (\<lambda>_.
     or_return (validate_interval (ra_validity a)) s (\<lambda>_.
     or_return (partition_mut (ra_tenant a) s) s (\<lambda>p.
     or_return (validate_evidence p (ra_evidence a)) s (\<lambda>_.
     or_return (validate_entity p (ra_from a)) s (\<lambda>_.
     or_return (validate_entity p (ra_to a)) s (\<lambda>_.
       if fmcontains (tk_relations p) (ra_id a) then (Inl (KnowledgeDuplicate ''relation'' (ra_id a)), s)
       else (Inr (), put_partition (ra_tenant a)
              (p\<lparr>tk_relations := fmupd (ra_id a)
                   \<lparr>rlr_assertion = a, rlr_asserted_at = sequence, rlr_invalidated_at = None\<rparr> (tk_relations p)\<rparr>) s)))))))))"

definition invalidate_relation :: "tenant_id \<Rightarrow> relation_id \<Rightarrow> u64 \<Rightarrow> knowledge_state \<Rightarrow> knowledge_change" where
  "invalidate_relation tenant relation sequence s =
     or_return (partition_mut tenant s) s (\<lambda>p.
       case fmlookup (tk_relations p) relation of
         None \<Rightarrow> (Inl (UnknownRelation relation), s)
       | Some r \<Rightarrow>
           if rlr_invalidated_at r \<noteq> None then (Inl (AlreadyInvalidated ''relation'' relation), s)
           else (Inr (), put_partition tenant
                  (p\<lparr>tk_relations := fmupd relation (r\<lparr>rlr_invalidated_at := Some sequence\<rparr>) (tk_relations p)\<rparr>) s))"

fun preferred_fact :: "conflict_resolution \<Rightarrow> fact_id option" where
  "preferred_fact (PreferFact i) = Some i"
| "preferred_fact (SupersededBy i) = Some i"
| "preferred_fact (Dismissed _) = None"

definition check_preferred :: "tenant_knowledge \<Rightarrow> conflict_id \<Rightarrow> fact_id \<Rightarrow> knowledge_error + unit" where
  "check_preferred p conflict i =
     (case fmlookup (tk_conflicts p) conflict of
        None \<Rightarrow> Inl (UnknownConflict conflict)
      | Some c \<Rightarrow>
          if i |\<notin>| cnf_facts c then Inl (ResolutionFactNotInConflict i)
          else (case fmlookup (tk_facts p) i of
                  None \<Rightarrow> Inl (UnknownFact i)
                | Some r \<Rightarrow> if fct_invalidated_at r \<noteq> None then Inl (ResolutionFactNotCurrent i) else Inr ()))"

definition resolve_conflict ::
  "tenant_id \<Rightarrow> conflict_id \<Rightarrow> conflict_resolution \<Rightarrow> u64 \<Rightarrow> knowledge_state \<Rightarrow> knowledge_change" where
  "resolve_conflict tenant conflict resolution sequence s =
     or_return (partition_mut tenant s) s (\<lambda>p.
     or_return (case preferred_fact resolution of None \<Rightarrow> Inr () | Some i \<Rightarrow> check_preferred p conflict i) s (\<lambda>_.
       case fmlookup (tk_conflicts p) conflict of
         None \<Rightarrow> (Inl (UnknownConflict conflict), s)
       | Some c \<Rightarrow> (Inr (), put_partition tenant
           (p\<lparr>tk_conflicts := fmupd conflict (c\<lparr>cnf_resolution := Some resolution, cnf_resolved_at := Some sequence\<rparr>)
                (tk_conflicts p)\<rparr>) s)))"

fun apply_op :: "(str \<Rightarrow> str) \<Rightarrow> u64 \<Rightarrow> knowledge_op \<Rightarrow> knowledge_state \<Rightarrow> knowledge_change" where
  "apply_op sha q (RegisterSource x) s = register_source x s"
| "apply_op sha q (AddEvidence x) s = add_evidence x s"
| "apply_op sha q (AddEntity x) s = add_entity x s"
| "apply_op sha q (AssertFact a) s = assert_fact sha a q s"
| "apply_op sha q (InvalidateFact t f) s = invalidate_fact t f q s"
| "apply_op sha q (AssertRelation a) s = assert_relation a q s"
| "apply_op sha q (InvalidateRelation t r) s = invalidate_relation t r q s"
| "apply_op sha q (ResolveConflict t c r) s = resolve_conflict t c r q s"

definition knowledge_apply :: "(str \<Rightarrow> str) \<Rightarrow> knowledge_entry \<Rightarrow> knowledge_state \<Rightarrow> knowledge_change" where
  "knowledge_apply sha e s =
     (if ke_sequence e \<noteq> ks_next_sequence s then (Inl (JournalDiscontinuity (ks_next_sequence s) (ke_sequence e)), s)
      else case apply_op sha (ke_sequence e) (ke_op e) s of
          (Inl err, s) \<Rightarrow> (Inl err, s)
        | (Inr _, s) \<Rightarrow> (Inr (), s\<lparr>ks_next_sequence := ks_next_sequence s + 1\<rparr>))"

fun replay_onto :: "(str \<Rightarrow> str) \<Rightarrow> knowledge_entry list \<Rightarrow> knowledge_state \<Rightarrow> knowledge_error + knowledge_state" where
  "replay_onto sha [] s = Inr s"
| "replay_onto sha (e # es) s =
     (case knowledge_apply sha e s of (Inl err, _) \<Rightarrow> Inl err | (Inr _, s) \<Rightarrow> replay_onto sha es s)"

definition replay :: "(str \<Rightarrow> str) \<Rightarrow> knowledge_entry list \<Rightarrow> knowledge_error + knowledge_state" where
  "replay sha es = replay_onto sha es knowledge_new"

fun replay_until ::
  "(str \<Rightarrow> str) \<Rightarrow> u64 \<Rightarrow> knowledge_entry list \<Rightarrow> knowledge_state \<Rightarrow> knowledge_error + knowledge_state" where
  "replay_until sha q [] s = Inr s"
| "replay_until sha q (e # es) s =
     (if ke_sequence e \<noteq> ks_next_sequence s then Inl (JournalDiscontinuity (ks_next_sequence s) (ke_sequence e))
      else if q < ke_sequence e then Inr s
      else case knowledge_apply sha e s of (Inl err, _) \<Rightarrow> Inl err | (Inr _, s) \<Rightarrow> replay_until sha q es s)"

definition replay_at :: "(str \<Rightarrow> str) \<Rightarrow> knowledge_entry list \<Rightarrow> u64 \<Rightarrow> knowledge_error + knowledge_state" where
  "replay_at sha es q = replay_until sha q es knowledge_new"

subsection \<open>Queries\<close>

definition canonical_hash :: "(str \<Rightarrow> str) \<Rightarrow> (knowledge_state \<Rightarrow> str + str) \<Rightarrow> knowledge_state \<Rightarrow> knowledge_error + str" where
  "canonical_hash sha state_json s =
     (case state_json s of Inl e \<Rightarrow> Inl (KnowledgeSerialization e) | Inr bytes \<Rightarrow> Inr (sha bytes))"

definition facts_at :: "knowledge_state \<Rightarrow> tenant_id \<Rightarrow> unix_millis \<Rightarrow> u64 \<Rightarrow> knowledge_error + fact_record list" where
  "facts_at s tenant valid_time q =
     (case fmlookup (ks_tenants s) tenant of
        None \<Rightarrow> Inl KnowledgeUnknownTenant
      | Some p \<Rightarrow> Inr (filter (\<lambda>r. visible_at r valid_time q) (map snd (sorted_list_of_fmap (tk_facts p)))))"

record fact_provenance =
  fp_fact :: fact_record
  fp_evidence :: "evidence_record list"
  fp_sources :: "source_record list"

fun collect_evidence ::
  "tenant_knowledge \<Rightarrow> evidence_id list \<Rightarrow> knowledge_error + (evidence_record list \<times> source_id fset)" where
  "collect_evidence p [] = Inr ([], {||})"
| "collect_evidence p (i # is) =
     (case fmlookup (tk_evidence p) i of
        None \<Rightarrow> Inl (UnknownEvidence i)
      | Some ev \<Rightarrow> res_bind (collect_evidence p is) (\<lambda>(evs, srcs). Inr (ev # evs, finsert (evd_source ev) srcs)))"

fun collect_sources :: "tenant_knowledge \<Rightarrow> source_id list \<Rightarrow> knowledge_error + source_record list" where
  "collect_sources p [] = Inr []"
| "collect_sources p (i # is) =
     (case fmlookup (tk_sources p) i of
        None \<Rightarrow> Inl (UnknownSource i)
      | Some src \<Rightarrow> res_bind (collect_sources p is) (\<lambda>srcs. Inr (src # srcs)))"

definition fact_provenance_of :: "knowledge_state \<Rightarrow> tenant_id \<Rightarrow> fact_id \<Rightarrow> knowledge_error + fact_provenance" where
  "fact_provenance_of s tenant fid =
     (case fmlookup (ks_tenants s) tenant of
        None \<Rightarrow> Inl KnowledgeUnknownTenant
      | Some p \<Rightarrow>
          (case fmlookup (tk_facts p) fid of
             None \<Rightarrow> Inl (UnknownFact fid)
           | Some r \<Rightarrow>
               res_bind (collect_evidence p (sorted_list_of_fset (fa_evidence (fct_assertion r)))) (\<lambda>(evs, ids).
               res_bind (collect_sources p (sorted_list_of_fset ids)) (\<lambda>srcs.
                 Inr \<lparr>fp_fact = r, fp_evidence = evs, fp_sources = srcs\<rparr>))))"

end
