(* ===== verification/Knowledge_Invariant.thy ===== *)
theory Knowledge_Invariant
  imports Knowledge
begin

section \<open>The Knowledge Plane as a transition system\<close>

text \<open>
  A successful operation is one step of one tenant's partition; a failed one changes nothing. The
  invariant of every partition is shown by cases on the step relation.
\<close>

inductive partition_step :: "(str \<Rightarrow> str) \<Rightarrow> tenant_id \<Rightarrow> u64 \<Rightarrow> tenant_knowledge \<Rightarrow> tenant_knowledge \<Rightarrow> bool"
  for sha t q p where
  source: "src_tenant x = t \<Longrightarrow> src_id x |\<notin>| fmdom (tk_sources p) \<Longrightarrow>
    partition_step sha t q p (p\<lparr>tk_sources := fmupd (src_id x) x (tk_sources p)\<rparr>)"
| evidence: "evd_tenant x = t \<Longrightarrow> evd_source x |\<in>| fmdom (tk_sources p) \<Longrightarrow> evd_id x |\<notin>| fmdom (tk_evidence p) \<Longrightarrow>
    partition_step sha t q p (p\<lparr>tk_evidence := fmupd (evd_id x) x (tk_evidence p)\<rparr>)"
| entity: "ent_tenant x = t \<Longrightarrow> ent_evidence x \<noteq> {||} \<Longrightarrow> ent_evidence x |\<subseteq>| fmdom (tk_evidence p) \<Longrightarrow>
    ent_id x |\<notin>| fmdom (tk_entities p) \<Longrightarrow>
    partition_step sha t q p (p\<lparr>tk_entities := fmupd (ent_id x) x (tk_entities p)\<rparr>)"
| new_fact: "fa_tenant a = t \<Longrightarrow> fa_evidence a \<noteq> {||} \<Longrightarrow> fa_evidence a |\<subseteq>| fmdom (tk_evidence p) \<Longrightarrow>
    interval_validate (fa_validity a) = Inr () \<Longrightarrow> fa_subject a |\<in>| fmdom (tk_entities p) \<Longrightarrow>
    (\<forall>target. fa_object a = ObjectEntity target \<longrightarrow> target |\<in>| fmdom (tk_entities p)) \<Longrightarrow> fa_id a |\<notin>| fmdom (tk_facts p) \<Longrightarrow>
    p' = p\<lparr>tk_facts := fmupd (fa_id a) \<lparr>fct_assertion = a, fct_asserted_at = q, fct_invalidated_at = None\<rparr> (tk_facts p)\<rparr> \<Longrightarrow>
    partition_step sha t q p (if competing_facts p a = [] then p' else note_conflict sha a q (competing_facts p a) p')"
| dead_fact: "fmlookup (tk_facts p) f = Some r \<Longrightarrow> fct_invalidated_at r = None \<Longrightarrow>
    partition_step sha t q p (p\<lparr>tk_facts := fmupd f (r\<lparr>fct_invalidated_at := Some q\<rparr>) (tk_facts p)\<rparr>)"
| new_relation: "ra_tenant a' = t \<Longrightarrow> ra_evidence a' \<noteq> {||} \<Longrightarrow> ra_evidence a' |\<subseteq>| fmdom (tk_evidence p) \<Longrightarrow>
    interval_validate (ra_validity a') = Inr () \<Longrightarrow> ra_from a' |\<in>| fmdom (tk_entities p) \<Longrightarrow>
    ra_to a' |\<in>| fmdom (tk_entities p) \<Longrightarrow> ra_id a' |\<notin>| fmdom (tk_relations p) \<Longrightarrow>
    partition_step sha t q p (p\<lparr>tk_relations := fmupd (ra_id a')
      \<lparr>rlr_assertion = a', rlr_asserted_at = q, rlr_invalidated_at = None\<rparr> (tk_relations p)\<rparr>)"
| dead_relation: "fmlookup (tk_relations p) i = Some rl \<Longrightarrow> rlr_invalidated_at rl = None \<Longrightarrow>
    partition_step sha t q p (p\<lparr>tk_relations := fmupd i (rl\<lparr>rlr_invalidated_at := Some q\<rparr>) (tk_relations p)\<rparr>)"
| resolved: "fmlookup (tk_conflicts p) cid = Some c \<Longrightarrow>
    partition_step sha t q p (p\<lparr>tk_conflicts := fmupd cid (c\<lparr>cnf_resolution := Some res, cnf_resolved_at := Some q\<rparr>) (tk_conflicts p)\<rparr>)"

inductive_cases partition_stepE [consumes 1, case_names source evidence entity new_fact dead_fact new_relation dead_relation resolved]:
  "partition_step sha t q p p'"

subsection \<open>Operations as steps\<close>

lemma or_return_Inr: "or_return r s k = (Inr u, s') \<longleftrightarrow> (\<exists>x. r = Inr x \<and> k x = (Inr u, s'))"
  by (cases r) (simp_all add: or_return_def)

lemma or_return_Inl: "or_return r s k = (Inl e, s') \<longleftrightarrow> (r = Inl e \<and> s' = s) \<or> (\<exists>x. r = Inr x \<and> k x = (Inl e, s'))"
  by (cases r) (auto simp: or_return_def)

lemma partition_mut_Inr: "partition_mut t s = Inr p \<longleftrightarrow> fmlookup (ks_tenants s) t = Some p"
  by (simp add: partition_mut_def split: option.split)

lemma validate_evidence_Inr: "validate_evidence p es = Inr u \<longleftrightarrow> es |\<subseteq>| fmdom (tk_evidence p)"
  by (auto simp: validate_evidence_def res_check_ok_iff)

lemma validate_entity_Inr: "validate_entity p i = Inr u \<longleftrightarrow> i |\<in>| fmdom (tk_entities p)"
  by (simp add: validate_entity_def)

lemma require_evidence_Inr: "require_evidence es = Inr u \<longleftrightarrow> es \<noteq> {||}"
  by (simp add: require_evidence_def)

lemma validate_interval_Inr: "validate_interval v = Inr u \<longleftrightarrow> interval_validate v = Inr ()"
  by (auto simp: validate_interval_def split: sum.splits)

lemmas step_simps = or_return_Inr partition_mut_Inr validate_evidence_Inr validate_entity_Inr require_evidence_Inr
  validate_interval_Inr

lemma put_partition_same: "fmlookup (ks_tenants s) t = Some p \<Longrightarrow> put_partition t p s = s"
proof -
  assume "fmlookup (ks_tenants s) t = Some p"
  then have "fmupd t p (ks_tenants s) = ks_tenants s" by (intro fmap_ext) auto
  then show ?thesis by (simp add: put_partition_def)
qed

lemma put_partition_twice [simp]: "put_partition t p (put_partition t p' s) = put_partition t p s"
  by (simp add: put_partition_def)

definition partition_of :: "knowledge_state \<Rightarrow> tenant_id \<Rightarrow> tenant_knowledge" where
  "partition_of s t = fmget_or (ks_tenants s) t tenant_knowledge_default"

lemma partition_of_Some: "fmlookup (ks_tenants s) t = Some p \<Longrightarrow> partition_of s t = p"
  by (simp add: partition_of_def fmget_or_def)

lemma apply_op_fails: "apply_op sha q op s = (Inl e, s') \<Longrightarrow> s' = s"
proof (cases op)
  case (RegisterSource x)
  assume "apply_op sha q op s = (Inl e, s')"
  then show ?thesis using RegisterSource
    by (auto simp: register_source_def or_return_Inl Let_def fmget_or_def tenant_knowledge_default_def
        split: if_splits option.splits intro: put_partition_same)
qed (auto simp: add_evidence_def add_entity_def assert_fact_def invalidate_fact_def assert_relation_def
    invalidate_relation_def resolve_conflict_def or_return_Inl Let_def split: if_splits option.splits)

lemma apply_op_step:
  assumes "apply_op sha q op s = (Inr u, s')"
  shows "\<exists>t p'. s' = put_partition t p' s \<and> partition_step sha t q (partition_of s t) p'"
proof (cases op)
  case (RegisterSource x)
  then have "s' = put_partition (src_tenant x)
      ((partition_of s (src_tenant x))\<lparr>tk_sources := fmupd (src_id x) x (tk_sources (partition_of s (src_tenant x)))\<rparr>) s"
    "src_id x |\<notin>| fmdom (tk_sources (partition_of s (src_tenant x)))"
    using assms by (auto simp: register_source_def step_simps Let_def partition_of_def split: if_splits)
  then show ?thesis using partition_step.source [of x "src_tenant x"] by blast
next
  case (AddEvidence x)
  then show ?thesis using assms partition_step.evidence [of x "evd_tenant x"]
    by (fastforce simp: add_evidence_def step_simps partition_of_Some split: if_splits)
next
  case (AddEntity x)
  then show ?thesis using assms partition_step.entity [of x "ent_tenant x"]
    by (fastforce simp: add_entity_def step_simps partition_of_Some split: if_splits)
next
  case (AssertFact a)
  then obtain p where p: "fmlookup (ks_tenants s) (fa_tenant a) = Some p" "fa_evidence a \<noteq> {||}" "fa_evidence a |\<subseteq>| fmdom (tk_evidence p)"
    "interval_validate (fa_validity a) = Inr ()" "fa_subject a |\<in>| fmdom (tk_entities p)"
    "\<forall>target. fa_object a = ObjectEntity target \<longrightarrow> target |\<in>| fmdom (tk_entities p)" "fa_id a |\<notin>| fmdom (tk_facts p)"
    "s' = put_partition (fa_tenant a) (let p' = p\<lparr>tk_facts := fmupd (fa_id a) \<lparr>fct_assertion = a, fct_asserted_at = q,
        fct_invalidated_at = None\<rparr> (tk_facts p)\<rparr> in if competing_facts p a = [] then p' else note_conflict sha a q (competing_facts p a) p') s"
    using assms
    by (auto simp: assert_fact_def step_simps Let_def split: if_splits fact_object.splits)
  from partition_step.new_fact [OF refl p(2-7) refl, of sha q] show ?thesis
    using p(8) unfolding Let_def partition_of_Some [OF p(1), symmetric] by blast
next
  case (InvalidateFact t f)
  then show ?thesis using assms partition_step.dead_fact
    by (fastforce simp: invalidate_fact_def step_simps partition_of_Some split: if_splits option.splits)
next
  case (AssertRelation a)
  then show ?thesis using assms partition_step.new_relation [of a "ra_tenant a"]
    by (fastforce simp: assert_relation_def step_simps partition_of_Some split: if_splits)
next
  case (InvalidateRelation t i)
  then show ?thesis using assms partition_step.dead_relation
    by (fastforce simp: invalidate_relation_def step_simps partition_of_Some split: if_splits option.splits)
next
  case (ResolveConflict t cid res)
  then show ?thesis using assms partition_step.resolved
    by (fastforce simp: resolve_conflict_def step_simps partition_of_Some split: option.splits)
qed

end
