(* ===== verification/Knowledge_Properties.thy ===== *)
theory Knowledge_Properties
  imports Knowledge_Invariant
begin

section \<open>What the Knowledge Plane guarantees\<close>

text \<open>
  The invariant of a partition after \<open>n\<close> journal entries: every reference of a record resolves inside the
  partition, transaction times are in order, and any two current facts that contradict each other are
  members of a recorded conflict. It gives the provenance of every fact; the two notions of a
  historical query, filtering the present state and replaying a prefix of the journal, agree.
\<close>

definition sources_ok :: "tenant_id \<Rightarrow> tenant_knowledge \<Rightarrow> bool" where
  "sources_ok t p \<longleftrightarrow> (\<forall>i x. fmlookup (tk_sources p) i = Some x \<longrightarrow> src_id x = i \<and> src_tenant x = t)"

definition evidence_ok :: "tenant_id \<Rightarrow> tenant_knowledge \<Rightarrow> bool" where
  "evidence_ok t p \<longleftrightarrow> (\<forall>i x. fmlookup (tk_evidence p) i = Some x \<longrightarrow>
     evd_id x = i \<and> evd_tenant x = t \<and> evd_source x |\<in>| fmdom (tk_sources p))"

definition entities_ok :: "tenant_id \<Rightarrow> tenant_knowledge \<Rightarrow> bool" where
  "entities_ok t p \<longleftrightarrow> (\<forall>i x. fmlookup (tk_entities p) i = Some x \<longrightarrow>
     ent_id x = i \<and> ent_tenant x = t \<and> ent_evidence x \<noteq> {||} \<and> ent_evidence x |\<subseteq>| fmdom (tk_evidence p))"

definition fact_ok :: "tenant_id \<Rightarrow> nat \<Rightarrow> tenant_knowledge \<Rightarrow> fact_id \<Rightarrow> fact_record \<Rightarrow> bool" where
  "fact_ok t n p i r \<longleftrightarrow>
     (let a = fct_assertion r in
      fa_id a = i \<and> fa_tenant a = t \<and> fa_evidence a \<noteq> {||} \<and> fa_evidence a |\<subseteq>| fmdom (tk_evidence p)
      \<and> interval_validate (fa_validity a) = Inr () \<and> fa_subject a |\<in>| fmdom (tk_entities p)
      \<and> (\<forall>target. fa_object a = ObjectEntity target \<longrightarrow> target |\<in>| fmdom (tk_entities p))
      \<and> unat (fct_asserted_at r) < n \<and> (\<forall>q. fct_invalidated_at r = Some q \<longrightarrow> fct_asserted_at r < q \<and> unat q < n))"

definition facts_ok :: "tenant_id \<Rightarrow> nat \<Rightarrow> tenant_knowledge \<Rightarrow> bool" where
  "facts_ok t n p \<longleftrightarrow> (\<forall>i r. fmlookup (tk_facts p) i = Some r \<longrightarrow> fact_ok t n p i r)"

definition relation_ok :: "tenant_id \<Rightarrow> nat \<Rightarrow> tenant_knowledge \<Rightarrow> relation_id \<Rightarrow> relation_record \<Rightarrow> bool" where
  "relation_ok t n p i r \<longleftrightarrow>
     (let a = rlr_assertion r in
      ra_id a = i \<and> ra_tenant a = t \<and> ra_evidence a \<noteq> {||} \<and> ra_evidence a |\<subseteq>| fmdom (tk_evidence p)
      \<and> interval_validate (ra_validity a) = Inr () \<and> ra_from a |\<in>| fmdom (tk_entities p) \<and> ra_to a |\<in>| fmdom (tk_entities p)
      \<and> unat (rlr_asserted_at r) < n \<and> (\<forall>q. rlr_invalidated_at r = Some q \<longrightarrow> rlr_asserted_at r < q \<and> unat q < n))"

definition relations_ok :: "tenant_id \<Rightarrow> nat \<Rightarrow> tenant_knowledge \<Rightarrow> bool" where
  "relations_ok t n p \<longleftrightarrow> (\<forall>i r. fmlookup (tk_relations p) i = Some r \<longrightarrow> relation_ok t n p i r)"

text \<open>The facts of a conflict exist, and contradicting current facts are in the conflict of their subject and predicate.\<close>

definition conflicts_ok :: "(str \<Rightarrow> str) \<Rightarrow> tenant_id \<Rightarrow> tenant_knowledge \<Rightarrow> bool" where
  "conflicts_ok sha t p \<longleftrightarrow>
     (\<forall>cid c. fmlookup (tk_conflicts p) cid = Some c \<longrightarrow> cnf_facts c |\<subseteq>| fmdom (tk_facts p))
     \<and> (\<forall>i j r r'. fmlookup (tk_facts p) i = Some r \<longrightarrow> fmlookup (tk_facts p) j = Some r' \<longrightarrow>
          fct_invalidated_at r = None \<longrightarrow> competes (fct_assertion r) r' \<longrightarrow>
          (\<exists>c. fmlookup (tk_conflicts p) (conflict_id_of sha t (fa_subject (fct_assertion r)) (fa_predicate (fct_assertion r))) = Some c
             \<and> i |\<in>| cnf_facts c \<and> j |\<in>| cnf_facts c))"

definition partition_ok :: "(str \<Rightarrow> str) \<Rightarrow> tenant_id \<Rightarrow> nat \<Rightarrow> tenant_knowledge \<Rightarrow> bool" where
  "partition_ok sha t n p \<longleftrightarrow>
     sources_ok t p \<and> evidence_ok t p \<and> entities_ok t p \<and> facts_ok t n p \<and> relations_ok t n p \<and> conflicts_ok sha t p"

subsection \<open>Preservation\<close>

lemma interval_overlaps_sym: "interval_overlaps v w \<longleftrightarrow> interval_overlaps w v"
  by (auto simp: interval_overlaps_def)

lemma fact_ok_mono:
  assumes "fact_ok t n p i r" and "n \<le> m" and "fmdom (tk_evidence p) |\<subseteq>| fmdom (tk_evidence p')"
    and "fmdom (tk_entities p) |\<subseteq>| fmdom (tk_entities p')"
  shows "fact_ok t m p' i r"
proof -
  have "unat q < m" if "unat q < n" for q :: u64 using that assms(2) by simp
  then show ?thesis
    using assms(1) fsubset_trans [OF _ assms(3)] fsubsetD [OF assms(4)] unfolding fact_ok_def Let_def by blast
qed

lemma relation_ok_mono:
  assumes "relation_ok t n p i r" and "n \<le> m" and "fmdom (tk_evidence p) |\<subseteq>| fmdom (tk_evidence p')"
    and "fmdom (tk_entities p) |\<subseteq>| fmdom (tk_entities p')"
  shows "relation_ok t m p' i r"
proof -
  have "unat q < m" if "unat q < n" for q :: u64 using that assms(2) by simp
  then show ?thesis
    using assms(1) fsubset_trans [OF _ assms(3)] fsubsetD [OF assms(4)] unfolding relation_ok_def Let_def by blast
qed

text \<open>What a step leaves alone, it leaves in order.\<close>

lemma facts_ok_mono:
  assumes "facts_ok t n p" and "n \<le> m" and "fmdom (tk_evidence p) |\<subseteq>| fmdom (tk_evidence p')"
    and "fmdom (tk_entities p) |\<subseteq>| fmdom (tk_entities p')" and "tk_facts p' = tk_facts p"
  shows "facts_ok t m p'"
  using assms fact_ok_mono unfolding facts_ok_def by metis

lemma relations_ok_mono:
  assumes "relations_ok t n p" and "n \<le> m" and "fmdom (tk_evidence p) |\<subseteq>| fmdom (tk_evidence p')"
    and "fmdom (tk_entities p) |\<subseteq>| fmdom (tk_entities p')" and "tk_relations p' = tk_relations p"
  shows "relations_ok t m p'"
  using assms relation_ok_mono unfolding relations_ok_def by metis

lemma note_conflict_simps [simp]:
  "tk_sources (note_conflict sha a q cs p) = tk_sources p" "tk_evidence (note_conflict sha a q cs p) = tk_evidence p"
  "tk_entities (note_conflict sha a q cs p) = tk_entities p" "tk_facts (note_conflict sha a q cs p) = tk_facts p"
  "tk_relations (note_conflict sha a q cs p) = tk_relations p"
  by (simp_all add: note_conflict_def Let_def)

lemma competing_facts_iff:
  assumes "facts_ok t n p"
  shows "j \<in> set (competing_facts p a) \<longleftrightarrow> (\<exists>r. fmlookup (tk_facts p) j = Some r \<and> competes a r)"
proof -
  have "fa_id (fct_assertion r) = i" if "fmlookup (tk_facts p) i = Some r" for i r
    using assms that by (simp add: facts_ok_def fact_ok_def Let_def)
  then show ?thesis by (force simp: competing_facts_def image_iff)
qed

text \<open>After \<open>note_conflict\<close> the conflict of the new fact holds it, its competitors and what it held before.\<close>

lemma note_conflict_lookup:
  "fmlookup (tk_conflicts (note_conflict sha a q cs p)) cid =
     (if cid = conflict_id_of sha (fa_tenant a) (fa_subject a) (fa_predicate a)
      then Some (let c = fmget_or (tk_conflicts p) cid
                \<lparr>cnf_id = cid, cnf_tenant = fa_tenant a, cnf_facts = {||},
                 cnf_reason = CompetingObjects (fa_subject a) (fa_predicate a), cnf_detected_at = q,
                 cnf_resolution = None, cnf_resolved_at = None\<rparr>
             in c\<lparr>cnf_facts := finsert (fa_id a) (cnf_facts c |\<union>| fset_of_list cs), cnf_resolution := None, cnf_resolved_at := None\<rparr>)
      else fmlookup (tk_conflicts p) cid)"
  by (simp add: note_conflict_def Let_def)

lemma evidence_ok_mono:
  assumes "evidence_ok t p" and "fmdom (tk_sources p) |\<subseteq>| fmdom (tk_sources p')" and "tk_evidence p' = tk_evidence p"
  shows "evidence_ok t p'"
  using assms(1,3) fsubsetD [OF assms(2)] unfolding evidence_ok_def by metis

lemma entities_ok_mono:
  assumes "entities_ok t p" and "fmdom (tk_evidence p) |\<subseteq>| fmdom (tk_evidence p')" and "tk_entities p' = tk_entities p"
  shows "entities_ok t p'"
  using assms(1,3) fsubset_trans [OF _ assms(2)] unfolding entities_ok_def by metis

text \<open>Facts may be withdrawn and conflicts resolved: no contradiction appears and none is forgotten.\<close>

lemma conflicts_ok_transfer:
  assumes ok: "conflicts_ok sha t p"
    and current: "\<And>i x. fmlookup (tk_facts p') i = Some x \<Longrightarrow> fct_invalidated_at x = None \<Longrightarrow> fmlookup (tk_facts p) i = Some x"
    and dom: "fmdom (tk_facts p') = fmdom (tk_facts p)"
    and conflicts: "\<And>k. map_option cnf_facts (fmlookup (tk_conflicts p') k) = map_option cnf_facts (fmlookup (tk_conflicts p) k)"
  shows "conflicts_ok sha t p'"
  unfolding conflicts_ok_def
proof (intro conjI allI impI)
  fix k c assume "fmlookup (tk_conflicts p') k = Some c"
  then obtain x where "fmlookup (tk_conflicts p) k = Some x" "cnf_facts x = cnf_facts c"
    using conflicts [of k] by (cases "fmlookup (tk_conflicts p) k") auto
  then show "cnf_facts c |\<subseteq>| fmdom (tk_facts p')" using ok dom unfolding conflicts_ok_def by metis
next
  fix i j r r' assume r: "fmlookup (tk_facts p') i = Some r" "fmlookup (tk_facts p') j = Some r'"
    "fct_invalidated_at r = None" "competes (fct_assertion r) r'"
  let ?cid = "conflict_id_of sha t (fa_subject (fct_assertion r)) (fa_predicate (fct_assertion r))"
  have "fct_invalidated_at r' = None" using r(4) by (simp add: competes_def)
  then have "fmlookup (tk_facts p) i = Some r" "fmlookup (tk_facts p) j = Some r'" using r current by simp_all
  then obtain x where "fmlookup (tk_conflicts p) ?cid = Some x" "i |\<in>| cnf_facts x" "j |\<in>| cnf_facts x"
    using ok r(3,4) unfolding conflicts_ok_def by blast
  then show "\<exists>c. fmlookup (tk_conflicts p') ?cid = Some c \<and> i |\<in>| cnf_facts c \<and> j |\<in>| cnf_facts c"
    using conflicts [of ?cid] by auto
qed

lemma conflicts_ok_new:
  fixes q :: u64
  assumes ok: "conflicts_ok sha t p" and facts: "facts_ok t n p" and new: "fa_id a |\<notin>| fmdom (tk_facts p)" and "fa_tenant a = t"
  defines "p1 \<equiv> p\<lparr>tk_facts := fmupd (fa_id a) \<lparr>fct_assertion = a, fct_asserted_at = q, fct_invalidated_at = None\<rparr> (tk_facts p)\<rparr>"
  shows "conflicts_ok sha t (if competing_facts p a = [] then p1 else note_conflict sha a q (competing_facts p a) p1)"
    (is "conflicts_ok sha t ?p")
proof -
  let ?cid = "\<lambda>a. conflict_id_of sha t (fa_subject a) (fa_predicate a)"
  let ?a = "\<lparr>fct_assertion = a, fct_asserted_at = q, fct_invalidated_at = None\<rparr>"
  have facts': "tk_facts ?p = fmupd (fa_id a) ?a (tk_facts p)" by (simp add: p1_def)
  have conflicts1: "tk_conflicts p1 = tk_conflicts p" by (simp add: p1_def)
  have grow: "\<exists>c'. fmlookup (tk_conflicts ?p) k = Some c' \<and> cnf_facts c |\<subseteq>| cnf_facts c'" if "fmlookup (tk_conflicts p) k = Some c" for k c
    using that by (auto simp: note_conflict_lookup conflicts1 fmget_or_def Let_def)
  have held: "\<exists>c. fmlookup (tk_conflicts ?p) (?cid a) = Some c \<and> fa_id a |\<in>| cnf_facts c \<and> j |\<in>| cnf_facts c"
    if "fmlookup (tk_facts p) j = Some r" "competes a r" for j r
  proof -
    have "j \<in> set (competing_facts p a)" using competing_facts_iff [OF facts] that by blast
    then show ?thesis using assms(4) by (auto simp: note_conflict_lookup Let_def fset_of_list_elem)
  qed
  have self: "\<not> competes a ?a" by (simp add: competes_def)
  have sym: "competes a r' \<and> ?cid (fct_assertion r') = ?cid a" if "competes (fct_assertion r') ?a" "fct_invalidated_at r' = None" for r'
    using that interval_overlaps_sym by (auto simp: competes_def)
  have members: "cnf_facts c |\<subseteq>| fmdom (tk_facts ?p)" if "fmlookup (tk_conflicts ?p) k = Some c" for k c
  proof -
    have "j |\<in>| fmdom (tk_facts p)" if "j \<in> set (competing_facts p a)" for j
      using competing_facts_iff [OF facts, of j a] that by (auto simp: fmdomI)
    moreover have "j |\<in>| fmdom (tk_facts p)" if "fmlookup (tk_conflicts p) k = Some c" "j |\<in>| cnf_facts c" for k c j
      using ok that unfolding conflicts_ok_def by blast
    ultimately show ?thesis
      using that unfolding facts' by (auto simp: note_conflict_lookup conflicts1 fmget_or_def Let_def fset_of_list_elem split: if_splits option.splits)
  qed
  show ?thesis unfolding conflicts_ok_def
  proof (intro conjI allI impI)
    fix i j r r' assume r: "fmlookup (tk_facts ?p) i = Some r" "fmlookup (tk_facts ?p) j = Some r'"
      "fct_invalidated_at r = None" "competes (fct_assertion r) r'"
    consider "i = fa_id a" "j \<noteq> fa_id a" | "i \<noteq> fa_id a" "j = fa_id a" | "i \<noteq> fa_id a" "j \<noteq> fa_id a"
      | "i = fa_id a" "j = fa_id a" by blast
    then show "\<exists>c. fmlookup (tk_conflicts ?p) (?cid (fct_assertion r)) = Some c \<and> i |\<in>| cnf_facts c \<and> j |\<in>| cnf_facts c"
    proof cases
      case 1
      then show ?thesis using r held [of j r'] unfolding facts' by auto
    next
      case 2
      then have "r' = ?a" "fmlookup (tk_facts p) i = Some r" using r unfolding facts' by auto
      then show ?thesis using sym [of r] held [of i r] r(3,4) 2(2) by auto
    next
      case 3
      then have "fmlookup (tk_facts p) i = Some r" "fmlookup (tk_facts p) j = Some r'" using r unfolding facts' by auto
      then obtain c where "fmlookup (tk_conflicts p) (?cid (fct_assertion r)) = Some c" "i |\<in>| cnf_facts c" "j |\<in>| cnf_facts c"
        using ok r(3,4) unfolding conflicts_ok_def by blast
      then show ?thesis using grow by blast
    next
      case 4
      then show ?thesis using r self unfolding facts' by auto
    qed
  qed (use members in blast)
qed

lemma step_keeps:
  assumes ok: "partition_ok sha t n p" and "partition_step sha t q p p'" and n: "unat q = n"
  shows "partition_ok sha t (Suc n) p'"
proof -
  have parts: "sources_ok t p" "evidence_ok t p" "entities_ok t p" "facts_ok t n p" "relations_ok t n p" "conflicts_ok sha t p"
    using ok by (simp_all add: partition_ok_def)
  note mono = evidence_ok_mono [OF parts(2)] entities_ok_mono [OF parts(3)] facts_ok_mono [OF parts(4), of "Suc n"]
    relations_ok_mono [OF parts(5), of "Suc n"]
  show ?thesis using assms(2)
  proof (cases rule: partition_stepE)
    case (source x)
    then show ?thesis using parts(1) unfolding partition_ok_def
      by (intro conjI conflicts_ok_transfer [OF parts(6)] mono) (auto simp: sources_ok_def)
  next
    case (evidence x)
    then show ?thesis using parts(1,2) unfolding partition_ok_def
      by (intro conjI conflicts_ok_transfer [OF parts(6)] mono(2-)) (auto simp: sources_ok_def evidence_ok_def)
  next
    case (entity x)
    then show ?thesis using parts(1,3) unfolding partition_ok_def
      by (intro conjI conflicts_ok_transfer [OF parts(6)] mono(1,3-)) (auto simp: sources_ok_def entities_ok_def)
  next
    case (new_fact a)
    have p1: "tk_facts p' = fmupd (fa_id a) \<lparr>fct_assertion = a, fct_asserted_at = q, fct_invalidated_at = None\<rparr> (tk_facts p)"
      "tk_sources p' = tk_sources p" "tk_evidence p' = tk_evidence p" "tk_entities p' = tk_entities p" "tk_relations p' = tk_relations p"
      using new_fact by simp_all
    have "fact_ok t (Suc n) p' (fa_id a) \<lparr>fct_assertion = a, fct_asserted_at = q, fct_invalidated_at = None\<rparr>"
      using new_fact(2-7) n by (simp add: fact_ok_def p1)
    moreover have "fact_ok t (Suc n) p' i r" if "fmlookup (tk_facts p) i = Some r" for i r
      using fact_ok_mono [OF parts(4) [unfolded facts_ok_def, rule_format, OF that], of "Suc n" p'] by (simp add: p1)
    ultimately have "facts_ok t (Suc n) p'" by (simp add: facts_ok_def p1)
    moreover have "conflicts_ok sha t p'" using conflicts_ok_new [OF parts(6,4), of a q] new_fact by simp
    ultimately show ?thesis using parts(1) unfolding partition_ok_def
      by (intro conjI mono(1,2,4)) (auto simp: sources_ok_def p1)
  next
    case (dead_fact f r)
    have "fact_ok t (Suc n) p' f (r\<lparr>fct_invalidated_at := Some q\<rparr>)"
      using parts(4) [unfolded facts_ok_def, rule_format, OF dead_fact(2)] dead_fact(1,3) n by (simp add: fact_ok_def Let_def word_less_nat_alt)
    moreover have "fact_ok t (Suc n) p' i x" if "fmlookup (tk_facts p) i = Some x" for i x
      using fact_ok_mono [OF parts(4) [unfolded facts_ok_def, rule_format, OF that], of "Suc n" p'] dead_fact by simp
    ultimately have "facts_ok t (Suc n) p'" using dead_fact by (simp add: facts_ok_def)
    then show ?thesis using parts(1) dead_fact unfolding partition_ok_def
      by (intro conjI conflicts_ok_transfer [OF parts(6)] mono(1,2,4)) (auto simp: sources_ok_def fmdomI split: if_splits)
  next
    case (new_relation a)
    have "relation_ok t (Suc n) p' i x" if "fmlookup (tk_relations p) i = Some x" for i x
      using relation_ok_mono [OF parts(5) [unfolded relations_ok_def, rule_format, OF that], of "Suc n" p'] new_relation by simp
    then have "relations_ok t (Suc n) p'" using new_relation n by (auto simp: relations_ok_def relation_ok_def)
    then show ?thesis using parts(1) new_relation unfolding partition_ok_def
      by (intro conjI conflicts_ok_transfer [OF parts(6)] mono(1-3)) (auto simp: sources_ok_def)
  next
    case (dead_relation i r)
    have "relation_ok t (Suc n) p' i (r\<lparr>rlr_invalidated_at := Some q\<rparr>)"
      using parts(5) [unfolded relations_ok_def, rule_format, OF dead_relation(2)] dead_relation(1,3) n
      by (simp add: relation_ok_def Let_def word_less_nat_alt)
    moreover have "relation_ok t (Suc n) p' j x" if "fmlookup (tk_relations p) j = Some x" for j x
      using relation_ok_mono [OF parts(5) [unfolded relations_ok_def, rule_format, OF that], of "Suc n" p'] dead_relation by simp
    ultimately have "relations_ok t (Suc n) p'" using dead_relation by (simp add: relations_ok_def)
    then show ?thesis using parts(1) dead_relation unfolding partition_ok_def
      by (intro conjI conflicts_ok_transfer [OF parts(6)] mono(1-3)) (auto simp: sources_ok_def)
  next
    case (resolved cid c res)
    then show ?thesis using parts(1) unfolding partition_ok_def
      by (intro conjI conflicts_ok_transfer [OF parts(6)] mono) (auto simp: sources_ok_def)
  qed
qed

subsection \<open>Reached states\<close>

definition knowledge_ok :: "(str \<Rightarrow> str) \<Rightarrow> nat \<Rightarrow> knowledge_state \<Rightarrow> bool" where
  "knowledge_ok sha n s \<longleftrightarrow> unat (ks_next_sequence s) = n \<and> (\<forall>t p. fmlookup (ks_tenants s) t = Some p \<longrightarrow> partition_ok sha t n p)"

lemma partition_ok_default: "partition_ok sha t n tenant_knowledge_default"
  by (simp add: partition_ok_def tenant_knowledge_default_def sources_ok_def evidence_ok_def entities_ok_def facts_ok_def
      relations_ok_def conflicts_ok_def)

lemma partition_ok_later: "partition_ok sha t n p \<Longrightarrow> n \<le> m \<Longrightarrow> partition_ok sha t m p"
  using facts_ok_mono [of t n p m p] relations_ok_mono [of t n p m p] by (auto simp: partition_ok_def)

lemma partition_of_ok: "knowledge_ok sha n s \<Longrightarrow> partition_ok sha t n (partition_of s t)"
  by (cases "fmlookup (ks_tenants s) t") (simp_all add: knowledge_ok_def partition_of_def fmget_or_def partition_ok_default)

lemma knowledge_ok_new: "knowledge_ok sha 0 knowledge_new"
  by (simp add: knowledge_ok_def knowledge_new_def)

lemma partition_of_put: "partition_of (put_partition t p s) u = (if u = t then p else partition_of s u)"
  by (simp add: partition_of_def put_partition_def fmget_or_def)

text \<open>An entry that is accepted is one step of one partition, and the sequence advances.\<close>

lemma knowledge_apply_step:
  assumes "knowledge_apply sha e s = (Inr u, s')"
  obtains t p' where "ke_sequence e = ks_next_sequence s" "partition_step sha t (ke_sequence e) (partition_of s t) p'"
    "s' = (put_partition t p' s)\<lparr>ks_next_sequence := ks_next_sequence s + 1\<rparr>"
proof -
  from assms obtain s1 where s1: "ke_sequence e = ks_next_sequence s" "apply_op sha (ke_sequence e) (ke_op e) s = (Inr (), s1)"
    "s' = s1\<lparr>ks_next_sequence := ks_next_sequence s1 + 1\<rparr>"
    by (auto simp: knowledge_apply_def split: if_splits prod.splits sum.splits)
  from apply_op_step [OF s1(2)] obtain t p' where "s1 = put_partition t p' s" "partition_step sha t (ke_sequence e) (partition_of s t) p'"
    by blast
  then show thesis using that s1 by (simp add: put_partition_def)
qed

lemma knowledge_apply_fails: "knowledge_apply sha e s = (Inl err, s') \<Longrightarrow> s' = s"
  by (auto simp: knowledge_apply_def dest: apply_op_fails split: if_splits prod.splits sum.splits)

lemma knowledge_apply_ok:
  assumes "knowledge_ok sha n s" and "knowledge_apply sha e s = (Inr u, s')" and "Suc n < 2 ^ 64"
  shows "knowledge_ok sha (Suc n) s'"
  using assms(2)
proof (cases rule: knowledge_apply_step)
  case (1 t p')
  have n: "unat (ks_next_sequence s) = n" using assms(1) by (simp add: knowledge_ok_def)
  have "partition_ok sha t (Suc n) p'" using step_keeps [OF partition_of_ok [OF assms(1)] 1(2)] 1(1) n by simp
  moreover have "partition_ok sha v (Suc n) p" if "fmlookup (ks_tenants s) v = Some p" for v p
    using assms(1) that partition_ok_later [of sha v n p "Suc n"] by (simp add: knowledge_ok_def)
  moreover have "unat (ks_next_sequence s + 1) = Suc n" using n assms(3) by (simp add: unat_plus_if')
  ultimately show ?thesis by (simp add: knowledge_ok_def 1(3) put_partition_def)
qed

lemma replay_onto_ok:
  assumes "knowledge_ok sha n s" and "replay_onto sha es s = Inr s'" and "n + length es < 2 ^ 64"
  shows "knowledge_ok sha (n + length es) s'"
  using assms
proof (induction es arbitrary: n s)
  case (Cons e es)
  then obtain s1 where s1: "knowledge_apply sha e s = (Inr (), s1)" "replay_onto sha es s1 = Inr s'"
    by (auto split: prod.splits sum.splits)
  have "knowledge_ok sha (Suc n) s1" using knowledge_apply_ok [OF Cons.prems(1) s1(1)] Cons.prems(3) by simp
  from Cons.IH [OF this s1(2)] Cons.prems(3) show ?case by simp
qed simp

lemma replay_ok: "replay sha es = Inr s \<Longrightarrow> length es < 2 ^ 64 \<Longrightarrow> knowledge_ok sha (length es) s"
  using replay_onto_ok [OF knowledge_ok_new, of sha es s] by (simp add: replay_def)

subsection \<open>Provenance\<close>

lemma collect_evidence_ok:
  assumes "evidence_ok t p" and "list_all (\<lambda>i. i |\<in>| fmdom (tk_evidence p)) is"
  shows "\<exists>evs srcs. collect_evidence p is = Inr (evs, srcs) \<and> map evd_id evs = is \<and> fset srcs = evd_source ` set evs
    \<and> fset srcs \<subseteq> fset (fmdom (tk_sources p)) \<and> list_all (\<lambda>x. evd_tenant x = t) evs"
  using assms(2)
proof (induction "is")
  case (Cons i "is")
  then obtain evs srcs where rest: "collect_evidence p is = Inr (evs, srcs)" "map evd_id evs = is" "fset srcs = evd_source ` set evs"
    "fset srcs \<subseteq> fset (fmdom (tk_sources p))" "list_all (\<lambda>x. evd_tenant x = t) evs" by auto
  obtain ev where "fmlookup (tk_evidence p) i = Some ev" using Cons.prems by (auto simp: fmlookup_dom_iff)
  moreover from this have "evd_id ev = i" "evd_tenant ev = t" "evd_source ev |\<in>| fmdom (tk_sources p)"
    using assms(1) by (auto simp: evidence_ok_def)
  ultimately show ?case using rest by simp
qed simp

lemma collect_sources_ok:
  assumes "sources_ok t p" and "list_all (\<lambda>i. i |\<in>| fmdom (tk_sources p)) is"
  shows "\<exists>srcs. collect_sources p is = Inr srcs \<and> map src_id srcs = is \<and> list_all (\<lambda>x. src_tenant x = t) srcs"
  using assms(2)
proof (induction "is")
  case (Cons i "is")
  then obtain srcs where "collect_sources p is = Inr srcs" "map src_id srcs = is" "list_all (\<lambda>x. src_tenant x = t) srcs" by auto
  moreover obtain x where "fmlookup (tk_sources p) i = Some x" using Cons.prems by (auto simp: fmlookup_dom_iff)
  moreover from this have "src_id x = i" "src_tenant x = t" using assms(1) by (auto simp: sources_ok_def)
  ultimately show ?case by simp
qed simp

subsection \<open>Historical queries\<close>

text \<open>The assertions known at a transaction.\<close>

definition known :: "u64 \<Rightarrow> tenant_knowledge \<Rightarrow> (fact_id, fact_assertion) fmap" where
  "known q p = fmmap fct_assertion (fmretain (\<lambda>r. visible_at_transaction r q) (tk_facts p))"

lemma lookup_known: "fmlookup (known q p) i =
    Option.bind (fmlookup (tk_facts p) i) (\<lambda>r. if visible_at_transaction r q then Some (fct_assertion r) else None)"
  by (cases "fmlookup (tk_facts p) i") (simp_all add: known_def)

lemma known_step:
  assumes "partition_step sha t q' p p'" and "q < q'"
  shows "known q p' = known q p"
proof (rule fmap_ext)
  fix i
  show "fmlookup (known q p') i = fmlookup (known q p) i" using assms(1)
  proof (cases rule: partition_stepE)
    case (new_fact a)
    then have "tk_facts p' = fmupd (fa_id a) \<lparr>fct_assertion = a, fct_asserted_at = q', fct_invalidated_at = None\<rparr> (tk_facts p)"
      "fmlookup (tk_facts p) (fa_id a) = None" by (auto simp: fmdom_notD)
    then show ?thesis using assms(2) by (auto simp: lookup_known visible_at_transaction_def)
  next
    case (dead_fact f r)
    then show ?thesis using assms(2) by (auto simp: lookup_known visible_at_transaction_def)
  qed (simp_all add: lookup_known)
qed

lemma filter_sorted_list_of_fset: "filter P (sorted_list_of_fset A) = sorted_list_of_fset (ffilter P A)"
  by (rule sorted_distinct_set_unique) (auto simp: sorted_filter [where f = id, simplified])

lemma sorted_values_retain:
  "map f (filter P (map snd (sorted_list_of_fmap m))) = map snd (sorted_list_of_fmap (fmmap f (fmretain P m)))"
proof -
  have "fmdom (fmmap f (fmretain P m)) = ffilter (\<lambda>k. P (the (fmlookup m k))) (fmdom m)"
    by (auto simp: fmlookup_dom_iff split: if_splits option.splits)
  then show ?thesis
    by (auto simp: sorted_list_of_fmap_def filter_map comp_def filter_sorted_list_of_fset [symmetric] fmlookup_dom_iff
        intro!: map_cong)
qed

lemma facts_at_known:
  assumes "fmlookup (ks_tenants s) t = Some p"
  shows "\<exists>fs. facts_at s t vt q = Inr fs
    \<and> map fct_assertion fs = filter (\<lambda>a. interval_contains (fa_validity a) vt) (map snd (sorted_list_of_fmap (known q p)))"
proof -
  have "map fct_assertion (filter (\<lambda>r. visible_at r vt q) xs)
      = filter (\<lambda>a. interval_contains (fa_validity a) vt) (map fct_assertion (filter (\<lambda>r. visible_at_transaction r q) xs))" for xs
    by (induction xs) (simp_all add: visible_at_def)
  then show ?thesis using assms unfolding facts_at_def known_def sorted_values_retain [symmetric] by simp
qed

definition keeps_known :: "u64 \<Rightarrow> knowledge_state \<Rightarrow> knowledge_state \<Rightarrow> bool" where
  "keeps_known q s s' \<longleftrightarrow> fmdom (ks_tenants s) |\<subseteq>| fmdom (ks_tenants s') \<and> (\<forall>t. known q (partition_of s' t) = known q (partition_of s t))"

lemma keeps_known_trans: "keeps_known q s s1 \<Longrightarrow> keeps_known q s1 s2 \<Longrightarrow> keeps_known q s s2"
  by (auto simp: keeps_known_def)

lemma apply_keeps_known:
  assumes "knowledge_apply sha e s = (Inr u, s')" and "q < ks_next_sequence s"
  shows "keeps_known q s s'"
  using assms(1)
proof (cases rule: knowledge_apply_step)
  case (1 t p')
  then have "known q p' = known q (partition_of s t)" using known_step [OF 1(2)] assms(2) by simp
  then show ?thesis by (auto simp: keeps_known_def 1(3) partition_of_def put_partition_def fmget_or_def)
qed

lemma replay_keeps_known:
  assumes "knowledge_ok sha n s" and "replay_onto sha es s = Inr s'" and "n + length es < 2 ^ 64" and "unat q < n"
  shows "keeps_known q s s'"
  using assms
proof (induction es arbitrary: n s)
  case Nil
  then show ?case by (simp add: keeps_known_def)
next
  case (Cons e es)
  then obtain s1 where s1: "knowledge_apply sha e s = (Inr (), s1)" "replay_onto sha es s1 = Inr s'"
    by (auto split: prod.splits sum.splits)
  have "knowledge_ok sha (Suc n) s1" using knowledge_apply_ok [OF Cons.prems(1) s1(1)] Cons.prems(3) by simp
  then have "keeps_known q s1 s'" using Cons.IH [OF _ s1(2)] Cons.prems(3,4) by simp
  moreover have "keeps_known q s s1"
    using apply_keeps_known [OF s1(1)] Cons.prems(1,4) by (simp add: knowledge_ok_def word_less_nat_alt)
  ultimately show ?case using keeps_known_trans by blast
qed

lemma replay_until_known:
  assumes "knowledge_ok sha n s" and "replay_onto sha es s = Inr s'" and "n + length es < 2 ^ 64" and "n \<le> Suc (unat q)"
  shows "\<exists>s1 n1. replay_until sha q es s = Inr s1 \<and> knowledge_ok sha n1 s1 \<and> n1 \<le> Suc (unat q) \<and> keeps_known q s1 s'"
  using assms
proof (induction es arbitrary: n s)
  case Nil
  then show ?case by (auto simp: keeps_known_def)
next
  case (Cons e es)
  then obtain s1 where s1: "knowledge_apply sha e s = (Inr (), s1)" "replay_onto sha es s1 = Inr s'"
    by (auto split: prod.splits sum.splits)
  have e: "ke_sequence e = ks_next_sequence s" "unat (ke_sequence e) = n"
    using s1(1) Cons.prems(1) by (auto simp: knowledge_apply_def knowledge_ok_def split: if_splits)
  have ok1: "knowledge_ok sha (Suc n) s1" using knowledge_apply_ok [OF Cons.prems(1) s1(1)] Cons.prems(3) by simp
  show ?case
  proof (cases "q < ke_sequence e")
    case True
    then have "keeps_known q s s'"
      using replay_keeps_known [OF Cons.prems(1-3)] e(2) by (simp add: word_less_nat_alt)
    then show ?thesis using True e Cons.prems(1,4) by auto
  next
    case False
    then have "Suc n \<le> Suc (unat q)" using e(2) by (simp add: word_less_nat_alt)
    from Cons.IH [OF ok1 s1(2) _ this] Cons.prems(3) show ?thesis using False e s1(1) by simp
  qed
qed

subsection \<open>Properties\<close>

text \<open>
  C12: Every fact is traceable. In every state rebuilt from a journal, the provenance of every fact of every tenant
  can be computed: it lists exactly the fact's evidence, in order and at least one piece, and exactly the
  sources of that evidence, all of them of the fact's own tenant.
\<close>

theorem every_fact_is_traceable:
  assumes "replay sha es = Inr s" and "length es < 2 ^ 64"
    and "fmlookup (ks_tenants s) t = Some p" and "fmlookup (tk_facts p) i = Some r"
  shows "\<exists>prov. fact_provenance_of s t i = Inr prov \<and> fp_fact prov = r
    \<and> map evd_id (fp_evidence prov) = sorted_list_of_fset (fa_evidence (fct_assertion r)) \<and> fp_evidence prov \<noteq> []
    \<and> set (map src_id (fp_sources prov)) = set (map evd_source (fp_evidence prov))
    \<and> list_all (\<lambda>x. evd_tenant x = t) (fp_evidence prov) \<and> list_all (\<lambda>x. src_tenant x = t) (fp_sources prov)"
proof -
  have ok: "sources_ok t p" "evidence_ok t p" "fact_ok t (length es) p i r"
    using replay_ok [OF assms(1,2)] assms(3,4) by (auto simp: knowledge_ok_def partition_ok_def facts_ok_def)
  let ?is = "sorted_list_of_fset (fa_evidence (fct_assertion r))"
  have "list_all (\<lambda>i. i |\<in>| fmdom (tk_evidence p)) ?is"
    using ok(3) by (auto simp: fact_ok_def Let_def list_all_iff)
  with collect_evidence_ok [OF ok(2) this]
  obtain evs srcs where evs: "collect_evidence p ?is = Inr (evs, srcs)" "map evd_id evs = ?is" "fset srcs = evd_source ` set evs"
    "fset srcs \<subseteq> fset (fmdom (tk_sources p))" "list_all (\<lambda>x. evd_tenant x = t) evs" by blast
  have some: "?is \<noteq> []"
    using ok(3) by (metis fact_ok_def bot_fset.rep_eq fset_inject set_empty sorted_list_of_fset_simps(1))
  have "list_all (\<lambda>i. i |\<in>| fmdom (tk_sources p)) (sorted_list_of_fset srcs)" using evs(4) by (auto simp: list_all_iff)
  from collect_sources_ok [OF ok(1) this] obtain xs where xs: "collect_sources p (sorted_list_of_fset srcs) = Inr xs"
    "map src_id xs = sorted_list_of_fset srcs" "list_all (\<lambda>x. src_tenant x = t) xs" by blast
  have "set (map src_id xs) = set (map evd_source evs)" unfolding xs(2) using evs(3) by simp
  moreover have "evs \<noteq> []" using evs(2) some by auto
  moreover have "fact_provenance_of s t i = Inr \<lparr>fp_fact = r, fp_evidence = evs, fp_sources = xs\<rparr>"
    using assms(3,4) evs(1) xs(1) by (simp add: fact_provenance_of_def)
  ultimately show ?thesis using evs(2,5) xs(3) by (intro exI [of _ "\<lparr>fp_fact = r, fp_evidence = evs, fp_sources = xs\<rparr>"]) simp
qed

text \<open>
  C13: No contradiction goes unrecorded. In every state rebuilt from a journal, any two facts of one tenant, neither
  invalidated, that give the same subject and predicate different objects over overlapping valid times (neither
  ends at or before the start of the other) are both members of the recorded conflict of that subject and
  predicate, whatever their kinds, and every member of a conflict is a fact of the tenant.
\<close>

theorem contradictions_are_recorded:
  assumes "replay sha es = Inr s" and "length es < 2 ^ 64" and "fmlookup (ks_tenants s) t = Some p"
    and "fmlookup (tk_facts p) i = Some r" and "fmlookup (tk_facts p) j = Some r'"
    and "fct_invalidated_at r = None" and "fct_invalidated_at r' = None"
    and "fa_subject (fct_assertion r') = fa_subject (fct_assertion r)"
    and "fa_predicate (fct_assertion r') = fa_predicate (fct_assertion r)"
    and "fa_object (fct_assertion r') \<noteq> fa_object (fct_assertion r)"
    and "\<And>a b. vi_from (fa_validity (fct_assertion r)) = Some a \<Longrightarrow> vi_until (fa_validity (fct_assertion r')) = Some b \<Longrightarrow> a < b"
    and "\<And>a b. vi_from (fa_validity (fct_assertion r')) = Some a \<Longrightarrow> vi_until (fa_validity (fct_assertion r)) = Some b \<Longrightarrow> a < b"
  shows "\<exists>c. fmlookup (tk_conflicts p) (conflict_id_of sha t (fa_subject (fct_assertion r)) (fa_predicate (fct_assertion r))) = Some c
    \<and> i |\<in>| cnf_facts c \<and> j |\<in>| cnf_facts c \<and> cnf_facts c |\<subseteq>| fmdom (tk_facts p)"
proof -
  have "interval_overlaps (fa_validity (fct_assertion r')) (fa_validity (fct_assertion r))"
    using assms(11,12) by (auto simp: interval_overlaps_def not_le split: option.splits)
  then have "competes (fct_assertion r) r'" using assms(7-10) by (simp add: competes_def)
  moreover have "conflicts_ok sha t p" using replay_ok [OF assms(1,2)] assms(3) by (simp add: knowledge_ok_def partition_ok_def)
  ultimately show ?thesis using assms(4-6) unfolding conflicts_ok_def by blast
qed

text \<open>
  C14: Filtering the present state by transaction time answers what the past state would have answered. For every
  journal that replays and every sequence number \<open>q\<close>, replaying only up to \<open>q\<close> succeeds too, and for every tenant
  and valid time \<open>facts_at\<close> at \<open>q\<close> lists the same assertions in both states; those of the past state are
  current there. A tenant that did not exist at \<open>q\<close> has no facts at \<open>q\<close>.
\<close>

theorem history_query_is_replay:
  assumes "replay sha es = Inr s" and "length es < 2 ^ 64"
  shows "\<exists>s'. replay_at sha es q = Inr s'
    \<and> (\<forall>t vt. case facts_at s' t vt q of
         Inr past \<Rightarrow> (\<exists>fs. facts_at s t vt q = Inr fs \<and> map fct_assertion fs = map fct_assertion past)
                   \<and> list_all (\<lambda>r. fct_invalidated_at r = None) past
       | Inl _ \<Rightarrow> facts_at s t vt q = Inl KnowledgeUnknownTenant \<or> facts_at s t vt q = Inr [])"
proof -
  obtain s' n where s': "replay_at sha es q = Inr s'" "knowledge_ok sha n s'" "n \<le> Suc (unat q)" "keeps_known q s' s"
    using replay_until_known [OF knowledge_ok_new, of sha es s q] assms by (auto simp: replay_def replay_at_def)
  have "case facts_at s' t vt q of
         Inr past \<Rightarrow> (\<exists>fs. facts_at s t vt q = Inr fs \<and> map fct_assertion fs = map fct_assertion past)
                   \<and> list_all (\<lambda>r. fct_invalidated_at r = None) past
       | Inl _ \<Rightarrow> facts_at s t vt q = Inl KnowledgeUnknownTenant \<or> facts_at s t vt q = Inr []" for t vt
  proof (cases "fmlookup (ks_tenants s') t")
    case None
    then have "known q (partition_of s t) = fmempty"
      using s'(4) by (simp add: keeps_known_def partition_of_def fmget_or_def known_def tenant_knowledge_default_def fmap_ext)
    then have "facts_at s t vt q = Inl KnowledgeUnknownTenant \<or> facts_at s t vt q = Inr []"
    proof (cases "fmlookup (ks_tenants s) t")
      case (Some p)
      then show ?thesis using facts_at_known [OF Some, of vt q] \<open>known q (partition_of s t) = fmempty\<close>
        by (auto simp: partition_of_Some sorted_list_of_fmap_def sorted_list_of_fset.rep_eq)
    qed (simp add: facts_at_def)
    then show ?thesis using None by (simp add: facts_at_def)
  next
    case (Some p')
    then have "t |\<in>| fmdom (ks_tenants s)" using s'(4) by (auto simp: keeps_known_def fmdomI)
    then obtain p where p: "fmlookup (ks_tenants s) t = Some p" by (auto simp: fmlookup_dom_iff)
    then have "known q p = known q p'" using s'(4) partition_of_Some [OF p] partition_of_Some [OF Some] unfolding keeps_known_def by metis
    moreover obtain past where past: "facts_at s' t vt q = Inr past"
      "map fct_assertion past = filter (\<lambda>a. interval_contains (fa_validity a) vt) (map snd (sorted_list_of_fmap (known q p')))"
      using facts_at_known [OF Some] by blast
    moreover have "fct_invalidated_at r = None" if "r \<in> set past" for r
    proof -
      from that obtain i where r: "fmlookup (tk_facts p') i = Some r" "visible_at_transaction r q"
        using past(1) Some by (auto simp: facts_at_def visible_at_def)
      have "facts_ok t n p'" using s'(2) Some by (simp add: knowledge_ok_def partition_ok_def)
      then have "\<forall>x. fct_invalidated_at r = Some x \<longrightarrow> unat x < n" using r(1) by (simp add: facts_ok_def fact_ok_def Let_def)
      then show ?thesis using r(2) s'(3) by (cases "fct_invalidated_at r") (auto simp: visible_at_transaction_def word_less_nat_alt)
    qed
    ultimately show ?thesis using facts_at_known [OF p, of vt q] by (auto simp: list_all_iff)
  qed
  then show ?thesis using s'(1) by blast
qed

subsection \<open>A sample journal\<close>

definition sample_tenant :: tenant_id where
  "sample_tenant = TenantId ''acme''"

definition sample_fact :: "fact_id \<Rightarrow> str \<Rightarrow> fact_assertion" where
  "sample_fact i v = \<lparr>fa_id = i, fa_tenant = sample_tenant, fa_subject = ''e'', fa_predicate = ''owner'', fa_object = ObjectLiteral v,
     fa_validity = unbounded, fa_evidence = {|''v''|}, fa_kind = Observation\<rparr>"

definition sample_source :: source_record where
  "sample_source = \<lparr>src_id = ''s'', src_tenant = sample_tenant, src_locator = ''file'', src_content_hash = None, src_trust = TrustInternal\<rparr>"

definition sample_evidence :: evidence_record where
  "sample_evidence = \<lparr>evd_id = ''v'', evd_tenant = sample_tenant, evd_source = ''s'', evd_locator = None, evd_content_hash = None\<rparr>"

definition sample_entity :: entity_record where
  "sample_entity = \<lparr>ent_id = ''e'', ent_tenant = sample_tenant, ent_namespace = None, ent_type = ''service'', ent_label = None,
     ent_evidence = {|''v''|}, ent_kind = Observation\<rparr>"

definition sample_journal :: "knowledge_entry list" where
  "sample_journal =
    [\<lparr>ke_sequence = 0, ke_op = RegisterSource sample_source\<rparr>, \<lparr>ke_sequence = 1, ke_op = AddEvidence sample_evidence\<rparr>,
     \<lparr>ke_sequence = 2, ke_op = AddEntity sample_entity\<rparr>, \<lparr>ke_sequence = 3, ke_op = AssertFact (sample_fact ''f1'' ''alice'')\<rparr>,
     \<lparr>ke_sequence = 4, ke_op = AssertFact (sample_fact ''f2'' ''bob'')\<rparr>]"

lemma sample_names [simp]:
  "trim ''s'' = ''s''" "trim ''v'' = ''v''" "trim ''e'' = ''e''" "trim ''f1'' = ''f1''" "trim ''f2'' = ''f2''" "trim ''owner'' = ''owner''"
  "trim ''file'' = ''file''" "trim ''service'' = ''service''" "trim ''acme'' = ''acme''"
  by (rule trim_ascii_id; simp add: is_ascii_str_def is_whitespace_def)+

lemmas sample_defs = sample_source_def sample_evidence_def sample_entity_def sample_fact_def sample_tenant_def

lemmas operation_defs = knowledge_apply_def register_source_def add_evidence_def add_entity_def assert_fact_def or_return_def
  require_id_def require_predicate_def require_evidence_def validate_evidence_def validate_entity_def validate_interval_def interval_validate_def
  unbounded_def partition_mut_def put_partition_def

definition sample_state :: "u64 \<Rightarrow> tenant_knowledge \<Rightarrow> knowledge_state" where
  "sample_state n p = \<lparr>ks_next_sequence = n, ks_tenants = fmupd sample_tenant p fmempty\<rparr>"

definition sample_partition :: tenant_knowledge where
  "sample_partition = tenant_knowledge_default\<lparr>tk_sources := fmupd ''s'' sample_source fmempty,
     tk_evidence := fmupd ''v'' sample_evidence fmempty, tk_entities := fmupd ''e'' sample_entity fmempty\<rparr>"

lemma sample_setup:
  "replay_onto sha (take 3 sample_journal) knowledge_new = Inr (sample_state 3 sample_partition)"
proof -
  have "knowledge_apply sha \<lparr>ke_sequence = 0, ke_op = RegisterSource sample_source\<rparr> knowledge_new
      = (Inr (), sample_state 1 (tenant_knowledge_default\<lparr>tk_sources := fmupd ''s'' sample_source fmempty\<rparr>))"
    by (simp add: operation_defs sample_state_def sample_defs knowledge_new_def tenant_knowledge_default_def fmget_or_def)
  moreover have "knowledge_apply sha \<lparr>ke_sequence = 1, ke_op = AddEvidence sample_evidence\<rparr>
      (sample_state 1 (tenant_knowledge_default\<lparr>tk_sources := fmupd ''s'' sample_source fmempty\<rparr>))
      = (Inr (), sample_state 2 (tenant_knowledge_default\<lparr>tk_sources := fmupd ''s'' sample_source fmempty,
          tk_evidence := fmupd ''v'' sample_evidence fmempty\<rparr>))"
    by (simp add: operation_defs sample_state_def sample_defs tenant_knowledge_default_def)
  moreover have "knowledge_apply sha \<lparr>ke_sequence = 2, ke_op = AddEntity sample_entity\<rparr>
      (sample_state 2 (tenant_knowledge_default\<lparr>tk_sources := fmupd ''s'' sample_source fmempty, tk_evidence := fmupd ''v'' sample_evidence fmempty\<rparr>))
      = (Inr (), sample_state 3 sample_partition)"
    by (simp add: operation_defs sample_state_def sample_defs tenant_knowledge_default_def sample_partition_def sorted_list_of_fset.rep_eq)
  ultimately show ?thesis by (simp add: sample_journal_def)
qed

lemma sample_assert:
  assumes "tk_evidence p = tk_evidence sample_partition" and "tk_entities p = tk_entities sample_partition"
    and "\<not> fmcontains (tk_facts p) i" and "i \<in> {''f1'', ''f2''}"
  shows "\<exists>p'. knowledge_apply sha \<lparr>ke_sequence = n, ke_op = AssertFact (sample_fact i v)\<rparr> (sample_state n p) = (Inr (), sample_state (n + 1) p')
    \<and> tk_facts p' = fmupd i \<lparr>fct_assertion = sample_fact i v, fct_asserted_at = n, fct_invalidated_at = None\<rparr> (tk_facts p)
    \<and> tk_evidence p' = tk_evidence p \<and> tk_entities p' = tk_entities p"
  using assms
  by (auto simp: operation_defs sample_state_def sample_fact_def Let_def sample_partition_def sorted_list_of_fset.rep_eq)

lemma sample_replay:
  "\<exists>s p. replay (\<lambda>x. []) sample_journal = Inr s \<and> fmlookup (ks_tenants s) sample_tenant = Some p
    \<and> fmlookup (tk_facts p) ''f1'' = Some \<lparr>fct_assertion = sample_fact ''f1'' ''alice'', fct_asserted_at = 3, fct_invalidated_at = None\<rparr>
    \<and> fmlookup (tk_facts p) ''f2'' = Some \<lparr>fct_assertion = sample_fact ''f2'' ''bob'', fct_asserted_at = 4, fct_invalidated_at = None\<rparr>"
proof -
  let ?sha = "\<lambda>x. []"
  have none: "tk_facts sample_partition = fmempty" by (simp add: sample_partition_def tenant_knowledge_default_def)
  obtain p1 where p1: "knowledge_apply ?sha \<lparr>ke_sequence = 3, ke_op = AssertFact (sample_fact ''f1'' ''alice'')\<rparr> (sample_state 3 sample_partition)
      = (Inr (), sample_state 4 p1)"
    "tk_facts p1 = fmupd ''f1'' \<lparr>fct_assertion = sample_fact ''f1'' ''alice'', fct_asserted_at = 3, fct_invalidated_at = None\<rparr> fmempty"
    "tk_evidence p1 = tk_evidence sample_partition" "tk_entities p1 = tk_entities sample_partition"
    using sample_assert [of sample_partition "''f1''" ?sha 3 "''alice''"] none by auto
  obtain p2 where p2: "knowledge_apply ?sha \<lparr>ke_sequence = 4, ke_op = AssertFact (sample_fact ''f2'' ''bob'')\<rparr> (sample_state 4 p1)
      = (Inr (), sample_state 5 p2)"
    "tk_facts p2 = fmupd ''f2'' \<lparr>fct_assertion = sample_fact ''f2'' ''bob'', fct_asserted_at = 4, fct_invalidated_at = None\<rparr> (tk_facts p1)"
    using sample_assert [OF p1(3,4), of "''f2''" ?sha 4 "''bob''"] p1(2) by auto
  have split: "sample_journal = take 3 sample_journal @ drop 3 sample_journal" by simp
  have "replay_onto sha (xs @ ys) s = (case replay_onto sha xs s of Inl e \<Rightarrow> Inl e | Inr s' \<Rightarrow> replay_onto sha ys s')" for sha xs ys s
    by (induction xs arbitrary: s) (auto split: prod.splits sum.splits)
  then have "replay ?sha sample_journal = replay_onto ?sha (drop 3 sample_journal) (sample_state 3 sample_partition)"
    unfolding replay_def by (subst split) (simp only: sample_setup sum.case)
  then have "replay ?sha sample_journal = Inr (sample_state 5 p2)" using p1(1) p2(1) by (simp add: sample_journal_def)
  then show ?thesis using p1(2) p2(2) by (simp add: sample_state_def)
qed

theorem every_fact_is_traceable_witness:
  "\<exists>s prov. replay (\<lambda>x. []) sample_journal = Inr s \<and> fact_provenance_of s sample_tenant ''f1'' = Inr prov
    \<and> map evd_id (fp_evidence prov) = [''v'']"
  using sample_replay every_fact_is_traceable [of "\<lambda>x. []" sample_journal _ sample_tenant _ "''f1''"]
  by (fastforce simp: sample_journal_def sample_fact_def sorted_list_of_fset.rep_eq)

theorem contradictions_are_recorded_witness:
  "\<exists>s p c. replay (\<lambda>x. []) sample_journal = Inr s \<and> fmlookup (ks_tenants s) sample_tenant = Some p
    \<and> fmlookup (tk_conflicts p) (conflict_id_of (\<lambda>x. []) sample_tenant ''e'' ''owner'') = Some c \<and> {|''f1'', ''f2''|} |\<subseteq>| cnf_facts c"
proof -
  obtain s p where s: "replay (\<lambda>x. []) sample_journal = Inr s" "fmlookup (ks_tenants s) sample_tenant = Some p"
    "fmlookup (tk_facts p) ''f1'' = Some \<lparr>fct_assertion = sample_fact ''f1'' ''alice'', fct_asserted_at = 3, fct_invalidated_at = None\<rparr>"
    "fmlookup (tk_facts p) ''f2'' = Some \<lparr>fct_assertion = sample_fact ''f2'' ''bob'', fct_asserted_at = 4, fct_invalidated_at = None\<rparr>"
    using sample_replay by blast
  from contradictions_are_recorded [OF s(1) _ s(2-4)]
  have "\<exists>c. fmlookup (tk_conflicts p) (conflict_id_of (\<lambda>x. []) sample_tenant ''e'' ''owner'') = Some c \<and> ''f1'' |\<in>| cnf_facts c \<and> ''f2'' |\<in>| cnf_facts c"
    by (simp add: sample_journal_def sample_fact_def unbounded_def) blast
  then show ?thesis using s(1,2) by auto
qed

theorem history_query_is_replay_witness:
  "\<exists>s s' past fs. replay (\<lambda>x. []) sample_journal = Inr s \<and> replay_at (\<lambda>x. []) sample_journal 3 = Inr s'
    \<and> facts_at s sample_tenant 0 3 = Inr fs \<and> facts_at s' sample_tenant 0 3 = Inr past
    \<and> map fct_assertion fs = map fct_assertion past \<and> fs \<noteq> []"
proof -
  obtain s p where s: "replay (\<lambda>x. []) sample_journal = Inr s" "fmlookup (ks_tenants s) sample_tenant = Some p"
    "fmlookup (tk_facts p) ''f1'' = Some \<lparr>fct_assertion = sample_fact ''f1'' ''alice'', fct_asserted_at = 3, fct_invalidated_at = None\<rparr>"
    using sample_replay by blast
  have "(''f1'', \<lparr>fct_assertion = sample_fact ''f1'' ''alice'', fct_asserted_at = 3, fct_invalidated_at = None\<rparr>)
      \<in> set (sorted_list_of_fmap (tk_facts p))" using s(3) by simp
  then have some: "\<exists>fs. facts_at s sample_tenant 0 3 = Inr fs \<and> fs \<noteq> []"
    using s(2) by (force simp: facts_at_def filter_empty_conv visible_at_def visible_at_transaction_def sample_fact_def
        unbounded_def interval_contains_def)
  have "length sample_journal < 2 ^ 64" by (simp add: sample_journal_def)
  from history_query_is_replay [OF s(1) this, of 3] obtain s' where s': "replay_at (\<lambda>x. []) sample_journal 3 = Inr s'"
    "case facts_at s' sample_tenant 0 3 of
         Inr past \<Rightarrow> (\<exists>fs. facts_at s sample_tenant 0 3 = Inr fs \<and> map fct_assertion fs = map fct_assertion past)
                   \<and> list_all (\<lambda>r. fct_invalidated_at r = None) past
       | Inl _ \<Rightarrow> facts_at s sample_tenant 0 3 = Inl KnowledgeUnknownTenant \<or> facts_at s sample_tenant 0 3 = Inr []" by blast
  then show ?thesis using s(1) some by (cases "facts_at s' sample_tenant 0 3") auto
qed

end
