(* ===== verification/Knowledge_Graph.thy ===== *)
theory Knowledge_Graph
  imports Knowledge_Properties
begin

section \<open>Bounded graph queries (crates/ccos-enterprise-kg)\<close>

text \<open>
  \<open>GraphView\<close>: the relations of one tenant that are visible at a valid time, read as a graph. The two
  breadth-first searches are written as their loops: the queue of nodes with their depths, the set of
  visited nodes, and for a shortest path the map of parents. Both loops end because every node they push
  enlarges a set that may not exceed \<open>max_visited\<close>. Following the parents back may fail to end on an
  arbitrary map, so it is a partial function.
\<close>

record graph_limits =
  gl_max_depth :: nat
  gl_max_visited :: nat
  gl_max_results :: nat

definition graph_limits_default :: graph_limits where
  "graph_limits_default = \<lparr>gl_max_depth = 16, gl_max_visited = 10000, gl_max_results = 1000\<rparr>"

datatype graph_error =
    InvalidLimits
  | GraphUnknownTenant
  | GraphUnknownEntity entity_id
  | ResultLimitExceeded nat
  | VisitLimitExceeded nat

fun graph_error_text :: "graph_error \<Rightarrow> str" where
  "graph_error_text InvalidLimits = ''graph limits must all be greater than zero''"
| "graph_error_text GraphUnknownTenant = ''tenant knowledge partition does not exist''"
| "graph_error_text (GraphUnknownEntity i) = ''unknown entity '' @ i"
| "graph_error_text (ResultLimitExceeded limit) = ''graph query exceeded '' @ show_nat limit @ ''-result bound''"
| "graph_error_text (VisitLimitExceeded limit) = ''graph query exceeded '' @ show_nat limit @ ''-visited-node bound''"

definition limits_validate :: "graph_limits \<Rightarrow> graph_error + graph_limits" where
  "limits_validate l =
     (if gl_max_depth l = 0 \<or> gl_max_visited l = 0 \<or> gl_max_results l = 0 then Inl InvalidLimits else Inr l)"

record graph_edge =
  ge_id :: relation_id
  ge_from :: entity_id
  ge_relation :: str
  ge_to :: entity_id
  ge_evidence :: "evidence_id fset"

record graph_path =
  gp_entities :: "entity_id list"
  gp_relations :: "relation_id list"

record graph_view =
  gv_tenant :: tenant_knowledge
  gv_valid_time :: unix_millis
  gv_limits :: graph_limits

definition graph_view_new :: "knowledge_state \<Rightarrow> tenant_id \<Rightarrow> unix_millis \<Rightarrow> graph_limits \<Rightarrow> graph_error + graph_view" where
  "graph_view_new s tenant valid_time limits =
     (case fmlookup (ks_tenants s) tenant of
        None \<Rightarrow> Inl GraphUnknownTenant
      | Some p \<Rightarrow> res_bind (limits_validate limits) (\<lambda>l. Inr \<lparr>gv_tenant = p, gv_valid_time = valid_time, gv_limits = l\<rparr>))"

definition graph_entity :: "graph_view \<Rightarrow> entity_id \<Rightarrow> graph_error + entity_record" where
  "graph_entity g i = (case fmlookup (tk_entities (gv_tenant g)) i of None \<Rightarrow> Inl (GraphUnknownEntity i) | Some e \<Rightarrow> Inr e)"

definition graph_entity_count :: "graph_view \<Rightarrow> nat" where
  "graph_entity_count g = fmlen (tk_entities (gv_tenant g))"

definition relation_visible :: "relation_record \<Rightarrow> unix_millis \<Rightarrow> bool" where
  "relation_visible r valid_time \<longleftrightarrow> rlr_invalidated_at r = None \<and> interval_contains (ra_validity (rlr_assertion r)) valid_time"

definition graph_edge_of :: "relation_record \<Rightarrow> graph_edge" where
  "graph_edge_of r = (let a = rlr_assertion r in
     \<lparr>ge_id = ra_id a, ge_from = ra_from a, ge_relation = ra_relation a, ge_to = ra_to a, ge_evidence = ra_evidence a\<rparr>)"

definition bound_results :: "graph_view \<Rightarrow> 'a list \<Rightarrow> graph_error + 'a list" where
  "bound_results g results =
     (if gl_max_results (gv_limits g) < length results then Inl (ResultLimitExceeded (gl_max_results (gv_limits g))) else Inr results)"

definition name_matches :: "str option \<Rightarrow> str \<Rightarrow> bool" where
  "name_matches relation_filter name \<longleftrightarrow> (case relation_filter of None \<Rightarrow> True | Some n \<Rightarrow> name = n)"

definition outgoing :: "graph_view \<Rightarrow> entity_id \<Rightarrow> str option \<Rightarrow> graph_error + graph_edge list" where
  "outgoing g i relation_filter =
     res_bind (graph_entity g i) (\<lambda>_.
       bound_results g (sort_key (\<lambda>e. (ge_to e, ge_relation e, ge_id e)) (map graph_edge_of
         (filter (\<lambda>r. relation_visible r (gv_valid_time g) \<and> ra_from (rlr_assertion r) = i
              \<and> name_matches relation_filter (ra_relation (rlr_assertion r)))
           (map snd (sorted_list_of_fmap (tk_relations (gv_tenant g))))))))"

definition incoming :: "graph_view \<Rightarrow> entity_id \<Rightarrow> str option \<Rightarrow> graph_error + graph_edge list" where
  "incoming g i relation_filter =
     res_bind (graph_entity g i) (\<lambda>_.
       bound_results g (sort_key (\<lambda>e. (ge_from e, ge_relation e, ge_id e)) (map graph_edge_of
         (filter (\<lambda>r. relation_visible r (gv_valid_time g) \<and> ra_to (rlr_assertion r) = i
              \<and> name_matches relation_filter (ra_relation (rlr_assertion r)))
           (map snd (sorted_list_of_fmap (tk_relations (gv_tenant g))))))))"

subsection \<open>Everything within reach\<close>

text \<open>The inner loop of \<open>walk\<close> over the edges of one node.\<close>

fun walk_edges ::
  "graph_limits \<Rightarrow> (graph_edge \<Rightarrow> entity_id) \<Rightarrow> nat \<Rightarrow> graph_edge list \<Rightarrow> (entity_id \<times> nat) list \<Rightarrow> entity_id fset
     \<Rightarrow> graph_error + ((entity_id \<times> nat) list \<times> entity_id fset)" where
  "walk_edges l next_of depth [] queue visited = Inr (queue, visited)"
| "walk_edges l next_of depth (e # es) queue visited =
     (let next = next_of e in
      if next |\<in>| visited then walk_edges l next_of depth es queue visited
      else let visited = finsert next visited in
        if gl_max_visited l < fcard visited then Inl (VisitLimitExceeded (gl_max_visited l))
        else if gl_max_results l < fcard visited - 1 then Inl (ResultLimitExceeded (gl_max_results l))
        else walk_edges l next_of depth es (queue @ [(next, depth + 1)]) visited)"

lemma walk_edges_measure:
  assumes "walk_edges l next_of depth es queue visited = Inr (queue', visited')"
  shows "(gl_max_visited l - fcard visited') + length queue' \<le> (gl_max_visited l - fcard visited) + length queue"
  using assms
proof (induction es arbitrary: queue visited)
  case (Cons e es)
  show ?case
  proof (cases "next_of e |\<in>| visited")
    case True
    then show ?thesis using Cons by simp
  next
    case False
    then have "fcard (finsert (next_of e) visited) = Suc (fcard visited)" by (simp add: fcard_finsert_if)
    then show ?thesis using Cons.IH [of "queue @ [(next_of e, depth + 1)]" "finsert (next_of e) visited"] Cons.prems False
      by (simp add: Let_def split: if_splits)
  qed
qed simp

text \<open>The outer loop; \<open>direction\<close> is \<open>outgoing\<close> or \<open>incoming\<close> with the function that reads the far end of an edge.\<close>

function walk_loop ::
  "graph_limits \<Rightarrow> (entity_id \<Rightarrow> graph_error + graph_edge list) \<Rightarrow> (graph_edge \<Rightarrow> entity_id) \<Rightarrow> (entity_id \<times> nat) list \<Rightarrow> entity_id fset
     \<Rightarrow> graph_error + entity_id fset" where
  "walk_loop l edges_of next_of [] visited = Inr visited"
| "walk_loop l edges_of next_of ((current, depth) # queue) visited =
     (if gl_max_depth l \<le> depth then walk_loop l edges_of next_of queue visited
      else case edges_of current of
          Inl e \<Rightarrow> Inl e
        | Inr es \<Rightarrow>
            (case walk_edges l next_of depth es queue visited of
               Inl e \<Rightarrow> Inl e
             | Inr (queue, visited) \<Rightarrow> walk_loop l edges_of next_of queue visited))"
  by pat_completeness auto
termination
proof (relation "measure (\<lambda>(l, edges_of, next_of, queue, visited). (gl_max_visited l - fcard visited) + length queue)", goal_cases)
  case (3 l edges_of next_of current depth queue visited es r queue' visited')
  then show ?case using walk_edges_measure [of l next_of depth es queue visited queue' visited'] by auto
qed auto

definition walk :: "graph_view \<Rightarrow> entity_id \<Rightarrow> str option \<Rightarrow> bool \<Rightarrow> graph_error + entity_id list" where
  "walk g root relation_filter out =
     res_bind (graph_entity g root) (\<lambda>_.
     res_bind (walk_loop (gv_limits g)
         (\<lambda>i. if out then outgoing g i relation_filter else incoming g i relation_filter)
         (\<lambda>e. if out then ge_to e else ge_from e) [(root, 0)] {|root|}) (\<lambda>visited.
       Inr (sorted_list_of_fset (visited |-| {|root|}))))"

definition descendants :: "graph_view \<Rightarrow> entity_id \<Rightarrow> str option \<Rightarrow> graph_error + entity_id list" where
  "descendants g root relation_filter = walk g root relation_filter True"

definition ancestors :: "graph_view \<Rightarrow> entity_id \<Rightarrow> str option \<Rightarrow> graph_error + entity_id list" where
  "ancestors g root relation_filter = walk g root relation_filter False"

subsection \<open>Shortest paths\<close>

type_synonym parent_map = "(entity_id, entity_id \<times> relation_id) fmap"

text \<open>The loop of \<open>reconstruct_path\<close>; a node without a parent is the panic of \<open>expect\<close>.\<close>

partial_function (option) reconstruct_loop ::
  "entity_id \<Rightarrow> parent_map \<Rightarrow> entity_id \<Rightarrow> entity_id list \<Rightarrow> relation_id list \<Rightarrow> (entity_id list \<times> relation_id list) option" where
  "reconstruct_loop src parent cursor entities relations =
     (if cursor = src then Some (entities, relations)
      else case fmlookup parent cursor of
          None \<Rightarrow> None
        | Some (previous, relation) \<Rightarrow>
            reconstruct_loop src parent previous (entities @ [previous]) (relations @ [relation]))"

definition reconstruct_path :: "entity_id \<Rightarrow> entity_id \<Rightarrow> parent_map \<Rightarrow> graph_path option" where
  "reconstruct_path src dst parent =
     map_option (\<lambda>(entities, relations). \<lparr>gp_entities = rev entities, gp_relations = rev relations\<rparr>)
       (reconstruct_loop src parent dst [dst] [])"

text \<open>
  The inner loop returns from the function (\<open>Inl\<close>: an error or the parents that lead to the target) or goes on
  with the queue, the visited nodes and the parents.
\<close>

fun path_edges ::
  "graph_limits \<Rightarrow> entity_id \<Rightarrow> entity_id \<Rightarrow> nat \<Rightarrow> graph_edge list \<Rightarrow> (entity_id \<times> nat) list \<Rightarrow> entity_id fset \<Rightarrow> parent_map
     \<Rightarrow> (graph_error + parent_map) + ((entity_id \<times> nat) list \<times> entity_id fset \<times> parent_map)" where
  "path_edges l dst current depth [] queue visited parent = Inr (queue, visited, parent)"
| "path_edges l dst current depth (e # es) queue visited parent =
     (if ge_to e |\<in>| visited then path_edges l dst current depth es queue visited parent
      else let visited = finsert (ge_to e) visited in
        if gl_max_visited l < fcard visited then Inl (Inl (VisitLimitExceeded (gl_max_visited l)))
        else let parent = fmupd (ge_to e) (current, ge_id e) parent in
          if ge_to e = dst then Inl (Inr parent)
          else path_edges l dst current depth es (queue @ [(ge_to e, depth + 1)]) visited parent)"

lemma path_edges_measure:
  assumes "path_edges l dst current depth es queue visited parent = Inr (queue', visited', parent')"
  shows "(gl_max_visited l - fcard visited') + length queue' \<le> (gl_max_visited l - fcard visited) + length queue"
  using assms
proof (induction es arbitrary: queue visited parent)
  case (Cons e es)
  show ?case
  proof (cases "ge_to e |\<in>| visited")
    case True
    then show ?thesis using Cons by simp
  next
    case False
    then have "fcard (finsert (ge_to e) visited) = Suc (fcard visited)" by (simp add: fcard_finsert_if)
    then show ?thesis
      using Cons.IH [of "queue @ [(ge_to e, depth + 1)]" "finsert (ge_to e) visited" "fmupd (ge_to e) (current, ge_id e) parent"]
        Cons.prems False by (simp add: Let_def split: if_splits)
  qed
qed simp

function path_loop ::
  "graph_limits \<Rightarrow> (entity_id \<Rightarrow> graph_error + graph_edge list) \<Rightarrow> entity_id \<Rightarrow> (entity_id \<times> nat) list \<Rightarrow> entity_id fset \<Rightarrow> parent_map
     \<Rightarrow> graph_error + parent_map option" where
  "path_loop l edges_of dst [] visited parent = Inr None"
| "path_loop l edges_of dst ((current, depth) # queue) visited parent =
     (if gl_max_depth l \<le> depth then path_loop l edges_of dst queue visited parent
      else case edges_of current of
          Inl e \<Rightarrow> Inl e
        | Inr es \<Rightarrow>
            (case path_edges l dst current depth es queue visited parent of
               Inl (Inl e) \<Rightarrow> Inl e
             | Inl (Inr parent) \<Rightarrow> Inr (Some parent)
             | Inr (queue, visited, parent) \<Rightarrow> path_loop l edges_of dst queue visited parent))"
  by pat_completeness auto
termination
proof (relation "measure (\<lambda>(l, edges_of, dst, queue, visited, parent). (gl_max_visited l - fcard visited) + length queue)", goal_cases)
  case (3 l edges_of dst current depth queue visited parent es r queue' y visited' parent')
  then show ?case using path_edges_measure [of l dst current depth es queue visited parent queue' visited' parent'] by auto
qed auto

text \<open>The outer \<open>None\<close> is a search that does not return.\<close>

definition shortest_path ::
  "graph_view \<Rightarrow> entity_id \<Rightarrow> entity_id \<Rightarrow> str option \<Rightarrow> (graph_error + graph_path option) option" where
  "shortest_path g src dst relation_filter =
     (case graph_entity g src of
        Inl e \<Rightarrow> Some (Inl e)
      | Inr _ \<Rightarrow>
     (case graph_entity g dst of
        Inl e \<Rightarrow> Some (Inl e)
      | Inr _ \<Rightarrow>
          if src = dst then Some (Inr (Some \<lparr>gp_entities = [src], gp_relations = []\<rparr>))
          else (case path_loop (gv_limits g) (\<lambda>i. outgoing g i relation_filter) dst [(src, 0)] {|src|} fmempty of
                  Inl e \<Rightarrow> Some (Inl e)
                | Inr None \<Rightarrow> Some (Inr None)
                | Inr (Some parent) \<Rightarrow> map_option (\<lambda>p. Inr (Some p)) (reconstruct_path src dst parent))))"

end
