(* ===== verification/Graph_Search.thy ===== *)
theory Graph_Search
  imports Knowledge_Graph
begin

section \<open>Breadth-first search by layers\<close>

text \<open>
  The invariant both searches share. \<open>within E x n\<close> is what can be reached from \<open>x\<close> in at most \<open>n\<close> steps.
  The queue holds nodes of two adjacent layers: the rest \<open>A\<close> of layer \<open>d\<close>, still to be expanded, then the
  nodes \<open>B\<close> of the next layer found so far.
\<close>

primrec within :: "('a \<Rightarrow> 'a \<Rightarrow> bool) \<Rightarrow> 'a \<Rightarrow> nat \<Rightarrow> 'a set" where
  "within E x 0 = {x}"
| "within E x (Suc n) = within E x n \<union> {z. \<exists>y\<in>within E x n. E y z}"

lemma within_mono: "m \<le> n \<Longrightarrow> within E x m \<subseteq> within E x n"
  by (induction n) (auto simp: le_Suc_eq)

lemma within_root [simp]: "x \<in> within E x n"
  by (induction n) auto

definition layered :: "nat \<Rightarrow> 'a list \<Rightarrow> 'a list \<Rightarrow> ('a \<times> nat) list" where
  "layered d A B = map (\<lambda>x. (x, d)) A @ map (\<lambda>x. (x, Suc d)) B"

definition search_inv :: "('a \<Rightarrow> 'a \<Rightarrow> bool) \<Rightarrow> 'a \<Rightarrow> nat \<Rightarrow> 'a list \<Rightarrow> 'a list \<Rightarrow> nat \<Rightarrow> 'a set \<Rightarrow> bool" where
  "search_inv E x D A B d V \<longleftrightarrow>
     d \<le> D \<and> V = within E x d \<union> set B \<and> set B \<inter> within E x d = {} \<and> set A \<subseteq> within E x d
     \<and> (d < D \<longrightarrow> (\<forall>u v. u \<in> within E x d \<longrightarrow> u \<notin> set A \<longrightarrow> E u v \<longrightarrow> v \<in> V))
     \<and> (\<forall>v\<in>set B. \<exists>u\<in>within E x d. E u v) \<and> (d = D \<longrightarrow> B = [])"

lemma search_start: "search_inv E x D [x] [] 0 {x}"
  by (simp add: search_inv_def)

lemma search_within: "search_inv E x D A B d V \<Longrightarrow> V \<subseteq> within E x D"
proof -
  assume inv: "search_inv E x D A B d V"
  show ?thesis
  proof (cases "d = D")
    case True
    then show ?thesis using inv by (simp add: search_inv_def)
  next
    case False
    then have "within E x (Suc d) \<subseteq> within E x D" using inv by (intro within_mono) (simp add: search_inv_def)
    then show ?thesis using inv unfolding search_inv_def by auto
  qed
qed

text \<open>The next layer is complete when the last node of a layer has been expanded.\<close>

lemma search_shift:
  assumes "search_inv E x D [] B d V" and "B \<noteq> []"
  shows "search_inv E x D B [] (Suc d) V"
proof -
  have "d < D" using assms by (auto simp: search_inv_def)
  then have "V = within E x (Suc d)" using assms(1) unfolding search_inv_def by auto
  then show ?thesis using assms(1) \<open>d < D\<close> unfolding search_inv_def by auto
qed

lemma search_end:
  assumes "search_inv E x D [] [] d V"
  shows "V = within E x D"
proof -
  have V: "V = within E x d" "d \<le> D" using assms by (auto simp: search_inv_def)
  have "within E x (d + k) = within E x d" if "d < D" for k
    using assms that by (induction k) (auto simp: search_inv_def)
  from this [of "D - d"] show ?thesis using V by (cases "d < D") auto
qed

lemma search_visit:
  assumes "search_inv E x D (u # A) B d V" and "d < D" and "E u v" and "v \<notin> V"
  shows "search_inv E x D (u # A) (B @ [v]) d (insert v V)"
  using assms unfolding search_inv_def by auto

lemma search_expanded:
  assumes "search_inv E x D (u # A) B d V" and "d < D" and "\<And>v. E u v \<Longrightarrow> v \<in> V"
  shows "search_inv E x D A B d V"
proof -
  have "v \<in> V" if "w \<in> within E x d" "w \<notin> set A" "E w v" for w v
    using assms that by (cases "w = u") (auto simp: search_inv_def)
  then show ?thesis using assms(1) unfolding search_inv_def by auto
qed

lemma search_skip:
  assumes "search_inv E x D (u # A) B d V" and "D \<le> d"
  shows "search_inv E x D A B d V"
  using assms unfolding search_inv_def by auto

text \<open>Any queue that is not empty has a first node in its earlier layer, after a shift where it is needed.\<close>

lemma search_pop:
  assumes "search_inv E x D A B d V" and "layered d A B = (u, k) # queue"
  obtains A' B' where "search_inv E x D (u # A') B' k V" "queue = layered k A' B'"
proof (cases A)
  case (Cons a A')
  then show thesis using assms that by (auto simp: layered_def)
next
  case Nil
  then obtain B' where "B = u # B'" "k = Suc d" "queue = map (\<lambda>x. (x, Suc d)) B'" using assms(2) by (cases B) (auto simp: layered_def)
  then show thesis using search_shift [of E x D B d V] assms(1) Nil that [of B' "[]"] by (simp add: layered_def)
qed

lemma layered_snoc: "layered d A B @ [(v, Suc d)] = layered d A (B @ [v])"
  by (simp add: layered_def)

lemma layered_Nil_iff [simp]: "layered d A B = [] \<longleftrightarrow> A = [] \<and> B = []"
  by (simp add: layered_def)

subsection \<open>Walks\<close>

definition too_many :: "graph_limits \<Rightarrow> entity_id set \<Rightarrow> graph_error \<Rightarrow> bool" where
  "too_many l R e \<longleftrightarrow>
     (e = VisitLimitExceeded (gl_max_visited l) \<and> (\<exists>V. finite V \<and> V \<subseteq> R \<and> gl_max_visited l < card V))
     \<or> (e = ResultLimitExceeded (gl_max_results l) \<and> (\<exists>V. finite V \<and> V \<subseteq> R \<and> gl_max_results l < card V - 1))"

lemma fcard_card: "fcard V = card (fset V)"
  by (simp add: fcard.rep_eq)

lemma too_manyI:
  assumes "fset V \<subseteq> R"
  shows "gl_max_visited l < fcard V \<Longrightarrow> too_many l R (VisitLimitExceeded (gl_max_visited l))"
    and "gl_max_results l < fcard V - 1 \<Longrightarrow> too_many l R (ResultLimitExceeded (gl_max_results l))"
  using assms unfolding too_many_def fcard_card by (blast intro: finite_fset)+

lemma walk_edges_works:
  assumes "search_inv E x (gl_max_depth l) (u # A) B d (fset V)" and "d < gl_max_depth l"
    and "\<And>e. e \<in> set es \<Longrightarrow> E u (next_of e)" and "fcard V - 1 \<le> gl_max_results l"
  shows "case walk_edges l next_of d es (layered d A B) V of
      Inl e \<Rightarrow> too_many l (within E x (gl_max_depth l)) e
    | Inr (queue, V') \<Rightarrow> \<exists>B'. queue = layered d A B' \<and> search_inv E x (gl_max_depth l) (u # A) B' d (fset V')
        \<and> next_of ` set es \<subseteq> fset V' \<and> fset V \<subseteq> fset V' \<and> fcard V' - 1 \<le> gl_max_results l"
  using assms
proof (induction es arbitrary: B V)
  case Nil
  then show ?case by auto
next
  case (Cons e es)
  let ?v = "next_of e"
  show ?case
  proof (cases "?v |\<in>| V")
    case True
    have "case walk_edges l next_of d es (layered d A B) V of
      Inl e \<Rightarrow> too_many l (within E x (gl_max_depth l)) e
    | Inr (queue, V') \<Rightarrow> \<exists>B'. queue = layered d A B' \<and> search_inv E x (gl_max_depth l) (u # A) B' d (fset V')
        \<and> next_of ` set es \<subseteq> fset V' \<and> fset V \<subseteq> fset V' \<and> fcard V' - 1 \<le> gl_max_results l"
      using Cons by simp
    then show ?thesis using True by (auto split: sum.splits)
  next
    case False
    let ?V = "finsert ?v V"
    have inv: "search_inv E x (gl_max_depth l) (u # A) (B @ [?v]) d (fset ?V)"
      using search_visit [OF Cons.prems(1,2), of ?v] Cons.prems(3) [of e] False by simp
    have sub: "fset ?V \<subseteq> within E x (gl_max_depth l)" using search_within [OF inv] .
    have IH: "case walk_edges l next_of d es (layered d A (B @ [?v])) ?V of
      Inl e \<Rightarrow> too_many l (within E x (gl_max_depth l)) e
    | Inr (queue, V') \<Rightarrow> \<exists>B'. queue = layered d A B' \<and> search_inv E x (gl_max_depth l) (u # A) B' d (fset V')
        \<and> next_of ` set es \<subseteq> fset V' \<and> fset ?V \<subseteq> fset V' \<and> fcard V' - 1 \<le> gl_max_results l"
      if "fcard ?V - 1 \<le> gl_max_results l"
      using Cons.IH [OF inv Cons.prems(2) _ that] Cons.prems(3) by simp
    consider "gl_max_visited l < fcard ?V" | "\<not> gl_max_visited l < fcard ?V" "gl_max_results l < fcard ?V - 1"
      | "\<not> gl_max_visited l < fcard ?V" "fcard ?V - 1 \<le> gl_max_results l" by linarith
    then show ?thesis
    proof cases
      case 1
      then show ?thesis using False too_manyI(1) [OF sub] by (simp add: Let_def)
    next
      case 2
      then show ?thesis using False too_manyI(2) [OF sub] by (simp add: Let_def)
    next
      case 3
      then have "walk_edges l next_of d (e # es) (layered d A B) V = walk_edges l next_of d es (layered d A (B @ [?v])) ?V"
        using False by (simp add: Let_def layered_snoc)
      then show ?thesis using IH [OF 3(2)] by (auto split: sum.splits)
    qed
  qed
qed

lemma walk_loop_works:
  assumes "search_inv E x (gl_max_depth l) A B d (fset V)" and "fcard V - 1 \<le> gl_max_results l"
    and "\<And>u es. u \<in> within E x (gl_max_depth l) \<Longrightarrow> edges_of u = Inr es \<Longrightarrow> next_of ` set es = {v. E u v}"
  shows "case walk_loop l edges_of next_of (layered d A B) V of
      Inl e \<Rightarrow> too_many l (within E x (gl_max_depth l)) e \<or> (\<exists>u \<in> within E x (gl_max_depth l). edges_of u = Inl e)
    | Inr V' \<Rightarrow> fset V' = within E x (gl_max_depth l) \<and> fcard V' - 1 \<le> gl_max_results l"
  using assms
proof (induction l edges_of next_of "layered d A B" V arbitrary: A B d rule: walk_loop.induct)
  case (1 l edges_of next_of V)
  then have "A = []" "B = []" using layered_Nil_iff [of d A B] by auto
  then show ?case using 1 search_end [of E x "gl_max_depth l" d "fset V"] by (simp add: layered_def)
next
  case (2 l edges_of next_of u k queue V)
  from search_pop [OF 2(4) 2(3) [symmetric]] obtain A' B' where inv: "search_inv E x (gl_max_depth l) (u # A') B' k (fset V)"
    and queue: "queue = layered k A' B'" .
  have eq: "walk_loop l edges_of next_of (layered d A B) V = walk_loop l edges_of next_of ((u, k) # queue) V" using 2(3) by simp
  have u: "u \<in> within E x (gl_max_depth l)"
    using inv within_mono [of k "gl_max_depth l" E x] by (auto simp: search_inv_def)
  show ?case
  proof (cases "gl_max_depth l \<le> k")
    case True
    then have "walk_loop l edges_of next_of ((u, k) # queue) V = walk_loop l edges_of next_of (layered k A' B') V"
      by (simp add: queue)
    then show ?thesis unfolding eq using 2(1) [OF True queue search_skip [OF inv True] 2(5,6)] by (simp only:)
  next
    case False
    then have less: "k < gl_max_depth l" by simp
    show ?thesis
    proof (cases "edges_of u")
      case (Inl e)
      then show ?thesis unfolding eq using False u by auto
    next
      case (Inr es)
      then have es: "next_of ` set es = {v. E u v}" using 2(6) [OF u] by simp
      have inner: "case walk_edges l next_of k es (layered k A' B') V of
          Inl e \<Rightarrow> too_many l (within E x (gl_max_depth l)) e
        | Inr (queue, V') \<Rightarrow> \<exists>B'. queue = layered k A' B' \<and> search_inv E x (gl_max_depth l) (u # A') B' k (fset V')
            \<and> next_of ` set es \<subseteq> fset V' \<and> fset V \<subseteq> fset V' \<and> fcard V' - 1 \<le> gl_max_results l"
        by (rule walk_edges_works [OF inv less _ 2(5)]) (use es in auto)
      show ?thesis
      proof (cases "walk_edges l next_of k es queue V")
        case (Inl e)
        then show ?thesis unfolding eq using False Inr inner queue by simp
      next
        case (Inr r)
        then obtain queue' V' where r: "r = (queue', V')" by fastforce
        from inner obtain B'' where B'': "queue' = layered k A' B''" "search_inv E x (gl_max_depth l) (u # A') B'' k (fset V')"
          "next_of ` set es \<subseteq> fset V'" "fcard V' - 1 \<le> gl_max_results l" using Inr r queue by auto
        have inv': "search_inv E x (gl_max_depth l) A' B'' k (fset V')"
          using search_expanded [OF B''(2) less] B''(3) es by auto
        have "walk_loop l edges_of next_of ((u, k) # queue) V = walk_loop l edges_of next_of (layered k A' B'') V'"
          using False \<open>edges_of u = Inr es\<close> Inr r B''(1) by simp
        then show ?thesis unfolding eq
          using 2(2) [OF False \<open>edges_of u = Inr es\<close> Inr r [symmetric, unfolded B''(1)] inv' B''(4) 2(6)] by (simp only:)
      qed
    qed
  qed
qed

subsection \<open>Paths\<close>

text \<open>A path as the code reports it: the nodes and, between them, the relations followed.\<close>

fun follows :: "('a \<Rightarrow> 'r \<Rightarrow> 'a \<Rightarrow> bool) \<Rightarrow> 'a list \<Rightarrow> 'r list \<Rightarrow> bool" where
  "follows step [x] [] = True"
| "follows step (x # y # xs) (r # rs) = (step x r y \<and> follows step (y # xs) rs)"
| "follows step _ _ = False"

lemma follows_Nil [simp]: "\<not> follows step [] rs"
  by (cases rs) auto

lemma follows_length: "follows step xs rs \<Longrightarrow> length xs = Suc (length rs)"
  by (induction step xs rs rule: follows.induct) auto

lemma follows_snoc: "follows step xs rs \<Longrightarrow> step (last xs) r y \<Longrightarrow> follows step (xs @ [y]) (rs @ [r])"
  by (induction step xs rs rule: follows.induct) auto

lemma follows_within:
  assumes "follows step xs rs"
  shows "last xs \<in> within (\<lambda>u v. \<exists>r. step u r v) (hd xs) (length rs)"
proof -
  let ?E = "\<lambda>u v. \<exists>r. step u r v"
  have "last xs \<in> within ?E z (n + length rs)" if "hd xs \<in> within ?E z n" for z n
    using assms that
  proof (induction step xs rs arbitrary: n rule: follows.induct)
    case (2 step x y xs r rs)
    then have "y \<in> within (\<lambda>u v. \<exists>r. step u r v) z (Suc n)" by auto
    then show ?case using 2(1) [of "Suc n"] 2(2) by simp
  qed auto
  from this [of "hd xs" 0] show ?thesis by simp
qed

lemma within_follows:
  "y \<in> within (\<lambda>u v. \<exists>r. step u r v) x n \<Longrightarrow> \<exists>xs rs. follows step xs rs \<and> hd xs = x \<and> last xs = y \<and> length rs \<le> n"
proof (induction n arbitrary: y)
  case 0
  have "follows step [x] []" by simp
  then show ?case using 0 by fastforce
next
  case (Suc n)
  show ?case
  proof (cases "y \<in> within (\<lambda>u v. \<exists>r. step u r v) x n")
    case True
    then show ?thesis using Suc.IH by (meson le_SucI)
  next
    case False
    then obtain z r where z: "z \<in> within (\<lambda>u v. \<exists>r. step u r v) x n" "step z r y" using Suc.prems by auto
    then obtain xs rs where xs: "follows step xs rs" "hd xs = x" "last xs = z" "length rs \<le> n" using Suc.IH by blast
    have "follows step (xs @ [y]) (rs @ [r])" using follows_snoc [OF xs(1)] xs(3) z(2) by simp
    moreover have "hd (xs @ [y]) = x" using xs(1,2) by (cases xs) auto
    ultimately show ?thesis using xs(4) by (metis Suc_le_mono last_snoc length_append_singleton)
  qed
qed

text \<open>The chain of parents from a node back to the source, written forwards.\<close>

inductive parents_lead :: "('a \<Rightarrow> 'r \<Rightarrow> 'a \<Rightarrow> bool) \<Rightarrow> ('a, 'a \<times> 'r) fmap \<Rightarrow> 'a \<Rightarrow> 'a \<Rightarrow> 'a list \<Rightarrow> 'r list \<Rightarrow> bool"
  for step parent x where
  start: "parents_lead step parent x x [x] []"
| step: "parents_lead step parent x u xs rs \<Longrightarrow> fmlookup parent v = Some (u, r) \<Longrightarrow> v \<noteq> x \<Longrightarrow> step u r v \<Longrightarrow>
    parents_lead step parent x v (xs @ [v]) (rs @ [r])"

lemma parents_lead_follows:
  "parents_lead step parent x v xs rs \<Longrightarrow> follows step xs rs \<and> hd xs = x \<and> last xs = v"
proof (induction rule: parents_lead.induct)
  case (step u xs rs v r)
  then show ?case using follows_snoc [of step xs rs r v] by (cases xs) auto
qed simp

lemma parents_lead_upd:
  "parents_lead step parent x v xs rs \<Longrightarrow> y |\<notin>| fmdom parent \<Longrightarrow> parents_lead step (fmupd y z parent) x v xs rs"
proof (induction rule: parents_lead.induct)
  case (step u xs rs v r)
  then have "fmlookup (fmupd y z parent) v = Some (u, r)" by (auto simp: fmdomI)
  from parents_lead.step [OF step.IH [OF step.prems] this step.hyps(3,4)] show ?case .
qed (rule parents_lead.start)

lemma reconstruct_chain:
  "parents_lead step parent x v xs rs \<Longrightarrow>
     reconstruct_loop x parent v entities relations = Some (entities @ tl (rev xs), relations @ rev rs)"
proof (induction arbitrary: entities relations rule: parents_lead.induct)
  case start
  then show ?case by (subst reconstruct_loop.simps) simp
next
  case (step u xs rs v r)
  obtain ys where "xs = ys @ [u]"
    using parents_lead_follows [OF step.hyps(1)] by (metis append_butlast_last_id follows_Nil)
  then show ?case using step.IH step.hyps(2,3) by (subst reconstruct_loop.simps) simp
qed

lemma reconstruct_path_chain:
  assumes "parents_lead step parent x v xs rs"
  shows "reconstruct_path x v parent = Some \<lparr>gp_entities = xs, gp_relations = rs\<rparr>"
proof -
  obtain ys where "xs = ys @ [v]"
    using parents_lead_follows [OF assms] by (metis append_butlast_last_id follows_Nil)
  then show ?thesis using reconstruct_chain [OF assms, of "[v]" "[]"] by (simp add: reconstruct_path_def)
qed

text \<open>Every node of the queue is led to by as many parents as its depth says; the target is not yet visited.\<close>

definition parents_ok :: "(entity_id \<Rightarrow> relation_id \<Rightarrow> entity_id \<Rightarrow> bool) \<Rightarrow> entity_id \<Rightarrow> entity_id \<Rightarrow> (entity_id \<times> nat) list
    \<Rightarrow> entity_id fset \<Rightarrow> parent_map \<Rightarrow> bool" where
  "parents_ok step x dst queue V parent \<longleftrightarrow>
     fmdom parent |\<subseteq>| V \<and> dst |\<notin>| V \<and> x |\<in>| V
     \<and> (\<forall>(v, k) \<in> set queue. \<exists>xs rs. parents_lead step parent x v xs rs \<and> length rs = k)"

lemma parents_ok_visit:
  assumes "parents_ok step x dst queue V parent" and "parents_lead step parent x u xs rs" and "step u r v" and "v |\<notin>| V"
  shows "parents_lead step (fmupd v (u, r) parent) x v (xs @ [v]) (rs @ [r])"
    and "parents_lead step (fmupd v (u, r) parent) x u xs rs"
    and "v \<noteq> dst \<Longrightarrow> length rs = d \<Longrightarrow> parents_ok step x dst (queue @ [(v, Suc d)]) (finsert v V) (fmupd v (u, r) parent)"
proof -
  have new: "v |\<notin>| fmdom parent" "v \<noteq> x" using assms(1,4) by (auto simp: parents_ok_def)
  show u: "parents_lead step (fmupd v (u, r) parent) x u xs rs" using parents_lead_upd [OF assms(2) new(1)] .
  then show v: "parents_lead step (fmupd v (u, r) parent) x v (xs @ [v]) (rs @ [r])"
    using parents_lead.step [OF u, of v r] new(2) assms(3) by simp
  show "parents_ok step x dst (queue @ [(v, Suc d)]) (finsert v V) (fmupd v (u, r) parent)" if "v \<noteq> dst" "length rs = d"
  proof -
    have "\<exists>ys ss. parents_lead step (fmupd v (u, r) parent) x w ys ss \<and> length ss = k" if "(w, k) \<in> set queue" for w k
      using assms(1) that parents_lead_upd [OF _ new(1)] unfolding parents_ok_def by fastforce
    moreover have "\<exists>ys ss. parents_lead step (fmupd v (u, r) parent) x v ys ss \<and> length ss = Suc d"
      using v \<open>length rs = d\<close> by (metis length_append_singleton)
    ultimately show ?thesis using assms(1) \<open>v \<noteq> dst\<close> unfolding parents_ok_def by auto
  qed
qed

lemma path_edges_works:
  fixes step defines "E \<equiv> \<lambda>u v. \<exists>r. step u r v"
  assumes "search_inv E x (gl_max_depth l) (u # A) B d (fset V)" and "d < gl_max_depth l"
    and "\<And>e. e \<in> set es \<Longrightarrow> step u (ge_id e) (ge_to e)"
    and "parents_ok step x dst (layered d A B) V parent" and "parents_lead step parent x u xs rs" and "length rs = d"
  shows "case path_edges l dst u d es (layered d A B) V parent of
      Inl (Inl e) \<Rightarrow> too_many l (within E x (gl_max_depth l)) e
    | Inl (Inr parent') \<Rightarrow> (\<exists>ys ss. parents_lead step parent' x dst ys ss \<and> length ss = Suc d)
    | Inr (queue, V', parent') \<Rightarrow> \<exists>B'. queue = layered d A B' \<and> search_inv E x (gl_max_depth l) (u # A) B' d (fset V')
        \<and> ge_to ` set es \<subseteq> fset V' \<and> fset V \<subseteq> fset V' \<and> parents_ok step x dst queue V' parent'"
  using assms(2-)
proof (induction es arbitrary: B V parent)
  case Nil
  then show ?case by auto
next
  case (Cons e es)
  let ?v = "ge_to e"
  show ?case
  proof (cases "?v |\<in>| V")
    case True
    have "case path_edges l dst u d es (layered d A B) V parent of
      Inl (Inl e) \<Rightarrow> too_many l (within E x (gl_max_depth l)) e
    | Inl (Inr parent') \<Rightarrow> (\<exists>ys ss. parents_lead step parent' x dst ys ss \<and> length ss = Suc d)
    | Inr (queue, V', parent') \<Rightarrow> \<exists>B'. queue = layered d A B' \<and> search_inv E x (gl_max_depth l) (u # A) B' d (fset V')
        \<and> ge_to ` set es \<subseteq> fset V' \<and> fset V \<subseteq> fset V' \<and> parents_ok step x dst queue V' parent'"
      using Cons.IH [OF Cons.prems(1,2) _ Cons.prems(4-6)] Cons.prems(3) by simp
    then show ?thesis using True by (auto split: sum.splits)
  next
    case False
    let ?V = "finsert ?v V" and ?parent = "fmupd ?v (u, ge_id e) parent"
    have e: "step u (ge_id e) ?v" using Cons.prems(3) by simp
    have inv: "search_inv E x (gl_max_depth l) (u # A) (B @ [?v]) d (fset ?V)"
      using search_visit [OF Cons.prems(1,2), of ?v] e False by (auto simp: E_def)
    have sub: "fset ?V \<subseteq> within E x (gl_max_depth l)" using search_within [OF inv] .
    note new = parents_ok_visit [OF Cons.prems(4,5) e False]
    consider "gl_max_visited l < fcard ?V" | "\<not> gl_max_visited l < fcard ?V" "?v = dst"
      | "\<not> gl_max_visited l < fcard ?V" "?v \<noteq> dst" by blast
    then show ?thesis
    proof cases
      case 1
      then show ?thesis using False too_manyI(1) [OF sub] by (simp add: Let_def)
    next
      case 2
      have "\<exists>ys ss. parents_lead step ?parent x dst ys ss \<and> length ss = Suc d"
        using new(1) 2(2) Cons.prems(6) by (metis length_append_singleton)
      then show ?thesis using False 2 by (simp add: Let_def)
    next
      case 3
      have ok: "parents_ok step x dst (layered d A (B @ [?v])) ?V ?parent" using new(3) [OF 3(2) Cons.prems(6)] by (simp add: layered_snoc)
      have "path_edges l dst u d (e # es) (layered d A B) V parent = path_edges l dst u d es (layered d A (B @ [?v])) ?V ?parent"
        using False 3 by (simp add: Let_def layered_snoc)
      moreover have "case path_edges l dst u d es (layered d A (B @ [?v])) ?V ?parent of
          Inl (Inl e) \<Rightarrow> too_many l (within E x (gl_max_depth l)) e
        | Inl (Inr parent') \<Rightarrow> (\<exists>ys ss. parents_lead step parent' x dst ys ss \<and> length ss = Suc d)
        | Inr (queue, V', parent') \<Rightarrow> \<exists>B'. queue = layered d A B' \<and> search_inv E x (gl_max_depth l) (u # A) B' d (fset V')
            \<and> ge_to ` set es \<subseteq> fset V' \<and> fset ?V \<subseteq> fset V' \<and> parents_ok step x dst queue V' parent'"
        using Cons.IH [OF inv Cons.prems(2) _ ok new(2) Cons.prems(6)] Cons.prems(3) by simp
      ultimately show ?thesis by (auto split: sum.splits)
    qed
  qed
qed

lemma path_loop_works:
  fixes step defines "E \<equiv> \<lambda>u v. \<exists>r. step u r v"
  assumes "search_inv E x (gl_max_depth l) A B d (fset V)" and "parents_ok step x dst (layered d A B) V parent"
    and "\<And>u es. u \<in> within E x (gl_max_depth l) \<Longrightarrow> edges_of u = Inr es \<Longrightarrow> (\<lambda>e. (ge_id e, ge_to e)) ` set es = {(r, v). step u r v}"
  shows "case path_loop l edges_of dst (layered d A B) V parent of
      Inl e \<Rightarrow> too_many l (within E x (gl_max_depth l)) e \<or> (\<exists>u \<in> within E x (gl_max_depth l). edges_of u = Inl e)
    | Inr None \<Rightarrow> dst \<notin> within E x (gl_max_depth l)
    | Inr (Some parent') \<Rightarrow> (\<exists>ys ss k. parents_lead step parent' x dst ys ss \<and> length ss = Suc k \<and> k < gl_max_depth l \<and> dst \<notin> within E x k)"
  using assms(2-)
proof (induction l edges_of dst "layered d A B" V parent arbitrary: A B d rule: path_loop.induct)
  case (1 l edges_of dst V parent)
  then have "A = []" "B = []" using layered_Nil_iff [of d A B] by auto
  then have "fset V = within E x (gl_max_depth l)" using search_end [of E x "gl_max_depth l" d "fset V"] 1(2) by simp
  moreover have "dst |\<notin>| V" using 1(3) by (simp add: parents_ok_def)
  ultimately show ?case using \<open>A = []\<close> \<open>B = []\<close> by (simp add: layered_def)
next
  case (2 l edges_of dst u k queue V parent)
  from search_pop [OF 2(4) 2(3) [symmetric]] obtain A' B' where inv: "search_inv E x (gl_max_depth l) (u # A') B' k (fset V)"
    and queue: "queue = layered k A' B'" .
  have eq: "path_loop l edges_of dst (layered d A B) V parent = path_loop l edges_of dst ((u, k) # queue) V parent" using 2(3) by simp
  have u: "u \<in> within E x (gl_max_depth l)"
    using inv within_mono [of k "gl_max_depth l" E x] by (auto simp: search_inv_def)
  have "parents_ok step x dst ((u, k) # queue) V parent" using 2(5) 2(3) by (simp only:)
  then have parents: "parents_ok step x dst queue V parent" "\<exists>xs rs. parents_lead step parent x u xs rs \<and> length rs = k"
    unfolding parents_ok_def by simp_all
  show ?case
  proof (cases "gl_max_depth l \<le> k")
    case True
    then have "path_loop l edges_of dst ((u, k) # queue) V parent = path_loop l edges_of dst (layered k A' B') V parent"
      by (simp add: queue)
    then show ?thesis unfolding eq using 2(1) [OF True queue search_skip [OF inv True] parents(1) [unfolded queue] 2(6)] by (simp only:)
  next
    case False
    then have less: "k < gl_max_depth l" by simp
    show ?thesis
    proof (cases "edges_of u")
      case (Inl e)
      then show ?thesis unfolding eq using False u by auto
    next
      case (Inr es)
      then have es: "(\<lambda>e. (ge_id e, ge_to e)) ` set es = {(r, v). step u r v}" using 2(6) [OF u] by simp
      have edge: "step u (ge_id e) (ge_to e)" if "e \<in> set es" for e
        using imageI [OF that, of "\<lambda>e. (ge_id e, ge_to e)"] unfolding es by simp
      have "ge_to ` set es = snd ` (\<lambda>e. (ge_id e, ge_to e)) ` set es" by (simp add: image_image)
      also have "\<dots> = {v. E u v}" unfolding es E_def by (auto intro: rev_image_eqI)
      finally have targets: "ge_to ` set es = {v. E u v}" .
      obtain xs rs where lead: "parents_lead step parent x u xs rs" "length rs = k" using parents(2) by blast
      have inner: "case path_edges l dst u k es (layered k A' B') V parent of
          Inl (Inl e) \<Rightarrow> too_many l (within E x (gl_max_depth l)) e
        | Inl (Inr parent') \<Rightarrow> (\<exists>ys ss. parents_lead step parent' x dst ys ss \<and> length ss = Suc k)
        | Inr (queue, V', parent') \<Rightarrow> \<exists>B'. queue = layered k A' B' \<and> search_inv E x (gl_max_depth l) (u # A') B' k (fset V')
            \<and> ge_to ` set es \<subseteq> fset V' \<and> fset V \<subseteq> fset V' \<and> parents_ok step x dst queue V' parent'"
        using path_edges_works [OF inv [unfolded E_def] less edge parents(1) [unfolded queue] lead] unfolding E_def by (simp only:)
      have far: "dst \<notin> within E x k" using inv 2(5) by (auto simp: search_inv_def parents_ok_def)
      show ?thesis
      proof (cases "path_edges l dst u k es queue V parent")
        case (Inl r)
        then show ?thesis unfolding eq
          using False \<open>edges_of u = Inr es\<close> inner queue less far by (cases r) auto
      next
        case (Inr r)
        then obtain queue' V' parent' where r: "r = (queue', V', parent')" by (metis prod_cases3)
        from inner obtain B'' where B'': "queue' = layered k A' B''" "search_inv E x (gl_max_depth l) (u # A') B'' k (fset V')"
          "ge_to ` set es \<subseteq> fset V'" "parents_ok step x dst (layered k A' B'') V' parent'" using Inr r queue by auto
        have inv': "search_inv E x (gl_max_depth l) A' B'' k (fset V')"
          using search_expanded [OF B''(2) less] B''(3) targets by auto
        have "path_loop l edges_of dst ((u, k) # queue) V parent = path_loop l edges_of dst (layered k A' B'') V' parent'"
          using False \<open>edges_of u = Inr es\<close> Inr r B''(1) by simp
        then show ?thesis unfolding eq
          using 2(2) [OF False \<open>edges_of u = Inr es\<close> Inr r [symmetric, unfolded B''(1)] refl inv' B''(4) 2(6)] by (simp only:)
      qed
    qed
  qed
qed

end
