(* ===== verification/Graph_Properties.thy ===== *)
theory Graph_Properties
  imports Graph_Search
begin

section \<open>What graph queries answer\<close>

text \<open>
  The graph of a view: \<open>relation_step\<close> says which visible relation leads from one entity to another. The
  three traversals are exact with respect to paths of that graph within the depth limit, and a refusal is
  always the report of a limit that is really exceeded.
\<close>

definition matching :: "graph_view \<Rightarrow> str option \<Rightarrow> relation_record \<Rightarrow> bool" where
  "matching g flt r \<longleftrightarrow> relation_visible r (gv_valid_time g) \<and> name_matches flt (ra_relation (rlr_assertion r))"

definition relation_step :: "graph_view \<Rightarrow> str option \<Rightarrow> entity_id \<Rightarrow> relation_id \<Rightarrow> entity_id \<Rightarrow> bool" where
  "relation_step g flt x i y \<longleftrightarrow>
     (\<exists>k r. fmlookup (tk_relations (gv_tenant g)) k = Some r \<and> matching g flt r
        \<and> ra_from (rlr_assertion r) = x \<and> ra_id (rlr_assertion r) = i \<and> ra_to (rlr_assertion r) = y)"

text \<open>The entities at the end of a path of at most \<open>n\<close> relations, and those at its beginning.\<close>

definition leads_to :: "graph_view \<Rightarrow> str option \<Rightarrow> entity_id \<Rightarrow> entity_id \<Rightarrow> nat \<Rightarrow> bool" where
  "leads_to g flt x y n \<longleftrightarrow>
     (\<exists>xs rs. follows (relation_step g flt) xs rs \<and> hd xs = x \<and> last xs = y \<and> length rs \<le> n)"

lemma leads_to_mono: "leads_to g flt x y k" if xy: "leads_to g flt x y n" and "n \<le> k"
proof -
  obtain xs rs where "follows (relation_step g flt) xs rs" "hd xs = x" "last xs = y" "length rs \<le> n"
    using xy unfolding leads_to_def by blast
  moreover have "length rs \<le> k" using \<open>length rs \<le> n\<close> \<open>n \<le> k\<close> by simp
  ultimately show ?thesis unfolding leads_to_def by blast
qed

text \<open>A limit that is exceeded within a set \<open>R\<close> of entities: too many of them, or too many relations at one of them.\<close>

definition limit_exceeded ::
  "graph_view \<Rightarrow> str option \<Rightarrow> (relation_assertion \<Rightarrow> entity_id) \<Rightarrow> entity_id set \<Rightarrow> graph_error \<Rightarrow> bool" where
  "limit_exceeded g flt near R e \<longleftrightarrow>
     too_many (gv_limits g) R e
     \<or> (e = ResultLimitExceeded (gl_max_results (gv_limits g))
        \<and> (\<exists>u\<in>R. gl_max_results (gv_limits g) < card {k. \<exists>r. fmlookup (tk_relations (gv_tenant g)) k = Some r
             \<and> matching g flt r \<and> near (rlr_assertion r) = u}))"

lemma length_filter_values:
  "length (filter P (map snd (sorted_list_of_fmap m))) = card {k. \<exists>r. fmlookup m k = Some r \<and> P r}"
proof -
  have "length (filter P (map snd (sorted_list_of_fmap m))) = length (map id (filter P (map snd (sorted_list_of_fmap m))))" by simp
  also have "\<dots> = fmlen (fmmap id (fmretain P m))" by (simp only: sorted_values_retain length_map length_sorted_list_of_fmap)
  also have "fset (fmdom (fmmap id (fmretain P m))) = {k. \<exists>r. fmlookup m k = Some r \<and> P r}"
    by (auto simp: fmlookup_dom_iff split: option.splits if_splits)
  ultimately show ?thesis by (simp add: fcard.rep_eq)
qed

lemma graph_edge_of_simps [simp]:
  "ge_id (graph_edge_of r) = ra_id (rlr_assertion r)" "ge_to (graph_edge_of r) = ra_to (rlr_assertion r)"
  "ge_from (graph_edge_of r) = ra_from (rlr_assertion r)"
  by (simp_all add: graph_edge_of_def Let_def)

lemma outgoing_edges:
  assumes "outgoing g u flt = Inr es"
  shows "(\<lambda>e. (ge_id e, ge_to e)) ` set es = {(i, v). relation_step g flt u i v}"
  using assms by (force simp: outgoing_def bound_results_def relation_step_def matching_def image_iff split: if_splits)

lemma incoming_edges:
  assumes "incoming g u flt = Inr es"
  shows "ge_from ` set es = {v. \<exists>i. relation_step g flt v i u}"
  using assms by (force simp: incoming_def bound_results_def relation_step_def matching_def image_iff split: if_splits)

lemma outgoing_refused:
  assumes "outgoing g u flt = Inl e" and "u |\<in>| fmdom (tk_entities (gv_tenant g))" and "u \<in> R"
  shows "limit_exceeded g flt ra_from R e"
proof -
  let ?P = "\<lambda>r. relation_visible r (gv_valid_time g) \<and> ra_from (rlr_assertion r) = u \<and> name_matches flt (ra_relation (rlr_assertion r))"
  have "e = ResultLimitExceeded (gl_max_results (gv_limits g))"
    "gl_max_results (gv_limits g) < length (filter ?P (map snd (sorted_list_of_fmap (tk_relations (gv_tenant g)))))"
    using assms(1,2) by (auto simp: outgoing_def bound_results_def graph_entity_def fmlookup_dom_iff split: if_splits)
  then show ?thesis
    using assms(3) unfolding limit_exceeded_def matching_def length_filter_values by (auto simp: conj_ac)
qed

lemma incoming_refused:
  assumes "incoming g u flt = Inl e" and "u |\<in>| fmdom (tk_entities (gv_tenant g))" and "u \<in> R"
  shows "limit_exceeded g flt ra_to R e"
proof -
  let ?P = "\<lambda>r. relation_visible r (gv_valid_time g) \<and> ra_to (rlr_assertion r) = u \<and> name_matches flt (ra_relation (rlr_assertion r))"
  have "e = ResultLimitExceeded (gl_max_results (gv_limits g))"
    "gl_max_results (gv_limits g) < length (filter ?P (map snd (sorted_list_of_fmap (tk_relations (gv_tenant g)))))"
    using assms(1,2) by (auto simp: incoming_def bound_results_def graph_entity_def fmlookup_dom_iff split: if_splits)
  then show ?thesis
    using assms(3) unfolding limit_exceeded_def matching_def length_filter_values by (auto simp: conj_ac)
qed

subsection \<open>Reachable entities\<close>

lemma within_leads: "within (\<lambda>u v. \<exists>i. relation_step g flt u i v) x n = {y. leads_to g flt x y n}"
proof (intro set_eqI iffI CollectI)
  fix y assume "y \<in> within (\<lambda>u v. \<exists>i. relation_step g flt u i v) x n"
  then show "leads_to g flt x y n" using within_follows [of y "relation_step g flt" x n] unfolding leads_to_def by (simp only:)
next
  fix y assume "y \<in> {y. leads_to g flt x y n}"
  then obtain xs rs where "follows (relation_step g flt) xs rs" "hd xs = x" "last xs = y" "length rs \<le> n" by (auto simp: leads_to_def)
  then have "y \<in> within (\<lambda>u v. \<exists>i. relation_step g flt u i v) x (length rs)" "length rs \<le> n"
    using follows_within [of "relation_step g flt" xs rs] by auto
  then show "y \<in> within (\<lambda>u v. \<exists>i. relation_step g flt u i v) x n" by (rule subsetD [OF within_mono, rotated])
qed

lemma follows_rev: "follows step xs rs \<Longrightarrow> follows (\<lambda>u i v. step v i u) (rev xs) (rev rs)"
proof (induction step xs rs rule: follows.induct)
  case (2 step x y xs r rs)
  then show ?case using follows_snoc [of "\<lambda>u i v. step v i u" "rev (y # xs)" "rev rs" r x] by simp
qed auto

lemma within_leads_back: "within (\<lambda>u v. \<exists>i. relation_step g flt v i u) x n = {y. leads_to g flt y x n}"
proof (intro set_eqI iffI CollectI)
  fix y assume "y \<in> within (\<lambda>u v. \<exists>i. relation_step g flt v i u) x n"
  then obtain xs rs where p: "follows (\<lambda>u i v. relation_step g flt v i u) xs rs" "hd xs = x" "last xs = y" "length rs \<le> n"
    using within_follows [of y "\<lambda>u i v. relation_step g flt v i u" x n] by blast
  from follows_rev [OF p(1)] have "follows (relation_step g flt) (rev xs) (rev rs)" by simp
  moreover have "xs \<noteq> []" using p(1) by auto
  ultimately show "leads_to g flt y x n" using p unfolding leads_to_def by (metis hd_rev last_rev length_rev)
next
  fix y assume "y \<in> {y. leads_to g flt y x n}"
  then obtain xs rs where p: "follows (relation_step g flt) xs rs" "hd xs = y" "last xs = x" "length rs \<le> n" by (auto simp: leads_to_def)
  from follows_within [OF follows_rev [OF p(1)]] have "y \<in> within (\<lambda>u v. \<exists>i. relation_step g flt v i u) x (length rs)"
    using p by (simp add: last_rev hd_rev)
  then show "y \<in> within (\<lambda>u v. \<exists>i. relation_step g flt v i u) x n" by (rule subsetD [OF within_mono [OF p(4)]])
qed

text \<open>In a consistent partition a path from an entity stays among the entities.\<close>

definition closed_view :: "graph_view \<Rightarrow> bool" where
  "closed_view g \<longleftrightarrow> (\<forall>k r. fmlookup (tk_relations (gv_tenant g)) k = Some r \<longrightarrow>
     ra_from (rlr_assertion r) |\<in>| fmdom (tk_entities (gv_tenant g)) \<and> ra_to (rlr_assertion r) |\<in>| fmdom (tk_entities (gv_tenant g)))"

lemma view_closed:
  assumes "replay sha es = Inr s" and "length es < 2 ^ 64" and "graph_view_new s t vt limits = Inr g"
  shows "closed_view g"
proof -
  obtain p where p: "fmlookup (ks_tenants s) t = Some p" "gv_tenant g = p"
    using assms(3) by (auto simp: graph_view_new_def split: option.splits)
  then have "relations_ok t (length es) p" using replay_ok [OF assms(1,2)] by (simp add: knowledge_ok_def partition_ok_def)
  then show ?thesis unfolding closed_view_def p(2) relations_ok_def relation_ok_def Let_def by blast
qed

lemma within_entities:
  assumes "closed_view g" and "x |\<in>| fmdom (tk_entities (gv_tenant g))"
    and "\<And>u v. E u v \<Longrightarrow> \<exists>i. relation_step g flt u i v \<or> relation_step g flt v i u"
  shows "u \<in> within E x n \<Longrightarrow> u |\<in>| fmdom (tk_entities (gv_tenant g))"
proof (induction n arbitrary: u)
  case (Suc n)
  have step: "a |\<in>| fmdom (tk_entities (gv_tenant g)) \<and> b |\<in>| fmdom (tk_entities (gv_tenant g))" if "relation_step g flt a i b" for a i b
    using assms(1) that unfolding closed_view_def relation_step_def by blast
  show ?case
  proof (cases "u \<in> within E x n")
    case False
    then obtain y where "E y u" using Suc.prems by auto
    then show ?thesis using assms(3) step by blast
  qed (use Suc.IH in blast)
qed (use assms(2) in simp)

lemma graph_entity_cases:
  obtains "graph_entity g i = Inl (GraphUnknownEntity i)" "i |\<notin>| fmdom (tk_entities (gv_tenant g))"
  | e where "graph_entity g i = Inr e" "i |\<in>| fmdom (tk_entities (gv_tenant g))"
proof (cases "fmlookup (tk_entities (gv_tenant g)) i")
  case None
  then show thesis using that(1) by (simp add: graph_entity_def fmlookup_dom_iff)
next
  case (Some e)
  then show thesis using that(2) [of e] by (simp add: graph_entity_def fmdomI)
qed

lemma walk_exact:
  assumes "closed_view g"
    and "R = {y. if out then leads_to g flt root y (gl_max_depth (gv_limits g)) else leads_to g flt y root (gl_max_depth (gv_limits g))}"
  shows "case walk g root flt out of
      Inr xs \<Rightarrow> sorted xs \<and> distinct xs \<and> set xs = R - {root} \<and> length xs \<le> gl_max_results (gv_limits g)
    | Inl e \<Rightarrow> (e = GraphUnknownEntity root \<and> root |\<notin>| fmdom (tk_entities (gv_tenant g)))
        \<or> limit_exceeded g flt (if out then ra_from else ra_to) R e"
proof (cases rule: graph_entity_cases [of g root])
  case 1
  then show ?thesis by (simp add: walk_def)
next
  case (2 e)
  let ?l = "gv_limits g"
  let ?E = "\<lambda>u v. if out then \<exists>i. relation_step g flt u i v else \<exists>i. relation_step g flt v i u"
  let ?edges = "\<lambda>i. if out then outgoing g i flt else incoming g i flt" and ?next = "\<lambda>e. if out then ge_to e else ge_from e"
  have R: "within ?E root (gl_max_depth ?l) = R"
    unfolding assms(2) by (cases out) (simp_all add: within_leads within_leads_back)
  have edges: "?next ` set es = {v. ?E u v}" if "?edges u = Inr es" for u es
  proof (cases out)
    case True
    then have "snd ` (\<lambda>e. (ge_id e, ge_to e)) ` set es = snd ` {(i, v). relation_step g flt u i v}"
      using outgoing_edges [of g u flt es] that by simp
    then show ?thesis using True by (simp add: image_image) (auto intro: rev_image_eqI)
  next
    case False
    then show ?thesis using incoming_edges [of g u flt es] that by simp
  qed
  have main: "case walk_loop ?l ?edges ?next (layered 0 [root] []) {|root|} of
      Inl e \<Rightarrow> too_many ?l R e \<or> (\<exists>u \<in> R. ?edges u = Inl e)
    | Inr V' \<Rightarrow> fset V' = R \<and> fcard V' - 1 \<le> gl_max_results ?l"
    unfolding R [symmetric]
  proof (rule walk_loop_works)
    show "search_inv ?E root (gl_max_depth ?l) [root] [] 0 (fset {|root|})" by (simp add: search_start)
    show "?next ` set es = {v. ?E u v}" if "?edges u = Inr es" for u es by (rule edges [OF that])
  qed (simp add: fcard_finsert_if)
  have refused: "limit_exceeded g flt (if out then ra_from else ra_to) R e'" if "u \<in> R" "?edges u = Inl e'" for u e'
  proof -
    have "\<exists>i. relation_step g flt a i b \<or> relation_step g flt b i a" if "?E a b" for a b
      using that by (cases out) auto
    then have "u |\<in>| fmdom (tk_entities (gv_tenant g))"
      using within_entities [OF assms(1) 2(2), of ?E flt u "gl_max_depth ?l"] that(1) unfolding R by blast
    then show ?thesis using that outgoing_refused [of g u flt e' R] incoming_refused [of g u flt e' R] by (auto split: if_splits)
  qed
  have w: "walk g root flt out = res_bind (walk_loop ?l ?edges ?next (layered 0 [root] []) {|root|})
      (\<lambda>visited. Inr (sorted_list_of_fset (visited |-| {|root|})))"
    by (simp add: walk_def 2(1) layered_def)
  show ?thesis
  proof (cases "walk_loop ?l ?edges ?next (layered 0 [root] []) {|root|}")
    case (Inl e')
    then have "too_many ?l R e' \<or> (\<exists>u \<in> R. ?edges u = Inl e')" using main by simp
    then have "limit_exceeded g flt (if out then ra_from else ra_to) R e'"
    proof
      assume "too_many ?l R e'"
      then show ?thesis by (simp add: limit_exceeded_def)
    next
      assume "\<exists>u \<in> R. ?edges u = Inl e'"
      then show ?thesis using refused by blast
    qed
    then show ?thesis unfolding w Inl by simp
  next
    case (Inr V)
    have "root \<in> R" unfolding R [symmetric] by (rule within_root)
    then have "fcard (V |-| {|root|}) = fcard V - 1" using main Inr by (simp add: fcard_fminus_fsingleton)
    moreover have V: "fset V = R" "fcard V - 1 \<le> gl_max_results ?l" using main unfolding Inr by simp_all
    ultimately have few: "fcard (V |-| {|root|}) \<le> gl_max_results ?l" by simp
    have "fset (V |-| {|root|}) = R - {root}" by (simp add: V(1))
    moreover have "finite (R - {root})" unfolding V(1) [symmetric] by simp
    ultimately show ?thesis using few unfolding w Inr
      by (simp add: sorted_list_of_fset.rep_eq fcard.rep_eq)
  qed
qed

subsection \<open>Properties\<close>

text \<open>
  C16: Descendants and ancestors are exact. On a view of a state rebuilt from a journal, \<open>descendants\<close> returns in order
  and once each the entities other than the root at the end of a path of visible, matching relations no longer
  than \<open>max_depth\<close>, \<open>ancestors\<close> those at the beginning of such a path to the root, and never more than
  \<open>max_results\<close>. A refusal names an unknown root or a limit that the reachable part of the graph exceeds.
\<close>

theorem walks_are_exact:
  assumes "replay sha es = Inr s" and "length es < 2 ^ 64" and "graph_view_new s t vt limits = Inr g"
  shows "(case descendants g root flt of
        Inr xs \<Rightarrow> sorted xs \<and> distinct xs \<and> length xs \<le> gl_max_results (gv_limits g)
          \<and> set xs = {y. leads_to g flt root y (gl_max_depth (gv_limits g))} - {root}
      | Inl e \<Rightarrow> (e = GraphUnknownEntity root \<and> root |\<notin>| fmdom (tk_entities (gv_tenant g)))
          \<or> limit_exceeded g flt ra_from {y. leads_to g flt root y (gl_max_depth (gv_limits g))} e)
    \<and> (case ancestors g root flt of
        Inr xs \<Rightarrow> sorted xs \<and> distinct xs \<and> length xs \<le> gl_max_results (gv_limits g)
          \<and> set xs = {y. leads_to g flt y root (gl_max_depth (gv_limits g))} - {root}
      | Inl e \<Rightarrow> (e = GraphUnknownEntity root \<and> root |\<notin>| fmdom (tk_entities (gv_tenant g)))
          \<or> limit_exceeded g flt ra_to {y. leads_to g flt y root (gl_max_depth (gv_limits g))} e)"
  using walk_exact [OF view_closed [OF assms] refl, of root flt True] walk_exact [OF view_closed [OF assms] refl, of root flt False]
  unfolding descendants_def ancestors_def by (auto split: sum.splits)

text \<open>
  C15: The shortest path is one, and is found. On a view of a state rebuilt from a journal, \<open>shortest_path\<close> always returns. A
  path it returns starts at the source, ends at the target and follows visible, matching relations; it has at
  most \<open>max_depth\<close> relations and no path between the two is shorter. If it returns none, every path is longer
  than \<open>max_depth\<close>. If it refuses, an end is unknown or the part of the graph within \<open>max_depth\<close> exceeds a limit.
\<close>

theorem shortest_path_is_shortest:
  assumes "replay sha es = Inr s" and "length es < 2 ^ 64" and "graph_view_new s t vt limits = Inr g"
  shows "\<exists>res. shortest_path g src dst flt = Some res \<and>
    (case res of
       Inr (Some p) \<Rightarrow> follows (relation_step g flt) (gp_entities p) (gp_relations p)
         \<and> hd (gp_entities p) = src \<and> last (gp_entities p) = dst \<and> length (gp_relations p) \<le> gl_max_depth (gv_limits g)
         \<and> (\<forall>n. leads_to g flt src dst n \<longrightarrow> length (gp_relations p) \<le> n)
     | Inr None \<Rightarrow> \<not> leads_to g flt src dst (gl_max_depth (gv_limits g))
     | Inl e \<Rightarrow> (e = GraphUnknownEntity src \<and> src |\<notin>| fmdom (tk_entities (gv_tenant g)))
         \<or> (e = GraphUnknownEntity dst \<and> dst |\<notin>| fmdom (tk_entities (gv_tenant g)))
         \<or> limit_exceeded g flt ra_from {y. leads_to g flt src y (gl_max_depth (gv_limits g))} e)"
proof (cases rule: graph_entity_cases [of g src])
  case 1
  then show ?thesis by (simp add: shortest_path_def)
next
  case src: (2 e)
  show ?thesis
  proof (cases rule: graph_entity_cases [of g dst])
    case 1
    then show ?thesis using src by (simp add: shortest_path_def)
  next
    case dst: (2 e')
    show ?thesis
    proof (cases "src = dst")
      case True
      then show ?thesis using src by (simp add: shortest_path_def)
    next
      case False
      let ?l = "gv_limits g" and ?E = "\<lambda>u v. \<exists>i. relation_step g flt u i v"
      let ?loop = "path_loop ?l (\<lambda>i. outgoing g i flt) dst (layered 0 [src] []) {|src|} fmempty"
      have run: "shortest_path g src dst flt = (case ?loop of Inl e \<Rightarrow> Some (Inl e) | Inr None \<Rightarrow> Some (Inr None)
          | Inr (Some parent) \<Rightarrow> map_option (\<lambda>p. Inr (Some p)) (reconstruct_path src dst parent))"
        using False src dst by (simp add: shortest_path_def layered_def)
      have start: "search_inv ?E src (gl_max_depth ?l) [src] [] 0 (fset {|src|})" by (simp add: search_start)
      have "parents_lead (relation_step g flt) fmempty src src [src] []" by (rule parents_lead.start)
      then have "\<exists>xs rs. parents_lead (relation_step g flt) fmempty src src xs rs \<and> length rs = 0" by fastforce
      then have parents: "parents_ok (relation_step g flt) src dst (layered 0 [src] []) {|src|} fmempty"
        using False by (simp add: parents_ok_def layered_def)
      have works: "case ?loop of
          Inl e \<Rightarrow> too_many ?l {y. leads_to g flt src y (gl_max_depth ?l)} e
            \<or> (\<exists>u. leads_to g flt src u (gl_max_depth ?l) \<and> outgoing g u flt = Inl e)
        | Inr None \<Rightarrow> \<not> leads_to g flt src dst (gl_max_depth ?l)
        | Inr (Some parent') \<Rightarrow> (\<exists>ys ss k. parents_lead (relation_step g flt) parent' src dst ys ss \<and> length ss = Suc k
            \<and> k < gl_max_depth ?l \<and> \<not> leads_to g flt src dst k)"
        using path_loop_works [OF start parents, of "\<lambda>i. outgoing g i flt", OF outgoing_edges] unfolding within_leads
        by (simp split: sum.splits option.splits)
      show ?thesis
      proof (cases ?loop)
        case (Inl x)
        have "u |\<in>| fmdom (tk_entities (gv_tenant g))" if "leads_to g flt src u (gl_max_depth ?l)" for u
          using within_entities [OF view_closed [OF assms] src(2), of ?E flt u "gl_max_depth ?l"] that unfolding within_leads by blast
        then have "limit_exceeded g flt ra_from {y. leads_to g flt src y (gl_max_depth ?l)} x"
          if "leads_to g flt src u (gl_max_depth ?l)" "outgoing g u flt = Inl x" for u
          using outgoing_refused [OF that(2), of "{y. leads_to g flt src y (gl_max_depth ?l)}"] that(1) by simp
        then have "limit_exceeded g flt ra_from {y. leads_to g flt src y (gl_max_depth ?l)} x"
          using works Inl unfolding limit_exceeded_def by auto
        then show ?thesis using run Inl by simp
      next
        case (Inr found)
        show ?thesis
        proof (cases found)
          case None
          then show ?thesis using run works Inr by simp
        next
          case (Some parent)
          then obtain xs rs k where lead: "parents_lead (relation_step g flt) parent src dst xs rs" "length rs = Suc k" "k < gl_max_depth ?l"
            "\<not> leads_to g flt src dst k" using works Inr by auto
          have "length rs \<le> n" if "leads_to g flt src dst n" for n
          proof (rule ccontr)
            assume "\<not> length rs \<le> n"
            then have "n \<le> k" using lead(2) by simp
            then have "leads_to g flt src dst k" by (rule leads_to_mono [OF that])
            then show False using lead(4) by simp
          qed
          then show ?thesis using run Inr Some reconstruct_path_chain [OF lead(1)] parents_lead_follows [OF lead(1)] lead(2,3) by simp
        qed
      qed
    qed
  qed
qed

subsection \<open>A sample view\<close>

lemma sample_view:
  "\<exists>s g. replay (\<lambda>x. []) sample_journal = Inr s \<and> length sample_journal < 2 ^ 64
    \<and> graph_view_new s sample_tenant 0 graph_limits_default = Inr g \<and> gv_limits g = graph_limits_default"
proof -
  obtain s p where "replay (\<lambda>x. []) sample_journal = Inr s" "fmlookup (ks_tenants s) sample_tenant = Some p" using sample_replay by blast
  then show ?thesis by (simp add: graph_view_new_def limits_validate_def graph_limits_default_def sample_journal_def)
qed

theorem walks_are_exact_witness:
  "\<exists>s g. replay (\<lambda>x. []) sample_journal = Inr s \<and> graph_view_new s sample_tenant 0 graph_limits_default = Inr g
    \<and> (case descendants g ''e'' None of
        Inr xs \<Rightarrow> sorted xs \<and> length xs \<le> 1000
      | Inl e \<Rightarrow> (e = GraphUnknownEntity ''e'' \<and> ''e'' |\<notin>| fmdom (tk_entities (gv_tenant g)))
          \<or> limit_exceeded g None ra_from {y. leads_to g None ''e'' y 16} e)"
proof -
  obtain s g where g: "replay (\<lambda>x. []) sample_journal = Inr s" "length sample_journal < 2 ^ 64"
    "graph_view_new s sample_tenant 0 graph_limits_default = Inr g" "gv_limits g = graph_limits_default"
    using sample_view by blast
  have "gl_max_depth graph_limits_default = 16" "gl_max_results graph_limits_default = 1000" by (simp_all add: graph_limits_default_def)
  then show ?thesis using walks_are_exact [OF g(1-3), of "''e''" None] g by (auto split: sum.splits)
qed

theorem shortest_path_is_shortest_witness:
  "\<exists>s g res. replay (\<lambda>x. []) sample_journal = Inr s \<and> graph_view_new s sample_tenant 0 graph_limits_default = Inr g
    \<and> shortest_path g ''e'' ''x'' None = Some res \<and> (\<forall>p. res = Inr (Some p) \<longrightarrow> length (gp_relations p) \<le> 16)"
proof -
  obtain s g where g: "replay (\<lambda>x. []) sample_journal = Inr s" "length sample_journal < 2 ^ 64"
    "graph_view_new s sample_tenant 0 graph_limits_default = Inr g" "gv_limits g = graph_limits_default"
    using sample_view by blast
  have "gl_max_depth graph_limits_default = 16" by (simp add: graph_limits_default_def)
  then show ?thesis using shortest_path_is_shortest [OF g(1-3), of "''e''" "''x''" None] g by auto
qed

end
