(* ===== verification/Knowledge_Store.thy ===== *)
theory Knowledge_Store
  imports Knowledge_Properties Execution_Properties Durable_Store
begin

section \<open>The durable journal of the Knowledge Plane (crates/ccos-enterprise-knowledge-store)\<close>

text \<open>
  One journal file and one lock file in a directory of their own. \<open>knowledge_load\<close> reads and replays the journal,
  \<open>knowledge_open\<close> takes the lock and repairs a torn tail, \<open>knowledge_append\<close> validates a whole batch on a copy of the
  state before it writes a byte. A system call that fails is a fault of Theory Disk; the bytes a failed write left in
  the \<open>BufWriter\<close> are kept in the handle and written when it is dropped. The JSON codec of an entry is a parameter.
\<close>

definition KNOWLEDGE_JOURNAL_FILE :: str where
  "KNOWLEDGE_JOURNAL_FILE = ''knowledge.jsonl''"

definition KNOWLEDGE_LOCK_FILE :: str where
  "KNOWLEDGE_LOCK_FILE = ''knowledge.lock''"

datatype knowledge_store_error =
    KnowledgeIo str str
  | KnowledgeJournalCorrupt str nat str
  | KnowledgeJournalInvalid str nat str
  | KnowledgeEncoding str
  | KnowledgeJournalTooLarge str nat
  | KnowledgeRefused knowledge_error
  | KnowledgeAlreadyOpen str
  | KnowledgeRecoveryRequired str

fun knowledge_store_error_text :: "knowledge_store_error \<Rightarrow> str" where
  "knowledge_store_error_text (KnowledgeIo path e) = path @ '': '' @ e"
| "knowledge_store_error_text (KnowledgeJournalCorrupt path line detail) =
     path @ '':'' @ show_nat line @ '': corrupt knowledge journal: '' @ detail"
| "knowledge_store_error_text (KnowledgeJournalInvalid path line detail) =
     path @ '':'' @ show_nat line @ '': invalid knowledge journal: '' @ detail"
| "knowledge_store_error_text (KnowledgeEncoding detail) = ''cannot serialize knowledge journal: '' @ detail"
| "knowledge_store_error_text (KnowledgeJournalTooLarge path limit) =
     path @ '': knowledge journal exceeds '' @ show_nat limit @ '' bytes''"
| "knowledge_store_error_text (KnowledgeRefused e) = ''knowledge mutation refused: '' @ knowledge_error_text e"
| "knowledge_store_error_text (KnowledgeAlreadyOpen path) =
     path @ '': another live writer already owns this knowledge store''"
| "knowledge_store_error_text (KnowledgeRecoveryRequired path) =
     path @ '': knowledge journal writer requires reopen/recovery after a failed append''"

record knowledge_loaded =
  kl_entries :: "knowledge_entry list"
  kl_state :: knowledge_state
  kl_torn_tail :: nat

record knowledge_store =
  kst_root :: str
  kst_state :: knowledge_state
  kst_recovery_required :: bool
  kst_unflushed :: str

definition kst_next_sequence :: "knowledge_store \<Rightarrow> u64" where
  "kst_next_sequence h = ks_next_sequence (kst_state h)"

subsection \<open>Loading\<close>

text \<open>\<open>Iterator::rposition\<close>.\<close>

fun rposition :: "('a \<Rightarrow> bool) \<Rightarrow> 'a list \<Rightarrow> nat option" where
  "rposition P [] = None"
| "rposition P (x # xs) =
     (case rposition P xs of Some i \<Rightarrow> Some (Suc i) | None \<Rightarrow> if P x then Some 0 else None)"

definition complete_prefix :: "str \<Rightarrow> str \<times> nat" where
  "complete_prefix bytes =
     (if bytes = [] \<or> last bytes = newline then (bytes, 0)
      else case rposition (\<lambda>b. b = newline) bytes of
          Some last_newline \<Rightarrow> (take (Suc last_newline) bytes, length bytes - last_newline - 1)
        | None \<Rightarrow> ([], length bytes))"

fun parse_entries ::
  "knowledge_entry json_codec \<Rightarrow> str \<Rightarrow> nat \<Rightarrow> str list \<Rightarrow> knowledge_store_error + knowledge_entry list" where
  "parse_entries json path index [] = Inr []"
| "parse_entries json path index (line # lines) =
     (if line = [] then parse_entries json path (Suc index) lines
      else case from_slice json line of
          Inl e \<Rightarrow> Inl (KnowledgeJournalCorrupt path (index + 1) e)
        | Inr entry \<Rightarrow>
            (case parse_entries json path (Suc index) lines of
               Inl e \<Rightarrow> Inl e
             | Inr entries \<Rightarrow> Inr (entry # entries)))"

fun apply_entries ::
  "(str \<Rightarrow> str) \<Rightarrow> str \<Rightarrow> nat \<Rightarrow> knowledge_entry list \<Rightarrow> knowledge_state \<Rightarrow> knowledge_store_error + knowledge_state" where
  "apply_entries sha path index [] s = Inr s"
| "apply_entries sha path index (e # es) s =
     (case knowledge_apply sha e s of
        (Inl err, _) \<Rightarrow> Inl (KnowledgeJournalInvalid path (index + 1) (knowledge_error_text err))
      | (Inr _, s) \<Rightarrow> apply_entries sha path (Suc index) es s)"

definition load_bytes ::
  "(str \<Rightarrow> str) \<Rightarrow> knowledge_entry json_codec \<Rightarrow> str \<Rightarrow> str \<Rightarrow> knowledge_store_error + knowledge_loaded" where
  "load_bytes sha json path bytes =
     (let (complete, torn_tail) = complete_prefix bytes in
      res_bind (parse_entries json path 0 (split_on newline complete)) (\<lambda>entries.
      res_bind (apply_entries sha path 0 entries knowledge_new) (\<lambda>s.
        Inr \<lparr>kl_entries = entries, kl_state = s, kl_torn_tail = torn_tail\<rparr>)))"

text \<open>A bounded read takes one byte more than the limit, so a journal is refused when it is longer.\<close>

definition load_with_limit ::
  "disk_faults \<Rightarrow> (str \<Rightarrow> str) \<Rightarrow> knowledge_entry json_codec \<Rightarrow> str \<Rightarrow> nat option \<Rightarrow> disk
     \<Rightarrow> knowledge_store_error + knowledge_loaded" where
  "load_with_limit fl sha json root limit dk =
     (let path = path_join root KNOWLEDGE_JOURNAL_FILE in
      case fl (OpenFile KNOWLEDGE_JOURNAL_FILE) of
        Some (_, e) \<Rightarrow> Inl (KnowledgeIo path e)
      | None \<Rightarrow>
      (case fmlookup (dk_files dk) KNOWLEDGE_JOURNAL_FILE of
         None \<Rightarrow> Inr \<lparr>kl_entries = [], kl_state = knowledge_new, kl_torn_tail = 0\<rparr>
       | Some content \<Rightarrow>
      (case fl (ReadFile KNOWLEDGE_JOURNAL_FILE) of
         Some (_, e) \<Rightarrow> Inl (KnowledgeIo path e)
       | None \<Rightarrow>
      (case limit of
         None \<Rightarrow> load_bytes sha json path content
       | Some l \<Rightarrow>
           let bytes = take (unat (sat_add (of_nat l) 1)) content in
           if l < length bytes then Inl (KnowledgeJournalTooLarge path l)
           else load_bytes sha json path bytes))))"

definition knowledge_load ::
  "disk_faults \<Rightarrow> (str \<Rightarrow> str) \<Rightarrow> knowledge_entry json_codec \<Rightarrow> str \<Rightarrow> disk \<Rightarrow> knowledge_store_error + knowledge_loaded" where
  "knowledge_load fl sha json root dk = load_with_limit fl sha json root None dk"

definition knowledge_load_bounded ::
  "disk_faults \<Rightarrow> (str \<Rightarrow> str) \<Rightarrow> knowledge_entry json_codec \<Rightarrow> str \<Rightarrow> nat \<Rightarrow> disk
     \<Rightarrow> knowledge_store_error + knowledge_loaded" where
  "knowledge_load_bounded fl sha json root max_bytes dk = load_with_limit fl sha json root (Some max_bytes) dk"

subsection \<open>Opening\<close>

definition knowledge_guard ::
  "disk_faults \<Rightarrow> disk_step \<Rightarrow> str \<Rightarrow> disk \<Rightarrow> (knowledge_store_error + 'a) \<times> disk \<Rightarrow> (knowledge_store_error + 'a) \<times> disk" where
  "knowledge_guard fl stp path dk k = (case fl stp of Some (_, e) \<Rightarrow> (Inl (KnowledgeIo path e), dk) | None \<Rightarrow> k)"

text \<open>The repair of the tail, under the lock: the file is cut to the validated prefix and synced.\<close>

definition knowledge_repair ::
  "disk_faults \<Rightarrow> str \<Rightarrow> nat \<Rightarrow> disk \<Rightarrow> (knowledge_store_error + unit) \<times> disk" where
  "knowledge_repair fl path torn_tail dk =
     (if 0 < torn_tail then
        knowledge_guard fl (StatFile KNOWLEDGE_JOURNAL_FILE) path dk
          (let bytes = file_bytes dk KNOWLEDGE_JOURNAL_FILE; len = length bytes in
           if len < torn_tail then (Inl (KnowledgeJournalCorrupt path 0 ''torn-tail byte count exceeds journal length''), dk)
           else knowledge_guard fl (CutFile KNOWLEDGE_JOURNAL_FILE) path dk
             (let cut = put_file KNOWLEDGE_JOURNAL_FILE (take (len - torn_tail) bytes) dk in
              knowledge_guard fl (SyncFile KNOWLEDGE_JOURNAL_FILE) path cut (Inr (), cut)))
      else (Inr (), dk))"

text \<open>The lock is held from here to the end of the handle; an early return drops it.\<close>

definition knowledge_open ::
  "disk_faults \<Rightarrow> (str \<Rightarrow> str) \<Rightarrow> knowledge_entry json_codec \<Rightarrow> str \<Rightarrow> disk
     \<Rightarrow> (knowledge_store_error + knowledge_store) \<times> disk" where
  "knowledge_open fl sha json root dk =
     knowledge_guard fl MakeRoot root dk
      (let lock_path = path_join root KNOWLEDGE_LOCK_FILE; path = path_join root KNOWLEDGE_JOURNAL_FILE in
       knowledge_guard fl LockFileOpen lock_path dk
        (let dk = create_append KNOWLEDGE_LOCK_FILE dk in
         if dk_locked dk then (Inl (KnowledgeAlreadyOpen lock_path), dk)
         else knowledge_guard fl LockTry lock_path dk
          (case knowledge_load fl sha json root dk of
             Inl e \<Rightarrow> (Inl e, dk)
           | Inr loaded \<Rightarrow>
               knowledge_guard fl (CreateFile KNOWLEDGE_JOURNAL_FILE) path dk
                (case knowledge_repair fl path (kl_torn_tail loaded) (create_append KNOWLEDGE_JOURNAL_FILE dk) of
                   (Inl e, dk) \<Rightarrow> (Inl e, dk)
                 | (Inr _, dk) \<Rightarrow>
                     (Inr \<lparr>kst_root = root, kst_state = kl_state loaded, kst_recovery_required = False, kst_unflushed = []\<rparr>,
                      dk\<lparr>dk_locked := True\<rparr>)))))"

subsection \<open>Appending\<close>

fun encode_batch ::
  "(str \<Rightarrow> str) \<Rightarrow> knowledge_entry json_codec \<Rightarrow> knowledge_entry list \<Rightarrow> knowledge_state \<Rightarrow> str
     \<Rightarrow> knowledge_store_error + (knowledge_state \<times> str)" where
  "encode_batch sha json [] candidate encoded = Inr (candidate, encoded)"
| "encode_batch sha json (e # es) candidate encoded =
     (case knowledge_apply sha e candidate of
        (Inl err, _) \<Rightarrow> Inl (KnowledgeRefused err)
      | (Inr _, candidate) \<Rightarrow>
          (case to_vec json e of
             Inl err \<Rightarrow> Inl (KnowledgeEncoding err)
           | Inr bytes \<Rightarrow> encode_batch sha json es candidate (encoded @ bytes @ [newline])))"

definition knowledge_append ::
  "disk_faults \<Rightarrow> (str \<Rightarrow> str) \<Rightarrow> knowledge_entry json_codec \<Rightarrow> knowledge_entry list \<Rightarrow> knowledge_store \<Rightarrow> disk
     \<Rightarrow> (knowledge_store_error + unit) \<times> knowledge_store \<times> disk" where
  "knowledge_append fl sha json entries h dk =
     (let path = path_join (kst_root h) KNOWLEDGE_JOURNAL_FILE in
      if kst_recovery_required h then (Inl (KnowledgeRecoveryRequired path), h, dk)
      else if entries = [] then (Inr (), h, dk)
      else case encode_batch sha json entries (kst_state h) [] of
          Inl e \<Rightarrow> (Inl e, h, dk)
        | Inr (candidate, encoded) \<Rightarrow>
            let h = h\<lparr>kst_recovery_required := True\<rparr>;
                old = file_bytes dk KNOWLEDGE_JOURNAL_FILE in
            (case fl (WriteFile KNOWLEDGE_JOURNAL_FILE) of
               Some (n, e) \<Rightarrow>
                 (Inl (KnowledgeIo path e),
                  h\<lparr>kst_unflushed := (if length encoded < BUF_WRITER_CAPACITY then drop n encoded else [])\<rparr>,
                  put_file KNOWLEDGE_JOURNAL_FILE (old @ take n encoded) dk)
             | None \<Rightarrow>
                 let dk = put_file KNOWLEDGE_JOURNAL_FILE (old @ encoded) dk in
                 (case fl (SyncFile KNOWLEDGE_JOURNAL_FILE) of
                    Some (_, e) \<Rightarrow> (Inl (KnowledgeIo path e), h, dk)
                  | None \<Rightarrow> (Inr (), h\<lparr>kst_state := candidate, kst_recovery_required := False\<rparr>, dk))))"

text \<open>\<open>Drop\<close>: the \<open>BufWriter\<close> writes what it still holds, as far as the disk takes it, and the lock is released.\<close>

definition knowledge_drop :: "disk_faults \<Rightarrow> knowledge_store \<Rightarrow> disk \<Rightarrow> disk" where
  "knowledge_drop fl h dk =
     (flush_unflushed fl (KNOWLEDGE_JOURNAL_FILE, kst_unflushed h) dk)\<lparr>dk_locked := False\<rparr>"

end
