(* ===== verification/Knowledge_Durability.thy ===== *)
theory Knowledge_Durability
  imports Knowledge_Store
begin

section \<open>Acknowledged knowledge survives\<close>

text \<open>
  A run of a knowledge store: openings, appends and drops in any order, each with its own faults. The invariant of a run
  is that the journal file is a prefix of the lines of a journal that replays, and holds the lines of every
  acknowledged batch.
\<close>

subsection \<open>Reading back what was written\<close>

lemma rposition_none: "rposition P xs = None \<longleftrightarrow> (\<forall>x\<in>set xs. \<not> P x)"
  by (induction xs) (auto split: option.splits)

lemma rposition_append_none: "\<forall>x\<in>set ys. \<not> P x \<Longrightarrow> rposition P (xs @ ys) = rposition P xs"
  by (induction xs) (simp_all add: rposition_none)

lemma rposition_snoc: "P x \<Longrightarrow> rposition P (xs @ [x]) = Some (length xs)"
  by (induction xs) simp_all

lemma complete_prefix_torn:
  assumes "xs = [] \<or> last xs = newline" and "newline \<notin> set torn"
  shows "complete_prefix (xs @ torn) = (xs, length torn)"
proof (cases "torn = []")
  case True
  then show ?thesis using assms(1) by (auto simp: complete_prefix_def)
next
  case False
  then have "last (xs @ torn) \<noteq> newline" using assms(2) last_in_set by fastforce
  moreover have "rposition (\<lambda>b. b = newline) (xs @ torn) = rposition (\<lambda>b. b = newline) xs"
    by (rule rposition_append_none) (use assms(2) in auto)
  moreover have "rposition (\<lambda>b. b = newline) xs = (if xs = [] then None else Some (length xs - 1))"
  proof (cases xs rule: rev_cases)
    case (snoc ys y)
    then show ?thesis using assms(1) rposition_snoc [of "\<lambda>b. b = newline" y ys] by simp
  qed simp
  ultimately show ?thesis using False by (simp add: complete_prefix_def)
qed

lemma parse_entries_texts:
  "\<forall>x\<in>set es. codec_keeps_line json x \<Longrightarrow> parse_entries json path i (map (json_text json) es @ [[]]) = Inr es"
  by (induction es arbitrary: i) (simp_all add: codec_keeps_lineD)

lemma apply_entries_replay: "replay_onto sha es s = Inr s' \<Longrightarrow> apply_entries sha path i es s = Inr s'"
  by (induction es arbitrary: i s) (auto split: prod.splits sum.splits)

lemma replay_onto_append: "replay_onto sha (xs @ ys) s = res_bind (replay_onto sha xs s) (replay_onto sha ys)"
  by (induction xs arbitrary: s) (auto split: prod.splits sum.splits)

lemma replay_prefix: "replay sha (xs @ ys) = Inr s \<Longrightarrow> \<exists>s'. replay sha xs = Inr s'"
  by (cases "replay_onto sha xs knowledge_new") (simp_all add: replay_def replay_onto_append)

lemma load_knowledge_journal:
  assumes "\<forall>x\<in>set es. codec_keeps_line json x" and "replay sha es = Inr s" and "newline \<notin> set torn"
  shows "load_bytes sha json path (journal_bytes json es @ torn) = Inr \<lparr>kl_entries = es, kl_state = s, kl_torn_tail = length torn\<rparr>"
  using complete_prefix_torn [OF journal_bytes_ends [OF assms(1)] assms(3)] split_journal [OF assms(1)]
    parse_entries_texts [OF assms(1), of path 0] apply_entries_replay [of sha es knowledge_new s path 0] assms(2)
  by (simp add: load_bytes_def replay_def)

lemma encode_batch_lines:
  "encode_batch sha json es s acc = Inr (candidate, encoded) \<Longrightarrow>
     replay_onto sha es s = Inr candidate \<and> encoded = acc @ journal_bytes json es"
proof (induction es arbitrary: s acc)
  case (Cons e es)
  then obtain s' bytes where step: "knowledge_apply sha e s = (Inr (), s')" "to_vec json e = Inr bytes"
    "encode_batch sha json es s' (acc @ bytes @ [newline]) = Inr (candidate, encoded)"
    by (auto split: prod.splits sum.splits)
  then show ?case using Cons.IH [OF step(3)] by (simp add: json_line_def)
qed simp

lemma load_file:
  assumes "file_bytes dk KNOWLEDGE_JOURNAL_FILE = bytes"
    and "load_bytes sha json (path_join root KNOWLEDGE_JOURNAL_FILE) bytes = Inr l"
  shows "knowledge_load fl sha json root dk = Inr l \<or> (\<exists>e. knowledge_load fl sha json root dk = Inl (KnowledgeIo (path_join root KNOWLEDGE_JOURNAL_FILE) e))"
    and "knowledge_load disk_works sha json root dk = Inr l"
proof -
  have "load_bytes sha json path [] = Inr \<lparr>kl_entries = [], kl_state = knowledge_new, kl_torn_tail = 0\<rparr>" for path
    using load_knowledge_journal [of "[]" json sha knowledge_new "[]" path] by (simp add: replay_def)
  then show "knowledge_load fl sha json root dk = Inr l \<or> (\<exists>e. knowledge_load fl sha json root dk = Inl (KnowledgeIo (path_join root KNOWLEDGE_JOURNAL_FILE) e))"
    "knowledge_load disk_works sha json root dk = Inr l"
    using assms by (auto simp: knowledge_load_def load_with_limit_def Let_def file_bytes_def split: option.splits)
qed

subsection \<open>Runs\<close>

record knowledge_world =
  kw_handle :: "knowledge_store option"
  kw_disk :: disk
  kw_acked :: "knowledge_entry list"

datatype knowledge_event =
    OpenEvent disk_faults
  | AppendEvent disk_faults "knowledge_entry list"
  | DropEvent disk_faults

fun submitted :: "knowledge_event \<Rightarrow> knowledge_entry list" where
  "submitted (AppendEvent fl batch) = batch"
| "submitted _ = []"

fun world_step :: "(str \<Rightarrow> str) \<Rightarrow> knowledge_entry json_codec \<Rightarrow> str \<Rightarrow> knowledge_event \<Rightarrow> knowledge_world \<Rightarrow> knowledge_world" where
  "world_step sha json root (OpenEvent fl) w =
     (case knowledge_open fl sha json root (kw_disk w) of
        (Inl e, dk) \<Rightarrow> w\<lparr>kw_disk := dk\<rparr>
      | (Inr h, dk) \<Rightarrow> w\<lparr>kw_handle := Some h, kw_disk := dk\<rparr>)"
| "world_step sha json root (AppendEvent fl batch) w =
     (case kw_handle w of
        None \<Rightarrow> w
      | Some h \<Rightarrow>
          (case knowledge_append fl sha json batch h (kw_disk w) of
             (Inl e, h, dk) \<Rightarrow> w\<lparr>kw_handle := Some h, kw_disk := dk\<rparr>
           | (Inr _, h, dk) \<Rightarrow> w\<lparr>kw_handle := Some h, kw_disk := dk, kw_acked := kw_acked w @ batch\<rparr>))"
| "world_step sha json root (DropEvent fl) w =
     (case kw_handle w of
        None \<Rightarrow> w
      | Some h \<Rightarrow> w\<lparr>kw_handle := None, kw_disk := knowledge_drop fl h (kw_disk w)\<rparr>)"

definition world_run :: "(str \<Rightarrow> str) \<Rightarrow> knowledge_entry json_codec \<Rightarrow> str \<Rightarrow> knowledge_event list \<Rightarrow> knowledge_world" where
  "world_run sha json root evs =
     fold (world_step sha json root) evs \<lparr>kw_handle = None, kw_disk = empty_disk, kw_acked = []\<rparr>"

abbreviation journal_file :: "disk \<Rightarrow> str" where
  "journal_file dk \<equiv> file_bytes dk KNOWLEDGE_JOURNAL_FILE"

text \<open>
  The file begins with the lines of \<open>base\<close>, which contains the acknowledged entries, and with what a handle still
  holds it goes on as the lines of \<open>rest\<close>. A handle that may be used has written all of its journal.
\<close>

definition world_holds ::
  "(str \<Rightarrow> str) \<Rightarrow> knowledge_entry json_codec \<Rightarrow> knowledge_entry set \<Rightarrow> knowledge_world \<Rightarrow> knowledge_entry list \<Rightarrow> knowledge_entry list \<Rightarrow> bool" where
  "world_holds sha json S w base rest \<longleftrightarrow>
     set (base @ rest) \<subseteq> S \<and> (\<exists>s. replay sha (base @ rest) = Inr s) \<and> subseq (kw_acked w) base
     \<and> prefix (journal_bytes json base) (journal_file (kw_disk w))
     \<and> prefix (journal_file (kw_disk w) @ (case kw_handle w of None \<Rightarrow> [] | Some h \<Rightarrow> kst_unflushed h)) (journal_bytes json (base @ rest))
     \<and> dk_locked (kw_disk w) = (kw_handle w \<noteq> None)
     \<and> (case kw_handle w of None \<Rightarrow> True
        | Some h \<Rightarrow> kst_recovery_required h \<or> (rest = [] \<and> kst_unflushed h = [] \<and> replay sha base = Inr (kst_state h)))"

text \<open>Whatever prefix of the lines is on disk, it is read as a prefix of the entries.\<close>

lemma prefix_journal:
  assumes "\<forall>x\<in>set es. codec_keeps_line json x" and "prefix bytes (journal_bytes json es)"
  obtains k torn where "bytes = journal_bytes json (take k es) @ torn" "newline \<notin> set torn"
proof -
  have "bytes = take (length bytes) (journal_bytes json es)" using assms(2) by (auto simp: prefix_def)
  then show thesis using take_journal [OF assms(1), of "length bytes"] that by metis
qed

lemma journal_between:
  assumes "\<forall>x\<in>set (base @ rest). codec_keeps_line json x"
    and "prefix (journal_bytes json base) bytes" and "prefix (bytes @ pending) (journal_bytes json (base @ rest))"
  obtains k torn where "bytes = journal_bytes json (base @ take k rest) @ torn" "newline \<notin> set torn"
proof -
  obtain tail where tail: "bytes = journal_bytes json base @ tail" using assms(2) by (auto simp: prefix_def)
  then have "prefix tail (journal_bytes json rest)" using assms(3) by (auto simp: prefix_def)
  with prefix_journal [of rest json tail] assms(1) obtain k torn where "tail = journal_bytes json (take k rest) @ torn" "newline \<notin> set torn"
    by auto
  then show thesis using that tail by simp
qed

subsection \<open>Opening\<close>

lemma file_bytes_create_append [simp]: "file_bytes (create_append f dk) g = file_bytes dk g" "dk_locked (create_append f dk) = dk_locked dk"
  by (simp_all add: create_append_def file_bytes_def)

lemma file_bytes_locked [simp]: "file_bytes (dk\<lparr>dk_locked := b\<rparr>) f = file_bytes dk f"
  by (simp add: file_bytes_def)

lemma lock_not_journal [simp]: "KNOWLEDGE_LOCK_FILE \<noteq> KNOWLEDGE_JOURNAL_FILE"
  by (simp add: KNOWLEDGE_LOCK_FILE_def KNOWLEDGE_JOURNAL_FILE_def)

lemma repair_cuts:
  assumes "journal_file dk = kept @ torn" and "knowledge_repair fl path (length torn) dk = (res, dk')"
  shows "dk_locked dk' = dk_locked dk" and "journal_file dk' = kept @ torn \<or> journal_file dk' = kept"
    and "res = Inr () \<Longrightarrow> journal_file dk' = kept" and "fl = disk_works \<Longrightarrow> res = Inr ()"
  using assms by (auto simp: knowledge_repair_def knowledge_guard_def Let_def split: if_splits option.splits)

lemma open_reads:
  assumes "\<forall>x\<in>set es. codec_keeps_line json x" and "replay sha es = Inr s" and "newline \<notin> set torn"
    and "journal_file dk = journal_bytes json es @ torn" and "knowledge_open fl sha json root dk = (res, dk')"
  shows "journal_file dk' = journal_file dk \<or> journal_file dk' = journal_bytes json es"
    and "res = Inr h \<Longrightarrow> \<not> dk_locked dk \<and> dk_locked dk' \<and> journal_file dk' = journal_bytes json es
      \<and> h = \<lparr>kst_root = root, kst_state = s, kst_recovery_required = False, kst_unflushed = []\<rparr>"
    and "res = Inl e \<Longrightarrow> dk_locked dk' = dk_locked dk"
    and "fl = disk_works \<Longrightarrow> \<not> dk_locked dk \<Longrightarrow> \<exists>h. res = Inr h"
proof -
  let ?path = "path_join root KNOWLEDGE_JOURNAL_FILE" and ?dk = "create_append KNOWLEDGE_LOCK_FILE dk"
  let ?l = "\<lparr>kl_entries = es, kl_state = s, kl_torn_tail = length torn\<rparr>"
  have load: "knowledge_load fl sha json root ?dk = Inr ?l \<or> (\<exists>e. knowledge_load fl sha json root ?dk = Inl (KnowledgeIo ?path e))"
    "fl = disk_works \<Longrightarrow> knowledge_load fl sha json root ?dk = Inr ?l"
    using load_file [of ?dk _ sha json root ?l] load_knowledge_journal [OF assms(1-3)] assms(4) by auto
  obtain r dr where repair: "knowledge_repair fl ?path (length torn) (create_append KNOWLEDGE_JOURNAL_FILE ?dk) = (r, dr)" by fastforce
  have "journal_file (create_append KNOWLEDGE_JOURNAL_FILE ?dk) = journal_bytes json es @ torn" by (simp add: assms(4))
  note cut = repair_cuts [OF this repair]
  show "journal_file dk' = journal_file dk \<or> journal_file dk' = journal_bytes json es"
    and "res = Inr h \<Longrightarrow> \<not> dk_locked dk \<and> dk_locked dk' \<and> journal_file dk' = journal_bytes json es
      \<and> h = \<lparr>kst_root = root, kst_state = s, kst_recovery_required = False, kst_unflushed = []\<rparr>"
    and "res = Inl e \<Longrightarrow> dk_locked dk' = dk_locked dk"
    and "fl = disk_works \<Longrightarrow> \<not> dk_locked dk \<Longrightarrow> \<exists>h. res = Inr h"
    using assms(4,5) load cut repair
    by (auto simp: knowledge_open_def knowledge_guard_def Let_def split: if_splits option.splits sum.splits)
qed

subsection \<open>The invariant\<close>

lemma world_holds_open:
  assumes "\<forall>x\<in>S. codec_keeps_line json x" and "world_holds sha json S w base rest"
  shows "\<exists>base rest. world_holds sha json S (world_step sha json root (OpenEvent fl) w) base rest"
proof (cases "kw_handle w")
  case (Some h)
  obtain res dk' where "knowledge_open fl sha json root (kw_disk w) = (res, dk')" by fastforce
  moreover have "dk_locked (kw_disk w)" using assms(2) Some by (simp add: world_holds_def)
  ultimately have "\<exists>e. res = Inl e" "journal_file dk' = journal_file (kw_disk w)" "dk_locked dk'"
    by (auto simp: knowledge_open_def knowledge_guard_def Let_def split: if_splits option.splits)
  then have "world_holds sha json S (world_step sha json root (OpenEvent fl) w) base rest"
    using assms(2) \<open>knowledge_open fl sha json root (kw_disk w) = (res, dk')\<close> Some by (auto simp: world_holds_def)
  then show ?thesis by blast
next
  case None
  have h: "set (base @ rest) \<subseteq> S" "subseq (kw_acked w) base" "\<not> dk_locked (kw_disk w)"
    "prefix (journal_bytes json base) (journal_file (kw_disk w))" "prefix (journal_file (kw_disk w) @ []) (journal_bytes json (base @ rest))"
    using assms(2) None by (simp_all add: world_holds_def)
  obtain s where s: "replay sha (base @ rest) = Inr s" using assms(2) by (auto simp: world_holds_def)
  obtain k torn where bytes: "journal_file (kw_disk w) = journal_bytes json (base @ take k rest) @ torn" "newline \<notin> set torn"
    using journal_between [OF _ h(4,5)] assms(1) h(1) by blast
  let ?es = "base @ take k rest"
  have kept: "\<forall>x\<in>set ?es. codec_keeps_line json x" using assms(1) h(1) by (auto dest: in_set_takeD)
  obtain s' where s': "replay sha ?es = Inr s'" using replay_prefix [of sha ?es "drop k rest" s] s by auto
  obtain res dk' where run: "knowledge_open fl sha json root (kw_disk w) = (res, dk')" by fastforce
  note opened = open_reads [OF kept s' bytes(2,1) run]
  have es: "set ?es \<subseteq> S" "subseq (kw_acked w) ?es" using h(1,2) by (auto dest: in_set_takeD)
  show ?thesis
  proof (cases res)
    case (Inr hn)
    then have "world_holds sha json S (world_step sha json root (OpenEvent fl) w) ?es []"
      using opened(2) [OF Inr] es s' run by (simp add: world_holds_def)
    then show ?thesis by blast
  next
    case (Inl e)
    show ?thesis
    proof (cases "journal_file dk' = journal_file (kw_disk w)")
      case True
      then have "world_holds sha json S (world_step sha json root (OpenEvent fl) w) base rest"
        using assms(2) opened(3) [OF Inl] run Inl None by (simp add: world_holds_def)
      then show ?thesis by blast
    next
      case False
      then have "world_holds sha json S (world_step sha json root (OpenEvent fl) w) ?es []"
        using opened(1) opened(3) [OF Inl] es s' run Inl None h(3) by (simp add: world_holds_def)
      then show ?thesis by blast
    qed
  qed
qed

lemma world_holds_append:
  assumes "\<forall>x\<in>S. codec_keeps_line json x" and "world_holds sha json S w base rest" and "set batch \<subseteq> S"
  shows "\<exists>base rest. world_holds sha json S (world_step sha json root (AppendEvent fl batch) w) base rest"
proof (cases "kw_handle w")
  case (Some h)
  show ?thesis
  proof (cases "kst_recovery_required h \<or> batch = [] \<or> (\<exists>e. encode_batch sha json batch (kst_state h) [] = Inl e)")
    case True
    then have "world_holds sha json S (world_step sha json root (AppendEvent fl batch) w) base rest"
      using assms(2) Some by (auto simp: knowledge_append_def Let_def world_holds_def)
    then show ?thesis by blast
  next
    case False
    then obtain candidate encoded where enc: "encode_batch sha json batch (kst_state h) [] = Inr (candidate, encoded)"
      by (cases "encode_batch sha json batch (kst_state h) []") auto
    have h: "rest = []" "replay sha base = Inr (kst_state h)" "journal_file (kw_disk w) = journal_bytes json base"
      "set base \<subseteq> S" "subseq (kw_acked w) base" "dk_locked (kw_disk w)" "kst_unflushed h = []"
      using assms(2) Some False by (auto simp: world_holds_def intro: prefix_order.antisym)
    have e: "replay_onto sha batch (kst_state h) = Inr candidate" "encoded = journal_bytes json batch"
      using encode_batch_lines [OF enc] by simp_all
    have r: "replay sha (base @ batch) = Inr candidate" using h(2) e(1) by (simp add: replay_def replay_onto_append)
    show ?thesis
    proof (cases "fl (WriteFile KNOWLEDGE_JOURNAL_FILE) = None \<and> fl (SyncFile KNOWLEDGE_JOURNAL_FILE) = None")
      case True
      then have "world_holds sha json S (world_step sha json root (AppendEvent fl batch) w) (base @ batch) []"
        using False enc h e r assms(3) Some
        by (simp add: knowledge_append_def Let_def world_holds_def list_emb_append_mono)
      then show ?thesis by blast
    next
      case broken: False
      have "prefix (journal_bytes json base @ take n encoded @ drop n encoded) (journal_bytes json (base @ batch))"
        "prefix (journal_bytes json base @ take n encoded) (journal_bytes json (base @ batch))" for n
        by (simp_all add: e(2) take_is_prefix)
      then have "world_holds sha json S (world_step sha json root (AppendEvent fl batch) w) base batch"
        using broken False enc h e r assms(3) Some
        by (auto simp: knowledge_append_def Let_def world_holds_def split: option.splits)
      then show ?thesis by blast
    qed
  qed
next
  case None
  then show ?thesis using assms(2) by auto
qed

lemma world_holds_drop:
  assumes "world_holds sha json S w base rest"
  shows "world_holds sha json S (world_step sha json root (DropEvent fl) w) base rest"
proof (cases "kw_handle w")
  case (Some h)
  let ?dk = "knowledge_drop fl h (kw_disk w)"
  obtain n where n: "journal_file ?dk = journal_file (kw_disk w) @ take n (kst_unflushed h)"
    by (auto simp: knowledge_drop_def flush_unflushed_def Let_def)
  have "prefix (journal_bytes json base) (journal_file ?dk)" using assms Some n by (auto simp: world_holds_def prefix_def)
  moreover have "prefix (journal_file ?dk) (journal_file (kw_disk w) @ kst_unflushed h)" using n by (simp add: take_is_prefix)
  then have "prefix (journal_file ?dk) (journal_bytes json (base @ rest))"
    using assms Some prefix_order.trans by (fastforce simp: world_holds_def)
  moreover have "\<not> dk_locked ?dk" by (simp add: knowledge_drop_def)
  ultimately show ?thesis using assms Some by (simp add: world_holds_def)
qed (use assms in simp)

lemma world_holds_step:
  assumes "\<forall>x\<in>S. codec_keeps_line json x" and "\<exists>base rest. world_holds sha json S w base rest" and "set (submitted ev) \<subseteq> S"
  shows "\<exists>base rest. world_holds sha json S (world_step sha json root ev w) base rest"
proof -
  obtain base rest where w: "world_holds sha json S w base rest" using assms(2) by blast
  show ?thesis
  proof (cases ev)
    case (OpenEvent fl)
    then show ?thesis using world_holds_open [OF assms(1) w] by blast
  next
    case (AppendEvent fl batch)
    then show ?thesis using world_holds_append [OF assms(1) w] assms(3) by simp
  next
    case (DropEvent fl)
    then show ?thesis using world_holds_drop [OF w] by blast
  qed
qed

lemma world_run_holds:
  assumes "\<forall>ev\<in>set evs. \<forall>x\<in>set (submitted ev). codec_keeps_line json x"
  shows "\<exists>base rest. world_holds sha json (\<Union>ev\<in>set evs. set (submitted ev)) (world_run sha json root evs) base rest"
proof -
  define S where "S = (\<Union>ev\<in>set evs. set (submitted ev))"
  have keeps: "\<forall>x\<in>S. codec_keeps_line json x" using assms by (auto simp: S_def)
  have "\<exists>base rest. world_holds sha json S (fold (world_step sha json root) xs w) base rest"
    if "\<exists>base rest. world_holds sha json S w base rest" "\<forall>ev\<in>set xs. set (submitted ev) \<subseteq> S" for xs w
    using that
  proof (induction xs arbitrary: w)
    case (Cons ev xs)
    then show ?case using world_holds_step [OF keeps Cons.prems(1), of ev root] by simp
  qed simp
  moreover have "world_holds sha json S \<lparr>kw_handle = None, kw_disk = empty_disk, kw_acked = []\<rparr> [] []"
    by (simp add: world_holds_def replay_def empty_disk_def file_bytes_def)
  moreover have "\<forall>ev\<in>set evs. set (submitted ev) \<subseteq> S" by (auto simp: S_def)
  ultimately show ?thesis unfolding world_run_def S_def by blast
qed

subsection \<open>Property\<close>

text \<open>
  C11: Acknowledged knowledge survives. Whatever openings, appends and drops happen in whatever order, each with whatever
  failing system calls and partial writes, the journal can be loaded: it holds a sequence of submitted entries that
  replays, in which every entry of every append that returned \<open>Ok\<close> occurs, in the order of the appends. A handle that has
  not failed holds exactly the replayed state and there is no torn tail; without a handle the store opens again with that
  state, its tail repaired.
\<close>

theorem acknowledged_knowledge_survives:
  assumes "\<forall>ev\<in>set evs. \<forall>x\<in>set (submitted ev). codec_keeps_line json x"
  shows "\<exists>es s n. knowledge_load disk_works sha json root (kw_disk (world_run sha json root evs))
        = Inr \<lparr>kl_entries = es, kl_state = s, kl_torn_tail = n\<rparr>
    \<and> replay sha es = Inr s \<and> subseq (kw_acked (world_run sha json root evs)) es \<and> set es \<subseteq> (\<Union>ev\<in>set evs. set (submitted ev))
    \<and> (case kw_handle (world_run sha json root evs) of
         Some h \<Rightarrow> kst_recovery_required h \<or> (kst_state h = s \<and> n = 0)
       | None \<Rightarrow> (\<exists>h dk. knowledge_open disk_works sha json root (kw_disk (world_run sha json root evs)) = (Inr h, dk)
           \<and> kst_state h = s \<and> \<not> kst_recovery_required h \<and> journal_file dk = journal_bytes json es))"
proof -
  let ?S = "\<Union>ev\<in>set evs. set (submitted ev)" and ?w = "world_run sha json root evs"
  have keeps: "\<forall>x\<in>?S. codec_keeps_line json x" using assms by blast
  obtain base rest where w: "world_holds sha json ?S ?w base rest" using world_run_holds [OF assms] by blast
  have h: "set (base @ rest) \<subseteq> ?S" "subseq (kw_acked ?w) base" "prefix (journal_bytes json base) (journal_file (kw_disk ?w))"
    using w by (simp_all add: world_holds_def)
  obtain s where s: "replay sha (base @ rest) = Inr s" using w by (auto simp: world_holds_def)
  have kept: "\<forall>x\<in>set (base @ rest). codec_keeps_line json x" using keeps h(1) by blast
  obtain k torn where bytes: "journal_file (kw_disk ?w) = journal_bytes json (base @ take k rest) @ torn" "newline \<notin> set torn"
    using journal_between [OF kept h(3)] w by (auto simp: world_holds_def)
  let ?es = "base @ take k rest"
  have es: "\<forall>x\<in>set ?es. codec_keeps_line json x" "set ?es \<subseteq> ?S" "subseq (kw_acked ?w) ?es"
    using kept h(1,2) by (auto dest: in_set_takeD)
  obtain s' where s': "replay sha ?es = Inr s'" using replay_prefix [of sha ?es "drop k rest" s] s by auto
  let ?l = "\<lparr>kl_entries = ?es, kl_state = s', kl_torn_tail = length torn\<rparr>"
  have load: "knowledge_load disk_works sha json root (kw_disk ?w) = Inr ?l"
    by (rule load_file(2) [OF bytes(1) load_knowledge_journal [OF es(1) s' bytes(2)]])
  have "case kw_handle ?w of
         Some h \<Rightarrow> kst_recovery_required h \<or> (kst_state h = s' \<and> length torn = 0)
       | None \<Rightarrow> (\<exists>h dk. knowledge_open disk_works sha json root (kw_disk ?w) = (Inr h, dk)
           \<and> kst_state h = s' \<and> \<not> kst_recovery_required h \<and> journal_file dk = journal_bytes json ?es)"
  proof (cases "kw_handle ?w")
    case None
    obtain res dk where run: "knowledge_open disk_works sha json root (kw_disk ?w) = (res, dk)" by fastforce
    note opened = open_reads [OF es(1) s' bytes(2,1) run]
    have "\<not> dk_locked (kw_disk ?w)" using w None by (simp add: world_holds_def)
    then obtain h where "res = Inr h" using opened(4) by blast
    then show ?thesis using None run opened(2) by simp
  next
    case (Some h)
    have "kst_state h = s' \<and> length torn = 0" if "\<not> kst_recovery_required h"
    proof -
      have r: "rest = []" "replay sha base = Inr (kst_state h)" "prefix (journal_file (kw_disk ?w)) (journal_bytes json base)"
        using w Some that by (auto simp: world_holds_def)
      then have "journal_file (kw_disk ?w) = journal_bytes json base" using h(3) by (auto intro: prefix_order.antisym)
      then show ?thesis using r s' bytes(1) by simp
    qed
    then show ?thesis using Some by auto
  qed
  then show ?thesis using load s' es(2,3) by blast
qed

definition sample_entry :: knowledge_entry where
  "sample_entry = \<lparr>ke_sequence = 0, ke_op = RegisterSource sample_source\<rparr>"

definition sample_entry_codec :: "knowledge_entry json_codec" where
  "sample_entry_codec = \<lparr>from_slice = (\<lambda>b. if b = ''x'' then Inr sample_entry else Inl ''corrupt''),
     to_vec = (\<lambda>x. if x = sample_entry then Inr ''x'' else Inl ''unsupported'')\<rparr>"

definition sample_events :: "knowledge_event list" where
  "sample_events = [OpenEvent disk_works, AppendEvent disk_works [sample_entry], DropEvent disk_works]"

lemma sample_run: "kw_acked (world_run sha sample_entry_codec ''/k'' sample_events) = [sample_entry]"
proof -
  obtain res dk where run: "knowledge_open disk_works sha sample_entry_codec ''/k'' empty_disk = (res, dk)" by fastforce
  have clean: "\<not> dk_locked empty_disk" "journal_file empty_disk = journal_bytes sample_entry_codec [] @ []"
    by (simp_all add: empty_disk_def file_bytes_def)
  note opened = open_reads [OF _ _ _ clean(2) run, of knowledge_new]
  obtain h where h: "res = Inr h" using opened(4) clean(1) by (auto simp: replay_def)
  then have "h = \<lparr>kst_root = ''/k'', kst_state = knowledge_new, kst_recovery_required = False, kst_unflushed = []\<rparr>"
    using opened(2) [of h] by (simp add: replay_def)
  moreover have "knowledge_apply sha sample_entry knowledge_new
      = (Inr (), sample_state 1 (tenant_knowledge_default\<lparr>tk_sources := fmupd ''s'' sample_source fmempty\<rparr>))"
    by (simp add: sample_entry_def operation_defs sample_state_def sample_defs knowledge_new_def tenant_knowledge_default_def fmget_or_def)
  ultimately show ?thesis using run h
    by (simp add: world_run_def sample_events_def knowledge_append_def Let_def sample_entry_codec_def)
qed

theorem acknowledged_knowledge_survives_witness:
  "\<exists>es s n. knowledge_load disk_works (\<lambda>x. x) sample_entry_codec ''/k'' (kw_disk (world_run (\<lambda>x. x) sample_entry_codec ''/k'' sample_events))
        = Inr \<lparr>kl_entries = es, kl_state = s, kl_torn_tail = n\<rparr> \<and> subseq [sample_entry] es"
proof -
  have "\<forall>ev\<in>set sample_events. \<forall>x\<in>set (submitted ev). codec_keeps_line sample_entry_codec x"
    by (simp add: sample_events_def codec_keeps_line_def sample_entry_codec_def)
  from acknowledged_knowledge_survives [OF this, of "\<lambda>x. x" "''/k''"] show ?thesis unfolding sample_run by blast
qed

end
