(* ===== verification/Normalize.thy ===== *)
theory Normalize
  imports Knowledge Execution
begin

section \<open>Raw artifacts and their normalization (crates/ccos-enterprise-ingest, crates/ccos-enterprise-normalize)\<close>

text \<open>
  An artifact as the ingestion boundary hands it over, and its deterministic normal form: newlines become line feeds, a
  byte order mark is dropped, JSON is rewritten canonically. Texts are their UTF-8 bytes; carriage return and line feed are
  single bytes that occur in no longer sequence, so the loop over characters is a loop over bytes. The JSON library
  (parser, text of a number, escaping of a string) and SHA-256 are parameters.
\<close>

record raw_artifact =
  raw_tenant :: tenant_id
  raw_source_id :: source_id
  raw_virtual_uri :: str
  raw_media_type :: str
  raw_content_hash :: str
  raw_bytes :: str

definition raw_source_record :: "raw_artifact \<Rightarrow> source_trust \<Rightarrow> source_record" where
  "raw_source_record raw trust = \<lparr>src_id = raw_source_id raw, src_tenant = raw_tenant raw, src_locator = raw_virtual_uri raw,
     src_content_hash = Some (raw_content_hash raw), src_trust = trust\<rparr>"

definition whole_artifact_evidence :: "(str \<Rightarrow> str) \<Rightarrow> raw_artifact \<Rightarrow> evidence_record" where
  "whole_artifact_evidence sha raw =
     \<lparr>evd_id = ''evidence:artifact:'' @ hex (sha (as_str (raw_tenant raw) @ [CHR 0x00] @ raw_source_id raw @ [CHR 0x00] @ raw_content_hash raw)),
      evd_tenant = raw_tenant raw, evd_source = raw_source_id raw,
      evd_locator = Some (''bytes:0-'' @ show_nat (length (raw_bytes raw))), evd_content_hash = Some (raw_content_hash raw)\<rparr>"

subsection \<open>UTF-8\<close>

text \<open>\<open>std::str::from_utf8\<close> succeeds.\<close>

definition utf8_cont :: "nat \<Rightarrow> nat \<Rightarrow> char \<Rightarrow> bool" where
  "utf8_cont lo hi c \<longleftrightarrow> lo \<le> (of_char c :: nat) \<and> (of_char c :: nat) \<le> hi"

fun utf8_valid :: "str \<Rightarrow> bool" where
  "utf8_valid [] = True"
| "utf8_valid (a # s) =
     (let n = (of_char a :: nat) in
      if n < 128 then utf8_valid s
      else if 194 \<le> n \<and> n \<le> 223 then
        (case s of b # s \<Rightarrow> utf8_cont 128 191 b \<and> utf8_valid s | _ \<Rightarrow> False)
      else if 224 \<le> n \<and> n \<le> 239 then
        (case s of b # c # s \<Rightarrow>
           utf8_cont (if n = 224 then 160 else 128) (if n = 237 then 159 else 191) b \<and> utf8_cont 128 191 c \<and> utf8_valid s
         | _ \<Rightarrow> False)
      else if 240 \<le> n \<and> n \<le> 244 then
        (case s of b # c # d # s \<Rightarrow>
           utf8_cont (if n = 240 then 144 else 128) (if n = 244 then 143 else 191) b \<and> utf8_cont 128 191 c
             \<and> utf8_cont 128 191 d \<and> utf8_valid s
         | _ \<Rightarrow> False)
      else False)"

subsection \<open>Normalization\<close>

definition NORMALIZATION_CONTRACT_VERSION :: u32 where
  "NORMALIZATION_CONTRACT_VERSION = 1"

datatype normalization_algorithm = TextV1 | JsonCanonicalV1 | NdjsonCanonicalV1

fun algorithm_name :: "normalization_algorithm \<Rightarrow> str" where
  "algorithm_name TextV1 = ''text-v1''"
| "algorithm_name JsonCanonicalV1 = ''json-canonical-v1''"
| "algorithm_name NdjsonCanonicalV1 = ''ndjson-canonical-v1''"

record normalization_manifest =
  nm_contract_version :: u32
  nm_algorithm :: normalization_algorithm
  nm_input_content_hash :: str
  nm_output_content_hash :: str
  nm_media_type :: str

record normalized_artifact =
  na_tenant :: tenant_id
  na_source_id :: source_id
  na_virtual_uri :: str
  na_media_type :: str
  na_bytes :: str
  na_manifest :: normalization_manifest

datatype normalize_error =
    InputHashMismatch str str
  | UnsupportedMediaType str
  | InvalidUtf8
  | NormalizeInvalidJson str
  | InvalidNdjson nat str

fun normalize_error_text :: "normalize_error \<Rightarrow> str" where
  "normalize_error_text (InputHashMismatch declared actual) =
     ''raw artifact hash mismatch: declared '' @ declared @ '', actual '' @ actual"
| "normalize_error_text (UnsupportedMediaType media_type) = ''no deterministic normalizer for media type '' @ media_type"
| "normalize_error_text InvalidUtf8 = ''text artifact is not valid UTF-8''"
| "normalize_error_text (NormalizeInvalidJson detail) = ''invalid JSON: '' @ detail"
| "normalize_error_text (InvalidNdjson line detail) = ''invalid NDJSON at line '' @ show_nat line @ '': '' @ detail"

text \<open>What the document crates use of \<open>serde_json\<close>.\<close>

record 'n json_library =
  jl_parse :: "str \<Rightarrow> str + 'n json_value"
  jl_number :: "'n \<Rightarrow> str"
  jl_string :: "str \<Rightarrow> str"

fun joined :: "str \<Rightarrow> str list \<Rightarrow> str" where
  "joined sep [] = []"
| "joined sep [s] = s"
| "joined sep (s # t # ts) = s @ sep @ joined sep (t # ts)"

text \<open>\<open>write_canonical_json\<close> of the document crates, whose escaping cannot fail.\<close>

primrec write_json :: "('n, 'z) json_library_scheme \<Rightarrow> 'n json_value \<Rightarrow> str" where
  "write_json lib JNull = ''null''"
| "write_json lib (JBool b) = (if b then ''true'' else ''false'')"
| "write_json lib (JNumber n) = jl_number lib n"
| "write_json lib (JString s) = jl_string lib s"
| "write_json lib (JArray vs) = ''['' @ joined '','' (map (write_json lib) vs) @ '']''"
| "write_json lib (JObject kvs) =
     ''{'' @ joined '','' (map (\<lambda>(k, v). jl_string lib k @ '':'' @ v) (sort_key fst (map (map_prod id (write_json lib)) kvs))) @ ''}''"

definition content_hash :: "(str \<Rightarrow> str) \<Rightarrow> str \<Rightarrow> str" where
  "content_hash sha bytes = ''sha256:'' @ hex (sha bytes)"

abbreviation carriage_return :: char where
  "carriage_return \<equiv> CHR 0x0D"

definition BOM :: str where
  "BOM = [CHR 0xEF, CHR 0xBB, CHR 0xBF]"

fun normalize_newlines :: "str \<Rightarrow> str" where
  "normalize_newlines [] = []"
| "normalize_newlines (c # s) =
     (if c = carriage_return then
        newline # (case s of [] \<Rightarrow> [] | d # s' \<Rightarrow> if d = newline then normalize_newlines s' else normalize_newlines s)
      else c # normalize_newlines s)"

definition normalize_text :: "str \<Rightarrow> normalize_error + str" where
  "normalize_text bytes =
     (let bytes = (if starts_with bytes BOM then drop 3 bytes else bytes) in
      if utf8_valid bytes then Inr (normalize_newlines bytes) else Inl InvalidUtf8)"

definition normalize_json :: "('n, 'z) json_library_scheme \<Rightarrow> str \<Rightarrow> normalize_error + str" where
  "normalize_json lib bytes =
     res_bind (normalize_text bytes) (\<lambda>t.
       case jl_parse lib t of Inl e \<Rightarrow> Inl (NormalizeInvalidJson e) | Inr v \<Rightarrow> Inr (write_json lib v))"

fun ndjson_lines :: "('n, 'z) json_library_scheme \<Rightarrow> nat \<Rightarrow> str list \<Rightarrow> normalize_error + str list" where
  "ndjson_lines lib index [] = Inr []"
| "ndjson_lines lib index (line # lines) =
     (if trim line = [] then res_bind (ndjson_lines lib (index + 1) lines) (\<lambda>ls. Inr ([] # ls))
      else case jl_parse lib line of
          Inl e \<Rightarrow> Inl (InvalidNdjson (index + 1) e)
        | Inr v \<Rightarrow> res_bind (ndjson_lines lib (index + 1) lines) (\<lambda>ls. Inr (write_json lib v # ls)))"

definition normalize_ndjson :: "('n, 'z) json_library_scheme \<Rightarrow> str \<Rightarrow> normalize_error + str" where
  "normalize_ndjson lib bytes =
     res_bind (normalize_text bytes) (\<lambda>t.
     res_bind (ndjson_lines lib 0 (split_on newline t)) (\<lambda>ls. Inr (joined [newline] ls)))"

definition normalize_bytes ::
  "('n, 'z) json_library_scheme \<Rightarrow> raw_artifact \<Rightarrow> normalize_error + (normalization_algorithm \<times> str)" where
  "normalize_bytes lib raw =
     (if raw_media_type raw \<in> {''text/plain'', ''text/markdown'', ''text/csv''} then
        res_bind (normalize_text (raw_bytes raw)) (\<lambda>b. Inr (TextV1, b))
      else if raw_media_type raw = ''application/json'' then
        res_bind (normalize_json lib (raw_bytes raw)) (\<lambda>b. Inr (JsonCanonicalV1, b))
      else if raw_media_type raw = ''application/x-ndjson'' then
        res_bind (normalize_ndjson lib (raw_bytes raw)) (\<lambda>b. Inr (NdjsonCanonicalV1, b))
      else Inl (UnsupportedMediaType (raw_media_type raw)))"

definition normalize ::
  "(str \<Rightarrow> str) \<Rightarrow> ('n, 'z) json_library_scheme \<Rightarrow> raw_artifact \<Rightarrow> normalize_error + normalized_artifact" where
  "normalize sha lib raw =
     (let actual_input_hash = content_hash sha (raw_bytes raw) in
      if actual_input_hash \<noteq> raw_content_hash raw then Inl (InputHashMismatch (raw_content_hash raw) actual_input_hash)
      else res_bind (normalize_bytes lib raw) (\<lambda>(algorithm, bytes). Inr
        \<lparr>na_tenant = raw_tenant raw, na_source_id = raw_source_id raw, na_virtual_uri = raw_virtual_uri raw,
         na_media_type = raw_media_type raw, na_bytes = bytes,
         na_manifest = \<lparr>nm_contract_version = NORMALIZATION_CONTRACT_VERSION, nm_algorithm = algorithm,
           nm_input_content_hash = raw_content_hash raw, nm_output_content_hash = content_hash sha bytes,
           nm_media_type = raw_media_type raw\<rparr>\<rparr>))"

end
