(* ===== verification/Parse.thy ===== *)
theory Parse
  imports Normalize
begin

section \<open>Source spans (crates/ccos-enterprise-parse)\<close>

text \<open>
  Parsing cuts an artifact into lines or records. Each unit carries the byte span of the raw source it stands for and the
  normalized text of the same unit: both byte strings are framed, and the spans are paired. The loops over an index are
  recursions over the bytes that remain, with the index of the first of them.
\<close>

definition PARSE_CONTRACT_VERSION :: u32 where
  "PARSE_CONTRACT_VERSION = 1"

record byte_span =
  bs_start :: nat
  bs_end :: nat

definition span_locator :: "byte_span \<Rightarrow> str" where
  "span_locator s = ''bytes:'' @ show_nat (bs_start s) @ ''-'' @ show_nat (bs_end s)"

datatype unit_kind = TextLine | MarkdownLine | JsonDocument | NdjsonRecord | CsvRecord

fun unit_kind_name :: "unit_kind \<Rightarrow> str" where
  "unit_kind_name TextLine = ''text-line''"
| "unit_kind_name MarkdownLine = ''markdown-line''"
| "unit_kind_name JsonDocument = ''json-document''"
| "unit_kind_name NdjsonRecord = ''ndjson-record''"
| "unit_kind_name CsvRecord = ''csv-record''"

record parsed_unit =
  pu_ordinal :: nat
  pu_kind :: unit_kind
  pu_raw_span :: byte_span
  pu_text :: str
  pu_content_hash :: str

record parsed_document =
  pd_contract_version :: u32
  pd_tenant :: tenant_id
  pd_source_id :: source_id
  pd_virtual_uri :: str
  pd_media_type :: str
  pd_raw_content_hash :: str
  pd_normalized_content_hash :: str
  pd_units :: "parsed_unit list"

datatype parse_error =
    NormalizeFailed str
  | NormalizationShapeMismatch
  | InvalidNormalizedUtf8
  | UnterminatedCsvQuote nat

fun parse_error_text :: "parse_error \<Rightarrow> str" where
  "parse_error_text (NormalizeFailed detail) = ''normalization failed: '' @ detail"
| "parse_error_text NormalizationShapeMismatch = ''normalized record framing no longer matches raw source framing''"
| "parse_error_text InvalidNormalizedUtf8 = ''normalized artifact is not valid UTF-8''"
| "parse_error_text (UnterminatedCsvQuote raw_offset) =
     ''CSV quoted field is not terminated near raw byte '' @ show_nat raw_offset"

definition span_of :: "nat \<Rightarrow> nat \<Rightarrow> byte_span" where
  "span_of a b = \<lparr>bs_start = a, bs_end = b\<rparr>"

definition slice :: "str \<Rightarrow> byte_span \<Rightarrow> str" where
  "slice bytes s = take (bs_end s - bs_start s) (drop (bs_start s) bytes)"

definition body_start :: "str \<Rightarrow> nat" where
  "body_start bytes = (if starts_with bytes BOM then 3 else 0)"

fun line_loop :: "nat \<Rightarrow> nat \<Rightarrow> str \<Rightarrow> byte_span list" where
  "line_loop start index [] = (if start < index then [span_of start index] else [])"
| "line_loop start index (b # bs) =
     (if b = carriage_return then
        span_of start index #
          (case bs of
             [] \<Rightarrow> line_loop (index + 1) (index + 1) []
           | d # bs' \<Rightarrow> if d = newline then line_loop (index + 2) (index + 2) bs' else line_loop (index + 1) (index + 1) bs)
      else if b = newline then span_of start index # line_loop (index + 1) (index + 1) bs
      else line_loop start (index + 1) bs)"

definition line_spans :: "str \<Rightarrow> byte_span list" where
  "line_spans bytes = line_loop (body_start bytes) (body_start bytes) (drop (body_start bytes) bytes)"

fun csv_loop :: "bool \<Rightarrow> nat \<Rightarrow> nat \<Rightarrow> str \<Rightarrow> parse_error + byte_span list" where
  "csv_loop in_quotes start index [] =
     (if in_quotes then Inl (UnterminatedCsvQuote start)
      else Inr (if start < index then [span_of start index] else []))"
| "csv_loop in_quotes start index (b # bs) =
     (if b = CHR 0x22 then
        (case bs of
           [] \<Rightarrow> csv_loop (\<not> in_quotes) start (index + 1) []
         | d # bs' \<Rightarrow>
             if in_quotes \<and> d = CHR 0x22 then csv_loop in_quotes start (index + 2) bs'
             else csv_loop (\<not> in_quotes) start (index + 1) bs)
      else if (b = carriage_return \<or> b = newline) \<and> \<not> in_quotes then
        res_bind
          (case bs of
             [] \<Rightarrow> csv_loop in_quotes (index + 1) (index + 1) []
           | d # bs' \<Rightarrow>
               if b = carriage_return \<and> d = newline then csv_loop in_quotes (index + 2) (index + 2) bs'
               else csv_loop in_quotes (index + 1) (index + 1) bs)
          (\<lambda>spans. Inr (span_of start index # spans))
      else csv_loop in_quotes start (index + 1) bs)"

definition csv_record_spans :: "str \<Rightarrow> parse_error + byte_span list" where
  "csv_record_spans bytes = csv_loop False (body_start bytes) (body_start bytes) (drop (body_start bytes) bytes)"

definition parsed_unit_of :: "(str \<Rightarrow> str) \<Rightarrow> nat \<Rightarrow> unit_kind \<Rightarrow> byte_span \<Rightarrow> str \<Rightarrow> parsed_unit" where
  "parsed_unit_of sha ordinal kind raw_span t =
     \<lparr>pu_ordinal = ordinal, pu_kind = kind, pu_raw_span = raw_span, pu_text = t,
      pu_content_hash = ''sha256:'' @ hex (sha (unit_kind_name kind @ [CHR 0x00] @ t))\<rparr>"

definition evidence_locator :: "parsed_unit \<Rightarrow> str" where
  "evidence_locator u = span_locator (pu_raw_span u)"

definition parse_json_document :: "(str \<Rightarrow> str) \<Rightarrow> raw_artifact \<Rightarrow> normalized_artifact \<Rightarrow> parse_error + parsed_unit list" where
  "parse_json_document sha raw n =
     (if \<not> utf8_valid (na_bytes n) then Inl InvalidNormalizedUtf8
      else Inr [parsed_unit_of sha 0 JsonDocument (span_of (body_start (raw_bytes raw)) (length (raw_bytes raw))) (na_bytes n)])"

text \<open>The loop \<open>zip\<close> and \<open>enumerate\<close> of the line and record parsers.\<close>

fun paired_units :: "(str \<Rightarrow> str) \<Rightarrow> unit_kind \<Rightarrow> str \<Rightarrow> nat \<Rightarrow> byte_span list \<Rightarrow> byte_span list \<Rightarrow> parsed_unit list" where
  "paired_units sha kind t ordinal (r # rs) (n # ns) =
     parsed_unit_of sha ordinal kind r (slice t n) # paired_units sha kind t (ordinal + 1) rs ns"
| "paired_units sha kind t ordinal _ _ = []"

definition parse_lines ::
  "(str \<Rightarrow> str) \<Rightarrow> raw_artifact \<Rightarrow> normalized_artifact \<Rightarrow> unit_kind \<Rightarrow> parse_error + parsed_unit list" where
  "parse_lines sha raw n kind =
     (let raw_spans = line_spans (raw_bytes raw); normalized_spans = line_spans (na_bytes n) in
      if length raw_spans \<noteq> length normalized_spans then Inl NormalizationShapeMismatch
      else if \<not> utf8_valid (na_bytes n) then Inl InvalidNormalizedUtf8
      else Inr (paired_units sha kind (na_bytes n) 0 raw_spans normalized_spans))"

fun ndjson_units :: "(str \<Rightarrow> str) \<Rightarrow> str \<Rightarrow> nat \<Rightarrow> byte_span list \<Rightarrow> byte_span list \<Rightarrow> parsed_unit list" where
  "ndjson_units sha t count (r # rs) (n # ns) =
     (if slice t n = [] then ndjson_units sha t count rs ns
      else parsed_unit_of sha count NdjsonRecord r (slice t n) # ndjson_units sha t (count + 1) rs ns)"
| "ndjson_units sha t count _ _ = []"

definition parse_ndjson :: "(str \<Rightarrow> str) \<Rightarrow> raw_artifact \<Rightarrow> normalized_artifact \<Rightarrow> parse_error + parsed_unit list" where
  "parse_ndjson sha raw n =
     (let raw_spans = line_spans (raw_bytes raw); normalized_spans = line_spans (na_bytes n) in
      if length raw_spans \<noteq> length normalized_spans then Inl NormalizationShapeMismatch
      else if \<not> utf8_valid (na_bytes n) then Inl InvalidNormalizedUtf8
      else Inr (ndjson_units sha (na_bytes n) 0 raw_spans normalized_spans))"

definition parse_csv_records :: "(str \<Rightarrow> str) \<Rightarrow> raw_artifact \<Rightarrow> normalized_artifact \<Rightarrow> parse_error + parsed_unit list" where
  "parse_csv_records sha raw n =
     res_bind (csv_record_spans (raw_bytes raw)) (\<lambda>raw_spans.
     res_bind (csv_record_spans (na_bytes n)) (\<lambda>normalized_spans.
       if length raw_spans \<noteq> length normalized_spans then Inl NormalizationShapeMismatch
       else if \<not> utf8_valid (na_bytes n) then Inl InvalidNormalizedUtf8
       else Inr (paired_units sha CsvRecord (na_bytes n) 0 raw_spans normalized_spans)))"

definition parse_units :: "(str \<Rightarrow> str) \<Rightarrow> raw_artifact \<Rightarrow> normalized_artifact \<Rightarrow> parse_error + parsed_unit list" where
  "parse_units sha raw n =
     (if raw_media_type raw = ''text/plain'' then parse_lines sha raw n TextLine
      else if raw_media_type raw = ''text/markdown'' then parse_lines sha raw n MarkdownLine
      else if raw_media_type raw = ''application/json'' then parse_json_document sha raw n
      else if raw_media_type raw = ''application/x-ndjson'' then parse_ndjson sha raw n
      else if raw_media_type raw = ''text/csv'' then parse_csv_records sha raw n
      else Inl NormalizationShapeMismatch)"

definition parse_artifact ::
  "(str \<Rightarrow> str) \<Rightarrow> ('n, 'z) json_library_scheme \<Rightarrow> raw_artifact \<Rightarrow> parse_error + parsed_document" where
  "parse_artifact sha lib raw =
     (case normalize sha lib raw of
        Inl e \<Rightarrow> Inl (NormalizeFailed (normalize_error_text e))
      | Inr n \<Rightarrow>
          res_bind (parse_units sha raw n) (\<lambda>units. Inr
            \<lparr>pd_contract_version = PARSE_CONTRACT_VERSION, pd_tenant = raw_tenant raw, pd_source_id = raw_source_id raw,
             pd_virtual_uri = raw_virtual_uri raw, pd_media_type = raw_media_type raw,
             pd_raw_content_hash = raw_content_hash raw,
             pd_normalized_content_hash = nm_output_content_hash (na_manifest n), pd_units = units\<rparr>))"

end
