(* ===== verification/Extract.thy ===== *)
theory Extract
  imports Parse
begin

section \<open>Structural extraction (crates/ccos-enterprise-extract)\<close>

text \<open>
  Each unit of a parsed artifact becomes a record candidate: an observation with its attributes and with evidence that
  names the byte span of the raw source. Hashes and the JSON library are parameters, as in the theories below.
\<close>

definition EXTRACTION_CONTRACT_VERSION :: u32 where
  "EXTRACTION_CONTRACT_VERSION = 2"

type_synonym candidate_id = str

datatype extracted_value =
    ValueNull
  | ValueBool bool
  | ValueNumber str
  | ValueString str
  | ValueJson str

record record_candidate =
  rc_id :: candidate_id
  rc_tenant :: tenant_id
  rc_source_id :: source_id
  rc_unit_ordinal :: nat
  rc_record_index :: nat
  rc_kind :: assertion_kind
  rc_evidence :: evidence_record
  rc_attributes :: "(str, extracted_value) fmap"

record extraction_batch =
  xb_contract_version :: u32
  xb_tenant :: tenant_id
  xb_source_id :: source_id
  xb_raw_content_hash :: str
  xb_candidates :: "record_candidate list"

datatype extract_error =
    ParseFailed str
  | ExtractInvalidJson nat str
  | JsonTopLevelUnsupported nat
  | CsvMissingHeader
  | CsvEmptyHeader nat
  | CsvDuplicateHeader str
  | CsvMalformed nat str
  | CsvWidth nat nat nat

text \<open>\<open>dbg\<close> is the rendering \<open>{:?}\<close> of a string.\<close>

fun extract_error_text :: "(str \<Rightarrow> str) \<Rightarrow> extract_error \<Rightarrow> str" where
  "extract_error_text dbg (ParseFailed detail) = ''parse failed: '' @ detail"
| "extract_error_text dbg (ExtractInvalidJson u detail) = ''unit '' @ show_nat u @ '' contains invalid JSON: '' @ detail"
| "extract_error_text dbg (JsonTopLevelUnsupported u) =
     ''unit '' @ show_nat u @ '' JSON top level is not an object or object array''"
| "extract_error_text dbg CsvMissingHeader = ''CSV source has no header record''"
| "extract_error_text dbg (CsvEmptyHeader column) = ''CSV header column '' @ show_nat column @ '' is empty''"
| "extract_error_text dbg (CsvDuplicateHeader header) = ''CSV header '' @ dbg header @ '' appears more than once''"
| "extract_error_text dbg (CsvMalformed u detail) = ''CSV record '' @ show_nat u @ '' is malformed: '' @ detail"
| "extract_error_text dbg (CsvWidth u expected found) =
     ''CSV record '' @ show_nat u @ '' has '' @ show_nat found @ '' fields; expected '' @ show_nat expected"

subsection \<open>Candidates\<close>

definition unit_evidence_id :: "(str \<Rightarrow> str) \<Rightarrow> raw_artifact \<Rightarrow> str \<Rightarrow> evidence_id" where
  "unit_evidence_id sha raw locator =
     ''evidence:unit:'' @ hex (sha (as_str (raw_tenant raw) @ [CHR 0x00] @ raw_source_id raw @ [CHR 0x00] @ raw_content_hash raw
        @ [CHR 0x00] @ locator))"

definition build_candidate ::
  "(str \<Rightarrow> str) \<Rightarrow> raw_artifact \<Rightarrow> parsed_unit \<Rightarrow> nat \<Rightarrow> (str, extracted_value) fmap \<Rightarrow> record_candidate" where
  "build_candidate sha raw u record_index attributes =
     (let locator = evidence_locator u;
          evidence = \<lparr>evd_id = unit_evidence_id sha raw locator, evd_tenant = raw_tenant raw, evd_source = raw_source_id raw,
            evd_locator = Some locator, evd_content_hash = Some (raw_content_hash raw)\<rparr>;
          i = ''candidate:record:'' @ hex (sha (as_str (raw_tenant raw) @ [CHR 0x00] @ raw_source_id raw @ [CHR 0x00]
                @ raw_content_hash raw @ [CHR 0x00] @ le64 (pu_ordinal u) @ le64 record_index @ pu_content_hash u))
      in \<lparr>rc_id = i, rc_tenant = raw_tenant raw, rc_source_id = raw_source_id raw, rc_unit_ordinal = pu_ordinal u,
          rc_record_index = record_index, rc_kind = Observation, rc_evidence = evidence, rc_attributes = attributes\<rparr>)"

subsection \<open>JSON\<close>

fun extracted_value_of :: "('n, 'z) json_library_scheme \<Rightarrow> 'n json_value \<Rightarrow> extracted_value" where
  "extracted_value_of lib JNull = ValueNull"
| "extracted_value_of lib (JBool b) = ValueBool b"
| "extracted_value_of lib (JNumber n) = ValueNumber (jl_number lib n)"
| "extracted_value_of lib (JString s) = ValueString s"
| "extracted_value_of lib v = ValueJson (write_json lib v)"

definition candidate_from_object ::
  "(str \<Rightarrow> str) \<Rightarrow> ('n, 'z) json_library_scheme \<Rightarrow> raw_artifact \<Rightarrow> parsed_unit \<Rightarrow> nat \<Rightarrow> (str \<times> 'n json_value) list \<Rightarrow> record_candidate" where
  "candidate_from_object sha lib raw u record_index members =
     build_candidate sha raw u record_index
       (fold (\<lambda>(key, v). fmupd key (extracted_value_of lib v)) members fmempty)"

fun array_candidates ::
  "(str \<Rightarrow> str) \<Rightarrow> ('n, 'z) json_library_scheme \<Rightarrow> raw_artifact \<Rightarrow> parsed_unit \<Rightarrow> nat \<Rightarrow> 'n json_value list
     \<Rightarrow> extract_error + record_candidate list" where
  "array_candidates sha lib raw u record_index [] = Inr []"
| "array_candidates sha lib raw u record_index (v # vs) =
     (case v of
        JObject members \<Rightarrow>
          res_bind (array_candidates sha lib raw u (record_index + 1) vs) (\<lambda>cs.
            Inr (candidate_from_object sha lib raw u record_index members # cs))
      | _ \<Rightarrow> Inl (JsonTopLevelUnsupported (pu_ordinal u)))"

text \<open>\<open>parsed.units[0]\<close>: a parsed JSON document has exactly one unit.\<close>

definition extract_json_document ::
  "(str \<Rightarrow> str) \<Rightarrow> ('n, 'z) json_library_scheme \<Rightarrow> raw_artifact \<Rightarrow> parsed_document \<Rightarrow> extract_error + record_candidate list" where
  "extract_json_document sha lib raw parsed =
     (let u = hd (pd_units parsed) in
      case jl_parse lib (pu_text u) of
        Inl e \<Rightarrow> Inl (ExtractInvalidJson (pu_ordinal u) e)
      | Inr (JObject members) \<Rightarrow> Inr [candidate_from_object sha lib raw u 0 members]
      | Inr (JArray vs) \<Rightarrow> array_candidates sha lib raw u 0 vs
      | Inr _ \<Rightarrow> Inl (JsonTopLevelUnsupported (pu_ordinal u)))"

fun extract_ndjson_units ::
  "(str \<Rightarrow> str) \<Rightarrow> ('n, 'z) json_library_scheme \<Rightarrow> raw_artifact \<Rightarrow> parsed_unit list \<Rightarrow> extract_error + record_candidate list" where
  "extract_ndjson_units sha lib raw [] = Inr []"
| "extract_ndjson_units sha lib raw (u # us) =
     (case jl_parse lib (pu_text u) of
        Inl e \<Rightarrow> Inl (ExtractInvalidJson (pu_ordinal u) e)
      | Inr (JObject members) \<Rightarrow>
          res_bind (extract_ndjson_units sha lib raw us) (\<lambda>cs. Inr (candidate_from_object sha lib raw u 0 members # cs))
      | Inr _ \<Rightarrow> Inl (JsonTopLevelUnsupported (pu_ordinal u)))"

definition extract_ndjson ::
  "(str \<Rightarrow> str) \<Rightarrow> ('n, 'z) json_library_scheme \<Rightarrow> raw_artifact \<Rightarrow> parsed_document \<Rightarrow> extract_error + record_candidate list" where
  "extract_ndjson sha lib raw parsed = extract_ndjson_units sha lib raw (pd_units parsed)"

subsection \<open>Prose\<close>

definition extract_prose :: "(str \<Rightarrow> str) \<Rightarrow> raw_artifact \<Rightarrow> parsed_document \<Rightarrow> record_candidate list" where
  "extract_prose sha raw parsed =
     map (\<lambda>u. build_candidate sha raw u 0
            (fmupd ''text'' (ValueString (pu_text u)) (fmupd ''format'' (ValueString (unit_kind_name (pu_kind u))) fmempty)))
       (filter (\<lambda>u. trim (pu_text u) \<noteq> []) (pd_units parsed))"

subsection \<open>CSV\<close>

text \<open>The states of the loop: inside quotes, after a closing quote, at the start of a field, within an unquoted field.\<close>

datatype csv_state = InQuotes | ClosedQuote | FieldStart | Unquoted

fun csv_fields :: "nat \<Rightarrow> csv_state \<Rightarrow> str \<Rightarrow> str list \<Rightarrow> str \<Rightarrow> extract_error + str list" where
  "csv_fields u st field found [] =
     (if st = InQuotes then Inl (CsvMalformed u ''unterminated quoted field'') else Inr (found @ [field]))"
| "csv_fields u st field found (c # cs) =
     (case st of
        InQuotes \<Rightarrow>
          if c = CHR 0x22 then
            (case cs of
               [] \<Rightarrow> csv_fields u ClosedQuote field found []
             | d # cs' \<Rightarrow>
                 if d = CHR 0x22 then csv_fields u InQuotes (field @ [CHR 0x22]) found cs'
                 else csv_fields u ClosedQuote field found cs)
          else csv_fields u InQuotes (field @ [c]) found cs
      | ClosedQuote \<Rightarrow>
          if c = CHR '','' then csv_fields u FieldStart [] (found @ [field]) cs
          else Inl (CsvMalformed u ''characters after closing quote before delimiter'')
      | _ \<Rightarrow>
          if c = CHR '','' then csv_fields u FieldStart [] (found @ [field]) cs
          else if c = CHR 0x22 then
            (if st = FieldStart then csv_fields u InQuotes field found cs
             else Inl (CsvMalformed u ''quote inside unquoted field''))
          else csv_fields u Unquoted (field @ [c]) found cs)"

definition parse_csv_fields :: "str \<Rightarrow> nat \<Rightarrow> extract_error + str list" where
  "parse_csv_fields rec u = csv_fields u FieldStart [] [] rec"

fun csv_headers :: "nat \<Rightarrow> str fset \<Rightarrow> str list \<Rightarrow> extract_error + str list" where
  "csv_headers column seen [] = Inr []"
| "csv_headers column seen (h # hs) =
     (let header = trim h in
      if header = [] then Inl (CsvEmptyHeader column)
      else if header |\<in>| seen then Inl (CsvDuplicateHeader header)
      else res_bind (csv_headers (column + 1) (finsert header seen) hs) (\<lambda>rest. Inr (header # rest)))"

fun csv_rows :: "(str \<Rightarrow> str) \<Rightarrow> raw_artifact \<Rightarrow> str list \<Rightarrow> parsed_unit list \<Rightarrow> extract_error + record_candidate list" where
  "csv_rows sha raw headers [] = Inr []"
| "csv_rows sha raw headers (u # us) =
     res_bind (parse_csv_fields (pu_text u) (pu_ordinal u)) (\<lambda>row.
       if length row \<noteq> length headers then Inl (CsvWidth (pu_ordinal u) (length headers) (length row))
       else res_bind (csv_rows sha raw headers us) (\<lambda>cs.
         Inr (build_candidate sha raw u 0 (fold (\<lambda>(h, v). fmupd h (ValueString v)) (zip headers row) fmempty) # cs)))"

definition extract_csv :: "(str \<Rightarrow> str) \<Rightarrow> raw_artifact \<Rightarrow> parsed_document \<Rightarrow> extract_error + record_candidate list" where
  "extract_csv sha raw parsed =
     (case pd_units parsed of
        [] \<Rightarrow> Inl CsvMissingHeader
      | header_unit # us \<Rightarrow>
          res_bind (parse_csv_fields (pu_text header_unit) (pu_ordinal header_unit)) (\<lambda>headers.
          res_bind (csv_headers 0 {||} headers) (\<lambda>canonical_headers. csv_rows sha raw canonical_headers us)))"

subsection \<open>The entry point\<close>

definition extract_candidates ::
  "(str \<Rightarrow> str) \<Rightarrow> ('n, 'z) json_library_scheme \<Rightarrow> raw_artifact \<Rightarrow> parsed_document \<Rightarrow> extract_error + record_candidate list" where
  "extract_candidates sha lib raw parsed =
     (if raw_media_type raw = ''application/json'' then extract_json_document sha lib raw parsed
      else if raw_media_type raw = ''application/x-ndjson'' then extract_ndjson sha lib raw parsed
      else if raw_media_type raw = ''text/csv'' then extract_csv sha raw parsed
      else if raw_media_type raw \<in> {''text/plain'', ''text/markdown''} then Inr (extract_prose sha raw parsed)
      else Inr [])"

definition extract_artifact ::
  "(str \<Rightarrow> str) \<Rightarrow> ('n, 'z) json_library_scheme \<Rightarrow> raw_artifact \<Rightarrow> extract_error + extraction_batch" where
  "extract_artifact sha lib raw =
     (case parse_artifact sha lib raw of
        Inl e \<Rightarrow> Inl (ParseFailed (parse_error_text e))
      | Inr parsed \<Rightarrow>
          res_bind (extract_candidates sha lib raw parsed) (\<lambda>candidates. Inr
            \<lparr>xb_contract_version = EXTRACTION_CONTRACT_VERSION, xb_tenant = raw_tenant raw, xb_source_id = raw_source_id raw,
             xb_raw_content_hash = raw_content_hash raw, xb_candidates = candidates\<rparr>))"

end
