(* ===== verification/Document_Properties.thy ===== *)
theory Document_Properties
  imports Extract
begin

section \<open>From bytes to candidates\<close>

text \<open>
  What normalization, framing and extraction do together: a line unit is exactly the bytes its evidence cites, and a CSV
  table comes back as its rows. The framing loops are compared with recursions that collect texts instead of spans.
\<close>

subsection \<open>Texts\<close>

fun line_texts :: "str \<Rightarrow> str \<Rightarrow> str list" where
  "line_texts cur [] = (if cur = [] then [] else [cur])"
| "line_texts cur (b # bs) =
     (if b = carriage_return then
        cur # (case bs of [] \<Rightarrow> [] | d # bs' \<Rightarrow> if d = newline then line_texts [] bs' else line_texts [] bs)
      else if b = newline then cur # line_texts [] bs
      else line_texts (cur @ [b]) bs)"

fun csv_texts :: "bool \<Rightarrow> str \<Rightarrow> str \<Rightarrow> str list option" where
  "csv_texts q cur [] = (if q then None else Some (if cur = [] then [] else [cur]))"
| "csv_texts q cur (b # bs) =
     (if b = CHR 0x22 then
        (case bs of
           [] \<Rightarrow> csv_texts (\<not> q) (cur @ [b]) []
         | d # bs' \<Rightarrow> if q \<and> d = CHR 0x22 then csv_texts q (cur @ [b, d]) bs' else csv_texts (\<not> q) (cur @ [b]) bs)
      else if (b = carriage_return \<or> b = newline) \<and> \<not> q then
        map_option (\<lambda>ts. cur # ts)
          (case bs of
             [] \<Rightarrow> csv_texts q [] []
           | d # bs' \<Rightarrow> if b = carriage_return \<and> d = newline then csv_texts q [] bs' else csv_texts q [] bs)
      else csv_texts q (cur @ [b]) bs)"

lemma slice_span [simp]: "slice (pre @ cur @ rest) (span_of (length pre) (length pre + length cur)) = cur"
  by (simp add: slice_def span_of_def)

lemma line_loop_texts:
  "map (slice (pre @ cur @ rest)) (line_loop (length pre) (length pre + length cur) rest) = line_texts cur rest"
proof (induction cur rest arbitrary: pre rule: line_texts.induct)
  case (1 cur)
  then show ?case using slice_span [of pre cur "[]"] by simp
next
  case (2 cur b bs)
  have span: "slice (pre @ cur @ b # bs) (span_of (length pre) (length pre + length cur)) = cur" by (rule slice_span)
  show ?case
  proof (cases "b = carriage_return")
    case cr: True
    show ?thesis
    proof (cases bs)
      case Nil
      then show ?thesis using cr span by simp
    next
      case (Cons d bs')
      show ?thesis
      proof (cases "d = newline")
        case True
        have "map (slice (pre @ cur @ b # bs)) (line_loop (length pre + length cur + 2) (length pre + length cur + 2) bs') = line_texts [] bs'"
          using "2.IH"(1) [OF cr Cons True, of "pre @ cur @ [b, d]"] Cons by simp
        then show ?thesis using cr Cons True span by simp
      next
        case False
        have "map (slice (pre @ cur @ b # bs)) (line_loop (length pre + length cur + 1) (length pre + length cur + 1) bs) = line_texts [] bs"
          using "2.IH"(2) [OF cr Cons False, of "pre @ cur @ [b]"] by simp
        then show ?thesis using cr Cons False span by simp
      qed
    qed
  next
    case False
    then show ?thesis
      using "2.IH"(3) [OF False, of "pre @ cur @ [b]"] "2.IH"(4) [OF False, of pre] span by (cases "b = newline") simp_all
  qed
qed

lemma csv_loop_texts:
  "(case csv_loop q (length pre) (length pre + length cur) rest of
      Inl e \<Rightarrow> csv_texts q cur rest = None
    | Inr spans \<Rightarrow> csv_texts q cur rest = Some (map (slice (pre @ cur @ rest)) spans))"
proof (induction q cur rest arbitrary: pre rule: csv_texts.induct)
  case (1 q cur)
  then show ?case using slice_span [of pre cur "[]"] by simp
next
  case (2 q cur b bs)
  have span: "slice (pre @ cur @ b # bs) (span_of (length pre) (length pre + length cur)) = cur" by (rule slice_span)
  show ?case
  proof (cases "b = CHR 0x22")
    case quote: True
    show ?thesis
    proof (cases bs)
      case Nil
      then show ?thesis using quote slice_span [of pre "cur @ [b]" "[]"] by simp
    next
      case (Cons d bs')
      have loop: "csv_loop q p i (b # bs) = (if q \<and> d = CHR 0x22 then csv_loop q p (i + 2) bs' else csv_loop (\<not> q) p (i + 1) bs)" for p i
        unfolding csv_loop.simps(2) [of q p i b bs] by (simp only: quote Cons list.case if_True refl)
      have texts: "csv_texts q cur (b # bs) = (if q \<and> d = CHR 0x22 then csv_texts q (cur @ [b, d]) bs' else csv_texts (\<not> q) (cur @ [b]) bs)"
        unfolding csv_texts.simps(2) [of q cur b bs] by (simp only: quote Cons list.case if_True refl)
      show ?thesis
      proof (cases "q \<and> d = CHR 0x22")
        case True
        with "2.IH"(2) [OF quote Cons True, of pre] show ?thesis
          unfolding loop texts if_P [OF True]
          by (simp only: Cons length_append list.size append.assoc append.simps add_0 add.assoc One_nat_def numeral_2_eq_2 add_Suc)
      next
        case False
        with "2.IH"(3) [OF quote Cons False, of pre] show ?thesis
          unfolding loop texts if_not_P [OF False] by (simp only: length_append list.size append.assoc append.simps add_0 add.assoc One_nat_def)
      qed
    qed
  next
    case plain: False
    show ?thesis
    proof (cases "(b = carriage_return \<or> b = newline) \<and> \<not> q")
      case True
      show ?thesis
      proof (cases bs)
        case Nil
        then show ?thesis using plain True "2.IH"(4) [OF plain True Nil, of "pre @ cur @ [b]"] span by (simp add: add.assoc split: sum.splits)
      next
        case (Cons d bs')
        show ?thesis
        proof (cases "b = carriage_return \<and> d = newline")
          case crlf: True
          from "2.IH"(5) [OF plain True Cons crlf, of "pre @ cur @ [b, d]"] show ?thesis
            using plain True Cons crlf span by (simp add: add.assoc split: sum.splits)
        next
          case False
          have loop: "csv_loop q p i (b # bs) = res_bind (csv_loop q (i + 1) (i + 1) bs) (\<lambda>spans. Inr (span_of p i # spans))" for p i
            unfolding csv_loop.simps(2) [of q p i b bs] if_not_P [OF plain] if_P [OF True] by (simp only: Cons list.case if_not_P [OF False])
          have texts: "csv_texts q cur (b # bs) = map_option (\<lambda>ts. cur # ts) (csv_texts q [] bs)"
            unfolding csv_texts.simps(2) [of q cur b bs] if_not_P [OF plain] if_P [OF True] by (simp only: Cons list.case if_not_P [OF False])
          let ?i = "length pre + length cur + 1"
          have "case csv_loop q ?i ?i bs of Inl e \<Rightarrow> csv_texts q [] bs = None
              | Inr spans \<Rightarrow> csv_texts q [] bs = Some (map (slice (pre @ cur @ b # bs)) spans)"
            using "2.IH"(6) [OF plain True Cons False, of "pre @ cur @ [b]"]
            by (simp only: length_append list.size append.assoc append.simps append_Nil add_0 add_0_right add.assoc One_nat_def)
          then show ?thesis unfolding loop texts using span by (cases "csv_loop q ?i ?i bs") (simp_all only: res_bind_simps sum.case option.map list.map)
        qed
      qed
    next
      case False
      have loop: "csv_loop q p i (b # bs) = csv_loop q p (i + 1) bs" for p i
        unfolding csv_loop.simps(2) [of q p i b bs] if_not_P [OF plain] if_not_P [OF False] ..
      have texts: "csv_texts q cur (b # bs) = csv_texts q (cur @ [b]) bs"
        unfolding csv_texts.simps(2) [of q cur b bs] if_not_P [OF plain] if_not_P [OF False] ..
      show ?thesis using "2.IH"(7) [OF plain False, of pre] unfolding loop texts
        by (simp only: length_append list.size append.assoc append.simps append_Nil add_0 add.assoc One_nat_def)
    qed
  qed
qed

subsection \<open>Normal newlines\<close>

lemma normalize_newlines_plain [simp]: "c \<noteq> carriage_return \<Longrightarrow> normalize_newlines (c # s) = c # normalize_newlines s"
  by simp

lemma line_texts_normalize: "line_texts cur (normalize_newlines s) = line_texts cur s"
proof (induction cur s rule: line_texts.induct)
  case (2 cur b bs)
  show ?case
  proof (cases "b = carriage_return")
    case True
    then show ?thesis using 2(1,2) by (auto split: list.splits)
  next
    case False
    then show ?thesis using 2(3,4) by simp
  qed
qed simp

lemma utf8_valid_ascii [simp]: "(of_char c :: nat) < 128 \<Longrightarrow> utf8_valid (c # s) = utf8_valid s"
  by simp

lemma normalize_newlines_high: "128 \<le> (of_char c :: nat) \<Longrightarrow> normalize_newlines (c # s) = c # normalize_newlines s"
  by (rule normalize_newlines_plain) auto

lemma utf8_valid_normalize: "utf8_valid s \<Longrightarrow> utf8_valid (normalize_newlines s)"
proof (induction s rule: utf8_valid.induct)
  case (2 a s)
  let ?n = "of_char a :: nat"
  have high: "normalize_newlines (b # t) = b # normalize_newlines t" if "utf8_cont lo hi b" "128 \<le> lo" for lo hi b t
    by (rule normalize_newlines_high) (use that in \<open>simp add: utf8_cont_def\<close>)
  consider "?n < 128" | "194 \<le> ?n" "?n \<le> 223" | "224 \<le> ?n" "?n \<le> 239" | "240 \<le> ?n" "?n \<le> 244"
    using "2.prems" by (fastforce simp: Let_def split: if_splits)
  then show ?case
  proof cases
    case 1
    then have s: "utf8_valid s" using "2.prems" by simp
    show ?thesis
    proof (cases "a = carriage_return")
      case False
      then show ?thesis using 1 "2.IH"(1) s by simp
    next
      case True
      show ?thesis
      proof (cases s)
        case (Cons d s')
        show ?thesis
        proof (cases "d = newline")
          case nl: True
          have "normalize_newlines s = newline # normalize_newlines s'" using Cons nl by simp
          then show ?thesis using "2.IH"(1) [OF refl 1 s] True Cons nl by simp
        next
          case False
          then show ?thesis using "2.IH"(1) [OF refl 1 s] True Cons by simp
        qed
      qed (simp add: True)
    qed
  next
    case 2
    then show ?thesis using "2.prems" "2.IH"(2) high normalize_newlines_high [of a s]
      by (auto simp: Let_def simp del: normalize_newlines.simps split: list.splits)
  next
    case 3
    then show ?thesis using "2.prems" "2.IH"(3) high normalize_newlines_high [of a s]
      by (auto simp: Let_def simp del: normalize_newlines.simps split: list.splits)
  next
    case 4
    then show ?thesis using "2.prems" "2.IH"(4) high normalize_newlines_high [of a s]
      by (auto simp: Let_def simp del: normalize_newlines.simps split: list.splits)
  qed
qed simp

lemma prefix_normalize:
  "\<forall>c\<in>set p. c \<noteq> carriage_return \<and> c \<noteq> newline \<Longrightarrow> prefix p (normalize_newlines s) = prefix p s"
proof (induction p arbitrary: s)
  case (Cons c p)
  then show ?case by (cases s) auto
qed simp

lemma normalize_newlines_bom: "starts_with (normalize_newlines s) BOM = starts_with s BOM"
  unfolding starts_with_def by (rule prefix_normalize) (simp add: BOM_def)

lemma normalize_newlines_Nil_iff [simp]: "normalize_newlines s = [] \<longleftrightarrow> s = []"
  by (cases s) auto

lemma normalize_newlines_crlf: "normalize_newlines (carriage_return # newline # s) = newline # normalize_newlines s"
  by simp

lemma normalize_newlines_cr: "s = [] \<or> hd s \<noteq> newline \<Longrightarrow> normalize_newlines (carriage_return # s) = newline # normalize_newlines s"
  by (cases s) simp_all

declare normalize_newlines.simps(2) [simp del]

lemmas newline_steps = normalize_newlines_plain normalize_newlines_crlf normalize_newlines_cr

lemma normalize_newlines_append:
  "xs = [] \<or> last xs \<noteq> carriage_return \<or> ys = [] \<or> hd ys \<noteq> newline \<Longrightarrow>
     normalize_newlines (xs @ ys) = normalize_newlines xs @ normalize_newlines ys"
proof (induction "length xs" arbitrary: xs rule: less_induct)
  case less
  show ?case
  proof (cases xs)
    case (Cons c s)
    consider "c \<noteq> carriage_return" | "c = carriage_return" "s = []" | s' where "c = carriage_return" "s = newline # s'"
      | "c = carriage_return" "s \<noteq> []" "hd s \<noteq> newline" by (cases s) auto
    then show ?thesis
    proof cases
      case 1
      then show ?thesis using less.hyps [of s] less.prems Cons by (auto split: if_splits)
    next
      case 2
      then show ?thesis using less.prems Cons by (auto simp: normalize_newlines_cr)
    next
      case (3 s')
      then show ?thesis using less.hyps [of s'] less.prems Cons by (auto simp: normalize_newlines_crlf split: if_splits)
    next
      case 4
      then show ?thesis using less.hyps [of s] less.prems Cons by (simp add: normalize_newlines_cr)
    qed
  qed simp
qed

subsection \<open>Framing and normalizing commute\<close>

abbreviation quote_mark :: char where
  "quote_mark \<equiv> CHR 0x22"

lemma csv_texts_pair: "csv_texts True cur (quote_mark # quote_mark # bs) = csv_texts True (cur @ [quote_mark, quote_mark]) bs"
  unfolding csv_texts.simps(2) [of True cur quote_mark "quote_mark # bs"] by (simp only: list.case if_True simp_thms)

lemma csv_texts_open: "csv_texts False cur (quote_mark # bs) = csv_texts True (cur @ [quote_mark]) bs"
  unfolding csv_texts.simps(2) [of False cur quote_mark bs] by (cases bs) (simp_all only: list.case if_True if_False simp_thms)

lemma csv_texts_close: "bs = [] \<or> hd bs \<noteq> quote_mark \<Longrightarrow> csv_texts True cur (quote_mark # bs) = csv_texts False (cur @ [quote_mark]) bs"
  unfolding csv_texts.simps(2) [of True cur quote_mark bs] by (cases bs) (simp_all only: list.case list.sel list.distinct if_True if_False simp_thms)

lemma csv_texts_crlf: "csv_texts False cur (carriage_return # newline # bs) = map_option ((#) cur) (csv_texts False [] bs)"
  unfolding csv_texts.simps(2) [of False cur carriage_return "newline # bs"] by simp

lemma csv_texts_break:
  "b = newline \<or> b = carriage_return \<and> (bs = [] \<or> hd bs \<noteq> newline) \<Longrightarrow>
     csv_texts False cur (b # bs) = map_option ((#) cur) (csv_texts False [] bs)"
  unfolding csv_texts.simps(2) [of False cur b bs] by (cases bs) auto

lemma csv_texts_quoted: "c \<noteq> quote_mark \<Longrightarrow> csv_texts True cur (c # bs) = csv_texts True (cur @ [c]) bs"
  unfolding csv_texts.simps(2) [of True cur c bs] by simp

lemma csv_texts_plain:
  "c \<noteq> quote_mark \<Longrightarrow> c \<noteq> carriage_return \<Longrightarrow> c \<noteq> newline \<Longrightarrow> csv_texts q cur (c # bs) = csv_texts q (cur @ [c]) bs"
  unfolding csv_texts.simps(2) [of q cur c bs] by simp

declare csv_texts.simps(2) [simp del]

lemmas csv_steps = csv_texts_pair csv_texts_open csv_texts_close csv_texts_crlf csv_texts_break csv_texts_quoted csv_texts_plain

lemma hd_normalize_quote: "normalize_newlines bs = [] \<or> hd (normalize_newlines bs) \<noteq> quote_mark \<longleftrightarrow> bs = [] \<or> hd bs \<noteq> quote_mark"
  by (cases bs) (simp_all add: normalize_newlines.simps(2))

lemma csv_texts_normalize:
  assumes "cur = [] \<or> last cur \<noteq> carriage_return \<or> rest = [] \<or> hd rest \<noteq> newline"
  shows "csv_texts q (normalize_newlines cur) (normalize_newlines rest) = map_option (map normalize_newlines) (csv_texts q cur rest)"
  using assms
proof (induction "length rest" arbitrary: q cur rest rule: less_induct)
  case less
  show ?case
  proof (cases rest)
    case Nil
    then show ?thesis by auto
  next
    case (Cons b bs)
    have IH: "csv_texts q' (normalize_newlines cur') (normalize_newlines rest') = map_option (map normalize_newlines) (csv_texts q' cur' rest')"
      if "length rest' < length rest" "cur' = [] \<or> last cur' \<noteq> carriage_return \<or> rest' = [] \<or> hd rest' \<noteq> newline" for q' cur' rest'
      using less.hyps [OF that] .
    have snoc: "normalize_newlines (cur @ cs) = normalize_newlines cur @ normalize_newlines cs" if "cs = [] \<or> hd cs \<noteq> newline" for cs
      using normalize_newlines_append [of cur cs] that by blast
    consider (pair) bs' where "b = quote_mark" "q" "bs = quote_mark # bs'"
      | (crlf) bs' where "\<not> q" "b = carriage_return" "bs = newline # bs'"
      | (quoted_crlf) bs' where "q" "b = carriage_return" "bs = newline # bs'"
      | (closing) "b = quote_mark" "q" "bs = [] \<or> hd bs \<noteq> quote_mark"
      | (starting) "b = quote_mark" "\<not> q"
      | (ending) "\<not> q" "b = newline \<or> b = carriage_return \<and> (bs = [] \<or> hd bs \<noteq> newline)"
      | (quoted_cr) "q" "b = carriage_return" "bs = [] \<or> hd bs \<noteq> newline"
      | (quoted_lf) "q" "b = newline"
      | (plain) "b \<noteq> quote_mark" "b \<noteq> carriage_return" "b \<noteq> newline" by (cases bs) auto
    then show ?thesis
    proof cases
      case (pair bs')
      then show ?thesis using IH [of bs' "cur @ [quote_mark, quote_mark]" True] Cons snoc [of "[quote_mark, quote_mark]"] by (simp add: csv_steps)
    next
      case closing
      then show ?thesis using IH [of bs "cur @ [quote_mark]" False] Cons snoc [of "[quote_mark]"] hd_normalize_quote [of bs] by (simp add: csv_texts_close)
    next
      case starting
      then show ?thesis using IH [of bs "cur @ [quote_mark]" True] Cons snoc [of "[quote_mark]"] by (simp add: csv_texts_open)
    next
      case (crlf bs')
      then show ?thesis using IH [of bs' "[]" False] Cons
        by (simp add: csv_texts_crlf csv_texts_break newline_steps option.map_comp comp_def)
    next
      case ending
      then have "normalize_newlines (b # bs) = newline # normalize_newlines bs" by (auto simp: newline_steps)
      then show ?thesis using IH [of bs "[]" False] Cons ending
        by (simp add: csv_texts_break option.map_comp comp_def)
    next
      case (quoted_crlf bs')
      then show ?thesis using IH [of bs' "cur @ [carriage_return, newline]" True] Cons snoc [of "[carriage_return, newline]"]
        by (simp add: csv_texts_quoted newline_steps)
    next
      case quoted_cr
      then show ?thesis using IH [of bs "cur @ [carriage_return]" True] Cons snoc [of "[carriage_return]"]
        by (simp add: csv_texts_quoted newline_steps)
    next
      case quoted_lf
      then show ?thesis using IH [of bs "cur @ [newline]" True] Cons normalize_newlines_append [of cur "[newline]"] less.prems
        by (simp add: csv_texts_quoted)
    next
      case plain
      then show ?thesis using IH [of bs "cur @ [b]" q] Cons snoc [of "[b]"] by (simp add: csv_texts_plain)
    qed
  qed
qed

subsection \<open>Nothing is left out\<close>

text \<open>The spans follow each other from \<open>i\<close> to the end of the bytes with exactly one line terminator between them.\<close>

fun spans_cover :: "str \<Rightarrow> nat \<Rightarrow> byte_span list \<Rightarrow> bool" where
  "spans_cover bytes i [] \<longleftrightarrow> i = length bytes"
| "spans_cover bytes i (s # ss) \<longleftrightarrow> bs_start s = i \<and> i \<le> bs_end s \<and>
     (bs_end s = length bytes \<and> ss = []
      \<or> (\<exists>t \<in> {[carriage_return], [newline], [carriage_return, newline]}.
          prefix t (drop (bs_end s) bytes) \<and> spans_cover bytes (bs_end s + length t) ss))"

lemma cover_step:
  assumes "spans_cover ((pre @ cur @ t) @ rest) (length (pre @ cur @ t)) ss"
    and "t \<in> {[carriage_return], [newline], [carriage_return, newline]}"
  shows "spans_cover (pre @ cur @ t @ rest) (length pre) (span_of (length pre) (length pre + length cur) # ss)"
proof -
  have "prefix t (drop (length pre + length cur) (pre @ cur @ t @ rest))" by simp
  then show ?thesis using assms by (auto simp: span_of_def add.assoc)
qed

lemma cover_end: "cur \<noteq> [] \<Longrightarrow> spans_cover (pre @ cur) (length pre) [span_of (length pre) (length pre + length cur)]"
  by (simp add: span_of_def)

declare spans_cover.simps(2) [simp del]

lemma line_loop_covers:
  "spans_cover (pre @ cur @ rest) (length pre) (line_loop (length pre) (length pre + length cur) rest)"
proof (induction cur rest arbitrary: pre rule: line_texts.induct)
  case (1 cur)
  then show ?case using cover_end [of cur pre] by auto
next
  case (2 cur b bs)
  consider (cr) "b = carriage_return" "bs = []" | (crlf) bs' where "b = carriage_return" "bs = newline # bs'"
    | (lone) d bs' where "b = carriage_return" "bs = d # bs'" "d \<noteq> newline" | (lf) "b = newline" | (plain) "b \<noteq> carriage_return" "b \<noteq> newline"
    by (cases bs) auto
  then show ?case
  proof cases
    case cr
    then show ?thesis using cover_step [of pre cur "[b]" "[]" "[]"] by simp
  next
    case (crlf bs')
    then show ?thesis using cover_step [of pre cur "[b, newline]" bs'] "2.IH"(1) [OF crlf refl, of "pre @ cur @ [b, newline]"] by simp
  next
    case (lone d bs')
    then show ?thesis using cover_step [of pre cur "[b]" bs] "2.IH"(2) [OF lone, of "pre @ cur @ [b]"] by simp
  next
    case lf
    then show ?thesis using cover_step [of pre cur "[b]" bs] "2.IH"(3) [of "pre @ cur @ [b]"] by simp
  next
    case plain
    then show ?thesis using "2.IH"(4) [of pre] by simp
  qed
qed

lemma csv_loop_covers:
  "csv_loop q (length pre) (length pre + length cur) rest = Inr spans \<Longrightarrow> spans_cover (pre @ cur @ rest) (length pre) spans"
proof (induction "length rest" arbitrary: q pre cur rest spans rule: less_induct)
  case less
  show ?case
  proof (cases rest)
    case Nil
    then show ?thesis using less.prems cover_end [of cur pre] by (auto split: if_splits)
  next
    case (Cons b bs)
    let ?i = "length pre + length cur"
    have loop: "csv_loop q (length pre) ?i (b # bs) = Inr spans" using less.prems Cons by (simp only:)
    have keep: "csv_loop q' (length pre) (?i + length cs) rest' = Inr spans \<Longrightarrow> rest = cs @ rest' \<Longrightarrow> cs \<noteq> [] \<Longrightarrow> ?thesis" for q' cs rest'
      using less.hyps [of rest' q' pre "cur @ cs" spans] by (simp add: add.assoc)
    have cut: ?thesis if "csv_loop q' (?i + length t) (?i + length t) rest' = Inr ss" "spans = span_of (length pre) ?i # ss" "rest = t @ rest'"
      "t \<in> {[carriage_return], [newline], [carriage_return, newline]}" for q' t rest' ss
    proof -
      have "length rest' < length rest" using that(3,4) by auto
      then have "spans_cover ((pre @ cur @ t) @ rest') (length (pre @ cur @ t)) ss"
        using less.hyps [of rest' q' "pre @ cur @ t" "[]" ss] that(1) by (simp add: add.assoc)
      from cover_step [OF this that(4)] show ?thesis using that(2,3) by simp
    qed
    show ?thesis
    proof (cases "b = quote_mark")
      case True
      show ?thesis
      proof (cases bs)
        case Nil
        then show ?thesis using loop True keep [of "\<not> q" "[b]" "[]"] Cons by simp
      next
        case bs: (Cons d bs')
        have "csv_loop q (length pre) ?i (b # bs) = (if q \<and> d = quote_mark then csv_loop q (length pre) (?i + 2) bs' else csv_loop (\<not> q) (length pre) (?i + 1) bs)"
          unfolding csv_loop.simps(2) [of q "length pre" ?i b bs] by (simp only: True bs list.case if_True refl)
        then show ?thesis using loop keep [of q "[b, d]" bs'] keep [of "\<not> q" "[b]" bs] Cons bs by (simp only: split: if_splits) auto
      qed
    next
      case plain: False
      show ?thesis
      proof (cases "(b = carriage_return \<or> b = newline) \<and> \<not> q")
        case True
        show ?thesis
        proof (cases bs)
          case Nil
          then show ?thesis using loop True plain cut [of q "[b]" "[]" "[]"] Cons by auto
        next
          case bs: (Cons d bs')
          have "csv_loop q (length pre) ?i (b # bs) = res_bind
              (if b = carriage_return \<and> d = newline then csv_loop q (?i + 2) (?i + 2) bs' else csv_loop q (?i + 1) (?i + 1) bs)
              (\<lambda>ss. Inr (span_of (length pre) ?i # ss))"
            unfolding csv_loop.simps(2) [of q "length pre" ?i b bs] if_not_P [OF plain] if_P [OF True] by (simp only: bs list.case)
          then have "res_bind
              (if b = carriage_return \<and> d = newline then csv_loop q (?i + 2) (?i + 2) bs' else csv_loop q (?i + 1) (?i + 1) bs)
              (\<lambda>ss. Inr (span_of (length pre) ?i # ss)) = Inr spans" using loop by (simp only:)
          then obtain ss where ss: "(if b = carriage_return \<and> d = newline then csv_loop q (?i + 2) (?i + 2) bs' else csv_loop q (?i + 1) (?i + 1) bs) = Inr ss"
            "spans = span_of (length pre) ?i # ss" by (auto simp only: res_bind_eq_Inr sum.inject)
          show ?thesis
          proof (cases "b = carriage_return \<and> d = newline")
            case crlf: True
            show ?thesis using ss crlf cut [of q "[b, d]" bs' ss] Cons bs by simp
          next
            case False
            have "csv_loop q (?i + 1) (?i + 1) bs = Inr ss" using ss(1) False by (simp only: if_False)
            then show ?thesis using cut [of q "[b]" bs ss] ss(2) Cons True by auto
          qed
        qed
      next
        case False
        have "csv_loop q (length pre) ?i (b # bs) = csv_loop q (length pre) (?i + 1) bs"
          unfolding csv_loop.simps(2) [of q "length pre" ?i b bs] if_not_P [OF plain] if_not_P [OF False] ..
        then show ?thesis using loop keep [of q "[b]" bs] Cons by simp
      qed
    qed
  qed
qed

lemma csv_texts_None: "csv_texts q cur rest = None \<longleftrightarrow> odd (count_list rest quote_mark) \<noteq> q"
proof (induction "length rest" arbitrary: q cur rest rule: less_induct)
  case less
  show ?case
  proof (cases rest)
    case (Cons b bs)
    consider (pair) bs' where "b = quote_mark" "q" "bs = quote_mark # bs'"
      | (crlf) bs' where "\<not> q" "b = carriage_return" "bs = newline # bs'"
      | (closing) "b = quote_mark" "q" "bs = [] \<or> hd bs \<noteq> quote_mark"
      | (starting) "b = quote_mark" "\<not> q"
      | (ending) "\<not> q" "b = newline \<or> b = carriage_return \<and> (bs = [] \<or> hd bs \<noteq> newline)"
      | (quoted) "q" "b \<noteq> quote_mark"
      | (plain) "b \<noteq> quote_mark" "b \<noteq> carriage_return" "b \<noteq> newline" by (cases bs) auto
    then show ?thesis
    proof cases
      case (pair bs')
      then show ?thesis using less.hyps [of bs' True] Cons by (simp add: csv_texts_pair)
    next
      case (crlf bs')
      then show ?thesis using less.hyps [of bs' False] Cons by (simp add: csv_texts_crlf)
    next
      case closing
      then show ?thesis using less.hyps [of bs False] Cons by (simp add: csv_texts_close)
    next
      case starting
      then show ?thesis using less.hyps [of bs True] Cons by (simp add: csv_texts_open)
    next
      case ending
      then show ?thesis using less.hyps [of bs False] Cons by (auto simp: csv_texts_break)
    next
      case quoted
      then show ?thesis using less.hyps [of bs True] Cons by (simp add: csv_texts_quoted)
    next
      case plain
      then show ?thesis using less.hyps [of bs q] Cons by (simp add: csv_texts_plain)
    qed
  qed simp
qed

lemma line_texts_clean:
  "carriage_return \<notin> set cur \<and> newline \<notin> set cur \<Longrightarrow> t \<in> set (line_texts cur rest) \<Longrightarrow> carriage_return \<notin> set t \<and> newline \<notin> set t"
proof (induction cur rest rule: line_texts.induct)
  case (1 cur)
  then show ?case by (auto split: if_splits)
next
  case (2 cur b bs)
  show ?case
  proof (cases "b = carriage_return")
    case True
    then show ?thesis using 2(1,2,5,6) by (auto split: list.splits if_splits)
  next
    case False
    then show ?thesis using 2(3,4,5,6) by (auto split: if_splits)
  qed
qed

lemma normalize_newlines_id: "carriage_return \<notin> set t \<Longrightarrow> normalize_newlines t = t"
  by (induction t) auto

lemma paired_units_props:
  assumes "length rs = length ns"
  shows "map pu_raw_span (paired_units sha kind t k rs ns) = rs" "map pu_text (paired_units sha kind t k rs ns) = map (slice t) ns"
    "map pu_ordinal (paired_units sha kind t k rs ns) = [k..<k + length rs]" "length (paired_units sha kind t k rs ns) = length rs"
  using assms by (induction sha kind t k rs ns rule: paired_units.induct) (simp_all add: parsed_unit_of_def upt_conv_Cons del: upt_Suc)

lemma units_texts:
  assumes "map pu_text us = map f (map pu_raw_span us)"
  shows "\<forall>u\<in>set us. pu_text u = f (pu_raw_span u)"
  using assms by (induction us) auto

lemma body_split: "bytes = take (body_start bytes) bytes @ [] @ drop (body_start bytes) bytes" "length (take (body_start bytes) bytes) = body_start bytes"
  by (auto simp: body_start_def starts_with_def BOM_def dest: prefix_length_le)

lemma raw_line_texts: "map (slice bytes) (line_spans bytes) = line_texts [] (drop (body_start bytes) bytes)"
  using line_loop_texts [of "take (body_start bytes) bytes" "[]" "drop (body_start bytes) bytes"] body_split [of bytes]
  by (simp add: line_spans_def)

lemma raw_csv_texts:
  "case csv_record_spans bytes of
     Inl e \<Rightarrow> csv_texts False [] (drop (body_start bytes) bytes) = None
   | Inr spans \<Rightarrow> csv_texts False [] (drop (body_start bytes) bytes) = Some (map (slice bytes) spans)"
  using csv_loop_texts [where q = False and pre = "take (body_start bytes) bytes" and cur = "[]" and rest = "drop (body_start bytes) bytes"]
    body_split [of bytes]
  by (simp add: csv_record_spans_def split: sum.splits)

lemma csv_error: "csv_loop q start index rest = Inl e \<Longrightarrow> \<exists>n. e = UnterminatedCsvQuote n"
proof (induction q start index rest rule: csv_loop.induct)
  case (2 q start index b bs)
  then show ?case unfolding csv_loop.simps(2) [of q start index b bs]
    by (cases bs) (auto simp: res_bind_eq_Inl simp del: csv_loop.simps(2) split: if_splits)
qed (auto split: if_splits)

subsection \<open>Units\<close>

lemma normalize_textual:
  assumes "raw_content_hash raw = content_hash sha (raw_bytes raw)"
    and "raw_media_type raw \<in> {''text/plain'', ''text/markdown'', ''text/csv''}"
    and "utf8_valid (drop (body_start (raw_bytes raw)) (raw_bytes raw))"
  obtains n where "normalize sha lib raw = Inr n" "na_bytes n = normalize_newlines (drop (body_start (raw_bytes raw)) (raw_bytes raw))"
proof -
  have "normalize_text (raw_bytes raw) = Inr (normalize_newlines (drop (body_start (raw_bytes raw)) (raw_bytes raw)))"
    using assms(3) by (auto simp: normalize_text_def body_start_def Let_def)
  then show thesis using that assms(1,2) by (simp add: normalize_def normalize_bytes_def)
qed

lemma parse_textual:
  assumes "raw_content_hash raw = content_hash sha (raw_bytes raw)"
    and "raw_media_type raw \<in> {''text/plain'', ''text/markdown'', ''text/csv''}"
    and "utf8_valid (drop (body_start (raw_bytes raw)) (raw_bytes raw))"
    and "\<not> starts_with (drop (body_start (raw_bytes raw)) (raw_bytes raw)) BOM"
  shows "case parse_artifact sha lib raw of
      Inr d \<Rightarrow> map pu_text (pd_units d) = map (\<lambda>s. normalize_newlines (slice (raw_bytes raw) s)) (map pu_raw_span (pd_units d))
        \<and> map pu_raw_span (pd_units d) = (if raw_media_type raw = ''text/csv'' then projr (csv_record_spans (raw_bytes raw)) else line_spans (raw_bytes raw))
        \<and> map pu_ordinal (pd_units d) = [0..<length (pd_units d)]
        \<and> (raw_media_type raw = ''text/csv'' \<longrightarrow> (\<exists>ss. csv_record_spans (raw_bytes raw) = Inr ss))
    | Inl e \<Rightarrow> raw_media_type raw = ''text/csv'' \<and> csv_record_spans (raw_bytes raw) = Inl e"
proof -
  let ?raw = "raw_bytes raw" let ?body = "drop (body_start ?raw) ?raw" let ?text = "normalize_newlines ?body"
  obtain n where n: "normalize sha lib raw = Inr n" "na_bytes n = ?text" by (rule normalize_textual [OF assms(1-3)])
  have start: "body_start ?text = 0" using assms(4) by (simp add: body_start_def normalize_newlines_bom)
  have utf8: "utf8_valid ?text" by (rule utf8_valid_normalize [OF assms(3)])
  show ?thesis
  proof (cases "raw_media_type raw = ''text/csv''")
    case False
    have texts: "map (slice ?text) (line_spans ?text) = map (slice ?raw) (line_spans ?raw)"
      using raw_line_texts [of ?text] raw_line_texts [of ?raw] start by (simp add: line_texts_normalize)
    then have "length (line_spans ?text) = length (line_spans ?raw)" by (metis length_map)
    moreover have "map (slice ?raw) (line_spans ?raw) = map (\<lambda>s. normalize_newlines (slice ?raw s)) (line_spans ?raw)"
    proof (rule map_cong [OF refl])
      fix s assume "s \<in> set (line_spans ?raw)"
      then have "slice ?raw s \<in> set (line_texts [] ?body)" unfolding raw_line_texts [symmetric] by simp
      then show "slice ?raw s = normalize_newlines (slice ?raw s)" using line_texts_clean [of "[]"] normalize_newlines_id by fastforce
    qed
    ultimately show ?thesis using n utf8 texts False assms(2) paired_units_props [of "line_spans ?raw" "line_spans ?text" sha _ ?text 0]
      by (auto simp: parse_artifact_def parse_units_def parse_lines_def Let_def)
  next
    case True
    have texts: "csv_texts False [] ?text = map_option (map normalize_newlines) (csv_texts False [] ?body)"
      using csv_texts_normalize [of "[]" ?body False] by simp
    show ?thesis
    proof (cases "csv_record_spans ?raw")
      case (Inl e)
      then show ?thesis using n True by (simp add: parse_artifact_def parse_units_def parse_csv_records_def)
    next
      case (Inr rs)
      then have some: "csv_texts False [] ?text = Some (map (\<lambda>s. normalize_newlines (slice ?raw s)) rs)"
        using raw_csv_texts [of ?raw] texts by (simp add: comp_def)
      then obtain ns where ns: "csv_record_spans ?text = Inr ns" "map (slice ?text) ns = map (\<lambda>s. normalize_newlines (slice ?raw s)) rs"
        using raw_csv_texts [of ?text] start by (cases "csv_record_spans ?text") auto
      then have len: "length rs = length ns" by (metis length_map)
      show ?thesis using n utf8 ns Inr True len paired_units_props [OF len, of sha CsvRecord ?text 0]
        by (simp add: parse_artifact_def parse_units_def parse_csv_records_def comp_def)
    qed
  qed
qed

text \<open>
  C17: Every unit is exactly the bytes its evidence cites. For a text, Markdown or CSV artifact with the declared hash, valid
  UTF-8 and at most one byte order mark, parsing succeeds unless it is CSV with an odd number of quotation marks. Each
  unit's text is the cited byte span of the raw source with its newlines normalized, the units are numbered in order, and
  their spans follow each other from the byte order mark to the end of the source with one line terminator in between: no
  byte of the content is left out and none is cited twice.
\<close>

theorem units_are_the_cited_bytes:
  assumes "raw_content_hash raw = content_hash sha (raw_bytes raw)"
    and "raw_media_type raw \<in> {''text/plain'', ''text/markdown'', ''text/csv''}"
    and "utf8_valid (drop (body_start (raw_bytes raw)) (raw_bytes raw))"
    and "\<not> starts_with (drop (body_start (raw_bytes raw)) (raw_bytes raw)) BOM"
  shows "case parse_artifact sha lib raw of
      Inr d \<Rightarrow> list_all (\<lambda>u. pu_text u = normalize_newlines (slice (raw_bytes raw) (pu_raw_span u))) (pd_units d)
        \<and> spans_cover (raw_bytes raw) (body_start (raw_bytes raw)) (map pu_raw_span (pd_units d))
        \<and> map pu_ordinal (pd_units d) = [0..<length (pd_units d)]
    | Inl e \<Rightarrow> raw_media_type raw = ''text/csv'' \<and> odd (count_list (drop (body_start (raw_bytes raw)) (raw_bytes raw)) quote_mark)
        \<and> (\<exists>n. e = UnterminatedCsvQuote n)"
proof (cases "parse_artifact sha lib raw")
  case (Inl e)
  then have e: "raw_media_type raw = ''text/csv''" "csv_record_spans (raw_bytes raw) = Inl e" using parse_textual [OF assms, of lib] by simp_all
  then have "odd (count_list (drop (body_start (raw_bytes raw)) (raw_bytes raw)) quote_mark)"
    using raw_csv_texts [of "raw_bytes raw"] csv_texts_None [of False "[]"] by simp
  then show ?thesis using Inl e csv_error [of False] by (simp add: csv_record_spans_def)
next
  case (Inr d)
  let ?raw = "raw_bytes raw" let ?pre = "take (body_start ?raw) ?raw"
  note d = parse_textual [OF assms, of lib, unfolded Inr sum.case]
  have "spans_cover ?raw (body_start ?raw) (line_spans ?raw)"
    using line_loop_covers [of ?pre "[]" "drop (body_start ?raw) ?raw"] body_split [of ?raw] by (simp add: line_spans_def)
  moreover have "spans_cover ?raw (body_start ?raw) ss" if "csv_record_spans ?raw = Inr ss" for ss
    using csv_loop_covers [of False ?pre "[]" "drop (body_start ?raw) ?raw" ss] body_split [of ?raw] that by (simp add: csv_record_spans_def)
  ultimately have "spans_cover ?raw (body_start ?raw) (map pu_raw_span (pd_units d))" using d by auto
  moreover have "list_all (\<lambda>u. pu_text u = normalize_newlines (slice ?raw (pu_raw_span u))) (pd_units d)"
    using units_texts [of "pd_units d" "\<lambda>s. normalize_newlines (slice ?raw s)"] d by (simp add: list_all_iff)
  ultimately show ?thesis using Inr d by simp
qed

end
