(* ===== verification/Csv_Tables.thy ===== *)
theory Csv_Tables
  imports Document_Properties
begin

section \<open>CSV tables come back as their rows\<close>

text \<open>
  A table written as RFC 4180 prescribes (every field quoted, quotation marks doubled, lines ended by CRLF) and what
  normalization, framing and extraction make of it.
\<close>

definition csv_escape :: "str \<Rightarrow> str" where
  "csv_escape f = concat (map (\<lambda>c. if c = quote_mark then [quote_mark, quote_mark] else [c]) f)"

definition csv_quote :: "str \<Rightarrow> str" where
  "csv_quote f = quote_mark # csv_escape f @ [quote_mark]"

definition csv_line :: "str list \<Rightarrow> str" where
  "csv_line row = joined '','' (map csv_quote row)"

definition csv_table :: "str list list \<Rightarrow> str" where
  "csv_table rows = concat (map (\<lambda>row. csv_line row @ [carriage_return, newline]) rows)"

lemma csv_escape_simps [simp]:
  "csv_escape [] = []" "csv_escape (c # f) = (if c = quote_mark then [quote_mark, quote_mark] else [c]) @ csv_escape f"
  by (simp_all add: csv_escape_def)

lemma csv_line_simps:
  "csv_line [f] = csv_quote f" "csv_line (f # g # fs) = csv_quote f @ '','' @ csv_line (g # fs)"
  by (simp_all add: csv_line_def)

subsection \<open>Fields\<close>

lemma csv_fields_escaped:
  assumes "rest = [] \<or> hd rest \<noteq> quote_mark"
  shows "csv_fields u InQuotes acc found (csv_escape f @ quote_mark # rest) = csv_fields u ClosedQuote (acc @ f) found rest"
proof (induction f arbitrary: acc)
  case Nil
  then show ?case using assms by (cases rest) simp_all
next
  case (Cons c f)
  then show ?case by simp
qed

lemma csv_fields_line: "row \<noteq> [] \<Longrightarrow> csv_fields u FieldStart [] found (csv_line row) = Inr (found @ row)"
proof (induction row arbitrary: found)
  case (Cons f row)
  show ?case
  proof (cases row)
    case Nil
    then show ?thesis using csv_fields_escaped [of "[]" u "[]" found f] by (simp add: csv_line_simps csv_quote_def)
  next
    case rest: (Cons g row')
    then show ?thesis using Cons.IH [of "found @ [f]"] csv_fields_escaped [of "CHR '','' # csv_line row" u "[]" found f]
      by (simp add: csv_line_simps csv_quote_def)
  qed
qed simp

lemma parse_csv_line: "row \<noteq> [] \<Longrightarrow> parse_csv_fields (csv_line row) u = Inr row"
  using csv_fields_line [of row u "[]"] by (simp add: parse_csv_fields_def)

subsection \<open>Records\<close>

lemma csv_texts_escaped:
  assumes "rest = [] \<or> hd rest \<noteq> quote_mark"
  shows "csv_texts True cur (csv_escape f @ quote_mark # rest) = csv_texts False (cur @ csv_escape f @ [quote_mark]) rest"
proof (induction f arbitrary: cur)
  case Nil
  then show ?case using assms by (simp add: csv_texts_close)
next
  case (Cons c f)
  then show ?case by (simp add: csv_texts_pair csv_texts_quoted)
qed

lemma csv_texts_field:
  assumes "rest = [] \<or> hd rest \<noteq> quote_mark"
  shows "csv_texts False cur (csv_quote f @ rest) = csv_texts False (cur @ csv_quote f) rest"
  using csv_texts_escaped [OF assms, of "cur @ [quote_mark]" f] by (simp add: csv_quote_def csv_texts_open)

lemma csv_texts_row:
  assumes "row \<noteq> []" and "rest = [] \<or> hd rest \<noteq> quote_mark"
  shows "csv_texts False cur (csv_line row @ rest) = csv_texts False (cur @ csv_line row) rest"
  using assms(1)
proof (induction row arbitrary: cur)
  case (Cons f row)
  show ?case
  proof (cases row)
    case Nil
    then show ?thesis using csv_texts_field [OF assms(2)] by (simp add: csv_line_simps)
  next
    case (Cons g row')
    then show ?thesis using Cons.IH [of "cur @ csv_quote f @ '',''"] csv_texts_field [of "CHR '','' # csv_line row @ rest" cur f]
      by (simp add: csv_line_simps csv_texts_plain)
  qed
qed simp

lemma csv_texts_table: "\<forall>row\<in>set rows. row \<noteq> [] \<Longrightarrow> csv_texts False [] (csv_table rows) = Some (map csv_line rows)"
proof (induction rows)
  case (Cons row rows)
  then show ?case using csv_texts_row [of row "carriage_return # newline # csv_table rows" "[]"]
    by (simp add: csv_table_def csv_texts_crlf)
qed (simp add: csv_table_def)

lemma normalize_escape: "normalize_newlines (csv_escape f) = csv_escape (normalize_newlines f)"
proof (induction "length f" arbitrary: f rule: less_induct)
  case less
  show ?case
  proof (cases f)
    case (Cons c s)
    have IH: "normalize_newlines (csv_escape g) = csv_escape (normalize_newlines g)" if "length g \<le> length s" for g
      using less that Cons by simp
    consider "c \<noteq> carriage_return" | s' where "c = carriage_return" "s = newline # s'"
      | "c = carriage_return" "s = [] \<or> hd s \<noteq> newline" by (cases s) auto
    then show ?thesis
    proof cases
      case 1
      then show ?thesis using IH [of s] Cons by simp
    next
      case (2 s')
      then show ?thesis using IH [of s'] Cons by (simp add: normalize_newlines_crlf)
    next
      case 3
      then have "csv_escape s = [] \<or> hd (csv_escape s) \<noteq> newline" by (cases s) auto
      then show ?thesis using 3 IH [of s] Cons by (simp add: normalize_newlines_cr)
    qed
  qed simp
qed

lemma normalize_quote: "normalize_newlines (csv_quote f) = csv_quote (normalize_newlines f)"
  using normalize_newlines_append [of "csv_escape f" "[quote_mark]"] by (simp add: csv_quote_def normalize_escape)

lemma normalize_line: "normalize_newlines (csv_line row) = csv_line (map normalize_newlines row)"
proof (induction row rule: induct_list012)
  case (2 f)
  then show ?case by (simp add: csv_line_simps normalize_quote)
next
  case (3 f g row)
  have "csv_quote f \<noteq> []" "last (csv_quote f) \<noteq> carriage_return" by (simp_all add: csv_quote_def)
  then show ?case using 3 normalize_newlines_append [of "csv_quote f" "CHR '','' # csv_line (g # row)"]
    by (simp add: csv_line_simps normalize_quote)
qed (simp add: csv_line_def)

subsection \<open>Extraction\<close>

lemma csv_headers_ok:
  "distinct hs \<Longrightarrow> \<forall>h\<in>set hs. trim h = h \<and> h \<noteq> [] \<and> h |\<notin>| seen \<Longrightarrow> csv_headers k seen hs = Inr hs"
proof (induction hs arbitrary: k seen)
  case (Cons h hs)
  then have "csv_headers (k + 1) (finsert h seen) hs = Inr hs" by (intro Cons.IH) auto
  then show ?case using Cons.prems by simp
qed simp

lemma fold_upd_lookup:
  "fmlookup (fold (\<lambda>(h, v). fmupd h (g v)) kvs m) k = (case map_of (rev kvs) k of None \<Rightarrow> fmlookup m k | Some v \<Rightarrow> Some (g v))"
  by (induction kvs arbitrary: m) (auto simp: map_add_def split: option.splits)

lemma row_attributes:
  assumes "distinct headers" and "length row = length headers"
  shows "fold (\<lambda>(h, v). fmupd h (ValueString v)) (zip headers row) fmempty = fmap_of_list (zip headers (map ValueString row))"
proof (rule fmap_ext)
  fix k
  have "map_of (rev (zip headers row)) = map_of (zip headers row)" using assms map_of_inject_set [of "rev (zip headers row)" "zip headers row"] by (simp add: rev_map [symmetric])
  then show "fmlookup (fold (\<lambda>(h, v). fmupd h (ValueString v)) (zip headers row) fmempty) k
      = fmlookup (fmap_of_list (zip headers (map ValueString row))) k"
    by (simp add: fold_upd_lookup fmlookup_of_list map_of_zip_map zip_map2 map_of_map split: option.splits)
qed

lemma csv_rows_ok:
  assumes "distinct headers" and "headers \<noteq> []" and "\<forall>row\<in>set rows. length row = length headers" and "map pu_text us = map csv_line rows"
  shows "\<exists>cs. csv_rows sha raw headers us = Inr cs
    \<and> cs = map2 (\<lambda>u row. build_candidate sha raw u 0 (fmap_of_list (zip headers (map ValueString row)))) us rows"
  using assms(3,4)
proof (induction rows arbitrary: us)
  case (Cons row rows)
  then obtain u us' where us: "us = u # us'" "pu_text u = csv_line row" "map pu_text us' = map csv_line rows" by (cases us) auto
  have row: "row \<noteq> []" "length row = length headers" using Cons.prems(1) assms(2) by auto
  from Cons.IH [OF _ us(3)] Cons.prems(1)
  obtain cs where "csv_rows sha raw headers us' = Inr cs"
    "cs = map2 (\<lambda>u row. build_candidate sha raw u 0 (fmap_of_list (zip headers (map ValueString row)))) us' rows" by auto
  then show ?case using us parse_csv_line [OF row(1)] row(2) row_attributes [OF assms(1) row(2)] by simp
qed simp

text \<open>
  C18: A CSV table comes back as its rows. Take a table with every field quoted, quotation marks doubled and every line
  ended by CRLF, valid UTF-8, under the hash of its bytes; its header line is not empty, its headers are distinct, not
  empty, trimmed and without carriage returns; every row has as many fields as there are headers. Extracting it gives
  one observation per row, in order, whose attributes are exactly the headers with the fields of the row, whatever
  quotation marks, commas and line breaks they contain: byte for byte, but that normalization turns CRLF and lone
  carriage returns inside a field into line feeds. Its evidence is of the artifact's source and cites the
  bytes of that row as they were.
\<close>

theorem csv_table_extracts:
  assumes "raw_media_type raw = ''text/csv''" and "raw_content_hash raw = content_hash sha (raw_bytes raw)"
    and "raw_bytes raw = csv_table (headers # rows)" and "utf8_valid (csv_table (headers # rows))"
    and "headers \<noteq> []" and "distinct headers" and "\<forall>h\<in>set headers. trim h = h \<and> h \<noteq> [] \<and> carriage_return \<notin> set h"
    and "\<forall>row\<in>set rows. length row = length headers"
  shows "\<exists>b. extract_artifact sha lib raw = Inr b \<and> xb_tenant b = raw_tenant raw \<and> xb_source_id b = raw_source_id raw
    \<and> list_all2 (\<lambda>c row. rc_attributes c = fmap_of_list (zip headers (map (\<lambda>f. ValueString (normalize_newlines f)) row))
        \<and> rc_kind c = Observation
        \<and> evd_source (rc_evidence c) = raw_source_id raw
        \<and> (\<exists>s. evd_locator (rc_evidence c) = Some (span_locator s) \<and> slice (raw_bytes raw) s = csv_line row))
      (xb_candidates b) rows"
proof -
  let ?raw = "raw_bytes raw" and ?rows = "map (map normalize_newlines) rows"
  have nonempty: "\<forall>row\<in>set (headers # rows). row \<noteq> []" using assms(5,8) by auto
  obtain cs where "?raw = quote_mark # cs"
    using assms(3,5) by (cases headers; cases "tl headers") (simp_all add: csv_table_def csv_line_simps csv_quote_def)
  then have start: "body_start ?raw = 0" "\<not> starts_with (drop (body_start ?raw) ?raw) BOM"
    by (simp_all add: body_start_def starts_with_def BOM_def)
  have texts: "csv_texts False [] ?raw = Some (map csv_line (headers # rows))" using csv_texts_table [OF nonempty] assms(3) by simp
  then obtain ss where ss: "csv_record_spans ?raw = Inr ss" "map (slice ?raw) ss = map csv_line (headers # rows)"
    using raw_csv_texts [of ?raw] start(1) by (cases "csv_record_spans ?raw") auto
  have "raw_media_type raw \<in> {''text/plain'', ''text/markdown'', ''text/csv''}" "utf8_valid (drop (body_start ?raw) ?raw)"
    using assms(1,3,4) start(1) by simp_all
  note parsed = parse_textual [OF assms(2) this start(2), of lib]
  obtain d where d: "parse_artifact sha lib raw = Inr d" using parsed ss(1) by (cases "parse_artifact sha lib raw") simp_all
  have spans: "map pu_raw_span (pd_units d) = ss" "map pu_text (pd_units d) = map (\<lambda>s. normalize_newlines (slice ?raw s)) ss"
  proof -
    have units: "map pu_text (pd_units d) = map (\<lambda>s. normalize_newlines (slice ?raw s)) (map pu_raw_span (pd_units d))"
      using parsed unfolding d sum.case by (rule conjunct1)
    show "map pu_raw_span (pd_units d) = ss" using parsed d ss(1) assms(1) by simp
    then show "map pu_text (pd_units d) = map (\<lambda>s. normalize_newlines (slice ?raw s)) ss" using units by (simp only:)
  qed
  have "map (\<lambda>s. normalize_newlines (slice ?raw s)) ss = map normalize_newlines (map csv_line (headers # rows))"
    unfolding ss(2) [symmetric] by simp
  also have "\<dots> = map csv_line (headers # ?rows)"
    using assms(7) by (simp add: normalize_line normalize_newlines_id map_idI)
  finally obtain u us where us: "pd_units d = u # us" "pu_text u = csv_line headers" "map pu_text us = map csv_line ?rows"
    using spans(2) by (cases "pd_units d") auto
  obtain s ss' where s: "ss = s # ss'" "map pu_raw_span us = ss'" "map (slice ?raw) ss' = map csv_line rows"
    using spans(1) ss(2) us(1) by (cases ss) auto
  have "\<forall>row\<in>set ?rows. length row = length headers" using assms(8) by simp
  from csv_rows_ok [OF assms(6,5) this us(3), of sha raw]
  have rows: "csv_rows sha raw headers us
      = Inr (map2 (\<lambda>u row. build_candidate sha raw u 0 (fmap_of_list (zip headers (map ValueString row)))) us ?rows)" by blast
  have "csv_headers 0 {||} headers = Inr headers" using csv_headers_ok assms(6,7) by simp
  then have "extract_csv sha raw d = Inr (map2 (\<lambda>u row. build_candidate sha raw u 0 (fmap_of_list (zip headers (map ValueString row)))) us ?rows)"
    using us parse_csv_line [OF assms(5)] rows by (simp add: extract_csv_def)
  moreover have "length us = length rows" using us(3) by (metis length_map)
  moreover have "slice ?raw (pu_raw_span (us ! i)) = csv_line (rows ! i)" if "i < length rows" for i
    using s(2,3) that \<open>length us = length rows\<close> by (metis length_map nth_map)
  ultimately show ?thesis using d assms(1)
    by (auto simp: extract_artifact_def extract_candidates_def list_all2_conv_all_nth build_candidate_def Let_def evidence_locator_def comp_def)
qed

subsection \<open>A blank last line\<close>

text \<open>
  An NDJSON artifact whose last line is blank but not empty and not terminated is refused: normalization turns that line
  into nothing, so the normalized text has one line less than the raw source and the framings no longer match.
\<close>

lemma line_texts_skip: "carriage_return \<notin> set w \<Longrightarrow> newline \<notin> set w \<Longrightarrow> line_texts cur (w @ rest) = line_texts (cur @ w) rest"
  by (induction w arbitrary: cur) auto

theorem blank_last_line_refused:
  assumes "raw_media_type raw = ''application/x-ndjson''" and "raw_content_hash raw = content_hash sha (raw_bytes raw)"
    and "raw_bytes raw = doc @ newline # blank" and "utf8_valid (raw_bytes raw)" and "\<not> starts_with (raw_bytes raw) BOM"
    and "carriage_return \<notin> set (doc @ blank)" and "newline \<notin> set (doc @ blank)"
    and "blank \<noteq> []" and "trim blank = []" and "trim doc \<noteq> []" and "jl_parse lib doc = Inr v"
    and "carriage_return \<notin> set (write_json lib v)" and "newline \<notin> set (write_json lib v)" and "\<not> starts_with (write_json lib v @ [newline]) BOM"
  shows "parse_artifact sha lib raw = Inl NormalizationShapeMismatch"
proof -
  have "normalize_newlines (raw_bytes raw) = doc @ newline # blank"
    using assms(3,6) by (simp add: normalize_newlines_id)
  then have body: "normalize_text (raw_bytes raw) = Inr (doc @ newline # blank)" using assms(4,5) by (simp add: normalize_text_def)
  have "split_on newline (doc @ newline # blank) = [doc, blank]" using assms(7) by (simp add: split_on_line split_on_none)
  then have "normalize_ndjson lib (raw_bytes raw) = Inr (write_json lib v @ [newline])"
    using body assms(9-11) by (simp add: normalize_ndjson_def)
  then obtain n where n: "normalize sha lib raw = Inr n" "na_bytes n = write_json lib v @ [newline]"
    using assms(1,2) by (simp add: normalize_def normalize_bytes_def)
  have "map (slice (raw_bytes raw)) (line_spans (raw_bytes raw)) = [doc, blank]"
    using assms(3,5-8) line_texts_skip [of doc "[]" "newline # blank"] line_texts_skip [of blank "[]" "[]"]
    by (simp add: raw_line_texts body_start_def)
  then have two: "length (line_spans (raw_bytes raw)) = 2" by (metis length_Cons list.size(3) numeral_2_eq_2 length_map)
  have "map (slice (na_bytes n)) (line_spans (na_bytes n)) = [write_json lib v]"
    using n(2) assms(12-14) line_texts_skip [of "write_json lib v" "[]" "[newline]"] by (simp add: raw_line_texts body_start_def)
  then have "length (line_spans (na_bytes n)) = 1" by (metis One_nat_def length_Cons list.size(3) length_map)
  then show ?thesis using n(1) two assms(1) by (simp add: parse_artifact_def parse_units_def parse_ndjson_def)
qed

subsection \<open>Samples\<close>

definition sample_library :: "nat json_library" where
  "sample_library = \<lparr>jl_parse = (\<lambda>s. if s = ''{}'' then Inr (JObject []) else Inl ''expected value''), jl_number = show_nat,
     jl_string = (\<lambda>s. [quote_mark] @ s @ [quote_mark])\<rparr>"

definition sample_raw :: "str \<Rightarrow> str \<Rightarrow> raw_artifact" where
  "sample_raw media bytes = \<lparr>raw_tenant = TenantId ''acme'', raw_source_id = ''source:1'', raw_virtual_uri = ''fs://data/a'',
     raw_media_type = media, raw_content_hash = content_hash (\<lambda>x. []) bytes, raw_bytes = bytes\<rparr>"

theorem units_are_the_cited_bytes_witness:
  "\<exists>d. parse_artifact (\<lambda>x. []) sample_library (sample_raw ''text/plain'' (''ab'' @ [carriage_return, newline] @ ''c'')) = Inr d
    \<and> spans_cover (''ab'' @ [carriage_return, newline] @ ''c'') 0 (map pu_raw_span (pd_units d))"
proof -
  let ?raw = "sample_raw ''text/plain'' (''ab'' @ [carriage_return, newline] @ ''c'')"
  have "body_start (raw_bytes ?raw) = 0" by (simp add: sample_raw_def body_start_def starts_with_def BOM_def)
  then show ?thesis using units_are_the_cited_bytes [of ?raw "\<lambda>x. []" sample_library]
    by (auto simp: sample_raw_def starts_with_def BOM_def split: sum.splits)
qed

theorem csv_table_extracts_witness:
  "\<exists>b. extract_artifact (\<lambda>x. []) sample_library
      (sample_raw ''text/csv'' (csv_table [[''id''], [''a,b'' @ [carriage_return, newline] @ ''c'']])) = Inr b
    \<and> list_all2 (\<lambda>c row. rc_attributes c = fmap_of_list (zip [''id''] (map ValueString row))) (xb_candidates b)
        [[''a,b'' @ [newline] @ ''c'']]"
proof -
  have id: "trim ''id'' = ''id''" by (rule trim_ascii_id) (simp_all add: is_ascii_str_def is_whitespace_def)
  let ?rows = "[[''a,b'' @ [carriage_return, newline] @ ''c'']]"
  let ?raw = "sample_raw ''text/csv'' (csv_table ([''id''] # ?rows))"
  have "utf8_valid (csv_table ([''id''] # ?rows))" by (simp add: csv_table_def csv_line_simps csv_quote_def)
  then have "\<exists>b. extract_artifact (\<lambda>x. []) sample_library ?raw = Inr b \<and> xb_tenant b = raw_tenant ?raw \<and> xb_source_id b = raw_source_id ?raw
    \<and> list_all2 (\<lambda>c row. rc_attributes c = fmap_of_list (zip [''id''] (map (\<lambda>f. ValueString (normalize_newlines f)) row))
        \<and> rc_kind c = Observation
        \<and> evd_source (rc_evidence c) = raw_source_id ?raw
        \<and> (\<exists>s. evd_locator (rc_evidence c) = Some (span_locator s) \<and> slice (raw_bytes ?raw) s = csv_line row))
      (xb_candidates b) ?rows"
    using id by (intro csv_table_extracts) (simp_all add: sample_raw_def)
  then obtain b where "extract_artifact (\<lambda>x. []) sample_library ?raw = Inr b"
    "list_all2 (\<lambda>c row. rc_attributes c = fmap_of_list (zip [''id''] (map (\<lambda>f. ValueString (normalize_newlines f)) row)))
      (xb_candidates b) ?rows"
    by (blast intro: list_all2_mono)
  then show ?thesis by (intro exI [of _ b]) (simp add: list_all2_Cons2 normalize_newlines_crlf)
qed

theorem blank_last_line_refused_witness:
  "parse_artifact (\<lambda>x. []) sample_library (sample_raw ''application/x-ndjson'' (''{}'' @ newline # '' '')) = Inl NormalizationShapeMismatch"
proof -
  have "trim '' '' = []" "trim ''{}'' = ''{}''" by code_simp+
  then show ?thesis
    by (intro blank_last_line_refused [of _ _ "''{}''" "'' ''" _ "JObject []"])
      (simp_all add: sample_raw_def sample_library_def starts_with_def BOM_def)
qed

end
