(* ===== verification/Sha256_Standard.thy ===== *)
theory Sha256_Standard
  imports Complex_Main "HOL-Library.Word"
begin

section \<open>The SHA-256 standard (FIPS 180-4)\<close>

text \<open>
  The standard's text as definitions, with nothing taken from the program: the constants are the first
  32 bits of the fractional parts of the cube and square roots of the first primes (sections 4.2.2 and
  5.3.3), written with the real roots; the six logical functions are those of section 4.1.2, a rotation
  being the two shifts of section 3.2; padding, schedule and compression are those of sections 5.1.1
  and 6.2, the working variables given by their recurrence. The lemmas at the end list the primes and
  reduce an entry of either table to two inequalities between integers.
\<close>

unbundle bit_operations_syntax

subsection \<open>Constants\<close>

definition prime_number :: "nat \<Rightarrow> bool" where
  "prime_number n \<longleftrightarrow> 1 < n \<and> list_all (\<lambda>d. n mod d \<noteq> 0) [2..<n]"

definition first_primes :: "nat list" where
  "first_primes = filter prime_number [2..<312]"

definition root_fraction :: "nat \<Rightarrow> nat \<Rightarrow> 32 word" where
  "root_fraction k p = of_int \<lfloor>frac (root k (real p)) * 2 ^ 32\<rfloor>"

definition std_K :: "32 word list" where
  "std_K = map (root_fraction 3) first_primes"

definition std_H0 :: "32 word list" where
  "std_H0 = map (root_fraction 2) (take 8 first_primes)"

subsection \<open>Logical functions\<close>

definition ROTR :: "nat \<Rightarrow> 32 word \<Rightarrow> 32 word" where
  "ROTR n x = drop_bit n x OR push_bit (32 - n) x"

definition SHR :: "nat \<Rightarrow> 32 word \<Rightarrow> 32 word" where
  "SHR n x = drop_bit n x"

definition std_Ch :: "32 word \<Rightarrow> 32 word \<Rightarrow> 32 word \<Rightarrow> 32 word" where
  "std_Ch x y z = (x AND y) XOR (NOT x AND z)"

definition std_Maj :: "32 word \<Rightarrow> 32 word \<Rightarrow> 32 word \<Rightarrow> 32 word" where
  "std_Maj x y z = (x AND y) XOR (x AND z) XOR (y AND z)"

definition std_Sigma0 :: "32 word \<Rightarrow> 32 word" where
  "std_Sigma0 x = ROTR 2 x XOR ROTR 13 x XOR ROTR 22 x"

definition std_Sigma1 :: "32 word \<Rightarrow> 32 word" where
  "std_Sigma1 x = ROTR 6 x XOR ROTR 11 x XOR ROTR 25 x"

definition std_sigma0 :: "32 word \<Rightarrow> 32 word" where
  "std_sigma0 x = ROTR 7 x XOR ROTR 18 x XOR SHR 3 x"

definition std_sigma1 :: "32 word \<Rightarrow> 32 word" where
  "std_sigma1 x = ROTR 17 x XOR ROTR 19 x XOR SHR 10 x"

subsection \<open>Bytes, padding, schedule and compression\<close>

text \<open>The \<open>n\<close> bytes of a number, most significant first, and the number a byte string stands for.\<close>

definition number_bytes :: "nat \<Rightarrow> nat \<Rightarrow> char list" where
  "number_bytes n x = map (\<lambda>i. char_of (x div 256 ^ (n - 1 - i) mod 256)) [0..<n]"

definition bytes_number :: "char list \<Rightarrow> nat" where
  "bytes_number bs = (\<Sum>i<length bs. of_char (bs ! i) * 256 ^ (length bs - 1 - i))"

definition std_pad :: "char list \<Rightarrow> char list" where
  "std_pad bytes =
     bytes @ [CHR 0x80] @ replicate (64 * ((length bytes + 8) div 64 + 1) - (length bytes + 9)) (CHR 0x00)
       @ number_bytes 8 (8 * length bytes)"

definition std_word :: "char list \<Rightarrow> nat \<Rightarrow> nat \<Rightarrow> 32 word" where
  "std_word p i t = of_nat (bytes_number (take 4 (drop (64 * i + 4 * t) p)))"

fun std_W :: "(nat \<Rightarrow> 32 word) \<Rightarrow> nat \<Rightarrow> 32 word" where
  "std_W m t =
     (if t < 16 then m t
      else std_sigma1 (std_W m (t - 2)) + std_W m (t - 7) + std_sigma0 (std_W m (t - 15)) + std_W m (t - 16))"

declare std_W.simps [simp del]

text \<open>
  The eight working variables are two sequences, as \<open>b\<close>, \<open>c\<close>, \<open>d\<close> are older values of \<open>a\<close> and \<open>f\<close>,
  \<open>g\<close>, \<open>h\<close> of \<open>e\<close>; \<open>std_vars\<close> is the pair of them, its first four entries being the chaining value.
\<close>

fun std_vars :: "32 word list \<Rightarrow> (nat \<Rightarrow> 32 word) \<Rightarrow> nat \<Rightarrow> 32 word \<times> 32 word" where
  "std_vars h w n =
     (if n < 4 then (h ! (3 - n), h ! (7 - n))
      else let (a1, e1) = std_vars h w (n - 1); (a2, e2) = std_vars h w (n - 2);
               (a3, e3) = std_vars h w (n - 3); (a4, e4) = std_vars h w (n - 4);
               t1 = e4 + std_Sigma1 e1 + std_Ch e1 e2 e3 + std_K ! (n - 4) + w (n - 4)
           in (t1 + (std_Sigma0 a1 + std_Maj a1 a2 a3), a4 + t1))"

declare std_vars.simps [simp del]

definition std_block :: "char list \<Rightarrow> 32 word list \<Rightarrow> nat \<Rightarrow> 32 word list" where
  "std_block p h i =
     (let v = std_vars h (std_W (std_word p i))
      in [h ! 0 + fst (v 67), h ! 1 + fst (v 66), h ! 2 + fst (v 65), h ! 3 + fst (v 64),
          h ! 4 + snd (v 67), h ! 5 + snd (v 66), h ! 6 + snd (v 65), h ! 7 + snd (v 64)])"

definition std_sha256 :: "char list \<Rightarrow> char list" where
  "std_sha256 bytes =
     concat (map (\<lambda>w. number_bytes 4 (unat w))
       (foldl (std_block (std_pad bytes)) std_H0 [0..<length (std_pad bytes) div 64]))"

subsection \<open>Computing the constants\<close>

lemma root_fraction_eq:
  assumes "0 < k" and "v ^ k \<le> p * (2 ^ 32) ^ k" and "p * (2 ^ 32) ^ k < (v + 1) ^ k"
  shows "root_fraction k p = of_nat v"
proof -
  let ?r = "root k (real p)"
  have r: "?r * 2 ^ 32 = root k (real (p * (2 ^ 32) ^ k))"
    using assms(1) by (simp add: real_root_mult real_root_power_cancel)
  have "real v \<le> ?r * 2 ^ 32"
  proof -
    have "real v = root k (real (v ^ k))" using assms(1) by (simp add: real_root_power_cancel)
    also have "\<dots> \<le> ?r * 2 ^ 32"
      unfolding r using assms(1,2) by (simp only: real_root_le_iff of_nat_le_iff)
    finally show ?thesis .
  qed
  moreover have "?r * 2 ^ 32 < real (v + 1)"
  proof -
    have "?r * 2 ^ 32 < root k (real ((v + 1) ^ k))"
      unfolding r using assms(1,3) by (simp only: real_root_less_iff of_nat_less_iff)
    also have "\<dots> = real (v + 1)"
      using assms(1) by (simp add: real_root_power_cancel del: of_nat_add of_nat_Suc)
    finally show ?thesis .
  qed
  ultimately have fl: "\<lfloor>?r * 2 ^ 32\<rfloor> = int v" by (intro floor_unique) simp_all
  have "frac ?r * 2 ^ 32 = ?r * 2 ^ 32 - of_int (\<lfloor>?r\<rfloor> * 2 ^ 32)"
    by (simp add: frac_def left_diff_distrib)
  then have "\<lfloor>frac ?r * 2 ^ 32\<rfloor> = int v - \<lfloor>?r\<rfloor> * 2 ^ 32"
    using fl by (simp only: floor_diff_of_int)
  moreover have "(of_int (\<lfloor>?r\<rfloor> * 2 ^ 32) :: 32 word) = 0"
  proof -
    have "(2 :: 32 word) ^ 32 = 0" by simp
    then show ?thesis by (simp only: of_int_mult of_int_power of_int_numeral mult_zero_right)
  qed
  ultimately show ?thesis by (simp add: root_fraction_def)
qed

definition small_test :: "nat \<Rightarrow> bool" where
  "small_test n \<longleftrightarrow> 1 < n \<and> list_all (\<lambda>q. n mod q = 0 \<longrightarrow> n \<le> q) [2, 3, 5, 7, 11, 13, 17]"

lemma small_divisor:
  assumes "1 < c" and "c < (18 :: nat)"
  shows "\<exists>q \<in> set [2, 3, 5, 7, 11, 13, 17]. q dvd c"
proof -
  have "c = 2 \<or> c = 3 \<or> c = 4 \<or> c = 5 \<or> c = 6 \<or> c = 7 \<or> c = 8 \<or> c = 9 \<or> c = 10 \<or> c = 11 \<or> c = 12
      \<or> c = 13 \<or> c = 14 \<or> c = 15 \<or> c = 16 \<or> c = 17" using assms by arith
  then show ?thesis by (elim disjE) simp_all
qed

lemma prime_number_small:
  assumes "n < 324"
  shows "prime_number n \<longleftrightarrow> small_test n"
proof
  assume prime: "prime_number n"
  then have "n \<le> q" if "1 < q" "n mod q = 0" for q
    using that unfolding prime_number_def list_all_iff by (metis Suc_1 Suc_leI atLeastLessThan_iff not_le set_upt One_nat_def)
  then show "small_test n" using prime by (simp add: small_test_def prime_number_def)
next
  assume small: "small_test n"
  have "n mod d \<noteq> 0" if d: "1 < d" "d < n" for d
  proof
    assume "n mod d = 0"
    then obtain e where e: "n = d * e" by auto
    have "1 < e" using d e by (cases e rule: nat.exhaust) (auto intro: gr0I)
    have "d < 18 \<or> e < 18"
    proof (rule ccontr)
      assume "\<not> ?thesis"
      then have "18 * 18 \<le> d * e" by (intro mult_le_mono) simp_all
      with assms e show False by simp
    qed
    moreover have "e < n" using d(1) \<open>1 < e\<close> e by simp
    ultimately obtain c where c: "1 < c" "c < 18" "c dvd n" "c < n"
      using d \<open>1 < e\<close> e by (metis dvd_triv_left dvd_triv_right)
    then obtain q where "q \<in> set [2, 3, 5, 7, 11, 13, 17]" "q dvd c" using small_divisor by blast
    moreover from this c have "q dvd n" "q < n" by (auto dest: dvd_imp_le intro: dvd_trans)
    ultimately show False using small unfolding small_test_def list_all_iff by (metis dvd_imp_mod_0 not_le)
  qed
  then show "prime_number n" using small by (auto simp: prime_number_def small_test_def list_all_iff)
qed

lemma first_primes_eq:
  "first_primes =
     [2, 3, 5, 7, 11, 13, 17, 19, 23, 29, 31, 37, 41, 43, 47, 53, 59, 61, 67, 71, 73, 79, 83, 89, 97, 101,
      103, 107, 109, 113, 127, 131, 137, 139, 149, 151, 157, 163, 167, 173, 179, 181, 191, 193, 197, 199,
      211, 223, 227, 229, 233, 239, 241, 251, 257, 263, 269, 271, 277, 281, 283, 293, 307, 311]"
proof -
  have "first_primes = filter small_test [2..<312]"
    unfolding first_primes_def by (rule filter_cong [OF refl], rule prime_number_small) (simp only: set_upt atLeastLessThan_iff, arith)
  also have "\<dots> =
     [2, 3, 5, 7, 11, 13, 17, 19, 23, 29, 31, 37, 41, 43, 47, 53, 59, 61, 67, 71, 73, 79, 83, 89, 97, 101,
      103, 107, 109, 113, 127, 131, 137, 139, 149, 151, 157, 163, 167, 173, 179, 181, 191, 193, 197, 199,
      211, 223, 227, 229, 233, 239, 241, 251, 257, 263, 269, 271, 277, 281, 283, 293, 307, 311]"
    by (simp add: upt_rec_numeral small_test_def)
  finally show ?thesis .
qed

lemma root_fraction_cube:
  "v ^ 3 \<le> p * (2 ^ 32) ^ 3 \<Longrightarrow> p * (2 ^ 32) ^ 3 < (v + 1) ^ 3 \<Longrightarrow> root_fraction 3 p = of_nat v"
  by (rule root_fraction_eq) simp_all

lemma root_fraction_square:
  "v\<^sup>2 \<le> p * (2 ^ 32)\<^sup>2 \<Longrightarrow> p * (2 ^ 32)\<^sup>2 < (v + 1)\<^sup>2 \<Longrightarrow> root_fraction 2 p = of_nat v"
  by (rule root_fraction_eq) simp_all

end
