(* ===== verification/Sha256_Conformance.thy ===== *)
theory Sha256_Conformance
  imports Sha256 Sha256_Standard
begin

section \<open>The hash of the retention crate is the standard's\<close>

text \<open>
  The constants, the rotations, the byte codecs, the padding and the loops of \<open>Sha256\<close> against the
  definitions of \<open>Sha256_Standard\<close>.
\<close>

unbundle bit_operations_syntax

subsection \<open>Constants, logical functions and byte codecs against the standard\<close>

lemma word_rotr_ROTR:
  assumes "n < 32"
  shows "word_rotr n x = ROTR n (x :: u32)"
proof (rule bit_word_eqI)
  fix i assume "i < LENGTH(32)"
  then have i: "i < 32" by simp
  have rot: "bit (word_rotr n x) i \<longleftrightarrow> bit x ((i + n) mod 32)" using i by (simp add: bit_word_rotr_iff)
  have two: "bit (ROTR n x) i \<longleftrightarrow> bit x (n + i) \<or> 32 - n \<le> i \<and> bit x (i - (32 - n))"
    using i unfolding ROTR_def bit_or_iff bit_drop_bit_eq comp_apply bit_push_bit_iff by auto
  show "bit (word_rotr n x) i \<longleftrightarrow> bit (ROTR n x) i"
  proof (cases "i + n < 32")
    case True
    moreover from True have "\<not> 32 - n \<le> i" by arith
    ultimately show ?thesis by (simp only: rot two mod_less add.commute [of n] simp_thms)
  next
    case False
    then have "(i + n) mod 32 = i + n - 32" using i assms by (simp add: mod_if)
    moreover have "i + n - 32 = i - (32 - n)" "32 - n \<le> i" using False assms by arith+
    moreover have "\<not> bit x (n + i)" using False by (intro impossible_bit) (simp add: add.commute)
    ultimately show ?thesis by (simp only: rot two simp_thms)
  qed
qed

lemma H0_standard: "SHA256_H0 = std_H0"
  unfolding std_H0_def first_primes_eq SHA256_H0_def
  by (simp add:
    root_fraction_square [of "0x16a09e667" 2]
    root_fraction_square [of "0x1bb67ae85" 3]
    root_fraction_square [of "0x23c6ef372" 5]
    root_fraction_square [of "0x2a54ff53a" 7]
    root_fraction_square [of "0x3510e527f" 11]
    root_fraction_square [of "0x39b05688c" 13]
    root_fraction_square [of "0x41f83d9ab" 17]
    root_fraction_square [of "0x45be0cd19" 19])

lemma K_standard: "SHA256_K = std_K"
  unfolding std_K_def first_primes_eq SHA256_K_def
  by (simp add:
    root_fraction_cube [of "0x1428a2f98" 2]
    root_fraction_cube [of "0x171374491" 3]
    root_fraction_cube [of "0x1b5c0fbcf" 5]
    root_fraction_cube [of "0x1e9b5dba5" 7]
    root_fraction_cube [of "0x23956c25b" 11]
    root_fraction_cube [of "0x259f111f1" 13]
    root_fraction_cube [of "0x2923f82a4" 17]
    root_fraction_cube [of "0x2ab1c5ed5" 19]
    root_fraction_cube [of "0x2d807aa98" 23]
    root_fraction_cube [of "0x312835b01" 29]
    root_fraction_cube [of "0x3243185be" 31]
    root_fraction_cube [of "0x3550c7dc3" 37]
    root_fraction_cube [of "0x372be5d74" 41]
    root_fraction_cube [of "0x380deb1fe" 43]
    root_fraction_cube [of "0x39bdc06a7" 47]
    root_fraction_cube [of "0x3c19bf174" 53]
    root_fraction_cube [of "0x3e49b69c1" 59]
    root_fraction_cube [of "0x3efbe4786" 61]
    root_fraction_cube [of "0x40fc19dc6" 67]
    root_fraction_cube [of "0x4240ca1cc" 71]
    root_fraction_cube [of "0x42de92c6f" 73]
    root_fraction_cube [of "0x44a7484aa" 79]
    root_fraction_cube [of "0x45cb0a9dc" 83]
    root_fraction_cube [of "0x476f988da" 89]
    root_fraction_cube [of "0x4983e5152" 97]
    root_fraction_cube [of "0x4a831c66d" 101]
    root_fraction_cube [of "0x4b00327c8" 103]
    root_fraction_cube [of "0x4bf597fc7" 107]
    root_fraction_cube [of "0x4c6e00bf3" 109]
    root_fraction_cube [of "0x4d5a79147" 113]
    root_fraction_cube [of "0x506ca6351" 127]
    root_fraction_cube [of "0x514292967" 131]
    root_fraction_cube [of "0x527b70a85" 137]
    root_fraction_cube [of "0x52e1b2138" 139]
    root_fraction_cube [of "0x54d2c6dfc" 149]
    root_fraction_cube [of "0x553380d13" 151]
    root_fraction_cube [of "0x5650a7354" 157]
    root_fraction_cube [of "0x5766a0abb" 163]
    root_fraction_cube [of "0x581c2c92e" 167]
    root_fraction_cube [of "0x592722c85" 173]
    root_fraction_cube [of "0x5a2bfe8a1" 179]
    root_fraction_cube [of "0x5a81a664b" 181]
    root_fraction_cube [of "0x5c24b8b70" 191]
    root_fraction_cube [of "0x5c76c51a3" 193]
    root_fraction_cube [of "0x5d192e819" 197]
    root_fraction_cube [of "0x5d6990624" 199]
    root_fraction_cube [of "0x5f40e3585" 211]
    root_fraction_cube [of "0x6106aa070" 223]
    root_fraction_cube [of "0x619a4c116" 227]
    root_fraction_cube [of "0x61e376c08" 229]
    root_fraction_cube [of "0x62748774c" 233]
    root_fraction_cube [of "0x634b0bcb5" 239]
    root_fraction_cube [of "0x6391c0cb3" 241]
    root_fraction_cube [of "0x64ed8aa4a" 251]
    root_fraction_cube [of "0x65b9cca4f" 257]
    root_fraction_cube [of "0x6682e6ff3" 263]
    root_fraction_cube [of "0x6748f82ee" 269]
    root_fraction_cube [of "0x678a5636f" 271]
    root_fraction_cube [of "0x684c87814" 277]
    root_fraction_cube [of "0x68cc70208" 281]
    root_fraction_cube [of "0x690befffa" 283]
    root_fraction_cube [of "0x6a4506ceb" 293]
    root_fraction_cube [of "0x6bef9a3f7" 307]
    root_fraction_cube [of "0x6c67178f2" 311])

lemmas constants_standard = K_standard H0_standard

lemma small_sigma_standard: "small_sigma0 x = std_sigma0 x" "small_sigma1 x = std_sigma1 x"
  by (simp_all add: small_sigma0_def std_sigma0_def small_sigma1_def std_sigma1_def SHR_def word_rotr_ROTR)

lemma be32_standard: "be32 w = number_bytes 4 (unat w)"
proof -
  have "char_of (uint (drop_bit (8 * j) w)) = (char_of (unat w div 256 ^ j mod 256) :: char)" for j
  proof -
    have "take_bit 32 (uint w) = uint w" using unsigned_less [of w] by (intro take_bit_int_eq_self) simp_all
    then have "uint (drop_bit (8 * j) w) = drop_bit (8 * j) (uint w)" by (simp add: unsigned_drop_bit_eq)
    then have "uint (drop_bit (8 * j) w) = int (unat w div 256 ^ j)"
      by (simp add: drop_bit_eq_div power_mult zdiv_int)
    then show ?thesis by (simp add: char_of_mod_256)
  qed
  from this [of 0] this [of 1] this [of 2] this [of 3] show ?thesis
    by (simp add: be32_def number_bytes_def upt_rec_numeral upt_rec)
qed

lemma from_be32_standard:
  assumes "length bs = 4"
  shows "from_be32 bs = of_nat (bytes_number bs)"
proof -
  obtain a b c d where "bs = [a, b, c, d]"
    using assms by (auto simp: length_Suc_conv numeral_eq_Suc)
  then show ?thesis
    by (simp add: from_be32_def bytes_number_def sum.lessThan_Suc lessThan_nat_numeral of_nat_of_char algebra_simps)
qed

lemma be64_standard: "be64 n = number_bytes 8 n"
  by (simp add: be64_def number_bytes_def upt_rec_numeral upt_rec)

subsection \<open>The loops compute the recurrences\<close>

lemma chunks_exact_nth:
  assumes "0 < n"
  shows "length (chunks_exact n xs) = length xs div n"
    and "i < length xs div n \<Longrightarrow> chunks_exact n xs ! i = take n (drop (n * i) xs)"
proof -
  have "length (chunks_exact n xs) = length xs div n \<and>
      (\<forall>i < length xs div n. chunks_exact n xs ! i = take n (drop (n * i) xs))"
    using assms
  proof (induction n xs rule: chunks_exact.induct)
    case (1 n xs)
    show ?case
    proof (cases "length xs < n")
      case True
      then show ?thesis by (simp add: chunks_exact.simps)
    next
      case False
      then have "length xs div n = Suc ((length xs - n) div n)" using 1(2) by (simp add: le_div_geq)
      then show ?thesis
        using 1(1) [OF _ 1(2)] False 1(2)
        by (auto simp: chunks_exact.simps [of n xs] nth_Cons' ac_simps less_Suc_eq_0_disj)
    qed
  qed
  then show "length (chunks_exact n xs) = length xs div n"
    and "i < length xs div n \<Longrightarrow> chunks_exact n xs ! i = take n (drop (n * i) xs)" by blast+
qed

lemma schedule_eq:
  assumes "length chunk = 64" and "i < 64"
  shows "sha256_schedule chunk ! i = std_W (\<lambda>t. of_nat (bytes_number (take 4 (drop (4 * t) chunk)))) i"
proof -
  let ?m = "\<lambda>t. of_nat (bytes_number (take 4 (drop (4 * t) chunk)))"
  let ?ws = "map from_be32 (chunks_exact 4 chunk)"
  let ?step = "\<lambda>i w. w[i := w ! (i - 16) + small_sigma0 (w ! (i - 15)) + w ! (i - 7) + small_sigma1 (w ! (i - 2))]"
  have ws: "length ?ws = 16" "\<And>t. t < 16 \<Longrightarrow> ?ws ! t = ?m t"
    using assms(1) chunks_exact_nth [of 4, where xs = chunk] by (simp_all add: from_be32_standard)
  let ?w = "?ws @ replicate (64 - length ?ws) 0"
  have "length (fold ?step [16..<n] ?w) = 64 \<and> (\<forall>j < n. fold ?step [16..<n] ?w ! j = std_W ?m j)"
    if "16 \<le> n" "n \<le> 64" for n
    using that
  proof (induction n rule: nat_induct_at_least)
    case base
    then show ?case using ws by (simp add: nth_append std_W.simps)
  next
    case (Suc n)
    let ?v = "fold ?step [16..<n] ?w"
    have v: "length ?v = 64" "\<And>j. j < n \<Longrightarrow> ?v ! j = std_W ?m j" using Suc by simp_all
    have new: "std_W ?m n = ?v ! (n - 16) + small_sigma0 (?v ! (n - 15)) + ?v ! (n - 7) + small_sigma1 (?v ! (n - 2))"
      using Suc(1) v(2) by (subst std_W.simps) (simp add: small_sigma_standard ac_simps)
    have "fold ?step [16..<Suc n] ?w = ?v[n := std_W ?m n]"
      unfolding upt_Suc_append [OF Suc(1)] fold_append comp_apply new by simp
    moreover have "\<forall>j < Suc n. ?v[n := std_W ?m n] ! j = std_W ?m j"
      using v Suc(3) by (simp add: nth_list_update)
    ultimately show ?case using v(1) by simp
  qed
  note all = this
  have "(16 :: nat) \<le> 64" by simp
  from all [OF this order_refl] have "\<forall>j < 64. fold ?step [16..<64] ?w ! j = std_W ?m j" by blast
  then show ?thesis unfolding sha256_schedule_def Let_def using assms(2) by blast
qed

lemma rounds_eq:
  assumes "n \<le> 64" and "\<And>i. i < 64 \<Longrightarrow> w ! i = w' i"
  shows "fold (sha256_round w) [0..<n] (h ! 0, h ! 1, h ! 2, h ! 3, h ! 4, h ! 5, h ! 6, h ! 7) =
    (let v = std_vars h w' in
      (fst (v (n + 3)), fst (v (n + 2)), fst (v (n + 1)), fst (v n), snd (v (n + 3)), snd (v (n + 2)), snd (v (n + 1)), snd (v n)))"
  using assms(1)
proof (induction n)
  case 0
  have "std_vars h w' 0 = (h ! 3, h ! 7)" "std_vars h w' 1 = (h ! 2, h ! 6)" "std_vars h w' 2 = (h ! 1, h ! 5)"
      "std_vars h w' 3 = (h ! 0, h ! 4)"
    by (subst std_vars.simps, simp)+
  then show ?case by (simp add: Let_def numeral_2_eq_2)
next
  case (Suc n)
  let ?v = "std_vars h w'"
  have next_var: "?v (n + 4) =
      (let t1 = snd (?v n) + std_Sigma1 (snd (?v (n + 3))) + std_Ch (snd (?v (n + 3))) (snd (?v (n + 2))) (snd (?v (n + 1)))
           + std_K ! n + w' n
       in (t1 + (std_Sigma0 (fst (?v (n + 3))) + std_Maj (fst (?v (n + 3))) (fst (?v (n + 2))) (fst (?v (n + 1)))), fst (?v n) + t1))"
    by (subst std_vars.simps) (simp add: case_prod_unfold Let_def add.commute [of 3 n])
  have "w ! n = w' n" using assms(2) Suc.prems by simp
  moreover have "Suc n + 3 = n + 4" "Suc n + 2 = n + 3" "Suc n + 1 = n + 2" by simp_all
  ultimately show ?case
    using Suc
    by (simp only: upt_Suc_append fold_append fold_simps comp_apply Let_def next_var fst_conv snd_conv)
      (simp add: sha256_round_def Let_def std_Sigma0_def std_Sigma1_def std_Ch_def std_Maj_def constants_standard word_rotr_ROTR)
qed

lemma block_eq:
  assumes "64 * i + 64 \<le> length p"
  shows "sha256_block (take 64 (drop (64 * i) p)) h = std_block p h i"
proof -
  let ?chunk = "take 64 (drop (64 * i) p)"
  have len: "length ?chunk = 64" using assms by simp
  have word: "of_nat (bytes_number (take 4 (drop (4 * t) ?chunk))) = std_word p i t" if "t < 16" for t
    using that by (simp add: std_word_def drop_take min_def ac_simps)
  have "std_W (\<lambda>t. of_nat (bytes_number (take 4 (drop (4 * t) ?chunk)))) j = std_W (std_word p i) j" for j
  proof (induction j rule: less_induct)
    case (less j)
    then show ?case
      by (subst (1 2) std_W.simps) (simp add: word)
  qed
  then have "sha256_schedule ?chunk ! j = std_W (std_word p i) j" if "j < 64" for j
    using schedule_eq [OF len that] by simp
  from rounds_eq [OF order_refl this, of h] show ?thesis
    unfolding sha256_block_def std_block_def Let_def by (simp only: prod.case) simp
qed

lemma be64_wraps: "be64 (n mod 2 ^ 64) = be64 n"
proof -
  have "n mod 2 ^ 64 div 256 ^ i mod 256 = n div 256 ^ i mod 256" if "i < 8" for i
  proof -
    have "(2 :: nat) ^ 64 = 256 ^ i * 256 ^ (8 - i)" using that by (simp flip: power_add)
    moreover have "n mod (256 ^ i * 256 ^ (8 - i)) div 256 ^ i = n div 256 ^ i mod 256 ^ (8 - i)"
      by (simp add: mod_mult2_eq)
    ultimately have "n mod 2 ^ 64 div 256 ^ i = n div 256 ^ i mod 256 ^ (8 - i)" by metis
    moreover have "(256 :: nat) dvd 256 ^ (8 - i)" using that by (intro dvd_power) simp
    ultimately show ?thesis by (simp add: mod_mod_cancel)
  qed
  from this [of 0] this [of 1] this [of 2] this [of 3] this [of 4] this [of 5] this [of 6] this [of 7] show ?thesis unfolding be64_def by (simp only: list.map)
qed

lemma pad_eq: "sha256_pad bytes = std_pad bytes"
proof -
  have "(of_nat (length bytes) :: u64) * 8 = of_nat (8 * length bytes)" by simp
  then have "unat ((of_nat (length bytes) :: u64) * 8) = 8 * length bytes mod 2 ^ 64"
    by (simp only: unsigned_of_nat take_bit_eq_mod) simp
  then have "sha256_pad bytes = bytes @ [CHR 0x80] @ replicate (pad_count (length bytes + 1)) (CHR 0x00) @ be64 (8 * length bytes)"
    using be64_wraps [of "8 * length bytes"] by (simp add: sha256_pad_def pad_zeros_eq)
  moreover from this have "pad_count (length bytes + 1) = 64 * ((length bytes + 8) div 64 + 1) - (length bytes + 9)"
    using length_sha256_pad [of bytes] by simp
  ultimately show ?thesis by (simp only: std_pad_def be64_standard)
qed

lemma sha256_eq: "sha256 bytes = std_sha256 bytes"
proof -
  let ?p = "std_pad bytes"
  have "chunks_exact 64 ?p = map (\<lambda>i. take 64 (drop (64 * i) ?p)) [0..<length ?p div 64]"
    using chunks_exact_nth [of 64, where xs = ?p] by (intro nth_equalityI) simp_all
  then have "fold sha256_block (chunks_exact 64 ?p) h = fold (\<lambda>i. sha256_block (take 64 (drop (64 * i) ?p))) [0..<length ?p div 64] h" for h
    by (simp add: fold_map comp_def)
  moreover have "fold (\<lambda>i. sha256_block (take 64 (drop (64 * i) ?p))) [0..<length ?p div 64] h =
      fold (\<lambda>i h. std_block ?p h i) [0..<length ?p div 64] h" for h
  proof (intro fold_cong refl ext)
    fix i h assume "i \<in> set [0..<length ?p div 64]"
    then have "Suc i * 64 \<le> length ?p" by (simp add: less_eq_div_iff_mult_less_eq [symmetric] Suc_le_eq del: mult_Suc)
    then show "sha256_block (take 64 (drop (64 * i) ?p)) h = std_block ?p h i" by (intro block_eq) simp
  qed
  ultimately show ?thesis by (simp add: sha256_def std_sha256_def pad_eq foldl_conv_fold constants_standard be32_standard [abs_def])
qed

text \<open>
  C19: The hash of the crate is SHA-256 as FIPS 180-4 states it. For every byte string, the loop over
  64-byte chunks with its schedule kept in an array and its eight working variables gives the digest of
  the standard. The right-hand side takes nothing from the program: its constants are the first 32 bits of
  the fractional parts of the real cube roots of the first 64 primes and square roots of the first eight,
  its rotations are pairs of shifts, its words and bytes are base-256 numerals, its schedule and working
  variables are the recurrences, and its message is padded to a multiple of 64 bytes with the bit length
  modulo \<open>2 ^ 64\<close>. The digest has 32 bytes.
\<close>

theorem sha256_is_standard: "sha256 bytes = std_sha256 bytes \<and> length (sha256 bytes) = 32"
  by (rule conjI [OF sha256_eq length_sha256])

end
