(* ===== verification/Spec2Isabelle.thy ===== *)
theory Spec2Isabelle
  imports Scenarios Auth_Properties Denylist_Store Persistence Retention_Properties Execution_Properties
    Session_Properties Graph_Properties Knowledge_Durability Csv_Tables Sha256_Conformance
begin

text \<open>
  Verification of the CCOS Enterprise control plane (\<open>crates/ccos-enterprise-*\<close>).

  \<^bold>\<open>The program.\<close> A deployment admits or refuses calls of authenticated actors against tenants. A
  call passes, in order, the identity gate, the shape of its identifiers, the binding of credential
  and tenant, the namespace boundary, role-based authorization, the demand for a justification,
  model and Q-Page governance, replay suppression and the token ledger; its outcome is journaled.
  Administrators change the rules of the deployment, each change leaving a governance record.
  Tenants hold cells, read and written through the same gates. A deployment is captured as a
  snapshot and rebuilt from it and from its journals. A tenant is moved to another model by a
  transaction with invariant comparison and rollback. Human approvals are recorded, evaluated,
  revoked and kept in files. Behind the gates, a front door translates each admitted capability to a
  tool of the embedded core and runs it in the session of the call's tenant; retention policies expire
  what tenants hold, and agents' executions are journaled in a hash chain. The Knowledge Plane turns
  documents into observations that cite the bytes they come from, and keeps entities, facts, relations
  and their conflicts per tenant in an event-sourced state with its own journal, queried by valid and
  transaction time and as a graph.

  \<^bold>\<open>Theories and sources.\<close>
  \<^item> \<open>Prelude\<close>: machine words, results, UTF-8 byte strings, framed hashing, finite maps, the
    drop-oldest loop of the bounded buffers.
  \<^item> \<open>Auth\<close> and \<open>Token_Auth\<close> (auth/src/lib.rs: identities; issuing and verifying identity
    tokens), \<open>Revocation\<close> (auth/src/revocation.rs: the deny-list and the single-use guard),
    \<open>Peer_Auth\<close> (auth/src/mtls.rs and oidc.rs: the two other verifiers), \<open>Base64url\<close>
    (governance/src/lib.rs, the canonical codec the tokens use), \<open>Auth_Properties\<close> (what the
    verifiers guarantee, on a sample deployment).
  \<^item> \<open>Tenancy\<close> (tenancy/src/lib.rs), \<open>Policy\<close>
    (policy/src/lib.rs), \<open>Rbac\<close> (rbac/src/lib.rs), \<open>Gateway\<close> (gateway/src/lib.rs),
    \<open>Administration\<close> (admin/src/lib.rs), \<open>Observability\<close> (observability/src/lib.rs), \<open>Qpages\<close>
    (qpages/src/lib.rs and policy.rs): one theory per crate, one definition per function.
  \<^item> \<open>Approval\<close> and \<open>Approval_Store\<close> (approval/src/lib.rs): the registry and its gates; the files,
    with a fault argument that makes any system call fail and any write stop midway.
  \<^item> \<open>Replay\<close>, \<open>Journals\<close>, \<open>Deployment\<close>, \<open>Rules\<close>, \<open>Cells\<close>, \<open>Admission\<close>, \<open>Restore\<close>
    (runtime/src/lib.rs) and \<open>Model_Switch\<close> (runtime/src/model_switch.rs): the record
    \<open>deployment\<close> is the struct \<open>Deployment\<close>; a method on \<open>&mut self\<close> returns its result and the
    updated record; \<open>Result\<close> is a sum type.
  \<^item> \<open>Reachability\<close>: admission, cell operations, rule changes and approvals as one step relation and the
    invariant of every deployment they reach (restore and the model switch are not steps of it).
  \<^item> \<open>Framing\<close> (newline-framed JSON lines, shared by both stores), \<open>Disk\<close> (core/src/util.rs: the
    directory, its failing system calls, \<open>write_durable\<close>), \<open>Durable_Store\<close> (store/src/lib.rs: opening,
    appending, compaction, loading, the durable deny-list), \<open>Store_History\<close> (what the files of a store
    hold and that the readers recover it), \<open>Store_Properties\<close> and \<open>Denylist_Store\<close> (what the store
    guarantees), \<open>Persistence\<close> (\<open>persist_deployment\<close> of the server binary: runtime, store and
    directory composed).
  \<^item> \<open>Retention\<close> (retention/src/lib.rs: the policy and its approved change, one enforcement run, the
    ledger file), \<open>Sha256\<close> (the hash this crate writes out),
    \<open>Sha256_Standard\<close> (FIPS 180-4, stated without the program) and \<open>Sha256_Conformance\<close> (they agree),
    \<open>Retention_Properties\<close>.
  \<^item> \<open>Execution\<close> (execution/src/lib.rs: the hash-chained journal with its tail repair, the recovery of tool
    calls) and \<open>Execution_Properties\<close>.
  \<^item> \<open>Front_Door\<close> (mcp/src/lib.rs and server.rs: the table of tools, \<open>GovernedMcp\<close>), \<open>Sessions\<close>
    (sessions/src/lib.rs: the cache of core sessions) and \<open>Session_Properties\<close>.
  \<^item> \<open>Knowledge_Model\<close> (knowledge-model/src/lib.rs: intervals, records, canonical JSON), \<open>Knowledge\<close>
    (knowledge/src/lib.rs: the state, its operations, replay, queries), \<open>Knowledge_Invariant\<close> and
    \<open>Knowledge_Properties\<close>; \<open>Knowledge_Graph\<close> (kg/src/lib.rs: the bounded view), \<open>Graph_Search\<close> (breadth-first
    search against paths) and \<open>Graph_Properties\<close>; \<open>Knowledge_Store\<close> (knowledge-store/src/lib.rs: the journal
    file) and \<open>Knowledge_Durability\<close> (runs of openings, appends and drops with faults).
  \<^item> \<open>Normalize\<close> (normalize/src/lib.rs, and the artifacts of ingest/src/lib.rs), \<open>Parse\<close> (parse/src/lib.rs) and
    \<open>Extract\<close> (extract/src/lib.rs): from bytes to record candidates; \<open>Document_Properties\<close> (the units and their
    spans) and \<open>Csv_Tables\<close> (a written table read back).
  \<^item> \<open>Scenarios\<close>: concrete deployments and files on which the properties apply.

  \<^bold>\<open>Interfaces.\<close> The locales \<open>meter\<close> (a ledger), \<open>role_authority\<close> (a role book),
  \<open>bounded_journal\<close> (a buffer that drops its oldest rows) and \<open>scoped_store\<close> (a store split by
  tenant), \<open>authenticator\<close> (a verifier of credentials that reads the deny-list) and
  \<open>tenant_backend\<close> (what the front door dispatches to) state what their clients rely on; each is interpreted on the model's own operations, the journal contract twice
  (decisions and governance changes) and the verifier contract three times (identity tokens,
  transport peers, OIDC tokens).

  \<^bold>\<open>What is shown.\<close> When a call is forwarded, and what it costs (\<open>Admission\<close> and below); that no
  configuration widens the boundary and no credential reaches another organization's tenant;
  that ledgers, byte accounting, journals, replay memory and metrics keep their bounds in every
  reachable deployment; that restore inverts snapshot and that recovery after a crash bills every
  journaled call exactly once; that an effective rule change is journaled; that a reverted model
  switch leaves no trace in the tenant; that interrupted file writes lose nothing durable and a
  durable revocation is in force in every registry loaded later; that nobody is authenticated
  without a signature of a trusted key over exactly the claims read, and that one withdrawal
  reaches every verifier; that an append to the durable store is the whole batch or a prefix of it
  under every fault, that compaction keeps the history, that the deny-list survives a restart, and
  that a deployment persisted without error is the one the next process restores; that calls of other
  organizations make the core work on other tenants' workspaces only, but for one reported checkpoint, and that every
  call is answered, whatever the core does; that an enforcement run
  stays within its batch and its ledger holds each record once; that the retention policy changes
  only under an approval of its exact content, hashed by SHA-256; that the execution journal
  survives every crash of an append, that its head commits to the whole history, and that recovery never mistakes a started call
  for one that was not; that every fact can be traced to registered sources of its tenant, that
  contradictions are recorded, that a query about the past is a query of the replayed past, that graph
  queries return exactly what the paths of the graph give, and that acknowledged knowledge survives
  every fault; that a parsed unit is exactly the bytes its evidence cites and that a CSV table comes
  back as its rows. Where the code does not do what its documentation says, a theorem states what it
  does.

  \<^bold>\<open>Parameters and bounds.\<close> SHA-256 (except in \<open>Sha256\<close>), the operations of a core session, ed25519, the JSON codec, the Unicode lower-casing of \<open>str\<close>, the clock
  and the provider transition are arguments; what a theorem needs of them is a hypothesis. \<open>u64\<close>
  counters are 64-bit words with the source's saturating, checked or wrapping operations;
  \<open>usize\<close> lengths are natural numbers, being lengths of objects in memory. Most loops are structural
  recursions over the data they consume; the others are functions with a termination proof (the searches of
  a graph end because each pass shortens the queue or visits a new node), but for the eviction loop of the
  session cache and the reconstruction of a path, partial functions that are shown to return. No fuel is used. The
  \<open>while\<close> loop of the bounded buffers would not end at capacity zero; the source guards it in
  \<open>journal_decision\<close> and \<open>record_governance\<close>, and restore always runs at the default capacity.

  A fault argument names the system calls that fail in a run, so a property that holds for all of
  them covers every crash point.

  The JSON library of the document crates (parser, text of a number, escaping of a string) is one
  argument, a record of three functions; \<open>std::str::from_utf8\<close> is written out.

  \<^bold>\<open>Not modelled.\<close> The transport and the process control of the MCP server, the cryptographic crates,
  the walk of the ingestion over a directory tree, extraction through a language model, the later stages
  of the Knowledge Plane (resolution, ontology, promotion), the scoring of decisions and retrieval in
  floating point, and the embedded core engine; the manifest lists every part.
\<close>

section \<open>The admission decision\<close>

text \<open>
  C1: A call is forwarded exactly when every gate admits it: the proof of identity reaches the
  required strength, the identifiers are well formed, the request names the actor the credential
  proves and a tenant its organization owns, the tool lies inside the boundary, is governed and
  granted to that principal, carries a legible reason if it is administrative, the model is the
  tenant's active and allowed model, the Q-Page variant is active and permitted (with its live
  approval where one is required), the request id is not remembered, and the ledger has room.
\<close>

theorem admit_forwarded_iff:
  "fst (admit sha now c d) = Forwarded \<longleftrightarrow>
     (\<exists>tenant state. admissible sha now c d tenant state \<and>
        replay_key_of c tenant |\<notin>| rp_decided (d_replay d) \<and>
        min (unat (tb_spent (ts_budget state)) + unat (c_cost_tokens c)) (2 ^ 64 - 1)
          \<le> unat (tb_limit (ts_budget state)))"
proof
  assume "fst (admit sha now c d) = Forwarded"
  then show "\<exists>tenant state. admissible sha now c d tenant state \<and>
        replay_key_of c tenant |\<notin>| rp_decided (d_replay d) \<and>
        min (unat (tb_spent (ts_budget state)) + unat (c_cost_tokens c)) (2 ^ 64 - 1)
          \<le> unat (tb_limit (ts_budget state))"
    by (cases rule: admit_shape [of sha now c d]) (auto simp: charge_Allow_iff)
next
  assume "\<exists>tenant state. admissible sha now c d tenant state \<and>
        replay_key_of c tenant |\<notin>| rp_decided (d_replay d) \<and>
        min (unat (tb_spent (ts_budget state)) + unat (c_cost_tokens c)) (2 ^ 64 - 1)
          \<le> unat (tb_limit (ts_budget state))"
  then show "fst (admit sha now c d) = Forwarded"
    using admit_forwardedI [of sha now c d] by (auto simp: charge_Allow_iff)
qed

text \<open>
  C28: No refusal and no replay is ever billed: unless the call is forwarded, every tenant's state
  (ledger, allowlist, activations), the cell store and the replay memory are exactly what they
  were, and the journaled cost is zero.
\<close>

theorem unforwarded_costs_nothing:
  assumes "fst (admit sha now c d) \<noteq> Forwarded"
  shows "d_tenants (snd (admit sha now c d)) = d_tenants d
    \<and> d_store (snd (admit sha now c d)) = d_store d
    \<and> d_replay (snd (admit sha now c d)) = d_replay d
    \<and> (0 < d_audit_capacity d \<longrightarrow> ar_cost (last (d_audit (snd (admit sha now c d)))) = 0)"
  using assms
  by (cases rule: admit_shape [of sha now c d]) (auto simp: journal_decision_row)

theorem unforwarded_costs_nothing_witness:
  "d_tenants (snd (admit zero_digest 0 (alice_call ''memory.shell.exec'' ''r1'' 9) two_tenant_deployment)) =
     d_tenants two_tenant_deployment"
proof -
  have "fst (admit zero_digest 0 (alice_call ''memory.shell.exec'' ''r1'' 9) two_tenant_deployment) \<noteq> Forwarded"
    by (cases rule: admit_shape [of zero_digest 0 "alice_call ''memory.shell.exec'' ''r1'' 9" two_tenant_deployment])
      (auto simp: admissible_def tool_authorized_def two_tenant_deployment_eq alice_call_def request_def)
  from unforwarded_costs_nothing [OF this] show ?thesis by blast
qed

text \<open>
  C29: A forwarded call bills its own tenant its cost: the new count is the old one plus the cost, held at
  the largest representable count \<open>2 ^ 64 - 1\<close>; under every limit but the unlimited one that is the exact
  sum. The count stays within the limit, the limit and the rest of the tenant's state do not change, and no
  other tenant's state does.
\<close>

theorem forwarded_bills_exactly:
  assumes "fst (admit sha now c d) = Forwarded"
    and "tenant_new (gr_tenant (c_request c)) = Some tenant"
    and "fmlookup (d_tenants d) tenant = Some state"
  shows "(\<exists>state'. fmlookup (d_tenants (snd (admit sha now c d))) tenant = Some state'
      \<and> unat (tb_spent (ts_budget state')) =
          min (unat (tb_spent (ts_budget state)) + unat (c_cost_tokens c)) (2 ^ 64 - 1)
      \<and> (tb_limit (ts_budget state) \<noteq> - 1 \<longrightarrow>
          unat (tb_spent (ts_budget state')) = unat (tb_spent (ts_budget state)) + unat (c_cost_tokens c))
      \<and> tb_spent (ts_budget state') \<le> tb_limit (ts_budget state)
      \<and> tb_limit (ts_budget state') = tb_limit (ts_budget state)
      \<and> tenant_view state' = tenant_view state)
    \<and> (\<forall>other. other \<noteq> tenant \<longrightarrow>
      fmlookup (d_tenants (snd (admit sha now c d))) other = fmlookup (d_tenants d) other)"
  using assms
  by (cases rule: admit_shape [of sha now c d])
    (auto simp: admissible_def credential_bound_def charge_exact charge_saturates tenant_view_def)

theorem forwarded_bills_exactly_witness:
  "\<exists>state'. fmlookup (d_tenants (snd (admit zero_digest 0 (alice_call ''memory.recall'' ''r1'' 70)
       two_tenant_deployment))) acme = Some state' \<and> unat (tb_spent (ts_budget state')) = 70"
proof -
  let ?c = "alice_call ''memory.recall'' ''r1'' 70"
  have "fst (admit zero_digest 0 ?c two_tenant_deployment) = Forwarded"
    by (rule alice_forwarded) simp_all
  moreover have "tenant_new (gr_tenant (c_request ?c)) = Some acme" by (simp add: alice_call_def request_def)
  moreover have "fmlookup (d_tenants two_tenant_deployment) acme = Some acme_state"
    by (simp add: two_tenant_deployment_eq)
  ultimately have "\<exists>state'. fmlookup (d_tenants (snd (admit zero_digest 0 ?c two_tenant_deployment))) acme
      = Some state' \<and> unat (tb_spent (ts_budget state')) = unat (tb_spent (ts_budget acme_state)) + unat (c_cost_tokens ?c)"
    using forwarded_bills_exactly [of zero_digest 0 ?c two_tenant_deployment acme acme_state]
    by (auto simp: budget_new_def)
  then show ?thesis by (simp add: budget_new_def alice_call_def)
qed

text \<open>
  C30: The namespace boundary cannot be widened. Whatever a deployment's roles, governed tools, allowlists,
  budgets or remembered requests are, a call is refused, bills nothing and is not remembered when its tool
  name, at its start or after any dot and in any mixture of upper and lower case, continues with one of the
  seven forbidden namespaces or is, from there to its end, one of the two forbidden tools.
\<close>

theorem boundary_never_widened:
  assumes tool: "gr_tool (c_request c) = pre @ capability" and boundary: "pre = [] \<or> last pre = CHR ''.''"
    and folded: "map (\<lambda>b. if of_char b \<in> {65..90 :: nat} then char_of (of_char b + 32 :: nat) else b) capability
      = forbidden @ rest"
    and forbidden:
      "forbidden \<in> {''rsi.'', ''forge.'', ''slha.'', ''octa.'', ''patch.'', ''shell.'', ''self.''}
       \<or> forbidden \<in> {''code.execute'', ''repository.modify''} \<and> rest = []"
  shows "(\<exists>r. fst (admit sha now c d) = Refused r)
    \<and> d_tenants (snd (admit sha now c d)) = d_tenants d
    \<and> d_store (snd (admit sha now c d)) = d_store d
    \<and> d_replay (snd (admit sha now c d)) = d_replay d"
proof -
  have "to_ascii_lowercase capability = forbidden @ rest"
    using folded by (simp add: to_ascii_lowercase_def to_ascii_lower_def [abs_def] is_ascii_uppercase_def)
  then have "is_forbidden_suffix (to_ascii_lowercase capability)"
    using forbidden by (auto simp: is_forbidden_suffix_def gateway_lists starts_with_def)
  moreover have "pre = [] \<or> (\<exists>q. pre = q @ ''.'')" using boundary by (metis append_butlast_last_id)
  ultimately have "classify (c_request c) \<noteq> Forward"
    using forbidden_capability_rejected [OF tool] by blast
  then have "\<not> admissible sha now c d tenant state" for tenant state
    by (simp add: admissible_def tool_authorized_def)
  then show ?thesis by (cases rule: admit_shape [of sha now c d]) auto
qed

theorem boundary_never_widened_witness:
  "\<exists>r. fst (admit id 0 (alice_call ''memory.Shell.exec'' ''r1'' 0) two_tenant_deployment) = Refused r"
  using boundary_never_widened [of "alice_call ''memory.Shell.exec'' ''r1'' 0" "''memory.''" "''Shell.exec''"
      "''shell.''" "''exec''" id 0 two_tenant_deployment]
  by (simp add: alice_call_def request_def char_of_eq_iff)



text \<open>
  C27: A call can act only on its own organization's tenants: under any credential whose
  organization does not own a tenant, admission and the three governed cell operations leave that
  tenant's state and every cell of it exactly as they were.
\<close>

theorem foreign_tenant_untouched:
  assumes "store_ok d" and "fmlookup (d_tenant_owner d) other \<noteq> Some (aa_org (c_actor c))"
  shows "fmlookup (d_tenants (snd (admit sha now c d))) other = fmlookup (d_tenants d) other
    \<and> fmlookup (d_tenants (snd (put_cell sha now c key v d))) other = fmlookup (d_tenants d) other
    \<and> fmlookup (d_tenants (snd (remove_cell sha now c key d))) other = fmlookup (d_tenants d) other
    \<and> fmlookup (d_tenants (snd (get_cell sha now c key d))) other = fmlookup (d_tenants d) other
    \<and> cell_at (snd (put_cell sha now c key v d)) other k = cell_at d other k
    \<and> cell_at (snd (remove_cell sha now c key d)) other k = cell_at d other k
    \<and> cell_at (snd (get_cell sha now c key d)) other k = cell_at d other k"
  using admit_foreign [OF assms(2)]
    cell_call_foreign [OF assms, where effect = "\<lambda>t. write_cell t key v" and k = k]
    cell_call_foreign [OF assms, where k = k and
      effect = "\<lambda>t d. (Inr () :: refusal + unit, snd (delete_cell t key d))"]
    cell_call_foreign [OF assms, where k = k and effect = "\<lambda>t d.
      if \<not> fmcontains (d_tenants d) t then (Inl UnknownTenant, d)
      else (Inr (case fmlookup (d_store d) t of None \<Rightarrow> None | Some cells \<Rightarrow> fmlookup cells key), d)"]
  by (simp add: put_cell_def get_cell_def remove_cell_def case_prod_beta cells.write_other
      cell_at_delete)

theorem foreign_tenant_untouched_witness:
  "cell_at (snd (put_cell zero_digest 0 (alice_call ''memory.ingest'' ''r1'' 1
      \<lparr>c_actor := asserted ''rival'' ''alice'' Token\<rparr>) ''k'' ''v'' two_tenant_deployment)) acme ''k''
   = cell_at two_tenant_deployment acme ''k''"
proof -
  let ?c = "alice_call ''memory.ingest'' ''r1'' 1\<lparr>c_actor := asserted ''rival'' ''alice'' Token\<rparr>"
  have "store_ok two_tenant_deployment"
    using two_tenant_restorable [of zero_digest] by (simp add: restorable_def)
  moreover have "fmlookup (d_tenant_owner two_tenant_deployment) acme \<noteq> Some (aa_org (c_actor ?c))"
    by (simp add: two_tenant_deployment_eq asserted_def)
  ultimately show ?thesis using foreign_tenant_untouched [of two_tenant_deployment acme ?c] by blast
qed

end
